(* ===== verification/Prelude.thy ===== *)
theory Prelude
  imports Main "HOL-Library.Sublist"
begin

text \<open>
  Shared vocabulary of the development: results of code that may raise (\<open>'e + 'a\<close>, \<open>Inl\<close> the
  raised error), tables as lists of rows with lookup and update by key, transactions that commit
  or roll back, and the generic contracts (locales) that the components instantiate.
\<close>

section \<open>Results\<close>

named_theorems res_simps \<open>rewriting of results of code that may raise\<close>

definition bindR :: "'e + 'a \<Rightarrow> ('a \<Rightarrow> 'e + 'b) \<Rightarrow> 'e + 'b" where
  "bindR r f = (case r of Inl e \<Rightarrow> Inl e | Inr a \<Rightarrow> f a)"

definition guardR :: "bool \<Rightarrow> 'e \<Rightarrow> 'e + unit" where
  "guardR c e = (if c then Inr () else Inl e)"

definition someR :: "'a option \<Rightarrow> 'e \<Rightarrow> 'e + 'a" where
  "someR x e = (case x of None \<Rightarrow> Inl e | Some a \<Rightarrow> Inr a)"

lemma bindR_simps [simp, res_simps]:
  "bindR (Inl e) f = Inl e"
  "bindR (Inr a) f = f a"
  by (simp_all add: bindR_def)

lemma bindR_Inr_iff [res_simps]: "bindR r f = Inr b \<longleftrightarrow> (\<exists>a. r = Inr a \<and> f a = Inr b)"
  by (cases r) (auto simp: bindR_def)

lemma bindR_Inl_iff [res_simps]:
  "bindR r f = Inl e \<longleftrightarrow> r = Inl e \<or> (\<exists>a. r = Inr a \<and> f a = Inl e)"
  by (cases r) (auto simp: bindR_def)

lemma bindR_cong [fundef_cong]:
  "r = r' \<Longrightarrow> (\<And>a. r' = Inr a \<Longrightarrow> f a = g a) \<Longrightarrow> bindR r f = bindR r' g"
  by (cases r') (auto simp: bindR_def)

lemma guardR_Inr_iff [simp, res_simps]: "guardR c e = Inr u \<longleftrightarrow> c"
  by (simp add: guardR_def)

lemma guardR_Inl_iff [simp, res_simps]: "guardR c e = Inl e' \<longleftrightarrow> \<not> c \<and> e' = e"
  by (auto simp: guardR_def)

lemma guardR_eval [simp, res_simps]: "guardR True e = Inr ()" "guardR False e = Inl e"
  by (simp_all add: guardR_def)

lemma someR_Inr_iff [simp, res_simps]: "someR x e = Inr a \<longleftrightarrow> x = Some a"
  by (cases x) (auto simp: someR_def)

lemma someR_Inl_iff [simp, res_simps]: "someR x e = Inl e' \<longleftrightarrow> x = None \<and> e' = e"
  by (cases x) (auto simp: someR_def)

lemma someR_eval [simp, res_simps]: "someR (Some a) e = Inr a" "someR None e = Inl e"
  by (simp_all add: someR_def)

text \<open>A Python \<open>for\<close> loop whose body may raise: the state is threaded, the first error stops it.\<close>

fun foldR :: "('s \<Rightarrow> 'a \<Rightarrow> 'e + 's) \<Rightarrow> 's \<Rightarrow> 'a list \<Rightarrow> 'e + 's" where
  "foldR f s [] = Inr s"
| "foldR f s (x # xs) = bindR (f s x) (\<lambda>s'. foldR f s' xs)"

lemma foldR_append: "foldR f s (xs @ ys) = bindR (foldR f s xs) (\<lambda>s'. foldR f s' ys)"
  by (induction xs arbitrary: s) (auto simp: bindR_def split: sum.splits)

lemma foldR_invariant:
  assumes "foldR f s xs = Inr s'" and "P s"
    and "\<And>s x s'. x \<in> set xs \<Longrightarrow> P s \<Longrightarrow> f s x = Inr s' \<Longrightarrow> P s'"
  shows "P s'"
  using assms
proof (induction xs arbitrary: s)
  case Nil
  then show ?case by simp
next
  case (Cons x xs)
  from Cons.prems(1) obtain t where "f s x = Inr t" and "foldR f t xs = Inr s'"
    by (auto simp: bindR_Inr_iff)
  with Cons.prems(2,3) show ?case
    by (intro Cons.IH[of t]) (auto simp: list.set_intros)
qed

section \<open>Tables\<close>

text \<open>
  A table is the list of its rows. \<open>row_by key k rows\<close> is the row with a given key (what
  \<open>db.get\<close> and \<open>db.scalar(select ... where key == k)\<close> return), \<open>upd_by key k f rows\<close> assigns
  to the attributes of the row that has the key.
\<close>

definition row_by :: "('r \<Rightarrow> 'k) \<Rightarrow> 'k \<Rightarrow> 'r list \<Rightarrow> 'r option" where
  "row_by key k rows = find (\<lambda>r. key r = k) rows"

definition upd_by :: "('r \<Rightarrow> 'k) \<Rightarrow> 'k \<Rightarrow> ('r \<Rightarrow> 'r) \<Rightarrow> 'r list \<Rightarrow> 'r list" where
  "upd_by key k f rows = map (\<lambda>r. if key r = k then f r else r) rows"

named_theorems table_simps \<open>lookup and update of table rows\<close>

lemma row_by_Nil [simp, table_simps]: "row_by key k [] = None"
  by (simp add: row_by_def)

lemma row_by_Cons [simp, table_simps]:
  "row_by key k (r # rs) = (if key r = k then Some r else row_by key k rs)"
  by (simp add: row_by_def)

lemma row_by_SomeD: "row_by key k rows = Some r \<Longrightarrow> r \<in> set rows \<and> key r = k"
  by (induction rows) (auto split: if_splits)

lemma row_by_None_iff: "row_by key k rows = None \<longleftrightarrow> k \<notin> key ` set rows"
  by (induction rows) auto

lemma row_by_unique:
  "distinct (map key rows) \<Longrightarrow> r \<in> set rows \<Longrightarrow> key r = k \<Longrightarrow> row_by key k rows = Some r"
  by (induction rows) (auto simp: rev_image_eqI)

lemma row_by_append [table_simps]:
  "row_by key k (rows @ rows') =
     (case row_by key k rows of Some r \<Rightarrow> Some r | None \<Rightarrow> row_by key k rows')"
  by (induction rows) auto

lemma upd_by_Nil [simp, table_simps]: "upd_by key k f [] = []"
  by (simp add: upd_by_def)

lemma upd_by_Cons [simp, table_simps]:
  "upd_by key k f (r # rs) = (if key r = k then f r else r) # upd_by key k f rs"
  by (simp add: upd_by_def)

lemma upd_by_append [table_simps]: "upd_by key k f (rows @ rows') = upd_by key k f rows @ upd_by key k f rows'"
  by (simp add: upd_by_def)

lemma length_upd_by [simp]: "length (upd_by key k f rows) = length rows"
  by (simp add: upd_by_def)

lemma upd_by_absent: "k \<notin> key ` set rows \<Longrightarrow> upd_by key k f rows = rows"
  by (induction rows) auto

lemma set_upd_byD: "r \<in> set (upd_by key k f rows) \<Longrightarrow>
    (r \<in> set rows \<and> key r \<noteq> k) \<or> (\<exists>r0 \<in> set rows. key r0 = k \<and> r = f r0)"
  by (auto simp: upd_by_def split: if_splits)

section \<open>Contracts\<close>

text \<open>
  The contract of an attribute assignment: it does not touch the row's key. Under it, lookups
  after an update are determined and the primary keys of the table do not change.
\<close>

locale row_update =
  fixes key :: "'r \<Rightarrow> 'k" and f :: "'r \<Rightarrow> 'r"
  assumes key_kept: "key (f r) = key r"
begin

lemma keys_upd: "map key (upd_by key k f rows) = map key rows"
  by (induction rows) (auto simp: key_kept)

lemma lookup_upd:
  "row_by key k' (upd_by key k f rows) =
     (if k' = k then map_option f (row_by key k rows) else row_by key k' rows)"
  by (induction rows) (auto simp: key_kept)

lemma upd_other_column:
  "(\<And>r. g (f r) = g r) \<Longrightarrow> map g (upd_by key k f rows) = map g rows"
  by (induction rows) auto

end

text \<open>
  A service whose requests keep an invariant of its database: the invariant then holds after
  every sequence of requests, which is how interleaved clients reach it, each request being one
  serialised transaction.
\<close>

locale service =
  fixes step :: "'op \<Rightarrow> 'db \<Rightarrow> 'db" and inv :: "'db \<Rightarrow> bool"
  assumes inv_step: "inv db \<Longrightarrow> inv (step op db)"
begin

lemma inv_run: "inv db \<Longrightarrow> inv (fold step ops db)"
  by (induction ops arbitrary: db) (auto intro: inv_step)

end

text \<open>
  A service with an evolution order on its databases (history is only appended, final states
  stay final): every run moves forward in the order.
\<close>

locale evolving_service = service +
  fixes le :: "'db \<Rightarrow> 'db \<Rightarrow> bool"
  assumes le_refl: "inv db \<Longrightarrow> le db db"
    and le_trans: "le a b \<Longrightarrow> le b c \<Longrightarrow> le a c"
    and le_step: "inv db \<Longrightarrow> le db (step op db)"
begin

lemma le_run: "inv db \<Longrightarrow> le db (fold step ops db)"
proof (induction ops arbitrary: db)
  case Nil
  then show ?case by (simp add: le_refl)
next
  case (Cons op ops)
  then have "le (step op db) (fold step ops (step op db))"
    by (auto intro: inv_step)
  with Cons.prems show ?case
    by (auto intro: le_trans le_step)
qed

end

text \<open>
  An idempotent request: a success is recorded under the request's key with the digest of its
  content, a recorded request is answered from the record without a write, and a key recorded
  with another digest is refused without a write.
\<close>

locale idempotent_request =
  fixes exec :: "'db \<Rightarrow> ('e + 'a) \<times> 'db"
    and recorded :: "'db \<Rightarrow> ('h \<times> 'a) option"
    and digest :: 'h
  assumes recorded_after: "exec db = (Inr a, db') \<Longrightarrow> recorded db' = Some (digest, a)"
    and replay: "recorded db = Some (digest, a) \<Longrightarrow> exec db = (Inr a, db)"
    and conflict: "recorded db = Some (h, a) \<Longrightarrow> h \<noteq> digest \<Longrightarrow> \<exists>e. exec db = (Inl e, db)"
begin

lemma retry: "exec db = (Inr a, db') \<Longrightarrow> exec db' = (Inr a, db')"
  by (rule replay) (rule recorded_after)

lemma retries:
  "exec db = (Inr a, db') \<Longrightarrow> ((\<lambda>d. snd (exec d)) ^^ Suc n) db = db'"
proof (induction n)
  case 0
  then show ?case by simp
next
  case (Suc n)
  then show ?case using retry[OF Suc.prems] by simp
qed

lemma reused_key_refused:
  "recorded db = Some (h, a) \<Longrightarrow> h \<noteq> digest \<Longrightarrow> snd (exec db) = db"
  using conflict by fastforce

end

section \<open>Lists\<close>

lemma sum_list_upd_by:
  fixes g :: "'r \<Rightarrow> int"
  assumes "distinct (map key rows)" and "row_by key k rows = Some r"
  shows "(\<Sum>x\<leftarrow>upd_by key k f rows. g x) = (\<Sum>x\<leftarrow>rows. g x) - g r + g (f r)"
  using assms
proof (induction rows)
  case Nil
  then show ?case by simp
next
  case (Cons x rows)
  show ?case
  proof (cases "key x = k")
    case True
    with Cons.prems(1) have "upd_by key k f rows = rows"
      by (intro upd_by_absent) auto
    with True Cons.prems show ?thesis by simp
  next
    case False
    with Cons show ?thesis by simp
  qed
qed

end
