(* ===== verification/Py_Text.thy ===== *)
theory Py_Text
  imports Prelude
begin

text \<open>
  What the programs use of Python's \<open>str\<close>, on ASCII text: \<open>strip\<close>, \<open>split\<close> on a character, digits,
  \<open>int\<close> of a digit string and \<open>str\<close> of a natural number.
\<close>

section \<open>White space\<close>

text \<open>The white space \<open>str.strip()\<close> removes, on the ASCII characters.\<close>

definition is_space :: "char \<Rightarrow> bool" where
  "is_space c \<longleftrightarrow> c \<in> {CHR '' '', CHR 0x09, CHR 0x0A, CHR 0x0B, CHR 0x0C, CHR 0x0D,
                      CHR 0x1C, CHR 0x1D, CHR 0x1E, CHR 0x1F}"

definition strip :: "string \<Rightarrow> string" where
  "strip s = rev (dropWhile is_space (rev (dropWhile is_space s)))"

text \<open>Python's \<open>x or default\<close> on an optional string: an empty string is falsy too.\<close>

definition or_default :: "string option \<Rightarrow> string \<Rightarrow> string" where
  "or_default x d = (case x of None \<Rightarrow> d | Some s \<Rightarrow> if s = [] then d else s)"

section \<open>Digits\<close>

definition is_digit :: "char \<Rightarrow> bool" where
  "is_digit c \<longleftrightarrow> c \<in> set ''0123456789''"

definition digit_val :: "char \<Rightarrow> int" where
  "digit_val c = of_char c - 48"

definition int_of_digits :: "string \<Rightarrow> int" where
  "int_of_digits s = foldl (\<lambda>n c. 10 * n + digit_val c) 0 s"

definition to_lower :: "char \<Rightarrow> char" where
  "to_lower c = (let n = of_char c :: nat in if 65 \<le> n \<and> n \<le> 90 then char_of (n + 32) else c)"

lemma digit_val_nonneg: "is_digit c \<Longrightarrow> 0 \<le> digit_val c"
proof -
  have "list_all (\<lambda>c. 0 \<le> digit_val c) ''0123456789''" by code_simp
  then show "is_digit c \<Longrightarrow> 0 \<le> digit_val c" by (simp only: is_digit_def list_all_iff)
qed

lemma foldl_digits_nonneg: "list_all is_digit ds \<Longrightarrow> 0 \<le> n \<Longrightarrow> 0 \<le> foldl (\<lambda>n c. 10 * n + digit_val c) n ds"
proof (induction ds arbitrary: n)
  case Nil
  then show ?case by simp
next
  case (Cons c ds)
  then have "0 \<le> 10 * n + digit_val c" using digit_val_nonneg[of c] by simp
  with Cons show ?case by simp
qed

lemma int_of_digits_nonneg: "list_all is_digit ds \<Longrightarrow> 0 \<le> int_of_digits ds"
  by (simp add: int_of_digits_def foldl_digits_nonneg)

text \<open>\<open>str(n)\<close> of an integer that is not negative.\<close>

definition digit_char :: "int \<Rightarrow> char" where
  "digit_char d = char_of (nat (48 + d))"

function dec_text :: "int \<Rightarrow> string" where
  "dec_text n = (if n < 10 then [digit_char n] else dec_text (n div 10) @ [digit_char (n mod 10)])"
  by auto
termination by (relation "measure nat") auto

declare dec_text.simps [simp del]

section \<open>Splitting and joining\<close>

fun split_on :: "char \<Rightarrow> string \<Rightarrow> string list" where
  "split_on c [] = [[]]"
| "split_on c (x # xs) = (if x = c then [] # split_on c xs
     else (case split_on c xs of [] \<Rightarrow> [[x]] | y # ys \<Rightarrow> (x # y) # ys))"

fun join_with :: "string \<Rightarrow> string list \<Rightarrow> string" where
  "join_with sep [] = []"
| "join_with sep [x] = x"
| "join_with sep (x # y # ys) = x @ sep @ join_with sep (y # ys)"

lemma split_on_absent: "c \<notin> set s \<Longrightarrow> split_on c s = [s]"
  by (induction s) auto

lemma split_on_append: "c \<notin> set s \<Longrightarrow> split_on c (s @ c # t) = s # split_on c t"
  by (induction s) auto

lemma split_on_join: "xs \<noteq> [] \<Longrightarrow> \<forall>x \<in> set xs. c \<notin> set x \<Longrightarrow> split_on c (join_with [c] xs) = xs"
  by (induction "[c]" xs rule: join_with.induct) (auto simp: split_on_absent split_on_append)

section \<open>Decimal text\<close>

lemma digit_char_digit: "0 \<le> d \<Longrightarrow> d \<le> 9 \<Longrightarrow> is_digit (digit_char d) \<and> digit_val (digit_char d) = d"
proof -
  have "list_all (\<lambda>d. is_digit (digit_char d) \<and> digit_val (digit_char d) = d) [0..9]" by code_simp
  then show "0 \<le> d \<Longrightarrow> d \<le> 9 \<Longrightarrow> is_digit (digit_char d) \<and> digit_val (digit_char d) = d"
    by (simp only: list_all_iff set_upto) simp
qed

lemma int_of_digits_snoc: "int_of_digits (s @ [c]) = 10 * int_of_digits s + digit_val c"
  by (simp add: int_of_digits_def)

lemma mod_10_digit: "0 \<le> (n :: int) mod 10" "n mod 10 \<le> 9"
  using pos_mod_bound[of 10 n] pos_mod_sign[of 10 n] by simp_all

lemma dec_text_digits:
  assumes "0 \<le> n"
  shows "list_all is_digit (dec_text n) \<and> int_of_digits (dec_text n) = n \<and> dec_text n \<noteq> [] \<and>
    (1 \<le> n \<longrightarrow> 1 \<le> digit_val (hd (dec_text n)))"
  using assms
proof (induction n rule: dec_text.induct)
  case (1 n)
  show ?case
  proof (cases "n < 10")
    case True
    with 1 digit_char_digit[of n] show ?thesis
      by (simp add: dec_text.simps[of n] int_of_digits_def)
  next
    case False
    with 1 have IH: "list_all is_digit (dec_text (n div 10)) \<and> int_of_digits (dec_text (n div 10)) = n div 10 \<and>
        dec_text (n div 10) \<noteq> [] \<and> (1 \<le> n div 10 \<longrightarrow> 1 \<le> digit_val (hd (dec_text (n div 10))))"
      by simp
    from False have "1 \<le> n div 10" by simp
    with False IH digit_char_digit[OF mod_10_digit] show ?thesis
      by (simp add: dec_text.simps[of n] int_of_digits_snoc hd_append)
  qed
qed

lemma dec_text_length: "0 \<le> n \<Longrightarrow> n < 1000 \<Longrightarrow> length (dec_text n) \<le> 3"
  by (simp add: dec_text.simps[of n] dec_text.simps[of "n div 10"] dec_text.simps[of "n div 10 div 10"])

lemma not_digit: "list_all is_digit s \<Longrightarrow> \<not> is_digit c \<Longrightarrow> c \<notin> set s"
  by (auto simp: list_all_iff)

end
