(* ===== verification/Ledger_Model.thy ===== *)
theory Ledger_Model
  imports Py_Text
begin

text \<open>
  The data of the municipal ledger (\<open>text10/a/app\<close>): the tables of \<open>models.py\<close> with their
  constraints, the request bodies of \<open>schemas.py\<close>, the role check of \<open>security.py\<close> and the
  error values of \<open>errors.py\<close>. A database is one record of tables; a flush is the moment at
  which PostgreSQL checks the constraints of \<open>models.py\<close>. Primary keys, times and payload
  digests come from outside (the database, the clock, SHA-256) and are arguments.
\<close>

section \<open>Errors\<close>

text \<open>
  Detail strings meant for people are not modelled, except where the code builds a list of
  problems. \<open>PyError\<close> is an exception the service does not catch: FastAPI answers 500.
\<close>

datatype problem =
    NoFund int | NoDepartment int | NoAccount int
  | MissingVoucher nat | UnknownFund nat | UnknownDepartment nat | UnknownAccount nat
  | NotANumber nat string | OutOfRange nat string | NotOneSide nat | Unbalanced string

datatype ledger_error =
    DomainError int string "problem list"
  | HTTPException int
  | RequestInvalid
  | IntegrityError
  | PyError string

section \<open>Tables\<close>

record fund =
  fund_id :: int
  fund_code :: string
  fund_name :: string

record department =
  dept_id :: int
  dept_code :: string
  dept_name :: string

datatype account_type = Asset | Liability | Equity | Revenue | Expense

record account =
  acct_id :: int
  acct_code :: string
  acct_name :: string
  acct_type :: account_type

datatype period_status = Open | Closed

record fiscal_period =
  fp_id :: int
  fp_year :: int
  fp_period :: int
  fp_status :: period_status
  fp_closed_by :: "string option"
  fp_closed_at :: "int option"

datatype audit_action = Close | Reopen

record period_audit_log =
  pa_id :: int
  pa_period_id :: int
  pa_action :: audit_action
  pa_actor :: string
  pa_reason :: "string option"
  pa_created_at :: int

datatype entry_source = Manual | Csv | Reversal

record journal_entry =
  je_id :: int
  je_idempotency_key :: string
  je_payload_hash :: string
  je_period_id :: int
  je_memo :: string
  je_source :: entry_source
  je_reversal_of_id :: "int option"
  je_created_by :: string
  je_created_at :: int

record journal_line =
  jl_id :: int
  jl_entry_id :: int
  jl_fund_id :: int
  jl_department_id :: int
  jl_account_id :: int
  jl_debit_cents :: int
  jl_credit_cents :: int

record budget =
  bud_id :: int
  bud_year :: int
  bud_fund_id :: int
  bud_department_id :: int
  bud_account_id :: int
  amount_cents :: int
  encumbered_cents :: int
  actual_cents :: int

datatype encumbrance_status = EncOpen | EncLiquidated | EncCancelled

record encumbrance =
  enc_id :: int
  enc_budget_id :: int
  enc_amount_cents :: int
  enc_status :: encumbrance_status
  enc_description :: string
  enc_journal_entry_id :: "int option"
  enc_created_by :: string
  enc_created_at :: int
  enc_closed_at :: "int option"

record ledger =
  funds :: "fund list"
  departments :: "department list"
  accounts :: "account list"
  periods :: "fiscal_period list"
  audits :: "period_audit_log list"
  entries :: "journal_entry list"
  jlines :: "journal_line list"
  budgets :: "budget list"
  encumbrances :: "encumbrance list"

text \<open>\<open>JournalEntry.lines\<close>, the relationship to the rows of \<open>journal_lines\<close>.\<close>

definition entry_lines :: "ledger \<Rightarrow> int \<Rightarrow> journal_line list" where
  "entry_lines db eid = filter (\<lambda>l. jl_entry_id l = eid) (jlines db)"

section \<open>Constraints\<close>

definition budget_dims :: "budget \<Rightarrow> int \<times> int \<times> int \<times> int" where
  "budget_dims b = (bud_year b, bud_fund_id b, bud_department_id b, bud_account_id b)"

definition reference_ok :: "ledger \<Rightarrow> bool" where
  "reference_ok db \<longleftrightarrow>
     distinct (map fund_id (funds db)) \<and> distinct (map fund_code (funds db)) \<and>
     distinct (map dept_id (departments db)) \<and> distinct (map dept_code (departments db)) \<and>
     distinct (map acct_id (accounts db)) \<and> distinct (map acct_code (accounts db))"

definition period_row_ok :: "fiscal_period \<Rightarrow> bool" where
  "period_row_ok p \<longleftrightarrow> 1 \<le> fp_period p \<and> fp_period p \<le> 12"

definition periods_ok :: "ledger \<Rightarrow> bool" where
  "periods_ok db \<longleftrightarrow>
     distinct (map fp_id (periods db)) \<and>
     distinct (map (\<lambda>p. (fp_year p, fp_period p)) (periods db)) \<and>
     list_all period_row_ok (periods db)"

definition audits_ok :: "ledger \<Rightarrow> bool" where
  "audits_ok db \<longleftrightarrow>
     distinct (map pa_id (audits db)) \<and>
     list_all (\<lambda>a. pa_period_id a \<in> fp_id ` set (periods db)) (audits db)"

definition entries_ok :: "ledger \<Rightarrow> bool" where
  "entries_ok db \<longleftrightarrow>
     distinct (map je_id (entries db)) \<and>
     distinct (map je_idempotency_key (entries db)) \<and>
     distinct (filter (\<lambda>r. r \<noteq> None) (map je_reversal_of_id (entries db))) \<and>
     list_all (\<lambda>e. je_period_id e \<in> fp_id ` set (periods db) \<and>
       (case je_reversal_of_id e of None \<Rightarrow> True | Some r \<Rightarrow> r \<in> je_id ` set (entries db)))
       (entries db)"

definition line_row_ok :: "journal_line \<Rightarrow> bool" where
  "line_row_ok l \<longleftrightarrow> 0 \<le> jl_debit_cents l \<and> 0 \<le> jl_credit_cents l \<and>
     (0 < jl_debit_cents l) \<noteq> (0 < jl_credit_cents l)"

definition lines_ok :: "ledger \<Rightarrow> bool" where
  "lines_ok db \<longleftrightarrow>
     distinct (map jl_id (jlines db)) \<and>
     list_all (\<lambda>l. line_row_ok l \<and> jl_entry_id l \<in> je_id ` set (entries db) \<and>
       jl_fund_id l \<in> fund_id ` set (funds db) \<and>
       jl_department_id l \<in> dept_id ` set (departments db) \<and>
       jl_account_id l \<in> acct_id ` set (accounts db)) (jlines db)"

definition budget_row_ok :: "budget \<Rightarrow> bool" where
  "budget_row_ok b \<longleftrightarrow> 0 \<le> amount_cents b \<and> 0 \<le> encumbered_cents b \<and> 0 \<le> actual_cents b \<and>
     0 \<le> amount_cents b - encumbered_cents b - actual_cents b"

definition budgets_ok :: "ledger \<Rightarrow> bool" where
  "budgets_ok db \<longleftrightarrow>
     distinct (map bud_id (budgets db)) \<and> distinct (map budget_dims (budgets db)) \<and>
     list_all (\<lambda>b. budget_row_ok b \<and> bud_fund_id b \<in> fund_id ` set (funds db) \<and>
       bud_department_id b \<in> dept_id ` set (departments db) \<and>
       bud_account_id b \<in> acct_id ` set (accounts db)) (budgets db)"

definition encumbrances_ok :: "ledger \<Rightarrow> bool" where
  "encumbrances_ok db \<longleftrightarrow>
     distinct (map enc_id (encumbrances db)) \<and>
     list_all (\<lambda>e. 0 < enc_amount_cents e \<and> enc_budget_id e \<in> bud_id ` set (budgets db) \<and>
       (case enc_journal_entry_id e of None \<Rightarrow> True | Some j \<Rightarrow> j \<in> je_id ` set (entries db)))
       (encumbrances db)"

definition constraints :: "ledger \<Rightarrow> bool" where
  "constraints db \<longleftrightarrow> reference_ok db \<and> periods_ok db \<and> audits_ok db \<and> entries_ok db \<and>
     lines_ok db \<and> budgets_ok db \<and> encumbrances_ok db"

lemmas constraint_defs =
  constraints_def reference_ok_def periods_ok_def audits_ok_def entries_ok_def lines_ok_def
  budgets_ok_def encumbrances_ok_def period_row_ok_def line_row_ok_def budget_row_ok_def

text \<open>\<open>db.flush()\<close>: the pending rows reach the database, which checks the constraints.\<close>

definition flush :: "ledger \<Rightarrow> ledger_error + ledger" where
  "flush db = (if constraints db then Inr db else Inl IntegrityError)"

lemma flush_Inr_iff [simp, res_simps]: "flush db = Inr db' \<longleftrightarrow> constraints db \<and> db' = db"
  by (auto simp: flush_def)

lemma flush_Inl_iff [simp, res_simps]: "flush db = Inl e \<longleftrightarrow> \<not> constraints db \<and> e = IntegrityError"
  by (auto simp: flush_def)

section \<open>Request bodies\<close>

definition MAX_CENTS :: int where
  "MAX_CENTS = 9999999999999"

record journal_line_in =
  li_fund_id :: int
  li_department_id :: int
  li_account_id :: int
  li_debit_cents :: int
  li_credit_cents :: int

definition valid_line_in :: "journal_line_in \<Rightarrow> bool" where
  "valid_line_in l \<longleftrightarrow>
     0 \<le> li_debit_cents l \<and> li_debit_cents l \<le> MAX_CENTS \<and>
     0 \<le> li_credit_cents l \<and> li_credit_cents l \<le> MAX_CENTS \<and>
     \<not> ((0 < li_debit_cents l) = (0 < li_credit_cents l))"

record journal_create =
  jc_idempotency_key :: string
  jc_period_id :: int
  jc_memo :: string
  jc_encumbrance_id :: "int option"
  jc_lines :: "journal_line_in list"

definition valid_journal_create :: "journal_create \<Rightarrow> bool" where
  "valid_journal_create p \<longleftrightarrow>
     1 \<le> length (jc_idempotency_key p) \<and> length (jc_idempotency_key p) \<le> 128 \<and>
     length (jc_memo p) \<le> 500 \<and>
     2 \<le> length (jc_lines p) \<and> list_all valid_line_in (jc_lines p)"

record reversal_create =
  rc_idempotency_key :: string
  rc_period_id :: int
  rc_memo :: string

definition valid_reversal_create :: "reversal_create \<Rightarrow> bool" where
  "valid_reversal_create p \<longleftrightarrow>
     1 \<le> length (rc_idempotency_key p) \<and> length (rc_idempotency_key p) \<le> 128 \<and>
     length (rc_memo p) \<le> 500"

record budget_create =
  bc_year :: int
  bc_fund_id :: int
  bc_department_id :: int
  bc_account_id :: int
  bc_amount_cents :: int

definition valid_budget_create :: "budget_create \<Rightarrow> bool" where
  "valid_budget_create p \<longleftrightarrow> 2000 \<le> bc_year p \<and> bc_year p \<le> 2100 \<and>
     0 \<le> bc_amount_cents p \<and> bc_amount_cents p \<le> MAX_CENTS"

record encumbrance_create =
  ec_year :: int
  ec_fund_id :: int
  ec_department_id :: int
  ec_account_id :: int
  ec_amount_cents :: int
  ec_description :: string

definition valid_encumbrance_create :: "encumbrance_create \<Rightarrow> bool" where
  "valid_encumbrance_create p \<longleftrightarrow> 2000 \<le> ec_year p \<and> ec_year p \<le> 2100 \<and>
     0 < ec_amount_cents p \<and> ec_amount_cents p \<le> MAX_CENTS \<and> length (ec_description p) \<le> 500"

definition valid_period_create :: "int \<Rightarrow> int \<Rightarrow> bool" where
  "valid_period_create year period \<longleftrightarrow>
     2000 \<le> year \<and> year \<le> 2100 \<and> 1 \<le> period \<and> period \<le> 12"

definition valid_reopen_request :: "string \<Rightarrow> bool" where
  "valid_reopen_request reason \<longleftrightarrow> 3 \<le> length reason \<and> length reason \<le> 500"

section \<open>Roles\<close>

definition ROLES :: "string list" where
  "ROLES = [''clerk'', ''approver'', ''finance_manager'', ''auditor'']"

record current_user =
  username :: string
  role :: string

definition get_current_user :: "string option \<Rightarrow> string option \<Rightarrow> ledger_error + current_user" where
  "get_current_user x_user_name x_user_role =
     (let r = strip (or_default x_user_role ''auditor'')
      in if r \<notin> set ROLES then Inl (HTTPException 401)
         else Inr \<lparr>username = strip (or_default x_user_name ''anonymous''), role = r\<rparr>)"

definition require_role :: "string list \<Rightarrow> current_user \<Rightarrow> ledger_error + current_user" where
  "require_role roles user =
     (if role user \<notin> set roles then Inl (HTTPException 403) else Inr user)"

abbreviation Clerk :: "string list" where
  "Clerk \<equiv> [''clerk'', ''finance_manager'']"

abbreviation Approver :: "string list" where
  "Approver \<equiv> [''approver'', ''finance_manager'']"

abbreviation Manager :: "string list" where
  "Manager \<equiv> [''finance_manager'']"

abbreviation Reader :: "string list" where
  "Reader \<equiv> [''clerk'', ''approver'', ''finance_manager'', ''auditor'']"

text \<open>The two headers of a request, and what its role dependency makes of them.\<close>

record headers =
  x_user_name :: "string option"
  x_user_role :: "string option"

definition authorize :: "string list \<Rightarrow> headers \<Rightarrow> ledger_error + current_user" where
  "authorize roles h =
     bindR (get_current_user (x_user_name h) (x_user_role h)) (require_role roles)"

lemma authorize_Inr_role: "authorize roles h = Inr u \<Longrightarrow> role u \<in> set roles"
  by (auto simp: authorize_def bindR_Inr_iff require_role_def split: if_splits)

section \<open>Transactions\<close>

text \<open>
  An endpoint runs on a session. When it commits, the database is the session's; when it raises,
  the session is closed without a commit and the database is the one before the request.
\<close>

type_synonym 'a response = "(ledger_error + 'a) \<times> ledger"

definition in_tx :: "(ledger \<Rightarrow> ledger_error + 'a \<times> ledger) \<Rightarrow> ledger \<Rightarrow> 'a response" where
  "in_tx f db = (case f db of Inl e \<Rightarrow> (Inl e, db) | Inr (a, db') \<Rightarrow> (Inr a, db'))"

lemma in_tx_Inr_iff [simp]: "in_tx f db = (Inr a, db') \<longleftrightarrow> f db = Inr (a, db')"
  by (auto simp: in_tx_def split: sum.splits prod.splits)

lemma in_tx_Inl_iff: "in_tx f db = (Inl e, db') \<longleftrightarrow> f db = Inl e \<and> db' = db"
  by (auto simp: in_tx_def split: sum.splits prod.splits)

lemma in_tx_rollback: "fst (in_tx f db) = Inl e \<Longrightarrow> snd (in_tx f db) = db"
  by (auto simp: in_tx_def split: sum.splits prod.splits)

lemma in_tx_cases: "snd (in_tx f db) = db \<or> (\<exists>a. f db = Inr (a, snd (in_tx f db)))"
  by (auto simp: in_tx_def split: sum.splits prod.splits)

end
