(* ===== verification/Ledger_Budgets.thy ===== *)
theory Ledger_Budgets
  imports Ledger_Model
begin

text \<open>
  Budgets, encumbrances and fiscal periods: \<open>services/budgets.py\<close>, \<open>services/periods.py\<close> and
  the routers \<open>budgets.py\<close>, \<open>periods.py\<close> and \<open>reports.py\<close>. Each service works on a session
  (\<open>ledger\<close>) and raises or returns the changed session; each endpoint adds the role check, the
  request validation and the commit.
\<close>

section \<open>Endpoints\<close>

definition endpoint :: "string list \<Rightarrow> headers \<Rightarrow> bool \<Rightarrow>
    (current_user \<Rightarrow> ledger \<Rightarrow> ledger_error + 'a \<times> ledger) \<Rightarrow> ledger \<Rightarrow> 'a response" where
  "endpoint roles h valid f =
     in_tx (\<lambda>db. bindR (authorize roles h) (\<lambda>user.
                 bindR (guardR valid RequestInvalid) (\<lambda>_. f user db)))"

lemma endpoint_Inr_iff:
  "endpoint roles h valid f db = (Inr a, db') \<longleftrightarrow>
     (\<exists>u. authorize roles h = Inr u \<and> valid \<and> f u db = Inr (a, db'))"
  by (auto simp: endpoint_def bindR_Inr_iff)

lemma endpoint_rollback: "fst (endpoint roles h valid f db) = Inl e \<Longrightarrow> snd (endpoint roles h valid f db) = db"
  by (simp add: endpoint_def in_tx_rollback)

text \<open>An endpoint keeps what its service keeps.\<close>

lemma endpoint_preserves:
  assumes "P db" and "\<And>u a db'. valid \<Longrightarrow> f u db = Inr (a, db') \<Longrightarrow> P db'"
  shows "P (snd (endpoint roles h valid f db))"
proof (cases "endpoint roles h valid f db")
  case (Pair r db')
  show ?thesis
  proof (cases r)
    case (Inl e)
    with Pair endpoint_rollback[of roles h valid f db e] assms(1) show ?thesis by simp
  next
    case (Inr a)
    with Pair have "endpoint roles h valid f db = (Inr a, db')" by simp
    then obtain u where "valid" and "f u db = Inr (a, db')" by (auto simp: endpoint_Inr_iff)
    then have "P db'" by (rule assms(2))
    with Pair show ?thesis by simp
  qed
qed

section \<open>Encumbrances\<close>

definition available :: "budget \<Rightarrow> int" where
  "available b = amount_cents b - encumbered_cents b - actual_cents b"

definition find_budget :: "ledger \<Rightarrow> int \<Rightarrow> int \<Rightarrow> int \<Rightarrow> int \<Rightarrow> budget option" where
  "find_budget db year f d a = row_by budget_dims (year, f, d, a) (budgets db)"

definition set_encumbered :: "int \<Rightarrow> budget \<Rightarrow> budget" where
  "set_encumbered delta b = b\<lparr>encumbered_cents := encumbered_cents b + delta\<rparr>"

definition set_actual :: "int \<Rightarrow> budget \<Rightarrow> budget" where
  "set_actual delta b = b\<lparr>actual_cents := actual_cents b + delta\<rparr>"

definition close_encumbrance :: "encumbrance_status \<Rightarrow> int option \<Rightarrow> int \<Rightarrow> encumbrance \<Rightarrow> encumbrance" where
  "close_encumbrance st je now e =
     e\<lparr>enc_status := st, enc_journal_entry_id := je, enc_closed_at := Some now\<rparr>"

interpretation enc_upd: row_update bud_id "set_encumbered delta" for delta
  by unfold_locales (simp add: set_encumbered_def)

interpretation act_upd: row_update bud_id "set_actual delta" for delta
  by unfold_locales (simp add: set_actual_def)

interpretation enc_close: row_update enc_id "close_encumbrance st je now" for st je now
  by unfold_locales (simp add: close_encumbrance_def)

definition approve_encumbrance ::
    "int \<Rightarrow> int \<Rightarrow> encumbrance_create \<Rightarrow> string \<Rightarrow> ledger \<Rightarrow> ledger_error + encumbrance \<times> ledger" where
  "approve_encumbrance now nid p actor db =
     (case find_budget db (ec_year p) (ec_fund_id p) (ec_department_id p) (ec_account_id p) of
        None \<Rightarrow> Inl (DomainError 404 ''budget-not-found'' [])
      | Some b \<Rightarrow>
          if available b < ec_amount_cents p then Inl (DomainError 409 ''budget-exceeded'' [])
          else
            (let enc = \<lparr>enc_id = nid, enc_budget_id = bud_id b,
                        enc_amount_cents = ec_amount_cents p, enc_status = EncOpen,
                        enc_description = ec_description p, enc_journal_entry_id = None,
                        enc_created_by = actor, enc_created_at = now, enc_closed_at = None\<rparr>;
                 db1 = db\<lparr>budgets := upd_by bud_id (bud_id b) (set_encumbered (ec_amount_cents p)) (budgets db),
                          encumbrances := encumbrances db @ [enc]\<rparr>
             in bindR (flush db1) (\<lambda>db2. Inr (enc, db2))))"

definition cancel_encumbrance ::
    "int \<Rightarrow> int \<Rightarrow> ledger \<Rightarrow> ledger_error + encumbrance \<times> ledger" where
  "cancel_encumbrance now eid db =
     (case row_by enc_id eid (encumbrances db) of
        None \<Rightarrow> Inl (DomainError 404 ''encumbrance-not-found'' [])
      | Some e \<Rightarrow>
          if enc_status e \<noteq> EncOpen then Inl (DomainError 409 ''encumbrance-not-open'' [])
          else
            (case row_by bud_id (enc_budget_id e) (budgets db) of
               None \<Rightarrow> Inl (PyError ''AttributeError'')
             | Some b \<Rightarrow>
                 (let upd = close_encumbrance EncCancelled (enc_journal_entry_id e) now;
                      db1 = db\<lparr>budgets := upd_by bud_id (bud_id b) (set_encumbered (- enc_amount_cents e)) (budgets db),
                               encumbrances := upd_by enc_id eid upd (encumbrances db)\<rparr>
                  in bindR (flush db1) (\<lambda>db2. Inr (upd e, db2)))))"

definition create_encumbrance ::
    "int \<Rightarrow> int \<Rightarrow> headers \<Rightarrow> encumbrance_create \<Rightarrow> ledger \<Rightarrow> encumbrance response" where
  "create_encumbrance now nid h p =
     endpoint Approver h (valid_encumbrance_create p)
       (\<lambda>user. approve_encumbrance now nid p (username user))"

definition cancel_encumbrance_endpoint ::
    "int \<Rightarrow> headers \<Rightarrow> int \<Rightarrow> ledger \<Rightarrow> encumbrance response" where
  "cancel_encumbrance_endpoint now h eid =
     endpoint Approver h True (\<lambda>user. cancel_encumbrance now eid)"

text \<open>The text the status column holds.\<close>

fun status_text :: "encumbrance_status \<Rightarrow> string" where
  "status_text EncOpen = ''open''"
| "status_text EncLiquidated = ''liquidated''"
| "status_text EncCancelled = ''cancelled''"

definition list_encumbrances ::
    "headers \<Rightarrow> string option \<Rightarrow> ledger \<Rightarrow> encumbrance list response" where
  "list_encumbrances h status =
     endpoint Reader h True (\<lambda>user db. Inr
       (filter (\<lambda>e. case status of None \<Rightarrow> True | Some s \<Rightarrow> status_text (enc_status e) = s)
          (sort_key enc_id (encumbrances db)), db))"

section \<open>Budgets\<close>

definition create_budget ::
    "int \<Rightarrow> headers \<Rightarrow> budget_create \<Rightarrow> ledger \<Rightarrow> budget response" where
  "create_budget nid h p =
     endpoint Manager h (valid_budget_create p) (\<lambda>user db.
       case find_budget db (bc_year p) (bc_fund_id p) (bc_department_id p) (bc_account_id p) of
         Some b \<Rightarrow> Inl (DomainError 409 ''budget-exists'' [])
       | None \<Rightarrow>
           (let b = \<lparr>bud_id = nid, bud_year = bc_year p, bud_fund_id = bc_fund_id p,
                     bud_department_id = bc_department_id p, bud_account_id = bc_account_id p,
                     amount_cents = bc_amount_cents p, encumbered_cents = 0, actual_cents = 0\<rparr>
            in bindR (flush (db\<lparr>budgets := budgets db @ [b]\<rparr>)) (\<lambda>db'. Inr (b, db'))))"

definition list_budgets ::
    "headers \<Rightarrow> int option \<Rightarrow> int option \<Rightarrow> ledger \<Rightarrow> budget list response" where
  "list_budgets h year fid =
     endpoint Reader h True (\<lambda>user db. Inr
       (filter (\<lambda>b. (case year of None \<Rightarrow> True | Some y \<Rightarrow> bud_year b = y) \<and>
                    (case fid of None \<Rightarrow> True | Some f \<Rightarrow> bud_fund_id b = f))
          (sort_key bud_id (budgets db)), db))"

definition activity_rows :: "ledger \<Rightarrow> budget \<Rightarrow> (journal_line \<times> journal_entry) list" where
  "activity_rows db b =
     [(l, e). l \<leftarrow> sort_key jl_id (jlines db), e \<leftarrow> entries db, p \<leftarrow> periods db,
              jl_entry_id l = je_id e \<and> je_period_id e = fp_id p \<and>
              fp_year p = bud_year b \<and> jl_fund_id l = bud_fund_id b \<and>
              jl_department_id l = bud_department_id b \<and> jl_account_id l = bud_account_id b]"

definition budget_activity :: "headers \<Rightarrow> int \<Rightarrow> ledger \<Rightarrow>
    (budget \<times> encumbrance list \<times> (journal_line \<times> journal_entry) list) response" where
  "budget_activity h bid =
     endpoint Reader h True (\<lambda>user db.
       case row_by bud_id bid (budgets db) of
         None \<Rightarrow> Inl (DomainError 404 ''budget-not-found'' [])
       | Some b \<Rightarrow> Inr ((b, sort_key enc_id (filter (\<lambda>e. enc_budget_id e = bid) (encumbrances db)),
                         activity_rows db b), db))"

section \<open>Budget report\<close>

record report_row =
  rr_year :: int
  rr_budget_id :: int
  rr_fund_code :: string
  rr_department_code :: string
  rr_account_code :: string
  rr_budget_cents :: int
  rr_encumbered_cents :: int
  rr_actual_cents :: int
  rr_available_cents :: int

text \<open>
  The joins and the filter of the report. The \<open>ORDER BY\<close> compares the three codes in the
  collation of the database, which is the argument \<open>by_codes\<close>.
\<close>

definition report_rows :: "(report_row list \<Rightarrow> report_row list) \<Rightarrow> ledger \<Rightarrow> int \<Rightarrow>
    int option \<Rightarrow> int option \<Rightarrow> report_row list" where
  "report_rows by_codes db year fid did = by_codes
     [\<lparr>rr_year = bud_year b, rr_budget_id = bud_id b, rr_fund_code = fund_code f,
       rr_department_code = dept_code d, rr_account_code = acct_code a,
       rr_budget_cents = amount_cents b, rr_encumbered_cents = encumbered_cents b,
       rr_actual_cents = actual_cents b,
       rr_available_cents = amount_cents b - encumbered_cents b - actual_cents b\<rparr>.
      b \<leftarrow> budgets db, f \<leftarrow> funds db, d \<leftarrow> departments db, a \<leftarrow> accounts db,
      bud_fund_id b = fund_id f \<and> bud_department_id b = dept_id d \<and> bud_account_id b = acct_id a \<and>
      bud_year b = year \<and>
      (case fid of None \<Rightarrow> True | Some i \<Rightarrow> bud_fund_id b = i) \<and>
      (case did of None \<Rightarrow> True | Some i \<Rightarrow> bud_department_id b = i)]"

definition budget_report :: "(report_row list \<Rightarrow> report_row list) \<Rightarrow> headers \<Rightarrow> int \<Rightarrow>
    int option \<Rightarrow> int option \<Rightarrow> ledger \<Rightarrow> (int \<times> report_row list) response" where
  "budget_report by_codes h year fid did =
     endpoint Reader h True (\<lambda>user db. Inr ((year, report_rows by_codes db year fid did), db))"

section \<open>Fiscal periods\<close>

definition lock_period :: "ledger \<Rightarrow> int \<Rightarrow> ledger_error + fiscal_period" where
  "lock_period db pid =
     someR (row_by fp_id pid (periods db)) (DomainError 404 ''period-not-found'' [])"

definition mark_closed :: "string \<Rightarrow> int \<Rightarrow> fiscal_period \<Rightarrow> fiscal_period" where
  "mark_closed actor now p = p\<lparr>fp_status := Closed, fp_closed_by := Some actor, fp_closed_at := Some now\<rparr>"

definition mark_open :: "fiscal_period \<Rightarrow> fiscal_period" where
  "mark_open p = p\<lparr>fp_status := Open, fp_closed_by := None, fp_closed_at := None\<rparr>"

interpretation fp_close: row_update fp_id "mark_closed actor now" for actor now
  by unfold_locales (simp add: mark_closed_def)

interpretation fp_open: row_update fp_id mark_open
  by unfold_locales (simp add: mark_open_def)

definition close_period ::
    "int \<Rightarrow> int \<Rightarrow> int \<Rightarrow> string \<Rightarrow> ledger \<Rightarrow> ledger_error + fiscal_period \<times> ledger" where
  "close_period now nid pid actor db =
     bindR (lock_period db pid) (\<lambda>p.
       if fp_status p = Closed then Inl (DomainError 409 ''period-already-closed'' [])
       else
         (let log = \<lparr>pa_id = nid, pa_period_id = fp_id p, pa_action = Close, pa_actor = actor,
                     pa_reason = None, pa_created_at = now\<rparr>;
              db1 = db\<lparr>periods := upd_by fp_id pid (mark_closed actor now) (periods db),
                       audits := audits db @ [log]\<rparr>
          in bindR (flush db1) (\<lambda>db2. Inr (mark_closed actor now p, db2))))"

definition reopen_period :: "int \<Rightarrow> int \<Rightarrow> int \<Rightarrow> string \<Rightarrow> string \<Rightarrow> ledger \<Rightarrow>
    ledger_error + fiscal_period \<times> ledger" where
  "reopen_period now nid pid actor reason db =
     bindR (lock_period db pid) (\<lambda>p.
       if fp_status p \<noteq> Closed then Inl (DomainError 409 ''period-not-closed'' [])
       else
         (let log = \<lparr>pa_id = nid, pa_period_id = fp_id p, pa_action = Reopen, pa_actor = actor,
                     pa_reason = Some reason, pa_created_at = now\<rparr>;
              db1 = db\<lparr>periods := upd_by fp_id pid mark_open (periods db),
                       audits := audits db @ [log]\<rparr>
          in bindR (flush db1) (\<lambda>db2. Inr (mark_open p, db2))))"

definition create_period ::
    "int \<Rightarrow> headers \<Rightarrow> int \<Rightarrow> int \<Rightarrow> ledger \<Rightarrow> fiscal_period response" where
  "create_period nid h year period =
     endpoint Manager h (valid_period_create year period) (\<lambda>user db.
       case row_by (\<lambda>p. (fp_year p, fp_period p)) (year, period) (periods db) of
         Some p \<Rightarrow> Inl (DomainError 409 ''period-exists'' [])
       | None \<Rightarrow>
           (let p = \<lparr>fp_id = nid, fp_year = year, fp_period = period, fp_status = Open,
                     fp_closed_by = None, fp_closed_at = None\<rparr>
            in bindR (flush (db\<lparr>periods := periods db @ [p]\<rparr>)) (\<lambda>db'. Inr (p, db'))))"

definition list_periods :: "headers \<Rightarrow> int option \<Rightarrow> ledger \<Rightarrow> fiscal_period list response" where
  "list_periods h year =
     endpoint Reader h True (\<lambda>user db. Inr
       (filter (\<lambda>p. case year of None \<Rightarrow> True | Some y \<Rightarrow> fp_year p = y)
          (sort_key fp_year (sort_key fp_period (periods db))), db))"

definition close_period_endpoint ::
    "int \<Rightarrow> int \<Rightarrow> headers \<Rightarrow> int \<Rightarrow> ledger \<Rightarrow> fiscal_period response" where
  "close_period_endpoint now nid h pid =
     endpoint Manager h True (\<lambda>user. close_period now nid pid (username user))"

definition reopen_period_endpoint ::
    "int \<Rightarrow> int \<Rightarrow> headers \<Rightarrow> int \<Rightarrow> string \<Rightarrow> ledger \<Rightarrow> fiscal_period response" where
  "reopen_period_endpoint now nid h pid reason =
     endpoint Manager h (valid_reopen_request reason)
       (\<lambda>user. reopen_period now nid pid (username user) reason)"

definition period_audits :: "headers \<Rightarrow> int \<Rightarrow> ledger \<Rightarrow> period_audit_log list response" where
  "period_audits h pid =
     endpoint Reader h True (\<lambda>user db. Inr
       (sort_key pa_id (filter (\<lambda>a. pa_period_id a = pid) (audits db)), db))"

end
