(* ===== verification/Ledger_Journals.thy ===== *)
theory Ledger_Journals
  imports Ledger_Budgets
begin

text \<open>
  Posting and reversing journal entries: \<open>services/journals.py\<close> and the endpoints
  \<open>create_journal\<close>, \<open>reverse_entry\<close>, \<open>list_journals\<close>, \<open>get_journal\<close> of \<open>routers/journals.py\<close>.
  The SHA-256 digest of the canonical payload is the argument \<open>digest\<close>.
\<close>

type_synonym digest_fn = "journal_create \<Rightarrow> string"

text \<open>
  What one posting receives from outside: the clock, the primary key the database gives to the
  entry and the ones it gives to the entry's lines, by position.
\<close>

record post_env =
  env_now :: int
  env_entry_id :: int
  env_line_id :: "nat \<Rightarrow> int"

section \<open>Posting\<close>

definition lock_open_period :: "ledger \<Rightarrow> int \<Rightarrow> ledger_error + fiscal_period" where
  "lock_open_period db pid =
     (case row_by fp_id pid (periods db) of
        None \<Rightarrow> Inl (DomainError 404 ''period-not-found'' [])
      | Some p \<Rightarrow> if fp_status p \<noteq> Open then Inl (DomainError 409 ''period-closed'' []) else Inr p)"

definition line_problems :: "ledger \<Rightarrow> journal_line_in \<Rightarrow> problem list" where
  "line_problems db l =
     (if li_fund_id l \<notin> fund_id ` set (funds db) then [NoFund (li_fund_id l)] else []) @
     (if li_department_id l \<notin> dept_id ` set (departments db) then [NoDepartment (li_department_id l)] else []) @
     (if li_account_id l \<notin> acct_id ` set (accounts db) then [NoAccount (li_account_id l)] else [])"

text \<open>
  The result is the dictionary from account id to account of the referenced accounts, as the
  lookup function it is used as.
\<close>

definition validate_references ::
    "ledger \<Rightarrow> journal_line_in list \<Rightarrow> ledger_error + (int \<Rightarrow> account option)" where
  "validate_references db ls =
     (let acct_ids = li_account_id ` set ls;
          accts = (\<lambda>i. if i \<in> acct_ids then row_by acct_id i (accounts db) else None);
          problems = concat (map (line_problems db) ls)
      in if problems \<noteq> [] then Inl (DomainError 422 ''invalid-reference'' problems)
         else Inr accts)"

text \<open>
  \<open>deltas\<close> is a dictionary from budget id to the change of its actual cents, in insertion
  order: \<open>slot_of\<close> reads a slot (a new slot is 0), \<open>add_slot\<close> is \<open>setdefault\<close> and \<open>+=\<close>.
\<close>

type_synonym deltas = "(int \<times> int) list"

definition slot_of :: "deltas \<Rightarrow> int \<Rightarrow> int" where
  "slot_of ds b = (case map_of ds b of None \<Rightarrow> 0 | Some d \<Rightarrow> d)"

fun add_slot :: "int \<Rightarrow> int \<Rightarrow> deltas \<Rightarrow> deltas" where
  "add_slot b d [] = [(b, d)]"
| "add_slot b d ((b', d') # ds) = (if b' = b then (b', d' + d) # ds else (b', d') # add_slot b d ds)"

definition line_delta :: "ledger \<Rightarrow> int \<Rightarrow> (int \<Rightarrow> account option) \<Rightarrow> deltas \<Rightarrow> journal_line \<Rightarrow>
    ledger_error + deltas" where
  "line_delta db year accts ds l =
     (case accts (jl_account_id l) of
        None \<Rightarrow> Inl (PyError ''KeyError'')
      | Some a \<Rightarrow>
          if acct_type a \<noteq> Expense then Inr ds
          else
            (case find_budget db year (jl_fund_id l) (jl_department_id l) (jl_account_id l) of
               None \<Rightarrow> Inr ds
             | Some b \<Rightarrow> Inr (add_slot (bud_id b) (jl_debit_cents l - jl_credit_cents l) ds)))"

definition apply_delta :: "ledger \<Rightarrow> int \<times> int \<Rightarrow> ledger_error + ledger" where
  "apply_delta db bd =
     (let (bid, delta) = bd;
          db1 = db\<lparr>budgets := upd_by bud_id bid (set_actual delta) (budgets db)\<rparr>
      in case row_by bud_id bid (budgets db1) of
           None \<Rightarrow> Inl (PyError ''AttributeError'')
         | Some b \<Rightarrow>
             if encumbered_cents b < 0 \<or> amount_cents b - encumbered_cents b - actual_cents b < 0
             then Inl (DomainError 409 ''budget-exceeded'' [])
             else Inr db1)"

definition apply_budget_effects :: "ledger \<Rightarrow> int \<Rightarrow> journal_line list \<Rightarrow>
    (int \<Rightarrow> account option) \<Rightarrow> encumbrance option \<Rightarrow> ledger_error + ledger" where
  "apply_budget_effects db year ls accts enc =
     bindR (foldR (line_delta db year accts) [] ls) (\<lambda>ds.
     bindR (case enc of
              None \<Rightarrow> Inr (ds, db)
            | Some e \<Rightarrow>
                (case row_by bud_id (enc_budget_id e) (budgets db) of
                   None \<Rightarrow> Inl (PyError ''AttributeError'')
                 | Some b \<Rightarrow>
                     (let ds' = add_slot (bud_id b) 0 ds
                      in if slot_of ds' (bud_id b) \<noteq> enc_amount_cents e
                         then Inl (DomainError 422 ''encumbrance-amount-mismatch'' [])
                         else Inr (ds', db\<lparr>budgets :=
                           upd_by bud_id (bud_id b) (set_encumbered (- enc_amount_cents e)) (budgets db)\<rparr>))))
       (\<lambda>(ds', db1). foldR apply_delta db1 ds'))"

definition find_key :: "ledger \<Rightarrow> string \<Rightarrow> journal_entry option" where
  "find_key db key = row_by je_idempotency_key key (entries db)"

definition find_open_encumbrance :: "ledger \<Rightarrow> int option \<Rightarrow> ledger_error + encumbrance option" where
  "find_open_encumbrance db eid =
     (case eid of
        None \<Rightarrow> Inr None
      | Some i \<Rightarrow>
          (case row_by enc_id i (encumbrances db) of
             None \<Rightarrow> Inl (DomainError 404 ''encumbrance-not-found'' [])
           | Some e \<Rightarrow>
               if enc_status e \<noteq> EncOpen then Inl (DomainError 409 ''encumbrance-not-open'' [])
               else Inr (Some e)))"

definition new_lines :: "post_env \<Rightarrow> journal_line_in list \<Rightarrow> journal_line list" where
  "new_lines env ls =
     map (\<lambda>(i, l). \<lparr>jl_id = env_line_id env i, jl_entry_id = env_entry_id env,
            jl_fund_id = li_fund_id l, jl_department_id = li_department_id l,
            jl_account_id = li_account_id l, jl_debit_cents = li_debit_cents l,
            jl_credit_cents = li_credit_cents l\<rparr>)
       (enumerate 0 ls)"

definition liquidate :: "encumbrance option \<Rightarrow> int \<Rightarrow> int \<Rightarrow> ledger \<Rightarrow> ledger" where
  "liquidate enc eid now db =
     (case enc of
        None \<Rightarrow> db
      | Some e \<Rightarrow> db\<lparr>encumbrances := upd_by enc_id (enc_id e)
                     (close_encumbrance EncLiquidated (Some eid) now) (encumbrances db)\<rparr>)"

definition post_journal :: "digest_fn \<Rightarrow> post_env \<Rightarrow> journal_create \<Rightarrow> string \<Rightarrow> entry_source \<Rightarrow>
    int option \<Rightarrow> ledger \<Rightarrow> ledger_error + (journal_entry \<times> bool) \<times> ledger" where
  "post_journal digest env payload actor source reversal_of db =
     (case find_key db (jc_idempotency_key payload) of
        Some e \<Rightarrow>
          if je_payload_hash e = digest payload then Inr ((e, True), db)
          else Inl (DomainError 409 ''idempotency-key-conflict'' [])
      | None \<Rightarrow>
          bindR (lock_open_period db (jc_period_id payload)) (\<lambda>period.
          bindR (validate_references db (jc_lines payload)) (\<lambda>accts.
          let total_debit = (\<Sum>l\<leftarrow>jc_lines payload. li_debit_cents l);
              total_credit = (\<Sum>l\<leftarrow>jc_lines payload. li_credit_cents l)
          in if total_debit = 0 \<or> total_debit \<noteq> total_credit
             then Inl (DomainError 422 ''unbalanced-entry'' [])
             else
               bindR (find_open_encumbrance db (jc_encumbrance_id payload)) (\<lambda>enc.
               let entry = \<lparr>je_id = env_entry_id env, je_idempotency_key = jc_idempotency_key payload,
                            je_payload_hash = digest payload, je_period_id = fp_id period,
                            je_memo = jc_memo payload, je_source = source,
                            je_reversal_of_id = reversal_of, je_created_by = actor,
                            je_created_at = env_now env\<rparr>;
                   ls = new_lines env (jc_lines payload)
               in
               bindR (flush (db\<lparr>entries := entries db @ [entry]\<rparr>)) (\<lambda>db1.
               bindR (flush (db1\<lparr>jlines := jlines db1 @ ls\<rparr>)) (\<lambda>db2.
               bindR (apply_budget_effects db2 (fp_year period) ls accts enc) (\<lambda>db3.
               bindR (flush (liquidate enc (je_id entry) (env_now env) db3)) (\<lambda>db4.
               Inr ((entry, False), db4)))))))))"

section \<open>Reversal\<close>

definition mirror_line :: "journal_line \<Rightarrow> journal_line_in" where
  "mirror_line l = \<lparr>li_fund_id = jl_fund_id l, li_department_id = jl_department_id l,
     li_account_id = jl_account_id l, li_debit_cents = jl_credit_cents l,
     li_credit_cents = jl_debit_cents l\<rparr>"

text \<open>
  \<open>default_memo\<close> is the text \<open>f"Reversal of entry {original_id}"\<close>. \<open>JournalCreate(...)\<close> and
  \<open>JournalLineIn(...)\<close> validate their arguments; a failure is pydantic's own exception, which
  inside a handler nothing catches.
\<close>

definition reversal_payload ::
    "(int \<Rightarrow> string) \<Rightarrow> ledger \<Rightarrow> int \<Rightarrow> reversal_create \<Rightarrow> journal_create" where
  "reversal_payload default_memo db original_id p =
     \<lparr>jc_idempotency_key = rc_idempotency_key p, jc_period_id = rc_period_id p,
      jc_memo = (if rc_memo p = [] then default_memo original_id else rc_memo p),
      jc_encumbrance_id = None, jc_lines = map mirror_line (entry_lines db original_id)\<rparr>"

definition reverse_journal :: "digest_fn \<Rightarrow> (int \<Rightarrow> string) \<Rightarrow> post_env \<Rightarrow> int \<Rightarrow> reversal_create \<Rightarrow>
    string \<Rightarrow> ledger \<Rightarrow> ledger_error + (journal_entry \<times> bool) \<times> ledger" where
  "reverse_journal digest default_memo env original_id payload actor db =
     bindR (someR (row_by je_id original_id (entries db)) (DomainError 404 ''entry-not-found'' [])) (\<lambda>original.
     let create = reversal_payload default_memo db original_id payload in
     bindR (guardR (valid_journal_create create) (PyError ''ValidationError'')) (\<lambda>_.
     case find_key db (jc_idempotency_key create) of
       Some e \<Rightarrow>
         if je_payload_hash e = digest create then Inr ((e, True), db)
         else Inl (DomainError 409 ''idempotency-key-conflict'' [])
     | None \<Rightarrow>
         (case row_by je_reversal_of_id (Some original_id) (entries db) of
            Some r \<Rightarrow> Inl (DomainError 409 ''already-reversed'' [])
          | None \<Rightarrow> post_journal digest env create actor Reversal (Some original_id) db)))"

section \<open>Endpoints\<close>

text \<open>The answer carries the status code, 201 for a new entry and 200 for a replayed one.\<close>

definition journal_answer :: "(journal_entry \<times> bool) \<times> ledger \<Rightarrow> (int \<times> journal_entry) \<times> ledger" where
  "journal_answer r = (case r of ((e, replayed), db) \<Rightarrow> ((if replayed then 200 else 201, e), db))"

text \<open>\<open>db.rollback()\<close> gives the session the database before the request.\<close>

definition post_or_conflict :: "digest_fn \<Rightarrow> post_env \<Rightarrow> journal_create \<Rightarrow> current_user \<Rightarrow> ledger \<Rightarrow>
    ledger_error + (int \<times> journal_entry) \<times> ledger" where
  "post_or_conflict digest env payload user db =
     (case post_journal digest env payload (username user) Manual None db of
        Inr r \<Rightarrow> Inr (journal_answer r)
      | Inl err \<Rightarrow>
          if err = IntegrityError then
            (case find_key db (jc_idempotency_key payload) of
               Some e \<Rightarrow> if je_payload_hash e = digest payload then Inr ((200, e), db)
                         else Inl (DomainError 409 ''idempotency-key-conflict'' [])
             | None \<Rightarrow> Inl (DomainError 409 ''idempotency-key-conflict'' []))
          else Inl err)"

definition create_journal :: "digest_fn \<Rightarrow> post_env \<Rightarrow> headers \<Rightarrow> journal_create \<Rightarrow> ledger \<Rightarrow>
    (int \<times> journal_entry) response" where
  "create_journal digest env h payload =
     endpoint Clerk h (valid_journal_create payload) (post_or_conflict digest env payload)"

definition reverse_or_conflict :: "digest_fn \<Rightarrow> (int \<Rightarrow> string) \<Rightarrow> post_env \<Rightarrow> int \<Rightarrow> reversal_create \<Rightarrow>
    current_user \<Rightarrow> ledger \<Rightarrow> ledger_error + (int \<times> journal_entry) \<times> ledger" where
  "reverse_or_conflict digest default_memo env entry_id payload user db =
     (case reverse_journal digest default_memo env entry_id payload (username user) db of
        Inr r \<Rightarrow> Inr (journal_answer r)
      | Inl err \<Rightarrow>
          if err = IntegrityError then
            (case row_by je_reversal_of_id (Some entry_id) (entries db) of
               Some r \<Rightarrow> Inl (DomainError 409 ''already-reversed'' [])
             | None \<Rightarrow> Inl (DomainError 409 ''integrity-error'' []))
          else Inl err)"

definition reverse_entry :: "digest_fn \<Rightarrow> (int \<Rightarrow> string) \<Rightarrow> post_env \<Rightarrow> headers \<Rightarrow> int \<Rightarrow>
    reversal_create \<Rightarrow> ledger \<Rightarrow> (int \<times> journal_entry) response" where
  "reverse_entry digest default_memo env h entry_id payload =
     endpoint Clerk h (valid_reversal_create payload)
       (reverse_or_conflict digest default_memo env entry_id payload)"

lemma post_or_conflict_Inr:
  assumes "post_or_conflict digest env p u db = Inr ((c, e), db')"
  shows "(\<exists>r. post_journal digest env p (username u) Manual None db = Inr ((e, r), db')) \<or>
    (db' = db \<and> find_key db (jc_idempotency_key p) = Some e \<and> je_payload_hash e = digest p)"
proof (cases "post_journal digest env p (username u) Manual None db")
  case (Inl err)
  with assms show ?thesis by (auto simp: post_or_conflict_def split: option.splits if_splits)
next
  case (Inr r)
  obtain e' b d where "r = ((e', b), d)" by (metis prod.exhaust)
  with assms Inr show ?thesis by (auto simp: post_or_conflict_def journal_answer_def)
qed

lemma reverse_or_conflict_Inr:
  assumes "reverse_or_conflict digest memo env i p u db = Inr ((c, e), db')"
  shows "\<exists>r. reverse_journal digest memo env i p (username u) db = Inr ((e, r), db')"
proof (cases "reverse_journal digest memo env i p (username u) db")
  case (Inl err)
  with assms show ?thesis by (auto simp: reverse_or_conflict_def split: option.splits if_splits)
next
  case (Inr r)
  obtain e' b d where "r = ((e', b), d)" by (metis prod.exhaust)
  with assms Inr show ?thesis by (auto simp: reverse_or_conflict_def journal_answer_def)
qed

text \<open>A negative \<open>LIMIT\<close> is an error of PostgreSQL that nothing catches.\<close>

definition list_journals :: "headers \<Rightarrow> int option \<Rightarrow> int \<Rightarrow> ledger \<Rightarrow> journal_entry list response" where
  "list_journals h pid limit =
     endpoint Reader h True (\<lambda>user db.
       let n = min limit 500;
           rows = filter (\<lambda>e. case pid of None \<Rightarrow> True | Some p \<Rightarrow> je_period_id e = p)
                    (sort_key je_id (entries db))
       in if n < 0 then Inl (PyError ''DataError'') else Inr (take (nat n) rows, db))"

definition get_journal :: "headers \<Rightarrow> int \<Rightarrow> ledger \<Rightarrow> journal_entry response" where
  "get_journal h entry_id =
     endpoint Reader h True (\<lambda>user db.
       bindR (someR (row_by je_id entry_id (entries db)) (DomainError 404 ''entry-not-found'' []))
         (\<lambda>e. Inr (e, db)))"

end
