(* ===== verification/Ledger_Import.thy ===== *)
theory Ledger_Import
  imports Ledger_Journals
begin

text \<open>
  The CSV import of \<open>routers/journals.py\<close>: amounts through Python's \<open>Decimal\<close>, grouping of rows
  by voucher, collection of all problems, and posting of the whole batch in one transaction.
  Reading the upload (\<open>utf-8-sig\<close> decoding and \<open>csv.DictReader\<close>) is the argument \<open>reader\<close>: it
  gives the field names and the rows as dictionaries from field name to text.
\<close>

section \<open>Decimal amounts\<close>

datatype pydecimal = DFinite bool int int | DInfinity bool | DNaN

definition split_sign :: "string \<Rightarrow> bool \<times> string" where
  "split_sign s = (case s of [] \<Rightarrow> (False, [])
     | c # r \<Rightarrow> if c = CHR ''-'' then (True, r) else if c = CHR ''+'' then (False, r) else (False, s))"

definition exponent_of :: "string \<Rightarrow> int option" where
  "exponent_of s = (case s of [] \<Rightarrow> Some 0
     | c # r \<Rightarrow> if c = CHR ''e'' then
         (let (neg, ds) = split_sign r
          in if ds \<noteq> [] \<and> list_all is_digit ds
             then Some (if neg then - int_of_digits ds else int_of_digits ds) else None)
       else None)"

definition is_nan_text :: "string \<Rightarrow> bool" where
  "is_nan_text u \<longleftrightarrow>
     (take 3 u = ''nan'' \<and> list_all is_digit (drop 3 u)) \<or>
     (take 4 u = ''snan'' \<and> list_all is_digit (drop 4 u))"

text \<open>The number of decimal digits, by repeated division.\<close>

function digit_count :: "int \<Rightarrow> int" where
  "digit_count n = (if n < 10 then 1 else 1 + digit_count (n div 10))"
  by auto
termination by (relation "measure nat") auto

declare digit_count.simps [simp del]

text \<open>
  \<open>Decimal(text)\<close>: \<open>None\<close> is \<open>InvalidOperation\<close>, which the constructor also raises for a number
  outside the exponent range of the C implementation, since it cannot represent it exactly.
\<close>

definition decimal_of :: "string \<Rightarrow> pydecimal option" where
  "decimal_of s =
     (let (neg, u) = split_sign (map to_lower (filter (\<lambda>c. c \<noteq> CHR ''_'') s))
      in if u = ''inf'' \<or> u = ''infinity'' then Some (DInfinity neg)
         else if is_nan_text u then Some DNaN
         else
           (let ip = takeWhile is_digit u; r1 = dropWhile is_digit u;
                (fp, r2) = (case r1 of [] \<Rightarrow> ([], r1)
                  | c # r \<Rightarrow> if c = CHR ''.'' then (takeWhile is_digit r, dropWhile is_digit r) else ([], r1))
            in if ip @ fp = [] then None
               else
                 (case exponent_of r2 of
                    None \<Rightarrow> None
                  | Some x \<Rightarrow>
                      (let coeff = int_of_digits (ip @ fp); e = x - int (length fp)
                       in if e < -1999999999999999997 \<or> e + digit_count coeff - 1 > 999999999999999999
                          then None else Some (DFinite neg coeff e)))))"

text \<open>
  \<open>parse_amount\<close>: cents and the problems found. Ordering a NaN raises \<open>InvalidOperation\<close>, the
  exponent of an infinity is the string \<open>'F'\<close>, which does not compare with \<open>-2\<close>, and the product
  \<open>d * 100\<close> overflows the default context above the exponent 999999.
\<close>

definition parse_amount ::
    "string option \<Rightarrow> nat \<Rightarrow> string \<Rightarrow> ledger_error + int \<times> problem list" where
  "parse_amount value row_no field =
     (let v = strip (or_default value [])
      in if v = [] then Inr (0, [])
         else case decimal_of v of
           None \<Rightarrow> Inr (0, [NotANumber row_no field])
         | Some DNaN \<Rightarrow> Inl (PyError ''InvalidOperation'')
         | Some (DInfinity neg) \<Rightarrow>
             if neg then Inr (0, [OutOfRange row_no field]) else Inl (PyError ''TypeError'')
         | Some (DFinite neg coeff e) \<Rightarrow>
             if (neg \<and> coeff \<noteq> 0) \<or> e < -2 then Inr (0, [OutOfRange row_no field])
             else if coeff \<noteq> 0 \<and> e + digit_count (coeff * 100) - 1 > 999999
                  then Inl (PyError ''Overflow'')
             else if coeff * 10 ^ nat (e + 2) > MAX_CENTS then Inr (0, [OutOfRange row_no field])
             else Inr (coeff * 10 ^ nat (e + 2), []))"

section \<open>Rows and vouchers\<close>

type_synonym csv_row = "string \<rightharpoonup> string"
type_synonym csv_reader = "string \<Rightarrow> ledger_error + string list option \<times> (ledger_error + csv_row list)"

text \<open>\<open>(row.get(field) or "").strip()\<close>\<close>

definition cell :: "csv_row \<Rightarrow> string \<Rightarrow> string" where
  "cell row field = strip (or_default (row field) [])"

definition required_fields :: "string set" where
  "required_fields = {''voucher_no'', ''fund_code'', ''department_code'', ''account_code'', ''debit'', ''credit''}"

fun add_group :: "string \<Rightarrow> 'r \<Rightarrow> (string \<times> 'r list) list \<Rightarrow> (string \<times> 'r list) list" where
  "add_group v r [] = [(v, [r])]"
| "add_group v r ((v', rs) # gs) = (if v' = v then (v', rs @ [r]) # gs else (v', rs) # add_group v r gs)"

fun group_rows :: "(nat \<times> csv_row) list \<Rightarrow> (string \<times> (nat \<times> csv_row) list) list \<Rightarrow> problem list \<Rightarrow>
    (string \<times> (nat \<times> csv_row) list) list \<times> problem list" where
  "group_rows [] gs errs = (gs, errs)"
| "group_rows ((n, row) # rows) gs errs =
     (let voucher = cell row ''voucher_no''
      in if voucher = [] then group_rows rows gs (errs @ [MissingVoucher n])
         else group_rows rows (add_group voucher (n, row) gs) errs)"

record code_tables =
  fund_ids :: "string \<rightharpoonup> int"
  dept_ids :: "string \<rightharpoonup> int"
  acct_ids :: "string \<rightharpoonup> int"

definition code_tables_of :: "ledger \<Rightarrow> code_tables" where
  "code_tables_of db =
     \<lparr>fund_ids = map_of (rev (map (\<lambda>f. (fund_code f, fund_id f)) (funds db))),
      dept_ids = map_of (rev (map (\<lambda>d. (dept_code d, dept_id d)) (departments db))),
      acct_ids = map_of (rev (map (\<lambda>a. (acct_code a, acct_id a)) (accounts db)))\<rparr>"

text \<open>One row of a voucher: the lines collected so far and the problems grow.\<close>

definition row_line :: "code_tables \<Rightarrow> journal_line_in list \<times> problem list \<Rightarrow> nat \<times> csv_row \<Rightarrow>
    ledger_error + journal_line_in list \<times> problem list" where
  "row_line ct st item =
     (let (ls, errs) = st; (n, row) = item;
          fid = fund_ids ct (cell row ''fund_code'');
          did = dept_ids ct (cell row ''department_code'');
          aid = acct_ids ct (cell row ''account_code'');
          errs1 = errs @ (if fid = None then [UnknownFund n] else [])
                       @ (if did = None then [UnknownDepartment n] else [])
                       @ (if aid = None then [UnknownAccount n] else [])
      in bindR (parse_amount (row ''debit'') n ''debit'') (\<lambda>(debit, e1).
         bindR (parse_amount (row ''credit'') n ''credit'') (\<lambda>(credit, e2).
         let errs2 = errs1 @ e1 @ e2
         in case (fid, did, aid) of
              (Some f, Some d, Some a) \<Rightarrow>
                if (0 < debit) = (0 < credit) then Inr (ls, errs2 @ [NotOneSide n])
                else Inr (ls @ [\<lparr>li_fund_id = f, li_department_id = d, li_account_id = a,
                                 li_debit_cents = debit, li_credit_cents = credit\<rparr>], errs2)
            | _ \<Rightarrow> Inr (ls, errs2))))"

text \<open>One voucher: its payload when it has lines and balances.\<close>

definition voucher_payload :: "code_tables \<Rightarrow> string \<Rightarrow> int \<Rightarrow>
    (string \<times> journal_create) list \<times> problem list \<Rightarrow> string \<times> (nat \<times> csv_row) list \<Rightarrow>
    ledger_error + (string \<times> journal_create) list \<times> problem list" where
  "voucher_payload ct key pid st grp =
     (let (payloads, errs) = st; (voucher, items) = grp
      in bindR (foldR (row_line ct) ([], errs) items) (\<lambda>(ls, errs').
         if ls = [] then Inr (payloads, errs')
         else
           (let total_debit = (\<Sum>l\<leftarrow>ls. li_debit_cents l); total_credit = (\<Sum>l\<leftarrow>ls. li_credit_cents l)
            in if total_debit = 0 \<or> total_debit \<noteq> total_credit
               then Inr (payloads, errs' @ [Unbalanced voucher])
               else
                 (let p = \<lparr>jc_idempotency_key = key @ '':'' @ voucher, jc_period_id = pid,
                           jc_memo = ''csv voucher '' @ voucher, jc_encumbrance_id = None,
                           jc_lines = ls\<rparr>
                  in bindR (guardR (valid_journal_create p) (PyError ''ValidationError''))
                       (\<lambda>_. Inr (payloads @ [(voucher, p)], errs'))))))"

section \<open>The import\<close>

record import_result =
  ir_voucher_no :: string
  ir_entry_id :: int
  ir_replayed :: bool

definition post_voucher :: "digest_fn \<Rightarrow> (nat \<Rightarrow> post_env) \<Rightarrow> string \<Rightarrow>
    import_result list \<times> ledger \<Rightarrow> nat \<times> string \<times> journal_create \<Rightarrow>
    ledger_error + import_result list \<times> ledger" where
  "post_voucher digest envs actor st item =
     (let (results, db) = st; (i, voucher, payload) = item
      in bindR (post_journal digest (envs i) payload actor Csv None db) (\<lambda>((e, replayed), db').
           Inr (results @ [\<lparr>ir_voucher_no = voucher, ir_entry_id = je_id e, ir_replayed = replayed\<rparr>], db')))"

definition MAX_CSV_ROWS :: int where
  "MAX_CSV_ROWS = 2000"

definition MAX_CSV_BYTES :: int where
  "MAX_CSV_BYTES = 4 * 1024 * 1024"

definition import_payloads :: "csv_reader \<Rightarrow> ledger \<Rightarrow> int \<Rightarrow> string \<Rightarrow> string \<Rightarrow>
    ledger_error + (string \<times> journal_create) list" where
  "import_payloads reader db pid key raw_text =
     bindR (reader raw_text) (\<lambda>(fieldnames, read_rows).
     case fieldnames of
       None \<Rightarrow> Inl (DomainError 422 ''csv-bad-header'' [])
     | Some fs \<Rightarrow>
         if fs = [] \<or> \<not> required_fields \<subseteq> strip ` set fs
         then Inl (DomainError 422 ''csv-bad-header'' [])
         else bindR read_rows (\<lambda>rows.
         if rows = [] then Inl (DomainError 422 ''csv-empty'' [])
         else if int (length rows) > MAX_CSV_ROWS then Inl (DomainError 422 ''csv-too-many-rows'' [])
         else
           (let (groups, errs) = group_rows (enumerate 2 rows) [] []
            in bindR (foldR (voucher_payload (code_tables_of db) key pid) ([], errs) groups)
                 (\<lambda>(payloads, errs').
                   if errs' \<noteq> [] then Inl (DomainError 422 ''csv-validation-failed'' errs')
                   else Inr payloads))))"

text \<open>\<open>raw\<close> is the size of the upload and its text when it decodes as UTF-8.\<close>

definition import_body :: "digest_fn \<Rightarrow> csv_reader \<Rightarrow> (nat \<Rightarrow> post_env) \<Rightarrow> int \<Rightarrow> int \<Rightarrow> string \<Rightarrow>
    int \<times> string option \<Rightarrow> current_user \<Rightarrow> ledger \<Rightarrow> ledger_error + import_result list \<times> ledger" where
  "import_body digest reader envs year period key raw user db =
     (case row_by (\<lambda>p. (fp_year p, fp_period p)) (year, period) (periods db) of
        None \<Rightarrow> Inl (DomainError 404 ''period-not-found'' [])
      | Some p \<Rightarrow>
          if fst raw > MAX_CSV_BYTES then Inl (DomainError 422 ''csv-too-large'' [])
          else case snd raw of
            None \<Rightarrow> Inl (DomainError 422 ''csv-invalid-encoding'' [])
          | Some raw_text \<Rightarrow>
              bindR (import_payloads reader db (fp_id p) key raw_text) (\<lambda>payloads.
              bindR (foldR (post_voucher digest envs (username user)) ([], db) (enumerate 0 payloads))
                (\<lambda>(results, db'). bindR (flush db') (\<lambda>db''. Inr (results, db'')))))"

definition import_journals_csv :: "digest_fn \<Rightarrow> csv_reader \<Rightarrow> (nat \<Rightarrow> post_env) \<Rightarrow> headers \<Rightarrow>
    int \<Rightarrow> int \<Rightarrow> string \<Rightarrow> int \<times> string option \<Rightarrow> ledger \<Rightarrow> import_result list response" where
  "import_journals_csv digest reader envs h year period key raw =
     endpoint Clerk h (1 \<le> length key \<and> length key \<le> 100)
       (import_body digest reader envs year period key raw)"

end
