(* ===== verification/Ledger_Invariants.thy ===== *)
theory Ledger_Invariants
  imports Ledger_Import
begin

text \<open>
  What the ledger promises and what one successful operation does: the effect of a posting on
  entries, lines, budgets and encumbrances in closed form; the invariant (balanced entries,
  encumbered totals backed by open encumbrances, the database constraints); and the evolution
  order (history is appended, closed encumbrances and identities of budgets never change).
\<close>

section \<open>Specification\<close>

definition is_expense :: "ledger \<Rightarrow> int \<Rightarrow> bool" where
  "is_expense db aid \<longleftrightarrow> (case row_by acct_id aid (accounts db) of None \<Rightarrow> False | Some a \<Rightarrow> acct_type a = Expense)"

definition charges :: "ledger \<Rightarrow> int \<Rightarrow> budget \<Rightarrow> journal_line \<Rightarrow> bool" where
  "charges db year b l \<longleftrightarrow> is_expense db (jl_account_id l) \<and>
     budget_dims b = (year, jl_fund_id l, jl_department_id l, jl_account_id l)"

text \<open>What a list of lines adds to the actual spending of a budget.\<close>

definition charge :: "ledger \<Rightarrow> int \<Rightarrow> journal_line list \<Rightarrow> budget \<Rightarrow> int" where
  "charge db year ls b = (\<Sum>l\<leftarrow>ls. if charges db year b l then jl_debit_cents l - jl_credit_cents l else 0)"

definition released :: "encumbrance option \<Rightarrow> budget \<Rightarrow> int" where
  "released enc b = (case enc of None \<Rightarrow> 0
     | Some e \<Rightarrow> if bud_id b = enc_budget_id e then enc_amount_cents e else 0)"

definition balanced :: "ledger \<Rightarrow> journal_entry \<Rightarrow> bool" where
  "balanced db e \<longleftrightarrow>
     (let ls = entry_lines db (je_id e)
      in (\<Sum>l\<leftarrow>ls. jl_debit_cents l) = (\<Sum>l\<leftarrow>ls. jl_credit_cents l) \<and> 0 < (\<Sum>l\<leftarrow>ls. jl_debit_cents l))"

definition open_amount :: "int \<Rightarrow> encumbrance \<Rightarrow> int" where
  "open_amount bid e = (if enc_budget_id e = bid \<and> enc_status e = EncOpen then enc_amount_cents e else 0)"

definition open_total :: "ledger \<Rightarrow> int \<Rightarrow> int" where
  "open_total db bid = (\<Sum>e\<leftarrow>encumbrances db. open_amount bid e)"

definition backed :: "ledger \<Rightarrow> bool" where
  "backed db \<longleftrightarrow> (\<forall>b \<in> set (budgets db). encumbered_cents b = open_total db (bud_id b))"

definition ledger_inv :: "ledger \<Rightarrow> bool" where
  "ledger_inv db \<longleftrightarrow> constraints db \<and> (\<forall>e \<in> set (entries db). balanced db e) \<and> backed db"

section \<open>Budget effects\<close>

lemma set_actual_0 [simp]: "set_actual 0 b = b"
  by (simp add: set_actual_def)

lemma set_encumbered_0 [simp]: "set_encumbered 0 b = b"
  by (simp add: set_encumbered_def)

lemma set_budget_fields [simp]:
  "bud_id (set_actual d b) = bud_id b" "bud_id (set_encumbered d b) = bud_id b"
  "budget_dims (set_actual d b) = budget_dims b" "budget_dims (set_encumbered d b) = budget_dims b"
  "amount_cents (set_actual d b) = amount_cents b" "amount_cents (set_encumbered d b) = amount_cents b"
  "encumbered_cents (set_actual d b) = encumbered_cents b"
  "encumbered_cents (set_encumbered d b) = encumbered_cents b + d"
  "actual_cents (set_actual d b) = actual_cents b + d"
  "actual_cents (set_encumbered d b) = actual_cents b"
  by (simp_all add: set_actual_def set_encumbered_def budget_dims_def)

lemma close_encumbrance_fields [simp]:
  "enc_id (close_encumbrance st je now e) = enc_id e"
  "enc_budget_id (close_encumbrance st je now e) = enc_budget_id e"
  "enc_amount_cents (close_encumbrance st je now e) = enc_amount_cents e"
  "enc_status (close_encumbrance st je now e) = st"
  by (simp_all add: close_encumbrance_def)

lemma apply_delta_Inr:
  assumes "apply_delta db bd = Inr db'"
  shows "db' = db\<lparr>budgets := upd_by bud_id (fst bd) (set_actual (snd bd)) (budgets db)\<rparr>"
  using assms by (auto simp: apply_delta_def Let_def split: prod.splits option.splits if_splits)

lemma slot_of_simps [simp]:
  "slot_of [] b = 0"
  "slot_of ((b', d) # ds) b = (if b' = b then d else slot_of ds b)"
  by (simp_all add: slot_of_def)

lemma fst_add_slot: "fst ` set (add_slot b d ds) = insert b (fst ` set ds)"
  by (induction b d ds rule: add_slot.induct) auto

lemma distinct_add_slot: "distinct (map fst ds) \<Longrightarrow> distinct (map fst (add_slot b d ds))"
proof (induction b d ds rule: add_slot.induct)
  case (1 b d)
  then show ?case by simp
next
  case (2 b d b' d' ds)
  have "b' \<notin> fst ` set ds" using 2(2) by simp
  with 2 show ?case using fst_add_slot[of b d ds] by auto
qed

lemma slot_of_add_slot: "slot_of (add_slot b d ds) b' = slot_of ds b' + (if b' = b then d else 0)"
  by (induction b d ds rule: add_slot.induct) auto

lemma slot_of_absent: "b \<notin> fst ` set ds \<Longrightarrow> slot_of ds b = 0"
  by (induction ds) auto

lemma foldR_apply_delta:
  assumes "foldR apply_delta db ds = Inr db'" and "distinct (map fst ds)"
  shows "db' = db\<lparr>budgets := map (\<lambda>b. set_actual (slot_of ds (bud_id b)) b) (budgets db)\<rparr>"
  using assms
proof (induction ds arbitrary: db)
  case Nil
  then show ?case by simp
next
  case (Cons bd ds)
  obtain bid d where bd: "bd = (bid, d)" by (cases bd)
  from Cons.prems obtain db1 where step: "apply_delta db bd = Inr db1"
    and rest: "foldR apply_delta db1 ds = Inr db'"
    by (auto simp: bindR_Inr_iff)
  have db1: "db1 = db\<lparr>budgets := upd_by bud_id bid (set_actual d) (budgets db)\<rparr>"
    using apply_delta_Inr[OF step] bd by simp
  have absent: "slot_of ds bid = 0"
    using Cons.prems(2) bd by (intro slot_of_absent) simp
  have "db' = db1\<lparr>budgets := map (\<lambda>b. set_actual (slot_of ds (bud_id b)) b) (budgets db1)\<rparr>"
    using Cons.prems(2) by (intro Cons.IH rest) simp
  moreover have "map (\<lambda>b. set_actual (slot_of ds (bud_id b)) b) (budgets db1) =
      map (\<lambda>b. set_actual (slot_of (bd # ds) (bud_id b)) b) (budgets db)"
    using absent by (auto simp: db1 bd upd_by_def)
  ultimately show ?case by (simp add: db1)
qed

lemma find_budget_Some_iff:
  assumes "distinct (map bud_id (budgets db))" and "distinct (map budget_dims (budgets db))"
    and "b \<in> set (budgets db)" and "find_budget db y f d a = Some b'"
  shows "bud_id b = bud_id b' \<longleftrightarrow> budget_dims b = (y, f, d, a)"
proof -
  from assms(4) have b': "b' \<in> set (budgets db)" "budget_dims b' = (y, f, d, a)"
    by (auto simp: find_budget_def dest: row_by_SomeD)
  from assms(1,2) have inj: "inj_on bud_id (set (budgets db))" "inj_on budget_dims (set (budgets db))"
    by (simp_all add: distinct_map)
  have "b = b'" if "bud_id b = bud_id b'"
    using inj_onD[OF inj(1) that assms(3) b'(1)] .
  moreover have "b = b'" if "budget_dims b = (y, f, d, a)"
    using inj_onD[OF inj(2) _ assms(3) b'(1)] that b'(2) by simp
  ultimately show ?thesis using b'(2) by blast
qed

lemma find_budget_None_iff:
  "find_budget db y f d a = None \<longleftrightarrow> (\<forall>b \<in> set (budgets db). budget_dims b \<noteq> (y, f, d, a))"
  unfolding find_budget_def row_by_None_iff by (auto intro: rev_image_eqI)

lemma line_delta_slot:
  assumes "distinct (map bud_id (budgets db))" and "distinct (map budget_dims (budgets db))"
    and "b \<in> set (budgets db)"
    and "accts (jl_account_id l) = row_by acct_id (jl_account_id l) (accounts db)"
    and "line_delta db year accts ds l = Inr ds'"
  shows "slot_of ds' (bud_id b) = slot_of ds (bud_id b) +
      (if charges db year b l then jl_debit_cents l - jl_credit_cents l else 0)"
proof -
  from assms(4,5) obtain a where a: "row_by acct_id (jl_account_id l) (accounts db) = Some a"
    by (auto simp: line_delta_def split: option.splits)
  show ?thesis
  proof (cases "find_budget db year (jl_fund_id l) (jl_department_id l) (jl_account_id l)")
    case None
    with assms(3) have "\<not> charges db year b l"
      by (auto simp: charges_def find_budget_None_iff)
    with None assms(4,5) a show ?thesis
      by (auto simp: line_delta_def split: if_splits)
  next
    case (Some b')
    from find_budget_Some_iff[OF assms(1,2,3) Some] assms(4,5) a Some show ?thesis
      by (auto simp: line_delta_def charges_def is_expense_def slot_of_add_slot split: if_splits)
  qed
qed

lemma line_deltas_slot:
  assumes "distinct (map bud_id (budgets db))" and "distinct (map budget_dims (budgets db))"
    and "b \<in> set (budgets db)"
    and "\<And>l. l \<in> set ls \<Longrightarrow> accts (jl_account_id l) = row_by acct_id (jl_account_id l) (accounts db)"
    and "foldR (line_delta db year accts) ds ls = Inr ds'"
  shows "slot_of ds' (bud_id b) = slot_of ds (bud_id b) + charge db year ls b"
  using assms(4,5)
proof (induction ls arbitrary: ds)
  case Nil
  then show ?case by (simp add: charge_def)
next
  case (Cons l ls)
  from Cons.prems(2) obtain ds1 where step: "line_delta db year accts ds l = Inr ds1"
    and rest: "foldR (line_delta db year accts) ds1 ls = Inr ds'"
    by (auto simp: bindR_Inr_iff)
  have "slot_of ds' (bud_id b) = slot_of ds1 (bud_id b) + charge db year ls b"
    by (rule Cons.IH) (auto intro: Cons.prems(1) rest)
  with line_delta_slot[OF assms(1,2,3) Cons.prems(1) step] show ?case
    by (simp add: charge_def)
qed

lemma line_deltas_distinct:
  assumes "foldR (line_delta db year accts) ds ls = Inr ds'" and "distinct (map fst ds)"
  shows "distinct (map fst ds')"
  using assms(1)
  by (rule foldR_invariant[where P = "\<lambda>ds. distinct (map fst ds)"])
     (use assms(2) in \<open>auto simp: line_delta_def distinct_add_slot split: option.splits if_splits\<close>)

definition charged_budget :: "ledger \<Rightarrow> int \<Rightarrow> journal_line list \<Rightarrow> encumbrance option \<Rightarrow> budget \<Rightarrow> budget" where
  "charged_budget db year ls enc b = set_actual (charge db year ls b) (set_encumbered (- released enc b) b)"

lemma apply_budget_effects_Inr:
  assumes uniq: "distinct (map bud_id (budgets db))" "distinct (map budget_dims (budgets db))"
    and accts: "\<And>l. l \<in> set ls \<Longrightarrow> accts (jl_account_id l) = row_by acct_id (jl_account_id l) (accounts db)"
    and res: "apply_budget_effects db year ls accts enc = Inr db'"
  shows "db' = db\<lparr>budgets := map (charged_budget db year ls enc) (budgets db)\<rparr>"
proof -
  from res obtain ds where ds: "foldR (line_delta db year accts) [] ls = Inr ds"
    by (auto simp: apply_budget_effects_def bindR_Inr_iff)
  have dist: "distinct (map fst ds)" by (rule line_deltas_distinct[OF ds]) simp
  have slot: "slot_of ds (bud_id b) = charge db year ls b" if "b \<in> set (budgets db)" for b
    using line_deltas_slot[OF uniq that accts ds] by simp
  show ?thesis
  proof (cases enc)
    case None
    with res ds have "foldR apply_delta db ds = Inr db'"
      by (simp add: apply_budget_effects_def)
    from foldR_apply_delta[OF this dist] show ?thesis
      using None slot by (simp add: charged_budget_def released_def cong: map_cong)
  next
    case (Some e)
    with res ds obtain b where b: "row_by bud_id (enc_budget_id e) (budgets db) = Some b"
      and run: "foldR apply_delta (db\<lparr>budgets := upd_by bud_id (bud_id b)
                  (set_encumbered (- enc_amount_cents e)) (budgets db)\<rparr>) (add_slot (bud_id b) 0 ds) = Inr db'"
      by (auto simp: apply_budget_effects_def bindR_Inr_iff Let_def split: option.splits if_splits)
    have id: "bud_id b = enc_budget_id e" using row_by_SomeD[OF b] by simp
    have eq: "map (\<lambda>x. set_actual (slot_of (add_slot (bud_id b) 0 ds) (bud_id x)) x)
        (upd_by bud_id (bud_id b) (set_encumbered (- enc_amount_cents e)) (budgets db)) =
      map (charged_budget db year ls enc) (budgets db)"
      using Some id
      by (auto simp: charged_budget_def released_def upd_by_def slot_of_add_slot slot[symmetric])
    from foldR_apply_delta[OF run distinct_add_slot[OF dist]] show ?thesis
      by (simp add: eq)
  qed
qed

text \<open>When an encumbrance is liquidated, the lines charge its budget exactly its amount.\<close>

lemma apply_budget_effects_match:
  assumes uniq: "distinct (map bud_id (budgets db))" "distinct (map budget_dims (budgets db))"
    and accts: "\<And>l. l \<in> set ls \<Longrightarrow> accts (jl_account_id l) = row_by acct_id (jl_account_id l) (accounts db)"
    and res: "apply_budget_effects db year ls accts (Some e) = Inr db'"
  shows "\<exists>b. row_by bud_id (enc_budget_id e) (budgets db) = Some b \<and> charge db year ls b = enc_amount_cents e"
proof -
  from res obtain ds b where ds: "foldR (line_delta db year accts) [] ls = Inr ds"
    and b: "row_by bud_id (enc_budget_id e) (budgets db) = Some b"
    and slot: "slot_of (add_slot (bud_id b) 0 ds) (bud_id b) = enc_amount_cents e"
    by (auto simp: apply_budget_effects_def bindR_Inr_iff Let_def split: option.splits if_splits)
  have "b \<in> set (budgets db)" using row_by_SomeD[OF b] by simp
  from line_deltas_slot[OF uniq this accts ds] slot b show ?thesis
    by (simp add: slot_of_add_slot)
qed

end
