(* ===== verification/Ledger_Posting.thy ===== *)
theory Ledger_Posting
  imports Ledger_Invariants
begin

text \<open>
  One successful posting in closed form (\<open>post_journal_new\<close>), and the preservation of the ledger
  invariant by posting, reversal and import.
\<close>

section \<open>A posting in closed form\<close>

definition entry_of :: "digest_fn \<Rightarrow> post_env \<Rightarrow> journal_create \<Rightarrow> string \<Rightarrow> entry_source \<Rightarrow> int option \<Rightarrow>
    fiscal_period \<Rightarrow> journal_entry" where
  "entry_of digest env p actor src rvo period =
     \<lparr>je_id = env_entry_id env, je_idempotency_key = jc_idempotency_key p,
      je_payload_hash = digest p, je_period_id = fp_id period, je_memo = jc_memo p,
      je_source = src, je_reversal_of_id = rvo, je_created_by = actor,
      je_created_at = env_now env\<rparr>"

text \<open>The database after a posting: the entry and its lines appended, the budgets charged, the
  encumbrance liquidated.\<close>

definition posted :: "post_env \<Rightarrow> journal_create \<Rightarrow> journal_entry \<Rightarrow> fiscal_period \<Rightarrow>
    encumbrance option \<Rightarrow> ledger \<Rightarrow> ledger" where
  "posted env p e period enc db =
     (let ls = new_lines env (jc_lines p)
      in liquidate enc (je_id e) (env_now env)
           (db\<lparr>entries := entries db @ [e], jlines := jlines db @ ls,
               budgets := map (charged_budget db (fp_year period) ls enc) (budgets db)\<rparr>))"

lemma new_lines_fields:
  "map jl_debit_cents (new_lines env ls) = map li_debit_cents ls"
  "map jl_credit_cents (new_lines env ls) = map li_credit_cents ls"
  "map jl_account_id (new_lines env ls) = map li_account_id ls"
  by (simp_all add: new_lines_def list_eq_iff_nth_eq nth_enumerate_eq)

lemma new_lines_sums:
  "(\<Sum>l\<leftarrow>new_lines env ls. jl_debit_cents l) = (\<Sum>l\<leftarrow>ls. li_debit_cents l)"
  "(\<Sum>l\<leftarrow>new_lines env ls. jl_credit_cents l) = (\<Sum>l\<leftarrow>ls. li_credit_cents l)"
  by (simp_all add: new_lines_fields)

lemma new_lines_entry: "l \<in> set (new_lines env ls) \<Longrightarrow> jl_entry_id l = env_entry_id env"
  by (auto simp: new_lines_def)

lemma new_lines_account: "l \<in> set (new_lines env ls) \<Longrightarrow> jl_account_id l \<in> li_account_id ` set ls"
  using new_lines_fields(3)[of env ls] by (metis image_eqI image_set)

lemma validate_references_Inr:
  assumes "validate_references db ls = Inr accts"
  shows "accts = (\<lambda>i. if i \<in> li_account_id ` set ls then row_by acct_id i (accounts db) else None)"
  using assms by (auto simp: validate_references_def Let_def split: if_splits)

lemma charge_cong:
  "accounts db' = accounts db \<Longrightarrow> charge db' year ls b = charge db year ls b"
  by (simp add: charge_def charges_def is_expense_def)

lemma find_open_encumbrance_Inr:
  "find_open_encumbrance db eid = Inr enc \<longleftrightarrow>
     (case eid of None \<Rightarrow> enc = None
      | Some i \<Rightarrow> (\<exists>e. row_by enc_id i (encumbrances db) = Some e \<and> enc_status e = EncOpen \<and> enc = Some e))"
  by (auto simp: find_open_encumbrance_def split: option.splits)

lemma find_open_encumbranceD:
  "find_open_encumbrance db eid = Inr (Some e) \<Longrightarrow>
     eid = Some (enc_id e) \<and> e \<in> set (encumbrances db) \<and> enc_status e = EncOpen \<and>
     row_by enc_id (enc_id e) (encumbrances db) = Some e"
  by (auto simp: find_open_encumbrance_Inr dest: row_by_SomeD split: option.splits)

lemma post_journal_new:
  assumes post: "post_journal digest env p actor src rvo db = Inr ((e, False), db')"
  obtains period enc where
    "find_key db (jc_idempotency_key p) = None"
    and "row_by fp_id (jc_period_id p) (periods db) = Some period" and "fp_status period = Open"
    and "(\<Sum>l\<leftarrow>jc_lines p. li_debit_cents l) = (\<Sum>l\<leftarrow>jc_lines p. li_credit_cents l)"
    and "(\<Sum>l\<leftarrow>jc_lines p. li_debit_cents l) \<noteq> 0"
    and "find_open_encumbrance db (jc_encumbrance_id p) = Inr enc"
    and "e = entry_of digest env p actor src rvo period"
    and "db' = posted env p e period enc db"
    and "constraints (db\<lparr>entries := entries db @ [e], jlines := jlines db @ new_lines env (jc_lines p)\<rparr>)"
    and "constraints db'"
    and "case enc of None \<Rightarrow> True | Some c \<Rightarrow>
           \<exists>b. row_by bud_id (enc_budget_id c) (budgets db) = Some b \<and>
             charge db (fp_year period) (new_lines env (jc_lines p)) b = enc_amount_cents c"
proof -
  from post have none: "find_key db (jc_idempotency_key p) = None"
    by (auto simp: post_journal_def split: option.splits if_splits)
  with post obtain period accts where
    period: "lock_open_period db (jc_period_id p) = Inr period"
    and refs: "validate_references db (jc_lines p) = Inr accts"
    by (auto simp: post_journal_def bindR_Inr_iff)
  note sofar = none period refs
  from post sofar have
    bal: "(\<Sum>l\<leftarrow>jc_lines p. li_debit_cents l) = (\<Sum>l\<leftarrow>jc_lines p. li_credit_cents l)"
    and pos: "(\<Sum>l\<leftarrow>jc_lines p. li_debit_cents l) \<noteq> 0"
    by (auto simp: post_journal_def Let_def split: if_splits)
  with post sofar obtain enc where
    enc: "find_open_encumbrance db (jc_encumbrance_id p) = Inr enc"
    by (auto simp: post_journal_def Let_def bindR_Inr_iff)
  let ?e = "entry_of digest env p actor src rvo period"
  let ?ls = "new_lines env (jc_lines p)"
  let ?db2 = "db\<lparr>entries := entries db @ [?e], jlines := jlines db @ ?ls\<rparr>"
  from post sofar bal pos enc obtain db3 where
    e: "e = ?e" and c2: "constraints ?db2"
    and eff: "apply_budget_effects ?db2 (fp_year period) ?ls accts enc = Inr db3"
    and db': "db' = liquidate enc (je_id ?e) (env_now env) db3" and c': "constraints db'"
    by (auto simp: post_journal_def Let_def bindR_Inr_iff entry_of_def)
  have accts: "accts (jl_account_id l) = row_by acct_id (jl_account_id l) (accounts ?db2)"
    if "l \<in> set ?ls" for l
    using validate_references_Inr[OF refs] new_lines_account[OF that] by simp
  from c2 have uniq: "distinct (map bud_id (budgets ?db2))" "distinct (map budget_dims (budgets ?db2))"
    by (simp_all add: constraints_def budgets_ok_def)
  have "charged_budget ?db2 (fp_year period) ?ls enc = charged_budget db (fp_year period) ?ls enc"
    by (intro ext) (simp add: charged_budget_def charge_cong[of ?db2 db])
  with apply_budget_effects_Inr[OF uniq accts eff] db' e
  have "db' = posted env p e period enc db"
    by (simp add: posted_def Let_def)
  moreover from period have "row_by fp_id (jc_period_id p) (periods db) = Some period"
    and "fp_status period = Open"
    by (auto simp: lock_open_period_def split: option.splits if_splits)
  moreover have "case enc of None \<Rightarrow> True | Some c \<Rightarrow>
      \<exists>b. row_by bud_id (enc_budget_id c) (budgets db) = Some b \<and>
        charge db (fp_year period) ?ls b = enc_amount_cents c"
  proof (cases enc)
    case (Some c)
    from apply_budget_effects_match[OF uniq accts eff[unfolded Some]] show ?thesis
      by (simp add: charge_cong[of ?db2 db] Some)
  qed simp
  ultimately show thesis
    using that none bal pos enc e c2 c' by blast
qed

lemma post_journal_replay:
  assumes "post_journal digest env p actor src rvo db = Inr ((e, True), db')"
  shows "db' = db \<and> find_key db (jc_idempotency_key p) = Some e \<and> je_payload_hash e = digest p"
  using assms
  by (auto simp: post_journal_def bindR_Inr_iff Let_def split: option.splits if_splits)

lemma liquidate_simps [simp]:
  "funds (liquidate enc i n db) = funds db" "departments (liquidate enc i n db) = departments db"
  "accounts (liquidate enc i n db) = accounts db" "periods (liquidate enc i n db) = periods db"
  "audits (liquidate enc i n db) = audits db" "entries (liquidate enc i n db) = entries db"
  "jlines (liquidate enc i n db) = jlines db" "budgets (liquidate enc i n db) = budgets db"
  by (simp_all add: liquidate_def split: option.splits)

lemma posted_simps [simp]:
  "funds (posted env p e period enc db) = funds db"
  "departments (posted env p e period enc db) = departments db"
  "accounts (posted env p e period enc db) = accounts db"
  "periods (posted env p e period enc db) = periods db"
  "audits (posted env p e period enc db) = audits db"
  "entries (posted env p e period enc db) = entries db @ [e]"
  "jlines (posted env p e period enc db) = jlines db @ new_lines env (jc_lines p)"
  "budgets (posted env p e period enc db) =
     map (charged_budget db (fp_year period) (new_lines env (jc_lines p)) enc) (budgets db)"
  by (simp_all add: posted_def Let_def)

lemma posted_encumbrances:
  "encumbrances (posted env p e period enc db) =
     (case enc of None \<Rightarrow> encumbrances db
      | Some c \<Rightarrow> upd_by enc_id (enc_id c) (close_encumbrance EncLiquidated (Some (je_id e)) (env_now env))
                   (encumbrances db))"
  by (simp add: posted_def Let_def liquidate_def split: option.splits)

section \<open>Preservation of the invariant\<close>

lemma entry_lines_append:
  assumes "constraints db" and "l \<in> set ls \<Longrightarrow> True" and "jlines db' = jlines db @ ls"
    and "\<And>l. l \<in> set ls \<Longrightarrow> jl_entry_id l = i"
  shows "entry_lines db' j = entry_lines db j @ (if j = i then ls else [])"
  using assms(3,4) by (auto simp: entry_lines_def filter_empty_conv)

lemma entry_lines_unknown:
  assumes "constraints db" and "i \<notin> je_id ` set (entries db)"
  shows "entry_lines db i = []"
  using assms by (auto simp: entry_lines_def filter_empty_conv constraints_def lines_ok_def list_all_iff)

lemma balanced_cong: "jlines db' = jlines db \<Longrightarrow> balanced db' e = balanced db e"
  by (simp add: balanced_def entry_lines_def)

lemma open_amount_close [simp]:
  "st \<noteq> EncOpen \<Longrightarrow> open_amount b (close_encumbrance st je now e) = 0"
  by (simp add: open_amount_def)

lemma open_total_close:
  assumes "distinct (map enc_id (encumbrances db))" and "row_by enc_id i (encumbrances db) = Some e"
    and "enc_status e = EncOpen" and "st \<noteq> EncOpen"
    and "encumbrances db' = upd_by enc_id i (close_encumbrance st je now) (encumbrances db)"
  shows "open_total db' b = open_total db b - (if enc_budget_id e = b then enc_amount_cents e else 0)"
  using sum_list_upd_by[OF assms(1,2), of "open_amount b" "close_encumbrance st je now"] assms(3,4,5)
  by (simp add: open_total_def open_amount_def)

text \<open>The debits of a posting are positive: its lines satisfy the row constraint.\<close>

lemma new_lines_debits_nonneg:
  assumes "constraints db" and "set ls \<subseteq> set (jlines db)"
  shows "0 \<le> (\<Sum>l\<leftarrow>ls. jl_debit_cents l)"
proof (rule sum_list_nonneg)
  fix x assume "x \<in> set (map jl_debit_cents ls)"
  then obtain l where "l \<in> set (jlines db)" "x = jl_debit_cents l" using assms(2) by auto
  with assms(1) show "0 \<le> x"
    by (auto simp: constraints_def lines_ok_def line_row_ok_def list_all_iff)
qed

lemma posted_balanced:
  assumes inv: "ledger_inv db"
    and post: "post_journal digest env p actor src rvo db = Inr ((e, False), db')"
    and x: "x \<in> set (entries db')"
  shows "balanced db' x"
proof -
  from post obtain period enc where
    bal: "(\<Sum>l\<leftarrow>jc_lines p. li_debit_cents l) = (\<Sum>l\<leftarrow>jc_lines p. li_credit_cents l)"
    and pos: "(\<Sum>l\<leftarrow>jc_lines p. li_debit_cents l) \<noteq> 0"
    and e: "e = entry_of digest env p actor src rvo period"
    and db': "db' = posted env p e period enc db" and c': "constraints db'"
    by (rule post_journal_new)
  let ?ls = "new_lines env (jc_lines p)"
  from inv have c: "constraints db" by (simp add: ledger_inv_def)
  have eid: "je_id e = env_entry_id env" by (simp add: e entry_of_def)
  from c' have fresh: "je_id e \<notin> je_id ` set (entries db)"
    by (auto simp: constraints_def entries_ok_def db')
  have lines: "entry_lines db' j = entry_lines db j @ (if j = je_id e then ?ls else [])" for j
    by (rule entry_lines_append[OF c]) (auto simp: db' eid new_lines_entry)
  have "0 \<le> (\<Sum>l\<leftarrow>?ls. jl_debit_cents l)"
    by (rule new_lines_debits_nonneg[OF c']) (simp add: db')
  with bal pos have ok: "balanced db' e"
    using entry_lines_unknown[OF c fresh]
    by (simp add: balanced_def lines new_lines_sums Let_def)
  show ?thesis
  proof (cases "x = e")
    case True
    with ok show ?thesis by simp
  next
    case False
    with x db' have "x \<in> set (entries db)" by simp
    moreover from this fresh have "je_id x \<noteq> je_id e" by (metis imageI)
    ultimately show ?thesis
      using inv by (auto simp: ledger_inv_def balanced_def lines)
  qed
qed

lemma posted_backed:
  assumes inv: "ledger_inv db"
    and post: "post_journal digest env p actor src rvo db = Inr ((e, False), db')"
  shows "backed db'"
proof -
  from post obtain period enc where
    enc: "find_open_encumbrance db (jc_encumbrance_id p) = Inr enc"
    and db': "db' = posted env p e period enc db" and c': "constraints db'"
    by (rule post_journal_new)
  from inv have c: "constraints db" and b: "backed db" by (simp_all add: ledger_inv_def)
  have total: "open_total db' i = open_total db i -
      (case enc of None \<Rightarrow> 0 | Some c \<Rightarrow> if enc_budget_id c = i then enc_amount_cents c else 0)" for i
  proof (cases enc)
    case None
    then show ?thesis by (simp add: open_total_def db' posted_encumbrances)
  next
    case (Some c0)
    from find_open_encumbranceD[OF enc[unfolded Some]] have
      c0: "enc_status c0 = EncOpen" "row_by enc_id (enc_id c0) (encumbrances db) = Some c0"
      by simp_all
    from c have "distinct (map enc_id (encumbrances db))"
      by (simp add: constraints_def encumbrances_ok_def)
    from open_total_close[OF this c0(2,1), of EncLiquidated db'] show ?thesis
      by (simp add: Some db' posted_encumbrances)
  qed
  have buds: "budgets db' = map (charged_budget db (fp_year period) (new_lines env (jc_lines p)) enc) (budgets db)"
    by (simp add: db')
  show ?thesis
    using b by (auto simp: backed_def total buds charged_budget_def released_def split: option.splits)
qed

lemma post_journal_inv:
  assumes inv: "ledger_inv db"
    and post: "post_journal digest env p actor src rvo db = Inr ((e, replayed), db')"
  shows "ledger_inv db'"
proof (cases replayed)
  case True
  with post have "db' = db" by (simp add: post_journal_replay)
  with inv show ?thesis by simp
next
  case False
  with post have post': "post_journal digest env p actor src rvo db = Inr ((e, False), db')" by simp
  then have "constraints db'" by (rule post_journal_new)
  with posted_balanced[OF inv post'] posted_backed[OF inv post'] show ?thesis
    by (simp add: ledger_inv_def)
qed

end
