(* ===== verification/Ledger_Service.thy ===== *)
theory Ledger_Service
  imports Ledger_Posting
begin

text \<open>
  The ledger as a service: its write requests as one data type, one step of the service per
  request, the invariant over every sequence of requests and the evolution order of the
  database. The interpretations \<open>ledger\<close> of the service contracts carry the run-level facts.
\<close>

section \<open>Requests\<close>

datatype ledger_op =
    CreateJournal headers post_env journal_create
  | ReverseEntry headers post_env int reversal_create
  | ImportCsv headers "nat \<Rightarrow> post_env" int int string "int \<times> string option"
  | CreateBudget headers int budget_create
  | CreateEncumbrance headers int int encumbrance_create
  | CancelEncumbrance headers int int
  | CreatePeriod headers int int int
  | ClosePeriod headers int int int
  | ReopenPeriod headers int int int string

text \<open>What a deployment fixes: the digest, the default memo of a reversal, the CSV reader.\<close>

record ledger_setup =
  su_digest :: digest_fn
  su_memo :: "int \<Rightarrow> string"
  su_reader :: csv_reader

fun ledger_step :: "ledger_setup \<Rightarrow> ledger_op \<Rightarrow> ledger \<Rightarrow> ledger" where
  "ledger_step su (CreateJournal h env p) db = snd (create_journal (su_digest su) env h p db)"
| "ledger_step su (ReverseEntry h env i p) db = snd (reverse_entry (su_digest su) (su_memo su) env h i p db)"
| "ledger_step su (ImportCsv h envs y m key raw) db =
     snd (import_journals_csv (su_digest su) (su_reader su) envs h y m key raw db)"
| "ledger_step su (CreateBudget h nid p) db = snd (create_budget nid h p db)"
| "ledger_step su (CreateEncumbrance h now nid p) db = snd (create_encumbrance now nid h p db)"
| "ledger_step su (CancelEncumbrance h now i) db = snd (cancel_encumbrance_endpoint now h i db)"
| "ledger_step su (CreatePeriod h nid y m) db = snd (create_period nid h y m db)"
| "ledger_step su (ClosePeriod h now nid i) db = snd (close_period_endpoint now nid h i db)"
| "ledger_step su (ReopenPeriod h now nid i r) db = snd (reopen_period_endpoint now nid h i r db)"

definition ledger_run :: "ledger_setup \<Rightarrow> ledger_op list \<Rightarrow> ledger \<Rightarrow> ledger" where
  "ledger_run su ops db = fold (ledger_step su) ops db"

text \<open>
  Every service operation relates the database before to the one after in one of a few shapes;
  \<open>posting_step\<close> is the one of the journal operations.
\<close>

inductive posting_step :: "digest_fn \<Rightarrow> ledger \<Rightarrow> ledger \<Rightarrow> bool" for digest where
  same: "posting_step digest db db"
| post: "posting_step digest db db1 \<Longrightarrow>
    post_journal digest env p actor src rvo db1 = Inr ((e, r), db2) \<Longrightarrow> posting_step digest db db2"

lemma posting_step_preserves:
  assumes "posting_step digest db db'" and "P db"
    and "\<And>env p actor src rvo db e r db'. P db \<Longrightarrow>
      post_journal digest env p actor src rvo db = Inr ((e, r), db') \<Longrightarrow> P db'"
  shows "P db'"
  using assms(1,2)
  by (induction rule: posting_step.induct) (auto intro: assms(3))

lemma reverse_journal_Inr:
  assumes "reverse_journal digest memo env i p actor db = Inr ((e, r), db')"
  shows "(db' = db \<and> r) \<or>
    (\<exists>payload. payload = reversal_payload memo db i p \<and> valid_journal_create payload \<and>
       row_by je_id i (entries db) \<noteq> None \<and>
       row_by je_reversal_of_id (Some i) (entries db) = None \<and>
       post_journal digest env payload actor Reversal (Some i) db = Inr ((e, r), db'))"
  using assms
  by (auto simp: reverse_journal_def bindR_Inr_iff Let_def split: option.splits if_splits)

lemma create_journal_posting:
  "posting_step digest db (snd (create_journal digest env h p db))"
  unfolding create_journal_def
proof (rule endpoint_preserves[where P = "posting_step digest db"])
  show "posting_step digest db db" by (rule posting_step.same)
next
  fix u a db'
  assume "post_or_conflict digest env p u db = Inr (a, db')"
  then show "posting_step digest db db'"
    by (cases a) (auto dest!: post_or_conflict_Inr intro: posting_step.intros)
qed

lemma reverse_entry_posting:
  "posting_step digest db (snd (reverse_entry digest memo env h i p db))"
  unfolding reverse_entry_def
proof (rule endpoint_preserves[where P = "posting_step digest db"])
  show "posting_step digest db db" by (rule posting_step.same)
next
  fix u a db'
  assume "reverse_or_conflict digest memo env i p u db = Inr (a, db')"
  then obtain e r where "reverse_journal digest memo env i p (username u) db = Inr ((e, r), db')"
    by (cases a) (auto dest!: reverse_or_conflict_Inr)
  then show "posting_step digest db db'"
    by (auto dest!: reverse_journal_Inr intro: posting_step.intros)
qed

lemma post_vouchers_posting:
  assumes "foldR (post_voucher digest envs actor) ([], db) items = Inr (results, db')"
  shows "posting_step digest db db'"
proof -
  have "case (results, db') of (_, d) \<Rightarrow> posting_step digest db d"
    by (rule foldR_invariant[OF assms])
       (auto simp: post_voucher_def bindR_Inr_iff intro: posting_step.intros)
  then show ?thesis by simp
qed

lemma import_posting:
  "posting_step digest db (snd (import_journals_csv digest reader envs h y m key raw db))"
  unfolding import_journals_csv_def
  by (rule endpoint_preserves)
     (auto simp: import_body_def bindR_Inr_iff posting_step.same split: option.splits if_splits
        intro: post_vouchers_posting)

section \<open>The invariant\<close>

lemma ledger_inv_frame:
  assumes "ledger_inv db" and "constraints db'" and "entries db' = entries db"
    and "jlines db' = jlines db" and "budgets db' = budgets db" and "encumbrances db' = encumbrances db"
  shows "ledger_inv db'"
  using assms by (auto simp: ledger_inv_def balanced_cong[OF assms(4)] backed_def open_total_def)

lemma posting_step_inv: "posting_step digest db db' \<Longrightarrow> ledger_inv db \<Longrightarrow> ledger_inv db'"
  by (rule posting_step_preserves) (auto intro: post_journal_inv)

lemma approve_encumbrance_inv:
  assumes inv: "ledger_inv db" and ok: "approve_encumbrance now nid p actor db = Inr (e, db')"
  shows "ledger_inv db'"
proof -
  from ok obtain b where b: "find_budget db (ec_year p) (ec_fund_id p) (ec_department_id p) (ec_account_id p) = Some b"
    and e: "open_amount i e = (if bud_id b = i then ec_amount_cents p else 0)"
    and buds: "budgets db' = upd_by bud_id (bud_id b) (set_encumbered (ec_amount_cents p)) (budgets db)"
    and encs: "encumbrances db' = encumbrances db @ [e]"
    and rest: "constraints db'" "entries db' = entries db" "jlines db' = jlines db" for i
    by (auto simp: approve_encumbrance_def bindR_Inr_iff Let_def open_amount_def split: option.splits if_splits)
  have total: "open_total db' i = open_total db i + (if bud_id b = i then ec_amount_cents p else 0)" for i
    by (simp add: open_total_def encs e)
  have "backed db'"
    using inv by (auto simp: backed_def total buds ledger_inv_def dest!: set_upd_byD)
  with inv rest show ?thesis by (simp add: ledger_inv_def balanced_cong[OF rest(3)])
qed

lemma cancel_encumbrance_inv:
  assumes inv: "ledger_inv db" and ok: "cancel_encumbrance now i db = Inr (c, db')"
  shows "ledger_inv db'"
proof -
  from ok obtain e b where e: "row_by enc_id i (encumbrances db) = Some e" "enc_status e = EncOpen"
    and b: "row_by bud_id (enc_budget_id e) (budgets db) = Some b"
    and buds: "budgets db' = upd_by bud_id (bud_id b) (set_encumbered (- enc_amount_cents e)) (budgets db)"
    and encs: "encumbrances db' = upd_by enc_id i (close_encumbrance EncCancelled (enc_journal_entry_id e) now) (encumbrances db)"
    and rest: "constraints db'" "entries db' = entries db" "jlines db' = jlines db"
    by (auto simp: cancel_encumbrance_def bindR_Inr_iff Let_def split: option.splits if_splits)
  from inv have "distinct (map enc_id (encumbrances db))"
    by (simp add: ledger_inv_def constraints_def encumbrances_ok_def)
  from open_total_close[OF this e _ encs]
  have total: "open_total db' j = open_total db j - (if enc_budget_id e = j then enc_amount_cents e else 0)" for j
    by simp
  have bid: "bud_id b = enc_budget_id e" using row_by_SomeD[OF b] by simp
  from inv have "backed db" by (simp add: ledger_inv_def)
  then have "backed db'"
    by (auto simp: backed_def total buds bid dest!: set_upd_byD)
  with inv rest show ?thesis by (simp add: ledger_inv_def balanced_cong[OF rest(3)])
qed

lemma create_budget_inv:
  assumes inv: "ledger_inv db"
  shows "ledger_inv (snd (create_budget nid h p db))"
  unfolding create_budget_def
proof (rule endpoint_preserves[where P = ledger_inv, OF inv])
  fix u a db'
  assume "(case find_budget db (bc_year p) (bc_fund_id p) (bc_department_id p) (bc_account_id p) of
         Some b \<Rightarrow> Inl (DomainError 409 ''budget-exists'' [])
       | None \<Rightarrow>
           (let b = \<lparr>bud_id = nid, bud_year = bc_year p, bud_fund_id = bc_fund_id p,
                     bud_department_id = bc_department_id p, bud_account_id = bc_account_id p,
                     amount_cents = bc_amount_cents p, encumbered_cents = 0, actual_cents = 0\<rparr>
            in bindR (flush (db\<lparr>budgets := budgets db @ [b]\<rparr>)) (\<lambda>db'. Inr (b, db')))) = Inr (a, db')"
  then have buds: "budgets db' = budgets db @ [a]" and a: "bud_id a = nid" "encumbered_cents a = 0"
    and rest: "constraints db'" "entries db' = entries db" "jlines db' = jlines db"
      "encumbrances db' = encumbrances db"
    by (auto simp: bindR_Inr_iff Let_def split: option.splits)
  from rest(1) have fresh: "nid \<notin> bud_id ` set (budgets db)"
    by (auto simp: constraints_def budgets_ok_def buds a)
  have total: "open_total db' i = open_total db i" for i
    by (simp add: open_total_def rest)
  have "enc_budget_id e \<noteq> nid" if "e \<in> set (encumbrances db)" for e
    using inv fresh that by (auto simp: ledger_inv_def constraints_def encumbrances_ok_def list_all_iff)
  then have "open_total db nid = 0"
    by (simp add: open_total_def open_amount_def cong: map_cong)
  with inv have "backed db'"
    by (auto simp: backed_def total buds a ledger_inv_def)
  with inv rest show "ledger_inv db'" by (simp add: ledger_inv_def balanced_cong[OF rest(3)])
qed

lemma periods_inv:
  assumes inv: "ledger_inv db"
  shows "ledger_inv (snd (create_period nid h y m db))"
    and "ledger_inv (snd (close_period_endpoint now nid h i db))"
    and "ledger_inv (snd (reopen_period_endpoint now nid h i r db))"
proof -
  show "ledger_inv (snd (create_period nid h y m db))"
    unfolding create_period_def
    by (rule endpoint_preserves[where P = ledger_inv, OF inv])
       (auto simp: bindR_Inr_iff Let_def split: option.splits intro: ledger_inv_frame[OF inv])
  show "ledger_inv (snd (close_period_endpoint now nid h i db))"
    unfolding close_period_endpoint_def
    by (rule endpoint_preserves[where P = ledger_inv, OF inv])
       (auto simp: close_period_def bindR_Inr_iff Let_def split: if_splits intro: ledger_inv_frame[OF inv])
  show "ledger_inv (snd (reopen_period_endpoint now nid h i r db))"
    unfolding reopen_period_endpoint_def
    by (rule endpoint_preserves[where P = ledger_inv, OF inv])
       (auto simp: reopen_period_def bindR_Inr_iff Let_def split: if_splits intro: ledger_inv_frame[OF inv])
qed

lemma encumbrances_inv:
  assumes inv: "ledger_inv db"
  shows "ledger_inv (snd (create_encumbrance now nid h p db))"
    and "ledger_inv (snd (cancel_encumbrance_endpoint now h i db))"
proof -
  show "ledger_inv (snd (create_encumbrance now nid h p db))"
    unfolding create_encumbrance_def
    by (rule endpoint_preserves[where P = ledger_inv, OF inv]) (rule approve_encumbrance_inv[OF inv])
  show "ledger_inv (snd (cancel_encumbrance_endpoint now h i db))"
    unfolding cancel_encumbrance_endpoint_def
    by (rule endpoint_preserves[where P = ledger_inv, OF inv]) (rule cancel_encumbrance_inv[OF inv])
qed

lemma ledger_step_inv: "ledger_inv db \<Longrightarrow> ledger_inv (ledger_step su op db)"
proof (induction su op db rule: ledger_step.induct)
  case (1 su h env p db)
  then show ?case using posting_step_inv[OF create_journal_posting] by simp
next
  case (2 su h env i p db)
  then show ?case using posting_step_inv[OF reverse_entry_posting] by simp
next
  case (3 su h envs y m key raw db)
  then show ?case using posting_step_inv[OF import_posting] by simp
qed (simp_all add: create_budget_inv periods_inv encumbrances_inv)

end
