(* ===== verification/Ledger_History.thy ===== *)
theory Ledger_History
  imports Ledger_Service
begin

text \<open>
  How the ledger's database evolves: entries, lines and audit records are only appended, budgets
  keep their identity and amount, and an encumbrance that was liquidated or cancelled keeps its
  row. The service contracts are interpreted here on the model's step function.
\<close>

section \<open>The evolution order\<close>

definition budget_identity :: "budget \<Rightarrow> int \<times> (int \<times> int \<times> int \<times> int) \<times> int" where
  "budget_identity b = (bud_id b, budget_dims b, amount_cents b)"

definition period_identity :: "fiscal_period \<Rightarrow> int \<times> int \<times> int" where
  "period_identity p = (fp_id p, fp_year p, fp_period p)"

lemma period_identity_kept [simp]:
  "map period_identity (upd_by fp_id i (mark_closed actor now) ps) = map period_identity ps"
  "map period_identity (upd_by fp_id i mark_open ps) = map period_identity ps"
  by (auto simp: upd_by_def period_identity_def mark_closed_def mark_open_def)

definition enc_kept :: "encumbrance \<Rightarrow> encumbrance \<Rightarrow> bool" where
  "enc_kept e e' \<longleftrightarrow> enc_id e' = enc_id e \<and> enc_budget_id e' = enc_budget_id e \<and>
     enc_amount_cents e' = enc_amount_cents e \<and> (enc_status e \<noteq> EncOpen \<longrightarrow> e' = e)"

definition encs_kept :: "encumbrance list \<Rightarrow> encumbrance list \<Rightarrow> bool" where
  "encs_kept es es' \<longleftrightarrow> (\<forall>e \<in> set es. \<exists>e' \<in> set es'. enc_kept e e')"

definition ledger_le :: "ledger \<Rightarrow> ledger \<Rightarrow> bool" where
  "ledger_le a b \<longleftrightarrow> prefix (entries a) (entries b) \<and> prefix (jlines a) (jlines b) \<and>
     prefix (audits a) (audits b) \<and>
     prefix (map budget_identity (budgets a)) (map budget_identity (budgets b)) \<and>
     prefix (map period_identity (periods a)) (map period_identity (periods b)) \<and>
     (funds b, departments b, accounts b) = (funds a, departments a, accounts a) \<and>
     encs_kept (encumbrances a) (encumbrances b)"

lemma encs_kept_refl [simp]: "encs_kept es es"
  by (auto simp: encs_kept_def enc_kept_def)

lemma encs_kept_trans: "encs_kept a b \<Longrightarrow> encs_kept b c \<Longrightarrow> encs_kept a c"
  unfolding encs_kept_def enc_kept_def by metis

lemma encs_kept_closed:
  "encs_kept a b \<Longrightarrow> e \<in> set a \<Longrightarrow> enc_status e \<noteq> EncOpen \<Longrightarrow> e \<in> set b"
  by (auto simp: encs_kept_def enc_kept_def)

lemma encs_kept_append [simp]: "encs_kept es (es @ xs)"
  by (auto simp: encs_kept_def enc_kept_def)

lemma encs_kept_close:
  assumes "distinct (map enc_id es)" and "row_by enc_id i es = Some e" and "enc_status e = EncOpen"
  shows "encs_kept es (upd_by enc_id i (close_encumbrance st je now) es)"
proof -
  have "\<exists>e' \<in> set (upd_by enc_id i (close_encumbrance st je now) es). enc_kept x e'" if x: "x \<in> set es" for x
  proof (cases "enc_id x = i")
    case True
    with row_by_unique[OF assms(1) x True] assms(2) have "x = e" by simp
    with x True assms(3) show ?thesis
      by (auto simp: upd_by_def enc_kept_def intro!: bexI[of _ "close_encumbrance st je now e"])
  next
    case False
    with x show ?thesis by (auto simp: upd_by_def enc_kept_def intro!: bexI[of _ x])
  qed
  then show ?thesis by (simp add: encs_kept_def)
qed

lemma ledger_le_refl [simp]: "ledger_le db db"
  by (simp add: ledger_le_def)

lemma ledger_le_trans: "ledger_le a b \<Longrightarrow> ledger_le b c \<Longrightarrow> ledger_le a c"
  by (auto simp: ledger_le_def intro: prefix_order.trans encs_kept_trans)

lemma budget_identity_kept [simp]:
  "budget_identity (set_actual d b) = budget_identity b"
  "budget_identity (set_encumbered d b) = budget_identity b"
  by (simp_all add: budget_identity_def)

lemma budget_identity_charged [simp]: "budget_identity (charged_budget db y ls enc b) = budget_identity b"
  by (simp add: charged_budget_def)

lemma inv_distinct_encs: "ledger_inv db \<Longrightarrow> distinct (map enc_id (encumbrances db))"
  by (simp add: ledger_inv_def constraints_def encumbrances_ok_def)

lemma post_journal_le:
  assumes inv: "ledger_inv db"
    and post: "post_journal digest env p actor src rvo db = Inr ((e, r), db')"
  shows "ledger_le db db'"
proof (cases r)
  case True
  with post have "db' = db" by (simp add: post_journal_replay)
  then show ?thesis by simp
next
  case False
  with post have "post_journal digest env p actor src rvo db = Inr ((e, False), db')" by simp
  then obtain period enc where enc: "find_open_encumbrance db (jc_encumbrance_id p) = Inr enc"
    and db': "db' = posted env p e period enc db"
    by (rule post_journal_new)
  have "encs_kept (encumbrances db) (encumbrances db')"
  proof (cases enc)
    case None
    then show ?thesis by (simp add: db' posted_encumbrances)
  next
    case (Some c)
    from find_open_encumbranceD[OF enc[unfolded Some]] encs_kept_close[OF inv_distinct_encs[OF inv]]
    show ?thesis by (simp add: db' posted_encumbrances Some)
  qed
  then show ?thesis by (simp add: ledger_le_def db' comp_def)
qed

text \<open>One write endpoint moves forward: the shared shape of the non-posting cases.\<close>

lemma upd_by_identity:
  "(\<And>b. budget_identity (f b) = budget_identity b) \<Longrightarrow>
   map budget_identity (upd_by key k f bs) = map budget_identity bs"
  by (simp add: upd_by_def)

lemma approve_encumbrance_le:
  "approve_encumbrance now nid p actor db = Inr (e, db') \<Longrightarrow> ledger_le db db'"
  by (auto simp: approve_encumbrance_def bindR_Inr_iff Let_def ledger_le_def upd_by_identity
      split: option.splits if_splits)

lemma cancel_encumbrance_le:
  assumes "ledger_inv db" and "cancel_encumbrance now i db = Inr (e, db')"
  shows "ledger_le db db'"
  using assms(2) encs_kept_close[OF inv_distinct_encs[OF assms(1)]]
  by (auto simp: cancel_encumbrance_def bindR_Inr_iff Let_def ledger_le_def upd_by_identity
      split: option.splits if_splits)

lemma periods_le:
  "ledger_le db (snd (create_period nid h y m db))"
  "ledger_le db (snd (close_period_endpoint now nid h i db))"
  "ledger_le db (snd (reopen_period_endpoint now nid h i r db))"
proof -
  show "ledger_le db (snd (create_period nid h y m db))"
    unfolding create_period_def
    by (rule endpoint_preserves) (auto simp: bindR_Inr_iff Let_def ledger_le_def split: option.splits)
  show "ledger_le db (snd (close_period_endpoint now nid h i db))"
    unfolding close_period_endpoint_def
    by (rule endpoint_preserves)
       (auto simp: close_period_def bindR_Inr_iff Let_def ledger_le_def fp_close.keys_upd split: if_splits)
  show "ledger_le db (snd (reopen_period_endpoint now nid h i r db))"
    unfolding reopen_period_endpoint_def
    by (rule endpoint_preserves)
       (auto simp: reopen_period_def bindR_Inr_iff Let_def ledger_le_def fp_open.keys_upd split: if_splits)
qed

lemma budgets_le:
  assumes "ledger_inv db"
  shows "ledger_le db (snd (create_budget nid h p db))"
    and "ledger_le db (snd (create_encumbrance now nid h q db))"
    and "ledger_le db (snd (cancel_encumbrance_endpoint now h i db))"
proof -
  show "ledger_le db (snd (create_budget nid h p db))"
    unfolding create_budget_def
    by (rule endpoint_preserves) (auto simp: bindR_Inr_iff Let_def ledger_le_def split: option.splits)
  show "ledger_le db (snd (create_encumbrance now nid h q db))"
    unfolding create_encumbrance_def
    by (rule endpoint_preserves) (auto intro: approve_encumbrance_le)
  show "ledger_le db (snd (cancel_encumbrance_endpoint now h i db))"
    unfolding cancel_encumbrance_endpoint_def
    by (rule endpoint_preserves) (auto intro: cancel_encumbrance_le[OF assms])
qed

lemma posting_step_le:
  assumes "posting_step digest db db'" and "ledger_inv db"
  shows "ledger_le db db'"
proof -
  have "ledger_inv db' \<and> ledger_le db db'"
    by (rule posting_step_preserves[OF assms(1)])
       (use assms(2) in \<open>auto intro: post_journal_inv ledger_le_trans post_journal_le\<close>)
  then show ?thesis by simp
qed

lemma ledger_step_le: "ledger_inv db \<Longrightarrow> ledger_le db (ledger_step su op db)"
proof (induction su op db rule: ledger_step.induct)
  case (1 su h env p db)
  then show ?case using posting_step_le[OF create_journal_posting] by simp
next
  case (2 su h env i p db)
  then show ?case using posting_step_le[OF reverse_entry_posting] by simp
next
  case (3 su h envs y m key raw db)
  then show ?case using posting_step_le[OF import_posting] by simp
qed (simp_all add: budgets_le periods_le)

section \<open>The service contracts\<close>

interpretation ledger: evolving_service "ledger_step su" ledger_inv ledger_le for su
  by unfold_locales (auto intro: ledger_step_inv ledger_step_le ledger_le_trans)

lemmas ledger_run_inv = ledger.inv_run[folded ledger_run_def]
lemmas ledger_run_le = ledger.le_run[folded ledger_run_def]

lemma ledger_run_Cons: "ledger_run su (op # ops) db = ledger_run su ops (ledger_step su op db)"
  by (simp add: ledger_run_def)

lemma ledger_run_Nil [simp]: "ledger_run su [] db = db"
  by (simp add: ledger_run_def)

lemma find_key_mono:
  assumes "ledger_le db db'" and "find_key db k = Some e"
  shows "find_key db' k = Some e"
  using assms by (auto simp: ledger_le_def find_key_def prefix_def row_by_append)

section \<open>Idempotent posting\<close>

text \<open>The record of a posting is the entry that carries its key.\<close>

definition recorded_entry :: "string \<Rightarrow> ledger \<Rightarrow> (string \<times> journal_entry) option" where
  "recorded_entry key db = map_option (\<lambda>e. (je_payload_hash e, e)) (find_key db key)"

definition post_once :: "digest_fn \<Rightarrow> post_env \<Rightarrow> journal_create \<Rightarrow> string \<Rightarrow> entry_source \<Rightarrow> int option \<Rightarrow>
    ledger \<Rightarrow> (ledger_error + journal_entry) \<times> ledger" where
  "post_once digest env p actor src rvo db =
     in_tx (\<lambda>db. bindR (post_journal digest env p actor src rvo db) (\<lambda>((e, r), db'). Inr (e, db'))) db"

lemma post_journal_recorded:
  assumes "post_journal digest env p actor src rvo db = Inr ((e, r), db')"
  shows "find_key db' (jc_idempotency_key p) = Some e" and "je_payload_hash e = digest p"
proof -
  show "find_key db' (jc_idempotency_key p) = Some e"
  proof (cases r)
    case True
    with assms post_journal_replay[of digest env p actor src rvo db e db'] show ?thesis by simp
  next
    case False
    with assms have "post_journal digest env p actor src rvo db = Inr ((e, False), db')" by simp
    then obtain period enc where "find_key db (jc_idempotency_key p) = None"
      and "e = entry_of digest env p actor src rvo period"
      and "db' = posted env p e period enc db"
      by (rule post_journal_new)
    then show ?thesis by (simp add: find_key_def row_by_append entry_of_def)
  qed
  show "je_payload_hash e = digest p"
  proof (cases r)
    case True
    with assms post_journal_replay[of digest env p actor src rvo db e db'] show ?thesis by simp
  next
    case False
    with assms have "post_journal digest env p actor src rvo db = Inr ((e, False), db')" by simp
    then obtain period where "e = entry_of digest env p actor src rvo period"
      by (rule post_journal_new)
    then show ?thesis by (simp add: entry_of_def)
  qed
qed

interpretation posting: idempotent_request "post_once digest env p actor src rvo"
    "recorded_entry (jc_idempotency_key p)" "digest p" for digest env p actor src rvo
proof
  show "recorded_entry (jc_idempotency_key p) db' = Some (digest p, a)"
    if "post_once digest env p actor src rvo db = (Inr a, db')" for db a db'
    using that post_journal_recorded by (auto simp: post_once_def recorded_entry_def bindR_Inr_iff)
  show "post_once digest env p actor src rvo db = (Inr a, db)"
    if "recorded_entry (jc_idempotency_key p) db = Some (digest p, a)" for db a
    using that by (auto simp: post_once_def recorded_entry_def post_journal_def)
  show "\<exists>e. post_once digest env p actor src rvo db = (Inl e, db)"
    if "recorded_entry (jc_idempotency_key p) db = Some (h, a)" and "h \<noteq> digest p" for db h a
    using that by (auto simp: post_once_def recorded_entry_def post_journal_def in_tx_def)
qed

end
