(* ===== verification/Ledger_Properties.thy ===== *)
theory Ledger_Properties
  imports Ledger_History
begin

text \<open>
  The properties of the ledger, each with a witness on a small sample ledger: one fund, one
  department, a cash and an expense account, one open period and one budget.
\<close>

section \<open>A sample ledger\<close>

definition sample_ledger :: ledger where
  "sample_ledger =
     \<lparr>funds = [\<lparr>fund_id = 1, fund_code = ''F1'', fund_name = ''General''\<rparr>],
      departments = [\<lparr>dept_id = 1, dept_code = ''D1'', dept_name = ''Parks''\<rparr>],
      accounts = [\<lparr>acct_id = 1, acct_code = ''1000'', acct_name = ''Cash'', acct_type = Asset\<rparr>,
                  \<lparr>acct_id = 2, acct_code = ''5000'', acct_name = ''Supplies'', acct_type = Expense\<rparr>],
      periods = [\<lparr>fp_id = 1, fp_year = 2026, fp_period = 1, fp_status = Open,
                  fp_closed_by = None, fp_closed_at = None\<rparr>],
      audits = [], entries = [], jlines = [],
      budgets = [\<lparr>bud_id = 1, bud_year = 2026, bud_fund_id = 1, bud_department_id = 1,
                  bud_account_id = 2, amount_cents = 1000, encumbered_cents = 0, actual_cents = 0\<rparr>],
      encumbrances = []\<rparr>"

definition sample_setup :: ledger_setup where
  "sample_setup = \<lparr>su_digest = jc_idempotency_key, su_memo = (\<lambda>_. ''reversal''),
     su_reader = (\<lambda>_. Inr (None, Inr []))\<rparr>"

definition manager :: headers where
  "manager = \<lparr>x_user_name = Some ''ann'', x_user_role = Some ''finance_manager''\<rparr>"

definition sample_env :: "int \<Rightarrow> post_env" where
  "sample_env i = \<lparr>env_now = 5, env_entry_id = i, env_line_id = (\<lambda>k. 10 * i + int k)\<rparr>"

definition line_in :: "int \<Rightarrow> int \<Rightarrow> int \<Rightarrow> journal_line_in" where
  "line_in acct d c = \<lparr>li_fund_id = 1, li_department_id = 1, li_account_id = acct,
     li_debit_cents = d, li_credit_cents = c\<rparr>"

definition sample_payload :: "string \<Rightarrow> int option \<Rightarrow> journal_create" where
  "sample_payload key enc = \<lparr>jc_idempotency_key = key, jc_period_id = 1, jc_memo = '''',
     jc_encumbrance_id = enc, jc_lines = [line_in 2 300 0, line_in 1 0 300]\<rparr>"

definition sample_request :: encumbrance_create where
  "sample_request = \<lparr>ec_year = 2026, ec_fund_id = 1, ec_department_id = 1, ec_account_id = 2,
     ec_amount_cents = 300, ec_description = ''''\<rparr>"

definition sample_ops :: "ledger_op list" where
  "sample_ops = [CreateEncumbrance manager 4 1 sample_request,
     CreateJournal manager (sample_env 1) (sample_payload ''k1'' (Some 1)),
     ClosePeriod manager 6 1 1]"

lemma sample_ledger_inv: "ledger_inv sample_ledger"
proof -
  have "constraints sample_ledger" by code_simp
  moreover have "entries sample_ledger = []" by (simp add: sample_ledger_def)
  moreover have "backed sample_ledger" by (simp add: backed_def sample_ledger_def open_total_def)
  ultimately show ?thesis by (simp add: ledger_inv_def)
qed

lemma sample_run:
  "map je_id (entries (ledger_run sample_setup sample_ops sample_ledger)) = [1] \<and>
   map (\<lambda>b. (encumbered_cents b, actual_cents b)) (budgets (ledger_run sample_setup sample_ops sample_ledger)) = [(0, 300)] \<and>
   map enc_status (encumbrances (ledger_run sample_setup sample_ops sample_ledger)) = [EncLiquidated]"
  by code_simp

section \<open>Properties over runs\<close>

text \<open>C1: starting from a consistent ledger, after any sequence of write requests (from any
  users, valid or not) every posted entry has equal positive debits and credits, and every
  budget has non-negative encumbered, actual and available amounts, its encumbered amount being
  exactly the total of its open encumbrances.\<close>

theorem ledger_run_sound:
  assumes "ledger_inv db"
  shows "(\<forall>e \<in> set (entries (ledger_run su ops db)). balanced (ledger_run su ops db) e) \<and>
    (\<forall>b \<in> set (budgets (ledger_run su ops db)).
       0 \<le> encumbered_cents b \<and> 0 \<le> actual_cents b \<and> 0 \<le> available b \<and>
       encumbered_cents b = open_total (ledger_run su ops db) (bud_id b))"
proof -
  from ledger_run_inv[OF assms] have "ledger_inv (ledger_run su ops db)" .
  then show ?thesis
    by (auto simp: ledger_inv_def backed_def available_def constraints_def budgets_ok_def
        budget_row_ok_def list_all_iff)
qed

theorem ledger_run_sound_witness:
  "entries (ledger_run sample_setup sample_ops sample_ledger) \<noteq> [] \<and>
   list_all (balanced (ledger_run sample_setup sample_ops sample_ledger))
     (entries (ledger_run sample_setup sample_ops sample_ledger))"
  using ledger_run_sound[OF sample_ledger_inv, of sample_setup sample_ops] sample_run
  by (auto simp: list_all_iff)

text \<open>C2: posted entries, their lines and the audit records are append-only over any sequence of
  write requests, and an encumbrance that is liquidated or cancelled keeps its row unchanged.\<close>

theorem ledger_history_append_only:
  assumes "ledger_inv db"
  shows "prefix (entries db) (entries (ledger_run su ops db)) \<and>
    prefix (jlines db) (jlines (ledger_run su ops db)) \<and>
    prefix (audits db) (audits (ledger_run su ops db)) \<and>
    (\<forall>e \<in> set (encumbrances db). enc_status e \<noteq> EncOpen \<longrightarrow> e \<in> set (encumbrances (ledger_run su ops db)))"
proof -
  from ledger_run_le[OF assms, of su ops]
  have "prefix (entries db) (entries (ledger_run su ops db))"
    and "prefix (jlines db) (jlines (ledger_run su ops db))"
    and "prefix (audits db) (audits (ledger_run su ops db))"
    and kept: "encs_kept (encumbrances db) (encumbrances (ledger_run su ops db))"
    unfolding ledger_le_def by blast+
  then show ?thesis using encs_kept_closed[OF kept] by blast
qed

theorem ledger_history_append_only_witness:
  "\<exists>e. e \<in> set (encumbrances (ledger_run sample_setup (take 2 sample_ops) sample_ledger)) \<and>
     enc_status e = EncLiquidated \<and>
     e \<in> set (encumbrances (ledger_run sample_setup sample_ops (ledger_run sample_setup (take 2 sample_ops) sample_ledger)))"
proof -
  let ?db = "ledger_run sample_setup (take 2 sample_ops) sample_ledger"
  have "map enc_status (encumbrances ?db) = [EncLiquidated]" by code_simp
  then obtain e where e: "e \<in> set (encumbrances ?db)" "enc_status e = EncLiquidated"
    by (cases "encumbrances ?db") auto
  with ledger_history_append_only[OF ledger_run_inv[OF sample_ledger_inv], of sample_setup "take 2 sample_ops" sample_setup sample_ops]
  show ?thesis by auto
qed

section \<open>Idempotency\<close>

lemma create_journal_Inr_key:
  assumes "create_journal digest env h p db = (Inr (c, e), db')"
  shows "find_key db' (jc_idempotency_key p) = Some e \<and> je_payload_hash e = digest p \<and>
    valid_journal_create p"
proof -
  from assms obtain u where "valid_journal_create p" and "post_or_conflict digest env p u db = Inr ((c, e), db')"
    unfolding create_journal_def endpoint_Inr_iff by blast
  then show ?thesis
    using post_journal_recorded[of digest env p "username u" Manual None db e]
    by (auto dest!: post_or_conflict_Inr)
qed

lemma create_journal_known:
  assumes "find_key db (jc_idempotency_key p) = Some e" and "je_payload_hash e = digest p"
    and "valid_journal_create p" and "authorize Clerk h = Inr u"
  shows "create_journal digest env h p db = (Inr (200, e), db)"
  using assms
  by (simp add: create_journal_def endpoint_Inr_iff post_or_conflict_def post_journal_def journal_answer_def)

text \<open>C3: once a journal was accepted, repeating the request (by any authorised user, after any
  further requests, period closings included) returns the same entry with status 200 and writes
  nothing.\<close>

theorem create_journal_idempotent:
  assumes "ledger_inv db1"
    and "create_journal (su_digest su) env h p db = (Inr (c, e), db1)"
    and "authorize Clerk h' = Inr u"
  shows "create_journal (su_digest su) env' h' p (ledger_run su ops db1) =
    (Inr (200, e), ledger_run su ops db1)"
proof (rule create_journal_known[OF _ _ _ assms(3)])
  from create_journal_Inr_key[OF assms(2)]
  show "find_key (ledger_run su ops db1) (jc_idempotency_key p) = Some e"
    and "je_payload_hash e = su_digest su p" and "valid_journal_create p"
    using find_key_mono[OF ledger_run_le[OF assms(1)]] by auto
qed

theorem create_journal_idempotent_witness:
  "\<exists>e db1. create_journal (su_digest sample_setup) (sample_env 1) manager (sample_payload ''k1'' None) sample_ledger
      = (Inr (201, e), db1) \<and>
    create_journal (su_digest sample_setup) (sample_env 7) manager (sample_payload ''k1'' None)
      (ledger_run sample_setup [ClosePeriod manager 6 1 1] db1)
      = (Inr (200, e), ledger_run sample_setup [ClosePeriod manager 6 1 1] db1)"
proof -
  let ?r = "create_journal (su_digest sample_setup) (sample_env 1) manager (sample_payload ''k1'' None) sample_ledger"
  have "case fst ?r of Inr (c, e) \<Rightarrow> c = 201 | Inl _ \<Rightarrow> False" by code_simp
  then obtain e db1 where r: "?r = (Inr (201, e), db1)"
    by (cases ?r) (auto split: sum.splits)
  have step: "db1 = ledger_step sample_setup (CreateJournal manager (sample_env 1) (sample_payload ''k1'' None)) sample_ledger"
    using r by simp
  have inv: "ledger_inv db1" unfolding step by (rule ledger_step_inv[OF sample_ledger_inv])
  have "case authorize Clerk manager of Inr u \<Rightarrow> True | Inl _ \<Rightarrow> False" by code_simp
  then obtain u where "authorize Clerk manager = Inr u" by (auto split: sum.splits)
  from create_journal_idempotent[OF inv r this] r show ?thesis by blast
qed

text \<open>An idempotency key that is in use is refused with 409 for a payload with another digest,
  whatever else happened since, and nothing is written.\<close>

theorem create_journal_key_conflict:
  assumes "ledger_inv db1"
    and "create_journal (su_digest su) env h p db = (Inr (c, e), db1)"
    and "authorize Clerk h' = Inr u" and "valid_journal_create q"
    and "jc_idempotency_key q = jc_idempotency_key p" and "su_digest su q \<noteq> su_digest su p"
  shows "create_journal (su_digest su) env' h' q (ledger_run su ops db1) =
    (Inl (DomainError 409 ''idempotency-key-conflict'' []), ledger_run su ops db1)"
proof -
  from create_journal_Inr_key[OF assms(2)]
  have "find_key (ledger_run su ops db1) (jc_idempotency_key q) = Some e"
    and "je_payload_hash e \<noteq> su_digest su q"
    using find_key_mono[OF ledger_run_le[OF assms(1)]] assms(5,6) by auto
  with assms(3,4) show ?thesis
    by (simp add: create_journal_def endpoint_def in_tx_def post_or_conflict_def post_journal_def)
qed

definition memo_setup :: ledger_setup where
  "memo_setup = sample_setup\<lparr>su_digest := jc_memo\<rparr>"

theorem create_journal_key_conflict_witness:
  "\<exists>e db1. create_journal (su_digest memo_setup) (sample_env 1) manager (sample_payload ''k1'' None) sample_ledger
      = (Inr (201, e), db1) \<and>
    create_journal (su_digest memo_setup) (sample_env 2) manager
        ((sample_payload ''k1'' None)\<lparr>jc_memo := ''other''\<rparr>) db1
      = (Inl (DomainError 409 ''idempotency-key-conflict'' []), db1)"
proof -
  let ?r = "create_journal (su_digest memo_setup) (sample_env 1) manager (sample_payload ''k1'' None) sample_ledger"
  have "case fst ?r of Inr (c, e) \<Rightarrow> c = 201 | Inl _ \<Rightarrow> False" by code_simp
  then obtain e db1 where r: "?r = (Inr (201, e), db1)"
    by (cases ?r) (auto split: sum.splits)
  have step: "db1 = ledger_step memo_setup (CreateJournal manager (sample_env 1) (sample_payload ''k1'' None)) sample_ledger"
    using r by simp
  have inv: "ledger_inv db1" unfolding step by (rule ledger_step_inv[OF sample_ledger_inv])
  have "case authorize Clerk manager of Inr u \<Rightarrow> True | Inl _ \<Rightarrow> False" by code_simp
  then obtain u where u: "authorize Clerk manager = Inr u" by (auto split: sum.splits)
  have v: "valid_journal_create ((sample_payload ''k1'' None)\<lparr>jc_memo := ''other''\<rparr>)" by code_simp
  from create_journal_key_conflict[OF inv r u v, of _ "[]"] r
  show ?thesis by (simp add: memo_setup_def sample_payload_def)
qed

end
