(* ===== verification/Ledger_Effects.thy ===== *)
theory Ledger_Effects
  imports Ledger_Properties
begin

text \<open>
  Properties of single operations of the ledger: what a posting does to the budgets, liquidation,
  closed periods, reversals, approval and cancellation of encumbrances, the CSV import and the
  roles; and the cases where the code answers something else than it means.
\<close>

section \<open>Posting\<close>

text \<open>C4: a successful new posting appends exactly one entry with the payload's lines, in an open
  period, and changes every budget by exactly the charges of the expense lines on its
  dimensions, minus the released encumbrance; no other table changes except the liquidated
  encumbrance.\<close>

theorem post_journal_effect:
  assumes "post_journal digest env p actor src rvo db = Inr ((e, False), db')"
  shows "\<exists>period enc. row_by fp_id (jc_period_id p) (periods db) = Some period \<and> fp_status period = Open \<and>
    find_open_encumbrance db (jc_encumbrance_id p) = Inr enc \<and>
    entries db' = entries db @ [e] \<and> jlines db' = jlines db @ new_lines env (jc_lines p) \<and>
    budgets db' = map (\<lambda>b. b\<lparr>encumbered_cents := encumbered_cents b - released enc b,
        actual_cents := actual_cents b + charge db (fp_year period) (new_lines env (jc_lines p)) b\<rparr>) (budgets db) \<and>
    periods db' = periods db \<and> audits db' = audits db \<and> accounts db' = accounts db"
proof -
  from assms obtain period enc where
    r: "row_by fp_id (jc_period_id p) (periods db) = Some period" "fp_status period = Open"
      "find_open_encumbrance db (jc_encumbrance_id p) = Inr enc"
    and db': "db' = posted env p e period enc db"
    by (rule post_journal_new)
  have "charged_budget db (fp_year period) (new_lines env (jc_lines p)) enc =
    (\<lambda>b. b\<lparr>encumbered_cents := encumbered_cents b - released enc b,
        actual_cents := actual_cents b + charge db (fp_year period) (new_lines env (jc_lines p)) b\<rparr>)"
    by (intro ext) (simp add: charged_budget_def set_actual_def set_encumbered_def)
  with r db' show ?thesis by auto
qed

definition sample_posting :: "(journal_entry \<times> bool) \<times> ledger" where
  "sample_posting = (case post_journal jc_idempotency_key (sample_env 1) (sample_payload ''k1'' None) ''ann'' Manual None sample_ledger of
     Inr r \<Rightarrow> r | Inl _ \<Rightarrow> ((entry_of jc_idempotency_key (sample_env 1) (sample_payload ''k1'' None) ''ann'' Manual None
       (hd (periods sample_ledger)), True), sample_ledger))"

lemma sample_posting_eq:
  "post_journal jc_idempotency_key (sample_env 1) (sample_payload ''k1'' None) ''ann'' Manual None sample_ledger
     = Inr ((fst (fst sample_posting), False), snd sample_posting)"
proof -
  have "case post_journal jc_idempotency_key (sample_env 1) (sample_payload ''k1'' None) ''ann'' Manual None sample_ledger of
      Inr ((e, r), d) \<Rightarrow> \<not> r | Inl _ \<Rightarrow> False"
    by code_simp
  then show ?thesis by (auto simp: sample_posting_def split: sum.splits prod.splits)
qed

theorem post_journal_effect_witness:
  "entries (snd sample_posting) = entries sample_ledger @ [fst (fst sample_posting)]"
  using post_journal_effect[OF sample_posting_eq] by (elim exE conjE)

text \<open>Posting against an encumbrance turns the reservation into spending of the same amount:
  the budget's available amount does not change, and the encumbrance is liquidated by this entry.\<close>

theorem liquidation_keeps_available:
  assumes "ledger_inv db" and "jc_encumbrance_id p = Some i"
    and "post_journal digest env p actor src rvo db = Inr ((e, False), db')"
  shows "\<exists>c b b'. row_by enc_id i (encumbrances db) = Some c \<and>
    row_by bud_id (enc_budget_id c) (budgets db) = Some b \<and>
    row_by bud_id (enc_budget_id c) (budgets db') = Some b' \<and>
    available b' = available b \<and> actual_cents b' = actual_cents b + enc_amount_cents c \<and>
    row_by enc_id i (encumbrances db') =
      Some (c\<lparr>enc_status := EncLiquidated, enc_journal_entry_id := Some (je_id e), enc_closed_at := Some (env_now env)\<rparr>)"
proof -
  from assms(3) obtain period enc where
    enc: "find_open_encumbrance db (jc_encumbrance_id p) = Inr enc"
    and db': "db' = posted env p e period enc db"
    and m: "case enc of None \<Rightarrow> True | Some c \<Rightarrow>
           \<exists>b. row_by bud_id (enc_budget_id c) (budgets db) = Some b \<and>
             charge db (fp_year period) (new_lines env (jc_lines p)) b = enc_amount_cents c"
    by (rule post_journal_new)
  from enc assms(2) obtain c where c: "enc = Some c" "row_by enc_id i (encumbrances db) = Some c"
    by (auto simp: find_open_encumbrance_Inr)
  have ci: "enc_id c = i" using row_by_SomeD[OF c(2)] by simp
  from m c(1) obtain b where b: "row_by bud_id (enc_budget_id c) (budgets db) = Some b"
    and ch: "charge db (fp_year period) (new_lines env (jc_lines p)) b = enc_amount_cents c" by auto
  have bid: "bud_id b = enc_budget_id c" using row_by_SomeD[OF b] by simp
  let ?f = "charged_budget db (fp_year period) (new_lines env (jc_lines p)) enc"
  have ids: "bud_id (?f x) = bud_id x" for x by (simp add: charged_budget_def)
  have "row_by bud_id k (map ?f bs) = map_option ?f (row_by bud_id k bs)" for k bs
    by (induction bs) (auto simp: ids)
  with b db' have b': "row_by bud_id (enc_budget_id c) (budgets db') = Some (?f b)" by simp
  have "available (?f b) = available b \<and> actual_cents (?f b) = actual_cents b + enc_amount_cents c"
    by (simp add: charged_budget_def available_def released_def c(1) bid ch)
  moreover have "row_by enc_id i (encumbrances db') =
      Some (c\<lparr>enc_status := EncLiquidated, enc_journal_entry_id := Some (je_id e), enc_closed_at := Some (env_now env)\<rparr>)"
    using c ci by (simp add: db' posted_encumbrances enc_close.lookup_upd) (simp add: close_encumbrance_def)
  ultimately show ?thesis using b b' c(2) by blast
qed

definition reserved_ledger :: ledger where
  "reserved_ledger = ledger_step sample_setup (CreateEncumbrance manager 4 1 sample_request) sample_ledger"

lemma reserved_ledger_inv: "ledger_inv reserved_ledger"
  unfolding reserved_ledger_def by (rule ledger_step_inv[OF sample_ledger_inv])

theorem liquidation_keeps_available_witness:
  "\<exists>e db' c. post_journal jc_idempotency_key (sample_env 1) (sample_payload ''k1'' (Some 1)) ''ann'' Manual None reserved_ledger
      = Inr ((e, False), db') \<and> row_by enc_id 1 (encumbrances db') =
        Some (c\<lparr>enc_status := EncLiquidated, enc_journal_entry_id := Some (je_id e), enc_closed_at := Some (env_now (sample_env 1))\<rparr>)"
proof -
  have "case post_journal jc_idempotency_key (sample_env 1) (sample_payload ''k1'' (Some 1)) ''ann'' Manual None reserved_ledger of
      Inr ((e, r), d) \<Rightarrow> \<not> r | Inl _ \<Rightarrow> False"
    by code_simp
  then obtain e d where r: "post_journal jc_idempotency_key (sample_env 1) (sample_payload ''k1'' (Some 1)) ''ann'' Manual None reserved_ledger
      = Inr ((e, False), d)"
    by (auto split: sum.splits prod.splits)
  have i: "jc_encumbrance_id (sample_payload ''k1'' (Some 1)) = Some 1" by (simp add: sample_payload_def)
  from liquidation_keeps_available[OF reserved_ledger_inv i r] r show ?thesis by blast
qed

section \<open>Closed periods\<close>










end
