(* ===== verification/Ledger_Requests.thy ===== *)
theory Ledger_Requests
  imports Ledger_Effects
begin

text \<open>
  Properties of reversals, of encumbrances, of the roles and of the CSV import, and the requests
  that the ledger answers in a way its error texts do not say.
\<close>

section \<open>Reversals\<close>

lemma mirror_new_lines:
  "map (\<lambda>l. (jl_fund_id l, jl_department_id l, jl_account_id l, jl_debit_cents l, jl_credit_cents l))
     (new_lines env (map mirror_line ls)) =
   map (\<lambda>l. (jl_fund_id l, jl_department_id l, jl_account_id l, jl_credit_cents l, jl_debit_cents l)) ls"
  by (simp add: new_lines_def mirror_line_def list_eq_iff_nth_eq nth_enumerate_eq)

lemma charge_fields:
  "charge db year ls b =
     sum_list (map (\<lambda>(f, d, a, x, y). if is_expense db a \<and> budget_dims b = (year, f, d, a) then x - y else 0)
       (map (\<lambda>l. (jl_fund_id l, jl_department_id l, jl_account_id l, jl_debit_cents l, jl_credit_cents l)) ls))"
  by (simp add: charge_def charges_def comp_def)

lemma charge_dims: "budget_dims b' = budget_dims b \<Longrightarrow> charge db year ls b' = charge db year ls b"
  by (simp add: charge_def charges_def)

lemma charge_mirror: "charge db year (new_lines env (map mirror_line ls)) b = - charge db year ls b"
proof -
  have "charge db year (new_lines env (map mirror_line ls)) b =
      (\<Sum>l\<leftarrow>ls. if charges db year b l then jl_credit_cents l - jl_debit_cents l else 0)"
    unfolding charge_fields mirror_new_lines by (simp add: charges_def comp_def)
  also have "\<dots> = - charge db year ls b"
    unfolding charge_def by (induction ls) auto
  finally show ?thesis .
qed

lemma reverse_journal_new:
  assumes "reverse_journal digest memo env i q actor db = Inr ((r, False), db')"
  obtains period where "row_by fp_id (rc_period_id q) (periods db) = Some period" and "fp_status period = Open"
    and "r = entry_of digest env (reversal_payload memo db i q) actor Reversal (Some i) period"
    and "db' = posted env (reversal_payload memo db i q) r period None db"
    and "constraints db'"
proof -
  from reverse_journal_Inr[OF assms]
  have post: "post_journal digest env (reversal_payload memo db i q) actor Reversal (Some i) db = Inr ((r, False), db')"
    by auto
  then obtain period enc where "row_by fp_id (jc_period_id (reversal_payload memo db i q)) (periods db) = Some period"
    and "fp_status period = Open"
    and enc: "find_open_encumbrance db (jc_encumbrance_id (reversal_payload memo db i q)) = Inr enc"
    and "r = entry_of digest env (reversal_payload memo db i q) actor Reversal (Some i) period"
    and "db' = posted env (reversal_payload memo db i q) r period enc db" and "constraints db'"
    by (rule post_journal_new)
  moreover from enc have "enc = None"
    by (simp add: reversal_payload_def find_open_encumbrance_def)
  ultimately show thesis using that by (simp add: reversal_payload_def)
qed

text \<open>The lines of an entry that was just posted.\<close>

lemma posted_entry_lines:
  assumes "constraints db" and "constraints db'" and "db' = posted env p e period enc db"
    and "je_id e = env_entry_id env"
  shows "entry_lines db' (je_id e) = new_lines env (jc_lines p)"
proof -
  from assms(2,3) have "je_id e \<notin> je_id ` set (entries db)"
    by (auto simp: constraints_def entries_ok_def)
  from entry_lines_unknown[OF assms(1) this] show ?thesis
    using assms(3,4) by (auto simp: entry_lines_def filter_empty_conv new_lines_entry)
qed

lemma row_by_reversal:
  "\<exists>e \<in> set es. je_reversal_of_id e = Some i \<Longrightarrow> \<exists>x. row_by je_reversal_of_id (Some i) es = Some x"
  by (induction es) auto

text \<open>C6: a reversal is posted as a new entry that points to the original and mirrors its lines,
  debits and credits swapped; from then on a reversal of the same entry under another key is
  refused with 409 already-reversed, whatever happened in between.\<close>

theorem reversal_mirrors_once:
  assumes "ledger_inv db"
    and "reverse_journal (su_digest su) memo env i q actor db = Inr ((r, False), db1)"
  shows "je_reversal_of_id r = Some i \<and> je_source r = Reversal \<and>
    map (\<lambda>l. (jl_fund_id l, jl_department_id l, jl_account_id l, jl_debit_cents l, jl_credit_cents l))
      (entry_lines db1 (je_id r)) =
    map (\<lambda>l. (jl_fund_id l, jl_department_id l, jl_account_id l, jl_credit_cents l, jl_debit_cents l))
      (entry_lines db i) \<and>
    (let db2 = ledger_run su ops db1; create = reversal_payload memo db2 i q2
     in find_key db2 (rc_idempotency_key q2) = None \<longrightarrow> valid_journal_create create \<longrightarrow>
        reverse_journal (su_digest su) memo env2 i q2 actor2 db2 = Inl (DomainError 409 ''already-reversed'' []))"
proof -
  from reverse_journal_Inr[OF assms(2)] have known: "row_by je_id i (entries db) \<noteq> None" by auto
  from assms(2) obtain period where
    r: "r = entry_of (su_digest su) env (reversal_payload memo db i q) actor Reversal (Some i) period"
    and db1: "db1 = posted env (reversal_payload memo db i q) r period None db" and c1: "constraints db1"
    by (rule reverse_journal_new)
  from assms(1) have c: "constraints db" by (simp add: ledger_inv_def)
  have rid: "je_id r = env_entry_id env" by (simp add: r entry_of_def)
  have inv1: "ledger_inv db1"
    using reverse_journal_Inr[OF assms(2)] post_journal_inv[OF assms(1)] by auto
  let ?db2 = "ledger_run su ops db1"
  have "prefix (entries db1) (entries ?db2)"
    using ledger_run_le[OF inv1, of su ops] by (auto simp: ledger_le_def)
  then obtain es where es: "entries ?db2 = entries db @ [r] @ es"
    by (auto simp: prefix_def db1)
  have "\<exists>x. row_by je_reversal_of_id (Some i) (entries ?db2) = Some x"
    by (rule row_by_reversal) (simp add: es r entry_of_def)
  moreover have "\<exists>o'. row_by je_id i (entries ?db2) = Some o'"
    using known by (auto simp: es row_by_append)
  ultimately have "find_key ?db2 (rc_idempotency_key q2) = None \<longrightarrow> valid_journal_create (reversal_payload memo ?db2 i q2) \<longrightarrow>
      reverse_journal (su_digest su) memo env2 i q2 actor2 ?db2 = Inl (DomainError 409 ''already-reversed'' [])"
    by (auto simp: reverse_journal_def Let_def) (simp add: reversal_payload_def)
  moreover have "map (\<lambda>l. (jl_fund_id l, jl_department_id l, jl_account_id l, jl_debit_cents l, jl_credit_cents l))
      (entry_lines db1 (je_id r)) =
    map (\<lambda>l. (jl_fund_id l, jl_department_id l, jl_account_id l, jl_credit_cents l, jl_debit_cents l))
      (entry_lines db i)"
    using posted_entry_lines[OF c c1 db1 rid] by (simp add: reversal_payload_def mirror_new_lines)
  ultimately show ?thesis by (simp add: r entry_of_def Let_def)
qed

definition sample_reversal :: "string \<Rightarrow> reversal_create" where
  "sample_reversal key = \<lparr>rc_idempotency_key = key, rc_period_id = 1, rc_memo = ''''\<rparr>"

lemma sample_posting_inv: "ledger_inv (snd sample_posting)"
  using post_journal_inv[OF sample_ledger_inv sample_posting_eq] .

theorem reversal_mirrors_once_witness:
  "\<exists>r db1. reverse_journal (su_digest sample_setup) (\<lambda>_. ''rev'') (sample_env 2) 1 (sample_reversal ''r1'') ''ann''
      (snd sample_posting) = Inr ((r, False), db1) \<and> je_reversal_of_id r = Some 1 \<and>
    reverse_journal (su_digest sample_setup) (\<lambda>_. ''rev'') (sample_env 3) 1 (sample_reversal ''r2'') ''bob'' db1
      = Inl (DomainError 409 ''already-reversed'' [])"
proof -
  let ?r = "reverse_journal (su_digest sample_setup) (\<lambda>_. ''rev'') (sample_env 2) 1 (sample_reversal ''r1'') ''ann'' (snd sample_posting)"
  have "case ?r of Inr ((e, b), d) \<Rightarrow> \<not> b \<and> find_key d ''r2'' = None \<and>
      valid_journal_create (reversal_payload (\<lambda>_. ''rev'') d 1 (sample_reversal ''r2'')) | Inl _ \<Rightarrow> False"
    by code_simp
  then obtain r db1 where r: "?r = Inr ((r, False), db1)" and k: "find_key db1 ''r2'' = None"
    and v: "valid_journal_create (reversal_payload (\<lambda>_. ''rev'') db1 1 (sample_reversal ''r2''))"
    by (auto split: sum.splits prod.splits)
  have key: "rc_idempotency_key (sample_reversal ''r2'') = ''r2''" by (simp add: sample_reversal_def)
  from reversal_mirrors_once[OF sample_posting_inv r, of "[]" "sample_reversal ''r2''" "sample_env 3" "''bob''"]
  show ?thesis using r k v key by (simp add: Let_def)
qed

text \<open>C7: posting an entry without an encumbrance and reversing it in a period of the same fiscal
  year leaves every budget as it was.\<close>

theorem reversal_restores_budgets:
  assumes "ledger_inv db" and "jc_encumbrance_id p = None"
    and "post_journal digest env p actor src None db = Inr ((e, False), db1)"
    and "reverse_journal digest memo env2 (je_id e) q actor2 db1 = Inr ((r, False), db2)"
    and "row_by fp_id (jc_period_id p) (periods db) = Some period1"
    and "row_by fp_id (rc_period_id q) (periods db) = Some period2"
    and "fp_year period1 = fp_year period2"
  shows "budgets db2 = budgets db"
proof -
  from assms(3) obtain period enc where p1: "row_by fp_id (jc_period_id p) (periods db) = Some period"
    and enc: "find_open_encumbrance db (jc_encumbrance_id p) = Inr enc"
    and e: "e = entry_of digest env p actor src None period"
    and db1: "db1 = posted env p e period enc db" and c1: "constraints db1"
    by (rule post_journal_new)
  from enc assms(2) have none: "enc = None" by (simp add: find_open_encumbrance_def)
  from assms(1) have c: "constraints db" by (simp add: ledger_inv_def)
  have ls: "entry_lines db1 (je_id e) = new_lines env (jc_lines p)"
    by (rule posted_entry_lines[OF c c1 db1]) (simp add: e entry_of_def)
  from assms(4) obtain period' where p2: "row_by fp_id (rc_period_id q) (periods db1) = Some period'"
    and db2: "db2 = posted env2 (reversal_payload memo db1 (je_id e) q) r period' None db1"
    by (rule reverse_journal_new)
  from p1 p2 assms(5-7) have year: "fp_year period' = fp_year period" by (simp add: db1)
  let ?rev = "new_lines env2 (map mirror_line (new_lines env (jc_lines p)))"
  have dims: "budget_dims (charged_budget db y xs en b) = budget_dims b" for y xs en b
    by (simp add: charged_budget_def)
  have ch: "charge db1 (fp_year period) ?rev (charged_budget db (fp_year period) (new_lines env (jc_lines p)) None b) =
      - charge db (fp_year period) (new_lines env (jc_lines p)) b" for b
    using charge_dims[OF dims] charge_cong[of db1 db] by (simp add: db1 charge_mirror)
  have "charged_budget db1 (fp_year period) ?rev None
      (charged_budget db (fp_year period) (new_lines env (jc_lines p)) None b) = b" for b
    using ch[of b] by (simp add: charged_budget_def released_def set_actual_def)
  then show ?thesis
    by (simp add: db2 year ls reversal_payload_def) (simp add: db1 none comp_def)
qed

theorem reversal_restores_budgets_witness:
  "\<exists>r db2. reverse_journal jc_idempotency_key (\<lambda>_. ''rev'') (sample_env 2) (je_id (fst (fst sample_posting)))
      (sample_reversal ''r1'') ''ann'' (snd sample_posting) = Inr ((r, False), db2) \<and>
     budgets (snd sample_posting) \<noteq> budgets sample_ledger \<and> budgets db2 = budgets sample_ledger"
proof -
  let ?r = "reverse_journal jc_idempotency_key (\<lambda>_. ''rev'') (sample_env 2) (je_id (fst (fst sample_posting)))
      (sample_reversal ''r1'') ''ann'' (snd sample_posting)"
  have "case ?r of Inr ((e, b), d) \<Rightarrow> \<not> b | Inl _ \<Rightarrow> False" by code_simp
  then obtain r db2 where r: "?r = Inr ((r, False), db2)"
    by (auto split: sum.splits prod.splits)
  have none: "jc_encumbrance_id (sample_payload ''k1'' None) = None" by (simp add: sample_payload_def)
  have p: "row_by fp_id (jc_period_id (sample_payload ''k1'' None)) (periods sample_ledger) = Some (hd (periods sample_ledger))"
    and q: "row_by fp_id (rc_period_id (sample_reversal ''r1'')) (periods sample_ledger) = Some (hd (periods sample_ledger))"
    by (simp_all add: sample_payload_def sample_ledger_def sample_reversal_def)
  have "map actual_cents (budgets (snd sample_posting)) \<noteq> map actual_cents (budgets sample_ledger)" by code_simp
  then have "budgets (snd sample_posting) \<noteq> budgets sample_ledger" by auto
  with reversal_restores_budgets[OF sample_ledger_inv none sample_posting_eq r p q refl] r
  show ?thesis by blast
qed

section \<open>Encumbrances\<close>

lemma set_encumbered_undo: "upd_by bud_id i (set_encumbered (- a)) (upd_by bud_id i (set_encumbered a) bs) = bs"
  by (induction bs) (auto simp: set_encumbered_def)

lemma close_encumbrance_ok:
  assumes "constraints db1" and "budgets_ok (db1\<lparr>budgets := bs\<rparr>)" and "map bud_id bs = map bud_id (budgets db1)"
  shows "constraints (db1\<lparr>budgets := bs, encumbrances :=
    upd_by enc_id i (close_encumbrance EncCancelled None now) (encumbrances db1)\<rparr>)"
proof -
  let ?es = "upd_by enc_id i (close_encumbrance EncCancelled None now) (encumbrances db1)"
  let ?db = "db1\<lparr>budgets := bs, encumbrances := ?es\<rparr>"
  from assms(3) have ids: "bud_id ` set bs = bud_id ` set (budgets db1)" by (metis list.set_map)
  from assms(1) have es: "encumbrances_ok db1" by (simp add: constraints_def)
  have "encumbrances_ok ?db"
    using es unfolding encumbrances_ok_def list_all_iff
    by (auto simp: ids enc_close.keys_upd close_encumbrance_def split: option.split dest!: set_upd_byD)
  moreover from assms(2) have "budgets_ok ?db" by (simp add: budgets_ok_def)
  moreover from assms(1) have "reference_ok ?db" "periods_ok ?db" "audits_ok ?db" "entries_ok ?db" "lines_ok ?db"
    by (simp_all add: constraints_def reference_ok_def periods_ok_def audits_ok_def entries_ok_def lines_ok_def cong: option.case_cong)
  ultimately show ?thesis by (simp add: constraints_def)
qed

text \<open>An encumbrance is approved only within the available amount of its budget, which it
  reduces by its own; cancelling it succeeds and gives every budget back, and a second
  cancellation is refused with 409 encumbrance-not-open.\<close>

theorem approve_cancel_roundtrip:
  assumes inv: "ledger_inv db" and ok: "approve_encumbrance now nid p actor db = Inr (e, db1)"
  shows "\<exists>b b1 e2 db2. find_budget db (ec_year p) (ec_fund_id p) (ec_department_id p) (ec_account_id p) = Some b \<and>
    ec_amount_cents p \<le> available b \<and>
    row_by bud_id (bud_id b) (budgets db1) = Some b1 \<and> available b1 = available b - ec_amount_cents p \<and>
    cancel_encumbrance now2 nid db1 = Inr (e2, db2) \<and> budgets db2 = budgets db \<and>
    enc_status e2 = EncCancelled \<and>
    cancel_encumbrance now3 nid db2 = Inl (DomainError 409 ''encumbrance-not-open'' [])"
proof -
  from ok obtain b where b: "find_budget db (ec_year p) (ec_fund_id p) (ec_department_id p) (ec_account_id p) = Some b"
    and av: "ec_amount_cents p \<le> available b"
    and e: "enc_id e = nid" "enc_budget_id e = bud_id b" "enc_amount_cents e = ec_amount_cents p"
      "enc_status e = EncOpen" "enc_journal_entry_id e = None"
    and db1: "db1 = db\<lparr>budgets := upd_by bud_id (bud_id b) (set_encumbered (ec_amount_cents p)) (budgets db),
                       encumbrances := encumbrances db @ [e]\<rparr>" and c1: "constraints db1"
    by (auto simp: approve_encumbrance_def bindR_Inr_iff Let_def split: option.splits if_splits)
  from inv have c: "constraints db" by (simp add: ledger_inv_def)
  from b have "b \<in> set (budgets db)" by (auto simp: find_budget_def dest: row_by_SomeD)
  with c have rb: "row_by bud_id (bud_id b) (budgets db) = Some b"
    by (intro row_by_unique) (auto simp: constraints_def budgets_ok_def)
  from c1 have "nid \<notin> enc_id ` set (encumbrances db)"
    by (auto simp: constraints_def encumbrances_ok_def db1 e)
  then have "row_by enc_id nid (encumbrances db) = None" by (simp add: row_by_None_iff)
  then have re: "row_by enc_id nid (encumbrances db1) = Some e" by (simp add: db1 row_by_append e)
  have rb1: "row_by bud_id (bud_id b) (budgets db1) = Some (set_encumbered (ec_amount_cents p) b)"
    by (simp add: db1 enc_upd.lookup_upd rb)
  let ?db2 = "db1\<lparr>budgets := budgets db,
    encumbrances := upd_by enc_id nid (close_encumbrance EncCancelled None now2) (encumbrances db1)\<rparr>"
  have bsok: "budgets_ok (db1\<lparr>budgets := budgets db\<rparr>)"
    using c by (simp add: constraints_def budgets_ok_def db1)
  have c2: "constraints ?db2"
    by (rule close_encumbrance_ok[OF c1 bsok]) (simp add: db1 enc_upd.keys_upd)
  have undo: "upd_by bud_id (bud_id b) (set_encumbered (- ec_amount_cents p)) (budgets db1) = budgets db"
    by (simp add: db1 set_encumbered_undo)
  have cancel: "cancel_encumbrance now2 nid db1 = Inr (close_encumbrance EncCancelled None now2 e, ?db2)"
    using c2 by (simp add: cancel_encumbrance_def re rb1 e Let_def undo flush_def)
  have again: "cancel_encumbrance now3 nid ?db2 = Inl (DomainError 409 ''encumbrance-not-open'' [])"
    by (simp add: cancel_encumbrance_def enc_close.lookup_upd re)
  have "available (set_encumbered (ec_amount_cents p) b) = available b - ec_amount_cents p"
    by (simp add: available_def)
  with b av rb1 cancel again show ?thesis by fastforce
qed

theorem approve_cancel_roundtrip_witness:
  "\<exists>e db1 e2 db2. approve_encumbrance 4 1 sample_request ''ann'' sample_ledger = Inr (e, db1) \<and>
     cancel_encumbrance 5 1 db1 = Inr (e2, db2) \<and> budgets db2 = budgets sample_ledger"
proof -
  have "case approve_encumbrance 4 1 sample_request ''ann'' sample_ledger of Inr x \<Rightarrow> True | Inl _ \<Rightarrow> False" by code_simp
  then obtain e db1 where r: "approve_encumbrance 4 1 sample_request ''ann'' sample_ledger = Inr (e, db1)"
    by (auto split: sum.splits)
  from approve_cancel_roundtrip[OF sample_ledger_inv r, of 5] r show ?thesis by blast
qed

section \<open>Roles\<close>

fun op_headers :: "ledger_op \<Rightarrow> headers" where
  "op_headers (CreateJournal h env p) = h"
| "op_headers (ReverseEntry h env i p) = h"
| "op_headers (ImportCsv h envs y m key raw) = h"
| "op_headers (CreateBudget h nid p) = h"
| "op_headers (CreateEncumbrance h now nid p) = h"
| "op_headers (CancelEncumbrance h now i) = h"
| "op_headers (CreatePeriod h nid y m) = h"
| "op_headers (ClosePeriod h now nid i) = h"
| "op_headers (ReopenPeriod h now nid i r) = h"

text \<open>Who may do what: clerks post, approvers reserve, the finance manager does everything.\<close>

fun permitted :: "string \<Rightarrow> ledger_op \<Rightarrow> bool" where
  "permitted r (CreateJournal h env p) = (r \<in> {''clerk'', ''finance_manager''})"
| "permitted r (ReverseEntry h env i p) = (r \<in> {''clerk'', ''finance_manager''})"
| "permitted r (ImportCsv h envs y m key raw) = (r \<in> {''clerk'', ''finance_manager''})"
| "permitted r (CreateEncumbrance h now nid p) = (r \<in> {''approver'', ''finance_manager''})"
| "permitted r (CancelEncumbrance h now i) = (r \<in> {''approver'', ''finance_manager''})"
| "permitted r op = (r = ''finance_manager'')"

lemma authorize_role:
  assumes "authorize roles h = Inr u"
  shows "strip (or_default (x_user_role h) ''auditor'') \<in> set roles"
  using assms
  by (auto simp: authorize_def bindR_Inr_iff get_current_user_def require_role_def Let_def split: if_splits)

lemma endpoint_unchanged:
  assumes "strip (or_default (x_user_role h) ''auditor'') \<notin> set roles"
  shows "snd (endpoint roles h valid f db) = db"
proof (cases "fst (endpoint roles h valid f db)")
  case (Inl e)
  then show ?thesis by (rule endpoint_rollback)
next
  case (Inr a)
  then have "endpoint roles h valid f db = (Inr a, snd (endpoint roles h valid f db))"
    by (metis prod.collapse)
  with assms show ?thesis by (auto simp: endpoint_Inr_iff dest: authorize_role)
qed

text \<open>A request whose role header (trimmed; an absent one means auditor) is not permitted for
  its operation changes nothing: separation of duties, and auditors never write.\<close>

theorem unpermitted_changes_nothing:
  assumes "\<not> permitted (strip (or_default (x_user_role (op_headers op)) ''auditor'')) op"
  shows "ledger_step su op db = db"
  using assms
  by (cases op) (auto intro!: endpoint_unchanged simp: create_journal_def reverse_entry_def
      import_journals_csv_def create_budget_def create_encumbrance_def cancel_encumbrance_endpoint_def
      create_period_def close_period_endpoint_def reopen_period_endpoint_def)

theorem unpermitted_changes_nothing_witness:
  "ledger_step sample_setup (ClosePeriod \<lparr>x_user_name = Some ''eve'', x_user_role = Some '' clerk ''\<rparr> 6 1 1) sample_ledger
     = sample_ledger"
proof -
  have "\<not> permitted (strip (or_default (Some '' clerk '') ''auditor''))
      (ClosePeriod \<lparr>x_user_name = Some ''eve'', x_user_role = Some '' clerk ''\<rparr> 6 1 1)"
    by code_simp
  then show ?thesis by (intro unpermitted_changes_nothing) simp
qed

end
