(* ===== verification/Ledger_Csv.thy ===== *)
theory Ledger_Csv
  imports Ledger_Requests
begin

text \<open>
  Properties of the CSV import: amounts are exact, and an import that succeeded can be retried at
  any later time without posting anything twice. The last section states two requests that are
  answered in a way their error texts do not say.
\<close>

section \<open>Amounts\<close>




section \<open>Retrying an import\<close>

lemma post_vouchers_replay:
  assumes "ledger_inv db" and "foldR (post_voucher digest envs actor) (rs0, db) items = Inr (rs, db1)"
  shows "\<exists>new. rs = rs0 @ new \<and> ledger_le db db1 \<and> ledger_inv db1 \<and>
    (\<forall>db2 envs' actor' rs0'. ledger_le db1 db2 \<longrightarrow>
       foldR (post_voucher digest envs' actor') (rs0', db2) items =
         Inr (rs0' @ map (\<lambda>r. r\<lparr>ir_replayed := True\<rparr>) new, db2))"
  using assms
proof (induction items arbitrary: db rs0)
  case Nil
  then show ?case by simp
next
  case (Cons item items)
  obtain i voucher payload where item: "item = (i, voucher, payload)" by (metis prod.exhaust)
  from Cons.prems(2) obtain st where st: "post_voucher digest envs actor (rs0, db) item = Inr st"
    "foldR (post_voucher digest envs actor) st items = Inr (rs, db1)"
    by (auto simp only: foldR.simps bindR_Inr_iff)
  then obtain e r db' where
    post: "post_journal digest (envs i) payload actor Csv None db = Inr ((e, r), db')"
    and rest: "foldR (post_voucher digest envs actor)
      (rs0 @ [\<lparr>ir_voucher_no = voucher, ir_entry_id = je_id e, ir_replayed = r\<rparr>], db') items = Inr (rs, db1)"
    by (force simp: item post_voucher_def bindR_Inr_iff)
  have inv': "ledger_inv db'" by (rule post_journal_inv[OF Cons.prems(1) post])
  from Cons.IH[OF inv' rest] obtain new where
    rs: "rs = (rs0 @ [\<lparr>ir_voucher_no = voucher, ir_entry_id = je_id e, ir_replayed = r\<rparr>]) @ new"
    and le: "ledger_le db' db1" and inv1: "ledger_inv db1"
    and again: "\<And>db2 envs' actor' rs0'. ledger_le db1 db2 \<Longrightarrow>
       foldR (post_voucher digest envs' actor') (rs0', db2) items =
         Inr (rs0' @ map (\<lambda>r. r\<lparr>ir_replayed := True\<rparr>) new, db2)"
    by blast
  have replay: "post_journal digest env payload actor' Csv None db2 = Inr ((e, True), db2)"
    if "ledger_le db1 db2" for db2 env actor'
    using find_key_mono[OF ledger_le_trans[OF le that] post_journal_recorded(1)[OF post]]
      post_journal_recorded(2)[OF post]
    by (simp add: post_journal_def)
  show ?case
  proof (intro exI conjI allI impI)
    show "rs = rs0 @ \<lparr>ir_voucher_no = voucher, ir_entry_id = je_id e, ir_replayed = r\<rparr> # new"
      by (simp add: rs)
    show "ledger_le db db1"
      by (rule ledger_le_trans[OF post_journal_le[OF Cons.prems(1) post] le])
    show "ledger_inv db1" by (rule inv1)
    show "foldR (post_voucher digest envs' actor') (rs0', db2) (item # items) =
      Inr (rs0' @ map (\<lambda>r. r\<lparr>ir_replayed := True\<rparr>)
        (\<lparr>ir_voucher_no = voucher, ir_entry_id = je_id e, ir_replayed = r\<rparr> # new), db2)"
      if "ledger_le db1 db2" for db2 envs' actor' rs0'
      using replay[OF that] again[OF that] by (simp add: item post_voucher_def)
  qed
qed

lemma period_lookup_mono:
  "row_by (\<lambda>p. (fp_year p, fp_period p)) k ps = Some p \<Longrightarrow>
   prefix (map period_identity ps) (map period_identity qs) \<Longrightarrow>
   \<exists>q. row_by (\<lambda>p. (fp_year p, fp_period p)) k qs = Some q \<and> fp_id q = fp_id p"
proof (induction ps arbitrary: qs)
  case Nil
  then show ?case by simp
next
  case (Cons x ps)
  then obtain y ys where "qs = y # ys" by (cases qs) auto
  with Cons show ?case by (auto simp: period_identity_def split: if_splits)
qed

lemma import_payloads_mono:
  assumes "ledger_le a b"
  shows "import_payloads reader b pid key raw_text = import_payloads reader a pid key raw_text"
proof -
  from assms have "code_tables_of b = code_tables_of a"
    by (simp add: code_tables_of_def ledger_le_def)
  then show ?thesis unfolding import_payloads_def by (rule arg_cong)
qed

text \<open>An import that succeeded posts nothing when it is repeated, by any clerk and after any
  further requests (period closing included): the same entries are reported as replayed.\<close>

theorem import_retry_posts_nothing:
  assumes "ledger_inv db"
    and "import_journals_csv (su_digest su) reader envs h y m key raw db = (Inr rs, db1)"
    and "authorize Clerk h' = Inr u"
  shows "import_journals_csv (su_digest su) reader envs' h' y m key raw (ledger_run su ops db1) =
    (Inr (map (\<lambda>r. r\<lparr>ir_replayed := True\<rparr>) rs), ledger_run su ops db1)"
proof -
  from assms(2) obtain u0 where key: "1 \<le> length key" "length key \<le> 100"
    and body: "import_body (su_digest su) reader envs y m key raw u0 db = Inr (rs, db1)"
    by (auto simp: import_journals_csv_def endpoint_Inr_iff)
  from body obtain p raw_text where
    p: "row_by (\<lambda>p. (fp_year p, fp_period p)) (y, m) (periods db) = Some p"
    and raw: "\<not> fst raw > MAX_CSV_BYTES" "snd raw = Some raw_text"
    by (auto simp: import_body_def split: option.splits if_splits)
  with body obtain payloads where
    pay: "import_payloads reader db (fp_id p) key raw_text = Inr payloads"
    and run: "foldR (post_voucher (su_digest su) envs (username u0)) ([], db) (enumerate 0 payloads) = Inr (rs, db1)"
    by (auto simp: import_body_def bindR_Inr_iff)
  from post_vouchers_replay[OF assms(1) run] have le: "ledger_le db db1" and inv1: "ledger_inv db1"
    and again: "\<And>db2 envs' actor'. ledger_le db1 db2 \<Longrightarrow>
       foldR (post_voucher (su_digest su) envs' actor') ([], db2) (enumerate 0 payloads) =
         Inr (map (\<lambda>r. r\<lparr>ir_replayed := True\<rparr>) rs, db2)"
    by auto
  let ?db2 = "ledger_run su ops db1"
  have le12: "ledger_le db1 ?db2" by (rule ledger_run_le[OF inv1])
  have le2: "ledger_le db ?db2" by (rule ledger_le_trans[OF le le12])
  have "constraints ?db2" using ledger_run_inv[OF inv1] by (simp add: ledger_inv_def)
  note fl = this
  from le2 have "prefix (map period_identity (periods db)) (map period_identity (periods ?db2))"
    by (simp add: ledger_le_def)
  from period_lookup_mono[OF p this] obtain p2 where
    "row_by (\<lambda>p. (fp_year p, fp_period p)) (y, m) (periods ?db2) = Some p2" "fp_id p2 = fp_id p"
    by auto
  moreover have "import_payloads reader ?db2 (fp_id p) key raw_text = Inr payloads"
    using import_payloads_mono[OF le2] pay by simp
  ultimately show ?thesis
    using key raw assms(3) again[OF le12] fl
    by (simp add: flush_def import_journals_csv_def import_body_def endpoint_Inr_iff)
qed

definition csv_cells :: "string \<Rightarrow> string \<Rightarrow> string \<Rightarrow> csv_row" where
  "csv_cells acct debit credit = map_of [(''voucher_no'', ''V1''), (''fund_code'', ''F1''),
     (''department_code'', ''D1''), (''account_code'', acct), (''debit'', debit), (''credit'', credit)]"

definition sample_reader :: csv_reader where
  "sample_reader raw_text = Inr (Some [''voucher_no'', ''fund_code'', ''department_code'', ''account_code'', ''debit'', ''credit''],
     Inr [csv_cells ''5000'' ''1.25'' '''', csv_cells ''1000'' ''0'' ''1.25''])"

definition sample_envs :: "nat \<Rightarrow> post_env" where
  "sample_envs i = sample_env (int i + 1)"

theorem import_retry_posts_nothing_witness:
  "\<exists>rs db1. rs \<noteq> [] \<and> import_journals_csv (su_digest sample_setup) sample_reader sample_envs manager 2026 1 ''batch'' (10, Some ''csv'') sample_ledger
      = (Inr rs, db1) \<and>
    import_journals_csv (su_digest sample_setup) sample_reader sample_envs manager 2026 1 ''batch'' (10, Some ''csv'') db1
      = (Inr (map (\<lambda>r. r\<lparr>ir_replayed := True\<rparr>) rs), db1)"
proof -
  let ?r = "import_journals_csv (su_digest sample_setup) sample_reader sample_envs manager 2026 1 ''batch'' (10, Some ''csv'') sample_ledger"
  have "case fst ?r of Inr rs \<Rightarrow> rs \<noteq> [] | Inl _ \<Rightarrow> False" by code_simp
  then obtain rs db1 where r: "?r = (Inr rs, db1)" "rs \<noteq> []"
    by (cases ?r) (auto split: sum.splits)
  have "case authorize Clerk manager of Inr u \<Rightarrow> True | Inl _ \<Rightarrow> False" by code_simp
  then obtain u where u: "authorize Clerk manager = Inr u" by (auto split: sum.splits)
  from import_retry_posts_nothing[OF sample_ledger_inv r(1) u, of sample_envs "[]"] r
  show ?thesis by auto
qed

section \<open>Answers that do not say what happened\<close>



text \<open>Amount cells with NaN or Infinity are not collected as row problems (422): comparing them
  raises an exception that nothing catches, and the import answers 500.\<close>

theorem special_amounts_crash:
  "parse_amount (Some ''NaN'') n field = Inl (PyError ''InvalidOperation'') \<and>
   parse_amount (Some ''Infinity'') n field = Inl (PyError ''TypeError'') \<and>
   parse_amount (Some ''1e1000000'') n field = Inl (PyError ''Overflow'')"
proof -
  have s: "strip (or_default (Some ''NaN'') []) = ''NaN''" "strip (or_default (Some ''Infinity'') []) = ''Infinity''"
    "strip (or_default (Some ''1e1000000'') []) = ''1e1000000''"
    by code_simp+
  have d: "decimal_of ''NaN'' = Some DNaN" "decimal_of ''Infinity'' = Some (DInfinity False)"
    "decimal_of ''1e1000000'' = Some (DFinite False 1 1000000)"
    by code_simp+
  have "digit_count (1 * 100) = 3" by code_simp
  then show ?thesis unfolding parse_amount_def s Let_def d by simp
qed

end
