(* ===== verification/Addressing.thy ===== *)
theory Addressing
  imports Py_Text "HOL-Library.Word"
begin

text \<open>
  IPv4 address pools (\<open>text12/a/app/addressing.py\<close>) on 32-bit words, with what it uses of Python's
  \<open>ipaddress\<close>: parsing of strict CIDR text (prefix length, netmask or hostmask), hosts, overlap and
  printing. A parse that raises \<open>ValueError\<close> is \<open>None\<close>.
\<close>

unbundle bit_operations_syntax

type_synonym ipv4 = "32 word"

record ipv4_network =
  net_address :: ipv4
  net_prefix :: nat

section \<open>Parsing\<close>

definition parse_octet :: "string \<Rightarrow> int option" where
  "parse_octet s =
     (if s = [] \<or> \<not> list_all is_digit s \<or> length s > 3 \<or> (s \<noteq> ''0'' \<and> hd s = CHR ''0'') then None
      else if int_of_digits s > 255 then None else Some (int_of_digits s))"

definition ip_from_string :: "string \<Rightarrow> ipv4 option" where
  "ip_from_string s =
     (case map parse_octet (split_on (CHR ''.'') s) of
        [Some a, Some b, Some c, Some d] \<Rightarrow> Some (word_of_int (((a * 256 + b) * 256 + c) * 256 + d))
      | _ \<Rightarrow> None)"

definition ip_from_prefix :: "nat \<Rightarrow> ipv4" where
  "ip_from_prefix p = (-1) XOR drop_bit p (-1)"

definition righthand_zeros :: "ipv4 \<Rightarrow> nat" where
  "righthand_zeros w = length (takeWhile (\<lambda>i. \<not> bit w i) [0..<32])"

definition prefix_from_ip :: "ipv4 \<Rightarrow> nat option" where
  "prefix_from_ip w =
     (let tz = righthand_zeros w; p = 32 - tz
      in if drop_bit tz w \<noteq> mask p then None else Some p)"

definition prefix_from_text :: "string \<Rightarrow> nat option" where
  "prefix_from_text s =
     (if s = [] \<or> \<not> list_all is_digit s then None
      else if int_of_digits s > 32 then None else Some (nat (int_of_digits s)))"

text \<open>A mask given as an address is a netmask, or else a hostmask.\<close>

definition prefix_from_ip_text :: "string \<Rightarrow> nat option" where
  "prefix_from_ip_text s =
     (case ip_from_string s of
        None \<Rightarrow> None
      | Some w \<Rightarrow> (case prefix_from_ip w of Some p \<Rightarrow> Some p | None \<Rightarrow> prefix_from_ip (w XOR (-1))))"

definition make_netmask :: "string \<Rightarrow> nat option" where
  "make_netmask s = (case prefix_from_text s of Some p \<Rightarrow> Some p | None \<Rightarrow> prefix_from_ip_text s)"

definition strict_network :: "ipv4 \<Rightarrow> nat \<Rightarrow> ipv4_network option" where
  "strict_network a p =
     (if a AND ip_from_prefix p \<noteq> a then None else Some \<lparr>net_address = a, net_prefix = p\<rparr>)"

definition parse_network :: "string \<Rightarrow> ipv4_network option" where
  "parse_network cidr =
     (case split_on (CHR ''/'') cidr of
        [addr] \<Rightarrow> (case ip_from_string addr of None \<Rightarrow> None | Some a \<Rightarrow> strict_network a 32)
      | [addr, m] \<Rightarrow>
          (case ip_from_string addr of
             None \<Rightarrow> None
           | Some a \<Rightarrow> (case make_netmask m of None \<Rightarrow> None | Some p \<Rightarrow> strict_network a p))
      | _ \<Rightarrow> None)"

section \<open>Networks\<close>

definition netmask :: "ipv4_network \<Rightarrow> ipv4" where
  "netmask n = ip_from_prefix (net_prefix n)"

definition hostmask :: "ipv4_network \<Rightarrow> ipv4" where
  "hostmask n = netmask n XOR (-1)"

definition broadcast_address :: "ipv4_network \<Rightarrow> ipv4" where
  "broadcast_address n = net_address n OR hostmask n"

definition in_network :: "ipv4 \<Rightarrow> ipv4_network \<Rightarrow> bool" where
  "in_network a n \<longleftrightarrow> a AND netmask n = net_address n"

definition net_overlaps :: "ipv4_network \<Rightarrow> ipv4_network \<Rightarrow> bool" where
  "net_overlaps a b \<longleftrightarrow>
     in_network (net_address a) b \<or> in_network (broadcast_address a) b \<or>
     in_network (net_address b) a \<or> in_network (broadcast_address b) a"

definition net_hosts :: "ipv4_network \<Rightarrow> ipv4 list" where
  "net_hosts n =
     (let lo = uint (net_address n); hi = uint (broadcast_address n)
      in if net_prefix n = 32 then [net_address n]
         else if net_prefix n = 31 then map word_of_int [lo..hi]
         else map word_of_int [lo + 1..hi - 1])"

section \<open>Printing\<close>

definition octets :: "ipv4 \<Rightarrow> int list" where
  "octets a = (let n = uint a in [n div 16777216 mod 256, n div 65536 mod 256, n div 256 mod 256, n mod 256])"

definition str_ip :: "ipv4 \<Rightarrow> string" where
  "str_ip a = join_with ''.'' (map dec_text (octets a))"

definition str_network :: "ipv4_network \<Rightarrow> string" where
  "str_network n = str_ip (net_address n) @ ''/'' @ dec_text (int (net_prefix n))"

definition canonical_cidr :: "string \<Rightarrow> string option" where
  "canonical_cidr cidr = map_option str_network (parse_network cidr)"

section \<open>Pools\<close>

datatype pool_error = BadCidr | NegativeReserved | TooManyReserved

definition pool_hosts :: "string \<Rightarrow> int \<Rightarrow> int \<Rightarrow> pool_error + ipv4 list" where
  "pool_hosts cidr reserved_first reserved_last =
     bindR (someR (parse_network cidr) BadCidr) (\<lambda>net.
     let hosts = net_hosts net
     in if reserved_first < 0 \<or> reserved_last < 0 then Inl NegativeReserved
        else if reserved_first + reserved_last > int (length hosts) then Inl TooManyReserved
        else if reserved_last \<noteq> 0
             then Inr (drop (nat reserved_first) (take (length hosts - nat reserved_last) hosts))
             else Inr (drop (nat reserved_first) hosts))"

definition pools_overlap :: "string \<Rightarrow> string \<Rightarrow> pool_error + bool" where
  "pools_overlap a b =
     bindR (someR (parse_network a) BadCidr) (\<lambda>na.
     bindR (someR (parse_network b) BadCidr) (\<lambda>nb. Inr (net_overlaps na nb)))"

record assignable_address =
  aa_ip :: string
  aa_pool_id :: int
  aa_cidr :: string

text \<open>One pool as the allocation sees it: id, CIDR text and the two reservations.\<close>

type_synonym pool_spec = "int \<times> string \<times> int \<times> int"

fun choose_address :: "pool_spec list \<Rightarrow> string set \<Rightarrow> pool_error + assignable_address option" where
  "choose_address [] occupied = Inr None"
| "choose_address ((pid, cidr, rf, rl) # pools) occupied =
     bindR (pool_hosts cidr rf rl) (\<lambda>hosts.
       case find (\<lambda>ip. str_ip ip \<notin> occupied) hosts of
         Some ip \<Rightarrow> Inr (Some \<lparr>aa_ip = str_ip ip, aa_pool_id = pid, aa_cidr = cidr\<rparr>)
       | None \<Rightarrow> choose_address pools occupied)"

fun all_hosts :: "pool_spec list \<Rightarrow> pool_error + ipv4 list" where
  "all_hosts [] = Inr []"
| "all_hosts ((pid, cidr, rf, rl) # pools) =
     bindR (pool_hosts cidr rf rl) (\<lambda>hosts. bindR (all_hosts pools) (\<lambda>rest. Inr (hosts @ rest)))"

definition count_assignable :: "pool_spec list \<Rightarrow> pool_error + nat" where
  "count_assignable pools = bindR (all_hosts pools) (\<lambda>hs. Inr (length hs))"

end
