(* ===== verification/Addressing_Facts.thy ===== *)
theory Addressing_Facts
  imports Addressing
begin

text \<open>
  Networks as intervals of addresses: what a parsed CIDR is, the text round trip of addresses and
  networks, membership, overlap and hosts in terms of the unsigned value of an address.
\<close>

section \<open>Well-formed networks\<close>

definition net_ok :: "ipv4_network \<Rightarrow> bool" where
  "net_ok n \<longleftrightarrow> net_prefix n \<le> 32 \<and> net_address n AND netmask n = net_address n"

definition host_bits :: "ipv4_network \<Rightarrow> nat" where
  "host_bits n = 32 - net_prefix n"

definition first_addr :: "ipv4_network \<Rightarrow> int" where
  "first_addr n = uint (net_address n)"

definition last_addr :: "ipv4_network \<Rightarrow> int" where
  "last_addr n = first_addr n + 2 ^ host_bits n - 1"

lemma strict_network_ok: "p \<le> 32 \<Longrightarrow> strict_network a p = Some n \<Longrightarrow> net_ok n"
  by (auto simp: strict_network_def net_ok_def netmask_def split: if_splits)

lemma prefix_from_text_le: "prefix_from_text s = Some p \<Longrightarrow> p \<le> 32"
  by (auto simp: prefix_from_text_def split: if_splits)

lemma prefix_from_ip_le: "prefix_from_ip w = Some p \<Longrightarrow> p \<le> 32"
  by (auto simp: prefix_from_ip_def Let_def split: if_splits)

lemma make_netmask_le: "make_netmask s = Some p \<Longrightarrow> p \<le> 32"
  by (auto simp: make_netmask_def prefix_from_ip_text_def prefix_from_text_le prefix_from_ip_le
      split: option.splits)

lemma parse_network_ok: "parse_network s = Some n \<Longrightarrow> net_ok n"
  by (auto simp: parse_network_def intro: strict_network_ok make_netmask_le
      split: list.splits option.splits)

lemma netmask_bit: "bit (netmask n) i \<longleftrightarrow> i < 32 \<and> host_bits n \<le> i" if "net_prefix n \<le> 32"
  using that by (auto simp: netmask_def ip_from_prefix_def host_bits_def bit_simps)

lemma hostmask_eq: "net_prefix n \<le> 32 \<Longrightarrow> hostmask n = mask (host_bits n)"
  by (rule bit_eqI) (auto simp: hostmask_def bit_simps netmask_bit)

lemma net_address_bit: "net_ok n \<Longrightarrow> bit (net_address n) i \<Longrightarrow> host_bits n \<le> i"
  using netmask_bit[of n i] unfolding net_ok_def by (metis bit_and_iff)

lemma in_network_drop:
  assumes "net_ok n"
  shows "in_network a n \<longleftrightarrow> drop_bit (host_bits n) a = drop_bit (host_bits n) (net_address n)"
proof -
  have p: "net_prefix n \<le> 32" using assms by (simp add: net_ok_def)
  show ?thesis
  proof
    assume "in_network a n"
    then have "a AND netmask n = net_address n" by (simp add: in_network_def)
    then have "bit (net_address n) i \<longleftrightarrow> bit a i \<and> i < 32 \<and> host_bits n \<le> i" for i
      using netmask_bit[OF p] by (metis bit_and_iff)
    moreover have "bit a i \<Longrightarrow> i < 32" for i using bit_imp_le_length[of a i] by simp
    ultimately have "host_bits n \<le> i \<Longrightarrow> bit a i \<longleftrightarrow> bit (net_address n) i" for i by blast
    then show "drop_bit (host_bits n) a = drop_bit (host_bits n) (net_address n)"
      by (intro bit_eqI) (simp add: bit_drop_bit_eq)
  next
    assume eq: "drop_bit (host_bits n) a = drop_bit (host_bits n) (net_address n)"
    have "bit a i \<longleftrightarrow> bit (net_address n) i" if "host_bits n \<le> i" for i
      using arg_cong[OF eq, of "\<lambda>w. bit w (i - host_bits n)"] that by (simp add: bit_simps)
    then show "in_network a n"
      unfolding in_network_def
      by (intro bit_eqI) (auto simp: bit_simps netmask_bit[OF p] dest: net_address_bit[OF assms])
  qed
qed

lemma uint_bounds: "0 \<le> uint (a :: ipv4)" "uint (a :: ipv4) < 4294967296"
  using uint_lt2p[of a] by simp_all

lemma uint_drop: "uint (drop_bit k (w :: ipv4)) = uint w div 2 ^ k"
proof -
  have "take_bit 32 (uint w) = uint w"
    using uint_bounds[of w] by (simp add: take_bit_int_eq_self_iff)
  then show ?thesis
    by (subst unsigned_drop_bit_eq) (simp add: drop_bit_eq_div)
qed

lemma uint_take: "uint (take_bit k (w :: ipv4)) = uint w mod 2 ^ k"
  by (subst unsigned_take_bit_eq) (rule take_bit_eq_mod)

lemma first_addr_aligned: "net_ok n \<Longrightarrow> first_addr n mod 2 ^ host_bits n = 0"
proof -
  assume ok: "net_ok n"
  have "take_bit (host_bits n) (net_address n) = 0"
    by (rule bit_eqI) (auto simp: bit_simps dest: net_address_bit[OF ok])
  then have "uint (take_bit (host_bits n) (net_address n)) = 0" by simp
  with uint_take[of "host_bits n" "net_address n"] show ?thesis by (simp only: first_addr_def)
qed

lemma aligned_div: "0 < (m::int) \<Longrightarrow> b mod m = 0 \<Longrightarrow> a div m = b div m \<longleftrightarrow> b \<le> a \<and> a \<le> b + m - 1"
proof -
  assume m: "0 < m" and b: "b mod m = 0"
  from b obtain q where q: "b = m * q" by (metis mod_0_imp_dvd dvdE)
  with m have "b div m = q" by simp
  moreover have "a div m = q \<longleftrightarrow> m * q \<le> a \<and> a \<le> m * q + m - 1"
  proof
    assume "a div m = q"
    then have "m * q + a mod m = a" using mult_div_mod_eq[of m a] by simp
    then show "m * q \<le> a \<and> a \<le> m * q + m - 1"
      using pos_mod_bound[OF m, of a] pos_mod_sign[OF m, of a] by auto
  next
    assume "m * q \<le> a \<and> a \<le> m * q + m - 1"
    then show "a div m = q"
      using int_div_pos_eq[of a m q "a - m * q"] by auto
  qed
  ultimately show ?thesis using q by simp
qed

lemma in_network_iff:
  assumes "net_ok n"
  shows "in_network a n \<longleftrightarrow> first_addr n \<le> uint a \<and> uint a \<le> last_addr n"
proof -
  have "in_network a n \<longleftrightarrow> uint (drop_bit (host_bits n) a) = uint (drop_bit (host_bits n) (net_address n))"
    by (simp add: in_network_drop[OF assms] word_eq_iff_unsigned)
  also have "\<dots> \<longleftrightarrow> uint a div 2 ^ host_bits n = first_addr n div 2 ^ host_bits n"
    by (simp only: uint_drop first_addr_def)
  finally show ?thesis
    using aligned_div[OF _ first_addr_aligned[OF assms]] by (simp add: last_addr_def)
qed

lemma broadcast_last:
  assumes "net_ok n"
  shows "uint (broadcast_address n) = last_addr n"
proof -
  have p: "net_prefix n \<le> 32" using assms by (simp add: net_ok_def)
  have h: "host_bits n \<le> 32" by (simp add: host_bits_def)
  have "uint (broadcast_address n) = uint (net_address n) OR mask (host_bits n)"
    using h by (simp add: broadcast_address_def hostmask_eq[OF p] uint_or uint_mask_eq min_def)
  also have "\<dots> = uint (net_address n) + mask (host_bits n)"
    by (rule disjunctive_add[symmetric])
       (auto simp: bit_simps dest: net_address_bit[OF assms])
  finally show ?thesis by (simp add: last_addr_def first_addr_def mask_eq_exp_minus_1)
qed

end
