(* ===== verification/Addressing_Properties.thy ===== *)
theory Addressing_Properties
  imports Addressing_Facts
begin

text \<open>
  Properties of the address pools: the text round trip of networks, overlap as a shared address,
  the assignable hosts of a pool as an interval, and first-fit allocation.
\<close>

section \<open>Round trip\<close>

lemma separators: "\<not> is_digit (CHR ''.'')" "\<not> is_digit (CHR ''/'')" "digit_val (CHR ''0'') = 0"
  by code_simp+

lemma octet_roundtrip:
  assumes "0 \<le> n" and "n \<le> 255"
  shows "parse_octet (dec_text n) = Some n \<and> CHR ''.'' \<notin> set (dec_text n) \<and> CHR ''/'' \<notin> set (dec_text n)"
proof -
  from dec_text_digits[OF assms(1)]
  have d: "list_all is_digit (dec_text n)" "int_of_digits (dec_text n) = n" "dec_text n \<noteq> []"
    and h: "1 \<le> n \<Longrightarrow> 1 \<le> digit_val (hd (dec_text n))" by auto
  have "dec_text n = ''0'' \<or> hd (dec_text n) \<noteq> CHR ''0''"
  proof (cases "n = 0")
    case True
    have "dec_text 0 = ''0''" by code_simp
    with True show ?thesis by simp
  next
    case False
    with assms h have "1 \<le> digit_val (hd (dec_text n))" by simp
    then show ?thesis using separators(3) by (metis not_one_le_zero)
  qed
  moreover have "length (dec_text n) \<le> 3" using assms by (simp add: dec_text_length)
  ultimately have "parse_octet (dec_text n) = Some n"
    using d assms by (auto simp: parse_octet_def)
  with d separators show ?thesis by (simp add: not_digit)
qed

lemma prefix_roundtrip:
  assumes "p \<le> 32"
  shows "prefix_from_text (dec_text (int p)) = Some p \<and> CHR ''/'' \<notin> set (dec_text (int p))"
  using dec_text_digits[of "int p"] assms separators by (simp add: prefix_from_text_def not_digit)

lemma octets_range: "x \<in> set (octets a) \<Longrightarrow> 0 \<le> x \<and> x \<le> 255"
  using pos_mod_bound[of 256] pos_mod_sign[of 256] by (auto simp: octets_def Let_def intro: zle_diff1_eq[THEN iffD1])

lemma four_digits:
  fixes u :: int
  assumes "256 * c + bm = b" and "256 * b + am = a" and "256 * a + um = u"
  shows "((c * 256 + bm) * 256 + am) * 256 + um = u"
  using assms by simp

lemma octets_value:
  assumes "0 \<le> (u::int)" and "u < 4294967296"
  shows "((u div 16777216 mod 256 * 256 + u div 65536 mod 256) * 256 + u div 256 mod 256) * 256 + u mod 256 = u"
proof -
  have d: "u div 256 div 256 = u div 65536" "u div 65536 div 256 = u div 16777216"
    using zdiv_zmult2_eq[of 256 u 256] zdiv_zmult2_eq[of 256 u 65536] by simp_all
  have top: "u div 16777216 mod 256 = u div 16777216"
    using assms by (intro mod_pos_pos_trivial) auto
  have e1: "256 * (u div 65536) + u div 256 mod 256 = u div 256"
    using mult_div_mod_eq[of 256 "u div 256"] unfolding d .
  have e2: "256 * (u div 16777216) + u div 65536 mod 256 = u div 65536"
    using mult_div_mod_eq[of 256 "u div 65536"] unfolding d .
  show ?thesis unfolding top by (rule four_digits[OF e2 e1 mult_div_mod_eq])
qed

lemma join_chars: "c \<notin> set sep \<Longrightarrow> \<forall>x \<in> set xs. c \<notin> set x \<Longrightarrow> c \<notin> set (join_with sep xs)"
  by (induction sep xs rule: join_with.induct) auto

lemma octets_nonempty: "octets a \<noteq> []"
  by (simp add: octets_def Let_def)

lemma octet_texts:
  "x \<in> set (octets a) \<Longrightarrow>
   parse_octet (dec_text x) = Some x \<and> CHR ''.'' \<notin> set (dec_text x) \<and> CHR ''/'' \<notin> set (dec_text x)"
  using octet_roundtrip octets_range by blast

lemma str_ip_chars: "CHR ''/'' \<notin> set (str_ip a)"
  unfolding str_ip_def
proof (rule join_chars)
  show "CHR ''/'' \<notin> set ''.''" by simp
  show "\<forall>x \<in> set (map dec_text (octets a)). CHR ''/'' \<notin> set x"
    using octet_texts by (simp only: set_map ball_simps) blast
qed

lemma ip_roundtrip: "ip_from_string (str_ip a) = Some a"
proof -
  have "\<forall>x \<in> set (map dec_text (octets a)). CHR ''.'' \<notin> set x"
  proof
    fix x assume "x \<in> set (map dec_text (octets a))"
    then obtain y where "y \<in> set (octets a)" "x = dec_text y" by (auto simp only: set_map)
    with octet_texts show "CHR ''.'' \<notin> set x" by blast
  qed
  then have split: "split_on (CHR ''.'') (str_ip a) = map dec_text (octets a)"
    unfolding str_ip_def using octets_nonempty[of a] by (intro split_on_join) simp_all
  have "map parse_octet (map dec_text (octets a)) = map Some (octets a)"
    unfolding map_map by (rule map_cong) (simp_all add: octet_texts)
  then have "ip_from_string (str_ip a) = (case map Some (octets a) of
        [Some a, Some b, Some c, Some d] \<Rightarrow> Some (word_of_int (((a * 256 + b) * 256 + c) * 256 + d))
      | _ \<Rightarrow> None)"
    by (simp only: ip_from_string_def split)
  also have "\<dots> = Some (word_of_int (uint a))"
    by (simp only: octets_def Let_def list.map list.case option.case octets_value[OF uint_bounds])
  finally show ?thesis by simp
qed

lemma str_ip_inj: "str_ip a = str_ip b \<longleftrightarrow> a = b"
  using ip_roundtrip[of a] ip_roundtrip[of b] by (metis option.inject)

text \<open>C10: every CIDR text that parses denotes a network without host bits, whose canonical text
  parses to the same network: canonicalisation is idempotent and loses nothing.\<close>

theorem cidr_roundtrip:
  assumes "parse_network s = Some n"
  shows "net_ok n \<and> canonical_cidr s = Some (str_network n) \<and> parse_network (str_network n) = Some n"
proof -
  have ok: "net_ok n" by (rule parse_network_ok[OF assms])
  then have p: "net_prefix n \<le> 32" by (simp add: net_ok_def)
  have "str_network n = str_ip (net_address n) @ CHR ''/'' # dec_text (int (net_prefix n))"
    by (simp add: str_network_def)
  then have "split_on (CHR ''/'') (str_network n) = [str_ip (net_address n), dec_text (int (net_prefix n))]"
    using prefix_roundtrip[OF p] str_ip_chars by (simp add: split_on_append split_on_absent)
  moreover have "make_netmask (dec_text (int (net_prefix n))) = Some (net_prefix n)"
    using prefix_roundtrip[OF p] by (simp add: make_netmask_def)
  moreover have "strict_network (net_address n) (net_prefix n) = Some n"
    using ok by (simp add: strict_network_def net_ok_def netmask_def)
  ultimately have "parse_network (str_network n) = Some n"
    by (simp add: parse_network_def ip_roundtrip)
  with ok assms show ?thesis by (simp add: canonical_cidr_def)
qed

theorem cidr_roundtrip_witness:
  "canonical_cidr ''10.0.0.0/255.255.255.0'' = Some ''10.0.0.0/24'' \<and>
   parse_network ''10.0.0.0/24'' = parse_network ''10.0.0.0/255.255.255.0''"
proof -
  have c: "canonical_cidr ''10.0.0.0/255.255.255.0'' = Some ''10.0.0.0/24''" by code_simp
  then obtain n where n: "parse_network ''10.0.0.0/255.255.255.0'' = Some n"
    by (auto simp: canonical_cidr_def)
  from cidr_roundtrip[OF n] c n show ?thesis by simp
qed

section \<open>Overlap\<close>

lemma last_addr_bound: "net_ok n \<Longrightarrow> first_addr n \<le> last_addr n \<and> 0 \<le> first_addr n \<and> last_addr n < 4294967296"
  using broadcast_last[of n] uint_bounds[of "broadcast_address n"] uint_bounds[of "net_address n"]
  by (simp add: first_addr_def last_addr_def)

lemma overlap_iff:
  assumes "parse_network a = Some na" and "parse_network b = Some nb"
  shows "pools_overlap a b = Inr (\<exists>x. in_network x na \<and> in_network x nb)"
proof -
  have oka: "net_ok na" and okb: "net_ok nb" using assms parse_network_ok by auto
  have edge: "uint (net_address n) = first_addr n" for n by (simp add: first_addr_def)
  have "net_overlaps na nb \<longleftrightarrow> (\<exists>x. in_network x na \<and> in_network x nb)"
  proof
    assume "net_overlaps na nb"
    then show "\<exists>x. in_network x na \<and> in_network x nb"
      using last_addr_bound[OF oka] last_addr_bound[OF okb]
      by (auto simp: net_overlaps_def in_network_iff[OF oka] in_network_iff[OF okb] edge
            broadcast_last[OF oka] broadcast_last[OF okb]
          intro: exI[of _ "net_address na"] exI[of _ "net_address nb"]
            exI[of _ "broadcast_address na"] exI[of _ "broadcast_address nb"])
  next
    assume "\<exists>x. in_network x na \<and> in_network x nb"
    then show "net_overlaps na nb"
      by (auto simp: net_overlaps_def in_network_iff[OF oka] in_network_iff[OF okb] edge
            broadcast_last[OF oka] broadcast_last[OF okb])
  qed
  then show ?thesis by (simp add: pools_overlap_def assms)
qed

text \<open>Two pools overlap, as the code decides it from four membership tests, if and only if some
  address belongs to both networks.\<close>

theorem pools_overlap_iff:
  assumes "parse_network a = Some na" and "parse_network b = Some nb"
  shows "pools_overlap a b = Inr (\<exists>x. in_network x na \<and> in_network x nb)"
  by (rule overlap_iff[OF assms])

theorem pools_overlap_iff_witness:
  "(\<exists>na nb x. parse_network ''10.0.0.0/29'' = Some na \<and> parse_network ''10.0.0.4/30'' = Some nb \<and>
     in_network x na \<and> in_network x nb)"
proof -
  have "parse_network ''10.0.0.0/29'' \<noteq> None" "parse_network ''10.0.0.4/30'' \<noteq> None" by code_simp+
  then obtain na nb where n: "parse_network ''10.0.0.0/29'' = Some na" "parse_network ''10.0.0.4/30'' = Some nb"
    by auto
  have "pools_overlap ''10.0.0.0/29'' ''10.0.0.4/30'' = Inr True" by code_simp
  with pools_overlap_iff[OF n] n show ?thesis by auto
qed

section \<open>Assignable hosts\<close>

lemma drop_upto: "drop n [a..b] = [a + int n..b]"
proof (induction n arbitrary: a)
  case 0
  then show ?case by simp
next
  case (Suc n)
  show ?case
  proof (cases "a \<le> b")
    case True
    then have "drop (Suc n) [a..b] = drop n [a + 1..b]" by (simp add: upto.simps[of a b])
    with Suc show ?thesis by (simp add: algebra_simps)
  next
    case False
    then show ?thesis by simp
  qed
qed

lemma take_upto: "int n \<le> b - a + 1 \<Longrightarrow> take n [a..b] = [a..a + int n - 1]"
proof (induction n arbitrary: a)
  case 0
  then show ?case by simp
next
  case (Suc n)
  then have "take (Suc n) [a..b] = a # take n [a + 1..b]" by (simp add: upto.simps[of a b])
  also have "take n [a + 1..b] = [a + 1..a + 1 + int n - 1]" using Suc.prems by (intro Suc.IH) simp
  also have "a # [a + 1..a + 1 + int n - 1] = [a..a + int (Suc n) - 1]"
    by (simp add: upto.simps[of a "a + int n"])
  finally show ?case .
qed

definition lo_host :: "ipv4_network \<Rightarrow> int" where
  "lo_host n = (if 31 \<le> net_prefix n then first_addr n else first_addr n + 1)"

definition hi_host :: "ipv4_network \<Rightarrow> int" where
  "hi_host n = (if 31 \<le> net_prefix n then last_addr n else last_addr n - 1)"

lemma net_hosts_upto:
  assumes "net_ok n"
  shows "net_hosts n = map word_of_int [lo_host n..hi_host n]"
proof (cases "net_prefix n = 32")
  case True
  then have "last_addr n = first_addr n" by (simp add: last_addr_def host_bits_def)
  then show ?thesis using True by (simp add: net_hosts_def lo_host_def hi_host_def first_addr_def)
next
  case False
  moreover have "net_prefix n \<le> 32" using assms by (simp add: net_ok_def)
  ultimately show ?thesis
    by (simp add: net_hosts_def Let_def lo_host_def hi_host_def broadcast_last[OF assms] first_addr_def[symmetric])
qed

lemma host_range:
  assumes "net_ok n"
  shows "first_addr n \<le> lo_host n \<and> lo_host n \<le> hi_host n + 1 \<and> hi_host n \<le> last_addr n"
proof -
  have "1 \<le> (2::int) ^ host_bits n" by simp
  moreover have "\<not> 31 \<le> net_prefix n \<Longrightarrow> (2::int) ^ 2 \<le> 2 ^ host_bits n"
    by (rule power_increasing) (simp_all add: host_bits_def)
  ultimately show ?thesis by (auto simp: lo_host_def hi_host_def last_addr_def)
qed

lemma map_word_interval:
  assumes "0 \<le> a" and "b < 4294967296"
  shows "distinct (map word_of_int [a..b] :: ipv4 list)"
    and "(x :: ipv4) \<in> set (map word_of_int [a..b]) \<longleftrightarrow> a \<le> uint x \<and> uint x \<le> b"
proof -
  have id: "uint (word_of_int i :: ipv4) = i" if "i \<in> {a..b}" for i
    using that assms by (simp add: uint_word_of_int)
  have "inj_on (word_of_int :: int \<Rightarrow> ipv4) {a..b}"
    by (rule inj_on_inverseI[where g = uint]) (rule id)
  then show "distinct (map word_of_int [a..b] :: ipv4 list)" by (simp add: distinct_map)
  show "x \<in> set (map word_of_int [a..b]) \<longleftrightarrow> a \<le> uint x \<and> uint x \<le> b"
  proof
    assume "x \<in> set (map word_of_int [a..b])"
    then obtain i where "i \<in> {a..b}" "x = word_of_int i" by auto
    with id show "a \<le> uint x \<and> uint x \<le> b" by simp
  next
    assume "a \<le> uint x \<and> uint x \<le> b"
    then have "uint x \<in> {a..b}" and "x = word_of_int (uint x)" by simp_all
    then show "x \<in> set (map word_of_int [a..b])" by (metis image_eqI set_map set_upto)
  qed
qed

lemma pool_hosts_upto:
  assumes "pool_hosts cidr rf rl = Inr hs"
  obtains n where "parse_network cidr = Some n" and "0 \<le> rf" and "0 \<le> rl"
    and "rf + rl \<le> hi_host n - lo_host n + 1" and "hs = map word_of_int [lo_host n + rf..hi_host n - rl]"
proof -
  from assms obtain n where n: "parse_network cidr = Some n" and r: "0 \<le> rf" "0 \<le> rl"
    and len: "rf + rl \<le> int (length (net_hosts n))"
    by (auto simp: pool_hosts_def bindR_Inr_iff Let_def split: if_splits)
  have ok: "net_ok n" by (rule parse_network_ok[OF n])
  note range = host_range[OF ok]
  have hosts: "net_hosts n = map word_of_int [lo_host n..hi_host n]" by (rule net_hosts_upto[OF ok])
  have len': "int (length (net_hosts n)) = hi_host n - lo_host n + 1" using range by (simp add: hosts)
  have tk: "take (length (net_hosts n) - nat rl) [lo_host n..hi_host n] = [lo_host n..hi_host n - rl]"
    using len len' r by (subst take_upto) auto
  have "hs = drop (nat rf) (map word_of_int [lo_host n..hi_host n - rl])"
    using assms n r len tk
    by (auto simp: pool_hosts_def Let_def hosts take_map split: if_splits)
  then have "hs = map word_of_int [lo_host n + rf..hi_host n - rl]"
    using r by (simp add: drop_map drop_upto)
  with n r len len' show thesis using that by simp
qed

text \<open>The assignable addresses of a pool are, without repetition, exactly the hosts of its
  network less the reserved ones at both ends; in a pool of prefix at most 30 the network and the
  broadcast address are never among them.\<close>

theorem pool_hosts_exact:
  assumes "pool_hosts cidr rf rl = Inr hs" and "parse_network cidr = Some n"
  shows "distinct hs \<and> (\<forall>x. x \<in> set hs \<longleftrightarrow> lo_host n + rf \<le> uint x \<and> uint x \<le> hi_host n - rl) \<and>
    int (length hs) = hi_host n - lo_host n + 1 - rf - rl \<and>
    (\<forall>x \<in> set hs. in_network x n) \<and>
    (net_prefix n \<le> 30 \<longrightarrow> net_address n \<notin> set hs \<and> broadcast_address n \<notin> set hs)"
proof -
  from assms(1) obtain n' where n': "parse_network cidr = Some n'" and r: "0 \<le> rf" "0 \<le> rl"
    and len: "rf + rl \<le> hi_host n' - lo_host n' + 1"
    and hs: "hs = map word_of_int [lo_host n' + rf..hi_host n' - rl]"
    by (rule pool_hosts_upto)
  from n' assms(2) have nn: "n' = n" by simp
  have ok: "net_ok n" by (rule parse_network_ok[OF assms(2)])
  have b: "0 \<le> lo_host n + rf" "hi_host n - rl < 4294967296"
    using host_range[OF ok] last_addr_bound[OF ok] r by linarith+
  have mem: "x \<in> set hs \<longleftrightarrow> lo_host n + rf \<le> uint x \<and> uint x \<le> hi_host n - rl" for x
    unfolding hs nn by (rule map_word_interval(2)[OF b])
  have dist: "distinct hs" unfolding hs nn by (rule map_word_interval(1)[OF b])
  have length_hs: "int (length hs) = hi_host n - lo_host n + 1 - rf - rl"
    using len by (simp add: hs nn)
  have inn: "\<forall>x \<in> set hs. in_network x n"
    using host_range[OF ok] r by (auto simp: mem in_network_iff[OF ok])
  have ends: "net_prefix n \<le> 30 \<longrightarrow> net_address n \<notin> set hs \<and> broadcast_address n \<notin> set hs"
    using r by (auto simp: mem broadcast_last[OF ok] first_addr_def[symmetric] lo_host_def hi_host_def)
  show ?thesis using dist mem length_hs inn ends by blast
qed

theorem pool_hosts_exact_witness:
  "\<exists>hs. pool_hosts ''10.0.0.0/24'' 5 4 = Inr hs \<and> length hs = 245 \<and> distinct hs"
proof -
  obtain n where n: "parse_network ''10.0.0.0/24'' = Some n" "net_prefix n = 24" "uint (net_address n) = 167772160"
  proof -
    have "case parse_network ''10.0.0.0/24'' of Some n \<Rightarrow> net_prefix n = 24 \<and> net_address n = 167772160 | None \<Rightarrow> False"
      by code_simp
    then show thesis using that by (auto split: option.splits)
  qed
  have len: "int (length (net_hosts n)) = 254"
    using n net_hosts_upto[OF parse_network_ok[OF n(1)]]
    by (simp add: lo_host_def hi_host_def last_addr_def first_addr_def host_bits_def)
  then obtain hs where hs: "pool_hosts ''10.0.0.0/24'' 5 4 = Inr hs"
    by (auto simp: pool_hosts_def n(1) Let_def)
  from pool_hosts_exact[OF hs n(1)] n have "int (length hs) = 245" "distinct hs"
    by (auto simp: lo_host_def hi_host_def last_addr_def first_addr_def host_bits_def)
  with hs show ?thesis by auto
qed

section \<open>First fit\<close>

lemma choose_address_in_pool:
  assumes "all_hosts pools = Inr hs"
  shows "\<exists>r. choose_address pools occupied = Inr r \<and>
    map_option aa_ip r = map_option str_ip (find (\<lambda>ip. str_ip ip \<notin> occupied) hs) \<and>
    (\<forall>a. r = Some a \<longrightarrow> aa_ip a \<notin> occupied \<and> (\<exists>rf rl h. (aa_pool_id a, aa_cidr a, rf, rl) \<in> set pools \<and>
       pool_hosts (aa_cidr a) rf rl = Inr h \<and> aa_ip a \<in> str_ip ` set h))"
  using assms
proof (induction pools arbitrary: hs)
  case Nil
  then show ?case by simp
next
  case (Cons pool pools)
  obtain pid cidr rf rl where p: "pool = (pid, cidr, rf, rl)" by (metis prod.exhaust)
  from Cons.prems obtain h t where h: "pool_hosts cidr rf rl = Inr h" and t: "all_hosts pools = Inr t"
    and hs: "hs = h @ t"
    by (auto simp: p bindR_Inr_iff)
  have app: "find P (h @ t) = (case find P h of Some x \<Rightarrow> Some x | None \<Rightarrow> find P t)" for P
    by (induction h) auto
  show ?case
  proof (cases "find (\<lambda>ip. str_ip ip \<notin> occupied) h")
    case None
    with Cons.IH[OF t] h hs show ?thesis by (auto simp: p app) fastforce
  next
    case (Some ip)
    then have "ip \<in> set h \<and> str_ip ip \<notin> occupied" by (auto simp: find_Some_iff)
    with Some h hs show ?thesis by (simp add: p app) blast
  qed
qed

text \<open>C11: allocation is first fit over the concatenated assignable addresses of the pools in order,
  the address it gives is one of the pool it names, and it gives none only when all are occupied.\<close>

theorem choose_address_first_fit:
  assumes "all_hosts pools = Inr hs"
  shows "\<exists>r. choose_address pools occupied = Inr r \<and>
    map_option aa_ip r = map_option str_ip (find (\<lambda>ip. str_ip ip \<notin> occupied) hs) \<and>
    (\<forall>a. r = Some a \<longrightarrow> aa_ip a \<notin> occupied \<and> (\<exists>rf rl h. (aa_pool_id a, aa_cidr a, rf, rl) \<in> set pools \<and>
       pool_hosts (aa_cidr a) rf rl = Inr h \<and> aa_ip a \<in> str_ip ` set h))"
  using choose_address_in_pool[OF assms] by blast

theorem choose_address_first_fit_witness:
  "map_option aa_ip (case choose_address [(1, ''10.0.0.0/30'', 0, 0), (2, ''10.0.1.0/29'', 1, 0)]
      {''10.0.0.1'', ''10.0.0.2''} of Inr r \<Rightarrow> r | Inl _ \<Rightarrow> None) = Some ''10.0.1.2''"
proof -
  let ?pools = "[(1, ''10.0.0.0/30'', 0, 0), (2, ''10.0.1.0/29'', 1, 0)] :: pool_spec list"
  have "case all_hosts ?pools of Inr hs \<Rightarrow>
      map_option str_ip (find (\<lambda>ip. \<not> list_ex ((=) (str_ip ip)) [''10.0.0.1'', ''10.0.0.2'']) hs) = Some ''10.0.1.2''
    | Inl _ \<Rightarrow> False"
    by code_simp
  then obtain hs where hs: "all_hosts ?pools = Inr hs"
    and f: "map_option str_ip (find (\<lambda>ip. \<not> list_ex ((=) (str_ip ip)) [''10.0.0.1'', ''10.0.0.2'']) hs) = Some ''10.0.1.2''"
    by (auto split: sum.splits)
  have e: "(\<lambda>ip. str_ip ip \<notin> {''10.0.0.1'', ''10.0.0.2''}) = (\<lambda>ip. \<not> list_ex ((=) (str_ip ip)) [''10.0.0.1'', ''10.0.0.2''])"
    by (intro ext) simp
  from choose_address_first_fit[OF hs, of "{''10.0.0.1'', ''10.0.0.2''}"]
  show ?thesis unfolding e f by auto
qed

end
