(* ===== verification/Lease_Model.thy ===== *)
theory Lease_Model
  imports Addressing_Properties
begin

text \<open>
  The data of the access gateway (\<open>text12/a/app\<close>): the tables of \<open>models.py\<close> with their
  constraints and partial unique indexes, the errors of \<open>lease_service.py\<close> and of the database,
  and transactions, which may commit before they raise. Identifiers (UUIDs), times, tokens and
  the token hash come from outside.
\<close>

section \<open>Tables\<close>

datatype lease_status = LeaseActive | LeaseClosed | LeaseExpired | LeaseRevoked | LeaseSuperseded

datatype device_status = DeviceActive | DeviceRevoked

record tenant =
  tn_id :: int
  tn_name :: string
  tn_admin_key_hash :: string
  tn_created_at :: int

record access_point =
  ap_id :: int
  ap_tenant_id :: int
  ap_name :: string
  capacity :: int
  ap_created_at :: int

record address_pool =
  pl_id :: int
  pl_tenant_id :: int
  pl_access_point_id :: int
  pl_cidr :: string
  reserved_first :: int
  reserved_last :: int
  pl_created_at :: int

record device =
  dv_id :: int
  dv_tenant_id :: int
  dv_name :: string
  dv_token_hash :: string
  dv_status :: device_status
  dv_created_at :: int
  dv_revoked_at :: "int option"

record lease =
  ls_id :: int
  ls_tenant_id :: int
  ls_access_point_id :: int
  ls_device_id :: int
  ls_pool_id :: int
  generation :: int
  ip_address :: string
  ls_status :: lease_status
  ls_token_hash :: string
  connected_at :: int
  last_seen_at :: int
  ended_at :: "int option"
  termination_reason :: "string option"

text \<open>The JSON details the service writes: of a new lease, and of a rejected request the generation
  it sent and, for a stale heartbeat, the current one.\<close>

datatype event_detail = CreatedAt string int | SentGeneration int "int option"

record lease_event =
  ev_lease_id :: "int option"
  ev_tenant_id :: "int option"
  ev_type :: string
  ev_reason :: "string option"
  ev_detail :: "event_detail option"
  ev_created_at :: int

record gate =
  tenants :: "tenant list"
  access_points :: "access_point list"
  pools :: "address_pool list"
  devices :: "device list"
  leases :: "lease list"
  lease_events :: "lease_event list"

definition lease_active :: "lease \<Rightarrow> bool" where
  "lease_active l \<longleftrightarrow> ls_status l = LeaseActive"

section \<open>Errors\<close>

text \<open>\<open>DbError\<close> carries the SQLSTATE of the database's exception.\<close>

datatype gate_error =
    ServiceError string int
  | DbError string
  | HttpError int string
  | BadRequest
  | Uncaught string

definition RETRYABLE_PG_CODES :: "string set" where
  "RETRYABLE_PG_CODES = {''40001'', ''40P01'', ''23505''}"

definition is_retryable :: "gate_error \<Rightarrow> bool" where
  "is_retryable e = (case e of DbError code \<Rightarrow> code \<in> RETRYABLE_PG_CODES | _ \<Rightarrow> False)"

definition MAX_RETRIES :: nat where
  "MAX_RETRIES = 10"

section \<open>Constraints\<close>

definition gate_unique :: "gate \<Rightarrow> bool" where
  "gate_unique db \<longleftrightarrow>
     distinct (map tn_id (tenants db)) \<and> distinct (map tn_name (tenants db)) \<and>
     distinct (map ap_id (access_points db)) \<and>
     distinct (map (\<lambda>a. (ap_tenant_id a, ap_name a)) (access_points db)) \<and>
     distinct (map pl_id (pools db)) \<and>
     distinct (map (\<lambda>p. (pl_access_point_id p, pl_cidr p)) (pools db)) \<and>
     distinct (map dv_id (devices db)) \<and>
     distinct (map (\<lambda>d. (dv_tenant_id d, dv_name d)) (devices db)) \<and>
     distinct (map ls_id (leases db))"

text \<open>The partial unique indexes \<open>uq_lease_active_ap_ip\<close> and \<open>uq_lease_active_device\<close>.\<close>

definition active_unique :: "gate \<Rightarrow> bool" where
  "active_unique db \<longleftrightarrow>
     (let act = filter lease_active (leases db)
      in distinct (map (\<lambda>l. (ls_access_point_id l, ip_address l)) act) \<and> distinct (map ls_device_id act))"

definition gate_checks :: "gate \<Rightarrow> bool" where
  "gate_checks db \<longleftrightarrow>
     list_all (\<lambda>a. 0 \<le> capacity a) (access_points db) \<and>
     list_all (\<lambda>p. 0 \<le> reserved_first p \<and> 0 \<le> reserved_last p) (pools db)"

definition event_ref_ok :: "int set \<Rightarrow> lease_event \<Rightarrow> bool" where
  "event_ref_ok ids e \<longleftrightarrow> (case ev_lease_id e of None \<Rightarrow> True | Some i \<Rightarrow> i \<in> ids)"

definition gate_refs :: "gate \<Rightarrow> bool" where
  "gate_refs db \<longleftrightarrow>
     list_all (\<lambda>a. ap_tenant_id a \<in> tn_id ` set (tenants db)) (access_points db) \<and>
     list_all (\<lambda>p. pl_tenant_id p \<in> tn_id ` set (tenants db) \<and>
                   pl_access_point_id p \<in> ap_id ` set (access_points db)) (pools db) \<and>
     list_all (\<lambda>d. dv_tenant_id d \<in> tn_id ` set (tenants db)) (devices db) \<and>
     list_all (\<lambda>l. ls_tenant_id l \<in> tn_id ` set (tenants db) \<and>
                   ls_access_point_id l \<in> ap_id ` set (access_points db) \<and>
                   ls_device_id l \<in> dv_id ` set (devices db) \<and>
                   ls_pool_id l \<in> pl_id ` set (pools db)) (leases db) \<and>
     list_all (event_ref_ok (ls_id ` set (leases db))) (lease_events db)"

definition gate_flush :: "gate \<Rightarrow> gate_error + gate" where
  "gate_flush db =
     (if \<not> (gate_unique db \<and> active_unique db) then Inl (DbError ''23505'')
      else if \<not> gate_checks db then Inl (DbError ''23514'')
      else if \<not> gate_refs db then Inl (DbError ''23503'') else Inr db)"

definition gate_ok :: "gate \<Rightarrow> bool" where
  "gate_ok db \<longleftrightarrow> gate_unique db \<and> active_unique db \<and> gate_checks db \<and> gate_refs db"

lemma gate_flush_Inr_iff [simp]: "gate_flush db = Inr db' \<longleftrightarrow> gate_ok db \<and> db' = db"
  by (auto simp: gate_flush_def gate_ok_def)

lemma gate_flush_ok: "gate_ok db \<Longrightarrow> gate_flush db = Inr db"
  by simp

lemma gate_flush_Inl: "gate_flush db = Inl e \<Longrightarrow> \<exists>code. e = DbError code"
  by (auto simp: gate_flush_def split: if_splits)

section \<open>Transactions\<close>

text \<open>
  A transaction maps the committed database to its result and the committed database after it.
  \<open>commit_then old new r\<close> commits \<open>new\<close> and then returns or raises \<open>r\<close>; when a constraint fails
  nothing is committed.
\<close>

type_synonym 'a gate_tx = "gate \<Rightarrow> (gate_error + 'a) \<times> gate"

definition commit_then :: "gate \<Rightarrow> gate \<Rightarrow> gate_error + 'a \<Rightarrow> (gate_error + 'a) \<times> gate" where
  "commit_then old new r = (case gate_flush new of Inl e \<Rightarrow> (Inl e, old) | Inr db \<Rightarrow> (r, db))"

lemma commit_then_ok [simp]: "gate_ok new \<Longrightarrow> commit_then old new r = (r, new)"
  by (simp add: commit_then_def gate_flush_ok)

lemma commit_then_snd: "snd (commit_then old new r) = (if gate_ok new then new else old)"
proof (cases "gate_ok new")
  case False
  then have "\<exists>e. gate_flush new = Inl e"
    using gate_flush_Inr_iff[of new] by (cases "gate_flush new") auto
  with False show ?thesis by (auto simp: commit_then_def)
qed simp

text \<open>\<open>scalar_one_or_none()\<close>.\<close>

definition one_or_none :: "'a list \<Rightarrow> gate_error + 'a option" where
  "one_or_none xs = (case xs of [] \<Rightarrow> Inr None | [x] \<Rightarrow> Inr (Some x) | _ \<Rightarrow> Inl (Uncaught ''MultipleResultsFound''))"

text \<open>
  The retry loop of every service function: attempt number \<open>n\<close> (counted down) either fails because
  of a concurrent transaction, with the SQLSTATE \<open>conc n\<close>, or runs its body; a retryable error
  starts the next attempt on the rolled back database, any other one is raised. \<open>exhausted\<close> is
  what the function does after the last attempt.
\<close>

fun retrying :: "(gate_error option \<Rightarrow> gate_error + 'a) \<Rightarrow> (nat \<Rightarrow> string option) \<Rightarrow> (nat \<Rightarrow> 'a gate_tx) \<Rightarrow>
    nat \<Rightarrow> gate_error option \<Rightarrow> 'a gate_tx" where
  "retrying exhausted conc body 0 prev db = (exhausted prev, db)"
| "retrying exhausted conc body (Suc n) prev db =
     (case (case conc n of Some code \<Rightarrow> (Inl (DbError code), db) | None \<Rightarrow> body n db) of
        (Inl e, db') \<Rightarrow>
          if is_retryable e then retrying exhausted conc body n (Some e) db else (Inl e, db')
      | (Inr a, db') \<Rightarrow> (Inr a, db'))"

text \<open>A retried operation leaves the database alone or does what one attempt does.\<close>

lemma retrying_cases:
  "snd (retrying exhausted conc body n prev db) = db \<or>
   (\<exists>k r. body k db = (r, snd (retrying exhausted conc body n prev db)) \<and>
      fst (retrying exhausted conc body n prev db) = r)"
  by (induction n arbitrary: prev) (auto split: option.splits sum.splits prod.splits)

lemma retrying_Inr:
  "retrying exhausted conc body n prev db = (Inr a, db') \<Longrightarrow>
   (\<exists>k. body k db = (Inr a, db')) \<or> ((\<exists>l. exhausted l = Inr a) \<and> db' = db)"
  by (induction n arbitrary: prev) (auto split: option.splits sum.splits prod.splits if_splits)

lemma retrying_preserves:
  assumes "P db" and "\<And>k. P (snd (body k db))"
  shows "P (snd (retrying exhausted conc body n prev db))"
  using retrying_cases[of exhausted conc body n prev db] assms by (metis snd_conv)

end
