(* ===== verification/Lease_Service.thy ===== *)
theory Lease_Service
  imports Lease_Model
begin

text \<open>
  The session service (\<open>lease_service.py\<close>): establishing, heartbeat, closing, revocation and the
  recovery of expired leases, each as one serialisable transaction under the retry loop.
\<close>

section \<open>Leases\<close>

record lease_view =
  lv_lease_id :: int
  lv_generation :: int
  lv_tenant_id :: int
  lv_access_point_id :: int
  lv_device_id :: int
  lv_ip_address :: string
  lv_status :: lease_status
  lv_connected_at :: int
  lv_last_seen_at :: int
  lv_ended_at :: "int option"
  lv_termination_reason :: "string option"

definition lease_out :: "lease \<Rightarrow> lease_view" where
  "lease_out l =
     \<lparr>lv_lease_id = ls_id l, lv_generation = generation l, lv_tenant_id = ls_tenant_id l,
      lv_access_point_id = ls_access_point_id l, lv_device_id = ls_device_id l,
      lv_ip_address = ip_address l, lv_status = ls_status l, lv_connected_at = connected_at l,
      lv_last_seen_at = last_seen_at l, lv_ended_at = ended_at l,
      lv_termination_reason = termination_reason l\<rparr>"

definition add_event :: "int \<Rightarrow> lease \<Rightarrow> string \<Rightarrow> string option \<Rightarrow> event_detail option \<Rightarrow> gate \<Rightarrow> gate" where
  "add_event now l typ reason detail db = db\<lparr>lease_events := lease_events db @
     [\<lparr>ev_lease_id = Some (ls_id l), ev_tenant_id = Some (ls_tenant_id l), ev_type = typ,
       ev_reason = reason, ev_detail = detail, ev_created_at = now\<rparr>]\<rparr>"

definition end_lease :: "lease_status \<Rightarrow> string \<Rightarrow> int \<Rightarrow> lease \<Rightarrow> lease" where
  "end_lease st reason now l = l\<lparr>ls_status := st, ended_at := Some now, termination_reason := Some reason\<rparr>"

definition touch_lease :: "int \<Rightarrow> lease \<Rightarrow> lease" where
  "touch_lease now l = l\<lparr>last_seen_at := now\<rparr>"

interpretation lease_end: row_update ls_id "end_lease st reason now" for st reason now
  by unfold_locales (simp add: end_lease_def)

interpretation lease_touch: row_update ls_id "touch_lease now" for now
  by unfold_locales (simp add: touch_lease_def)

text \<open>\<open>_terminate_locked\<close>; the boolean result is whether the lease was active.\<close>

definition terminate_locked :: "lease \<Rightarrow> lease_status \<Rightarrow> string \<Rightarrow> int \<Rightarrow> gate \<Rightarrow> bool \<times> gate" where
  "terminate_locked l st reason now db =
     (if \<not> lease_active l then (False, db)
      else (True, add_event now l ''terminated'' (Some reason) None
                    (db\<lparr>leases := upd_by ls_id (ls_id l) (end_lease st reason now) (leases db)\<rparr>)))"

section \<open>Establishing a session\<close>

record lease_env =
  le_now :: int
  le_lease_id :: int

record connect_result =
  cr_lease :: lease_view
  cr_reused :: bool

definition active_of_device :: "gate \<Rightarrow> int \<Rightarrow> lease list" where
  "active_of_device db did = filter (\<lambda>l. ls_device_id l = did \<and> lease_active l) (leases db)"

definition active_of_ap :: "gate \<Rightarrow> int \<Rightarrow> lease list" where
  "active_of_ap db apid = filter (\<lambda>l. ls_access_point_id l = apid \<and> lease_active l) (leases db)"

definition ap_pools :: "gate \<Rightarrow> int \<Rightarrow> address_pool list" where
  "ap_pools db apid =
     sort_key pl_created_at (sort_key pl_id (filter (\<lambda>p. pl_access_point_id p = apid) (pools db)))"

definition pool_spec_of :: "address_pool \<Rightarrow> pool_spec" where
  "pool_spec_of p = (pl_id p, pl_cidr p, reserved_first p, reserved_last p)"

definition max_generation :: "gate \<Rightarrow> int \<Rightarrow> int" where
  "max_generation db did =
     (case map generation (filter (\<lambda>l. ls_device_id l = did) (leases db)) of
        [] \<Rightarrow> 0 | g # gs \<Rightarrow> foldl max g gs)"

definition new_lease :: "lease_env \<Rightarrow> gate \<Rightarrow> device \<Rightarrow> access_point \<Rightarrow> assignable_address \<Rightarrow> lease" where
  "new_lease env db dev ap chosen =
     \<lparr>ls_id = le_lease_id env, ls_tenant_id = dv_tenant_id dev, ls_access_point_id = ap_id ap,
      ls_device_id = dv_id dev, ls_pool_id = aa_pool_id chosen,
      generation = max_generation db (dv_id dev) + 1, ip_address = aa_ip chosen,
      ls_status = LeaseActive, ls_token_hash = dv_token_hash dev, connected_at = le_now env,
      last_seen_at = le_now env, ended_at = None, termination_reason = None\<rparr>"

text \<open>Steps 4 to 7 of \<open>_establish_once\<close>, once the device and the access point are locked.\<close>

definition allocate :: "lease_env \<Rightarrow> device \<Rightarrow> access_point \<Rightarrow> connect_result gate_tx" where
  "allocate env dev ap db =
     (let act = active_of_ap db (ap_id ap)
      in if int (length act) \<ge> capacity ap then (Inl (ServiceError ''ap_full'' 409), db)
         else case choose_address (map pool_spec_of (ap_pools db (ap_id ap))) (ip_address ` set act) of
           Inl e \<Rightarrow> (Inl (Uncaught ''ValueError''), db)
         | Inr None \<Rightarrow> (Inl (ServiceError ''address_pool_exhausted'' 409), db)
         | Inr (Some chosen) \<Rightarrow>
             (let l = new_lease env db dev ap chosen
              in case gate_flush (db\<lparr>leases := leases db @ [l]\<rparr>) of
                   Inl e \<Rightarrow> (Inl e, db)
                 | Inr db1 \<Rightarrow>
                     commit_then db
                       (add_event (le_now env) l ''created'' None (Some (CreatedAt (aa_ip chosen) (ap_id ap))) db1)
                       (Inr \<lparr>cr_lease = lease_out l, cr_reused = False\<rparr>)))"

definition establish_once :: "lease_env \<Rightarrow> int \<Rightarrow> int \<Rightarrow> connect_result gate_tx" where
  "establish_once env did apid db =
     (case row_by dv_id did (devices db) of
        None \<Rightarrow> (Inl (ServiceError ''device_revoked'' 403), db)
      | Some dev \<Rightarrow>
          if dv_status dev = DeviceRevoked then (Inl (ServiceError ''device_revoked'' 403), db)
          else case one_or_none (active_of_device db (dv_id dev)) of
            Inl e \<Rightarrow> (Inl e, db)
          | Inr (Some l) \<Rightarrow> commit_then db db (Inr \<lparr>cr_lease = lease_out l, cr_reused = True\<rparr>)
          | Inr None \<Rightarrow>
              (case row_by ap_id apid (access_points db) of
                 None \<Rightarrow> (Inl (ServiceError ''access_point_not_found'' 404), db)
               | Some ap \<Rightarrow>
                   if ap_tenant_id ap \<noteq> dv_tenant_id dev
                   then (Inl (ServiceError ''access_point_not_found'' 404), db)
                   else allocate env dev ap db))"

text \<open>After the last attempt \<open>establish_session\<close> raises the last exception.\<close>

definition raise_last :: "gate_error option \<Rightarrow> gate_error + 'a" where
  "raise_last prev = Inl (case prev of Some e \<Rightarrow> e | None \<Rightarrow> Uncaught ''TypeError'')"

definition establish_session :: "(nat \<Rightarrow> lease_env) \<Rightarrow> (nat \<Rightarrow> string option) \<Rightarrow> int \<Rightarrow> int \<Rightarrow>
    connect_result gate_tx" where
  "establish_session envs conc did apid =
     retrying raise_last conc (\<lambda>k. establish_once (envs k) did apid) MAX_RETRIES None"

section \<open>Heartbeat and close\<close>

definition busy :: "gate_error option \<Rightarrow> gate_error + 'a" where
  "busy prev = Inl (ServiceError ''busy'' 503)"

definition heartbeat_once :: "int \<Rightarrow> int \<Rightarrow> int \<Rightarrow> int \<Rightarrow> lease_view gate_tx" where
  "heartbeat_once now did lid gen db =
     (case row_by ls_id lid (leases db) of
        None \<Rightarrow> (Inl (ServiceError ''lease_not_found'' 404), db)
      | Some l \<Rightarrow>
          if ls_device_id l \<noteq> did then (Inl (ServiceError ''lease_not_found'' 404), db)
          else if generation l \<noteq> gen then
            commit_then db (add_event now l ''heartbeat_rejected'' (Some ''stale_generation'')
                             (Some (SentGeneration gen (Some (generation l)))) db)
              (Inl (ServiceError ''stale_generation'' 409))
          else if \<not> lease_active l then
            commit_then db (add_event now l ''heartbeat_rejected''
                             (Some (or_default (termination_reason l) ''terminated''))
                             (Some (SentGeneration gen None)) db)
              (Inl (ServiceError ''lease_terminated'' 409))
          else
            commit_then db (db\<lparr>leases := upd_by ls_id lid (touch_lease now) (leases db)\<rparr>)
              (Inr (lease_out (touch_lease now l))))"

text \<open>\<open>lid\<close> is \<open>None\<close> when the text is not a UUID.\<close>

definition heartbeat :: "(nat \<Rightarrow> int) \<Rightarrow> (nat \<Rightarrow> string option) \<Rightarrow> int \<Rightarrow> int option \<Rightarrow> int \<Rightarrow>
    lease_view gate_tx" where
  "heartbeat now conc did lid gen db =
     (case lid of
        None \<Rightarrow> (Inl (ServiceError ''invalid_id'' 400), db)
      | Some i \<Rightarrow> retrying busy conc (\<lambda>k. heartbeat_once (now k) did i gen) MAX_RETRIES None db)"

definition close_once :: "int \<Rightarrow> int \<Rightarrow> int \<Rightarrow> int \<Rightarrow> lease_view gate_tx" where
  "close_once now did lid gen db =
     (case row_by ls_id lid (leases db) of
        None \<Rightarrow> (Inl (ServiceError ''lease_not_found'' 404), db)
      | Some l \<Rightarrow>
          if ls_device_id l \<noteq> did then (Inl (ServiceError ''lease_not_found'' 404), db)
          else if generation l \<noteq> gen then
            commit_then db (add_event now l ''close_rejected'' (Some ''stale_generation'')
                             (Some (SentGeneration gen None)) db)
              (Inl (ServiceError ''stale_generation'' 409))
          else
            (let (ended, db1) = terminate_locked l LeaseClosed ''closed'' now db
             in commit_then db db1
                  (Inr (lease_out (if ended then end_lease LeaseClosed ''closed'' now l else l)))))"

definition close_session :: "(nat \<Rightarrow> int) \<Rightarrow> (nat \<Rightarrow> string option) \<Rightarrow> int \<Rightarrow> int option \<Rightarrow> int \<Rightarrow>
    lease_view gate_tx" where
  "close_session now conc did lid gen db =
     (case lid of
        None \<Rightarrow> (Inl (ServiceError ''invalid_id'' 400), db)
      | Some i \<Rightarrow> retrying busy conc (\<lambda>k. close_once (now k) did i gen) MAX_RETRIES None db)"

section \<open>Revocation and recovery\<close>

definition revoke_row :: "int \<Rightarrow> device \<Rightarrow> device" where
  "revoke_row now d =
     (if dv_status d \<noteq> DeviceRevoked then d\<lparr>dv_status := DeviceRevoked, dv_revoked_at := Some now\<rparr> else d)"

interpretation dev_revoke: row_update dv_id "revoke_row now" for now
  by unfold_locales (simp add: revoke_row_def)

definition revoke_once :: "int \<Rightarrow> int \<Rightarrow> lease_view option gate_tx" where
  "revoke_once now did db =
     (case row_by dv_id did (devices db) of
        None \<Rightarrow> (Inl (ServiceError ''device_not_found'' 404), db)
      | Some dev \<Rightarrow>
          (let db1 = db\<lparr>devices := upd_by dv_id did (revoke_row now) (devices db)\<rparr>
           in case one_or_none (active_of_device db1 (dv_id dev)) of
                Inl e \<Rightarrow> (Inl e, db)
              | Inr None \<Rightarrow> commit_then db db1 (Inr None)
              | Inr (Some l) \<Rightarrow>
                  commit_then db (snd (terminate_locked l LeaseRevoked ''device_revoked'' now db1))
                    (Inr (Some (lease_out (end_lease LeaseRevoked ''device_revoked'' now l))))))"

definition revoke_device :: "(nat \<Rightarrow> int) \<Rightarrow> (nat \<Rightarrow> string option) \<Rightarrow> int \<Rightarrow> lease_view option gate_tx" where
  "revoke_device now conc did = retrying busy conc (\<lambda>k. revoke_once (now k) did) MAX_RETRIES None"

text \<open>
  \<open>locked\<close> are the leases locked by concurrent transactions, which \<open>SKIP LOCKED\<close> leaves out.
\<close>

definition stale_leases :: "int \<Rightarrow> int set \<Rightarrow> nat \<Rightarrow> gate \<Rightarrow> lease list" where
  "stale_leases cutoff locked limit db =
     take limit (sort_key last_seen_at
       (filter (\<lambda>l. lease_active l \<and> last_seen_at l < cutoff \<and> ls_id l \<notin> locked) (leases db)))"

definition expire_all :: "int \<Rightarrow> lease list \<Rightarrow> gate \<Rightarrow> gate" where
  "expire_all now ls db =
     fold (\<lambda>l d. snd (terminate_locked l LeaseExpired ''heartbeat_timeout'' now d)) ls db"

definition reap_once :: "int \<Rightarrow> int \<Rightarrow> int set \<Rightarrow> nat \<Rightarrow> lease_view list gate_tx" where
  "reap_once cutoff now locked limit db =
     (let stale = stale_leases cutoff locked limit db
      in commit_then db (expire_all now stale db)
           (Inr (map (\<lambda>l. lease_out (end_lease LeaseExpired ''heartbeat_timeout'' now l)) stale)))"

text \<open>\<open>timeout\<close> is \<open>settings.heartbeat_timeout_seconds\<close>; after the last attempt the result is empty.\<close>

definition reap_expired :: "int \<Rightarrow> int \<Rightarrow> (nat \<Rightarrow> int) \<Rightarrow> (nat \<Rightarrow> int set) \<Rightarrow> (nat \<Rightarrow> string option) \<Rightarrow> nat \<Rightarrow>
    lease_view list gate_tx" where
  "reap_expired timeout called_at now locked conc limit =
     retrying (\<lambda>_. Inr []) conc (\<lambda>k. reap_once (called_at - timeout) (now k) (locked k) limit) MAX_RETRIES None"

end
