(* ===== verification/Lease_Api.thy ===== *)
theory Lease_Api
  imports Lease_Service
begin

text \<open>
  Authentication (\<open>deps.py\<close>) and the endpoints of the administration plane (\<open>routers/admin.py\<close>)
  and of the devices (\<open>routers/device.py\<close>). A deployment fixes the token hash and the super
  administrator's key; generated tokens, identifiers and times are arguments of the endpoints.
\<close>

record gate_setup =
  gs_hash :: "string \<Rightarrow> string"
  gs_super_key :: string

section \<open>Authentication\<close>

definition require_super_admin :: "gate_setup \<Rightarrow> string option \<Rightarrow> gate_error + unit" where
  "require_super_admin su key = (if key \<noteq> Some (gs_super_key su) then Inl (HttpError 401 ''unauthorized'') else Inr ())"

definition require_tenant :: "gate_setup \<Rightarrow> string option \<Rightarrow> gate \<Rightarrow> gate_error + tenant" where
  "require_tenant su key db =
     (if or_default key [] = [] then Inl (HttpError 401 ''unauthorized'')
      else bindR (one_or_none (filter (\<lambda>t. tn_admin_key_hash t = gs_hash su (or_default key [])) (tenants db)))
             (\<lambda>t. someR t (HttpError 401 ''unauthorized'')))"

definition require_device :: "gate_setup \<Rightarrow> string option \<Rightarrow> gate \<Rightarrow> gate_error + device" where
  "require_device su token db =
     (if or_default token [] = [] then Inl (HttpError 401 ''unauthorized'')
      else bindR (one_or_none (filter (\<lambda>d. dv_token_hash d = gs_hash su (or_default token [])) (devices db)))
             (\<lambda>d. bindR (someR d (HttpError 401 ''unauthorized''))
             (\<lambda>dev. if dv_status dev = DeviceRevoked then Inl (HttpError 403 ''device_revoked'') else Inr dev)))"

text \<open>An endpoint authenticates, validates its body and then runs on the database.\<close>

definition gate_endpoint :: "(gate \<Rightarrow> gate_error + 'u) \<Rightarrow> bool \<Rightarrow> ('u \<Rightarrow> 'a gate_tx) \<Rightarrow> 'a gate_tx" where
  "gate_endpoint auth valid f db =
     (case auth db of
        Inl e \<Rightarrow> (Inl e, db)
      | Inr u \<Rightarrow> if \<not> valid then (Inl BadRequest, db) else f u db)"

lemma gate_endpoint_preserves:
  "P db \<Longrightarrow> (\<And>u. auth db = Inr u \<Longrightarrow> valid \<Longrightarrow> P (snd (f u db))) \<Longrightarrow> P (snd (gate_endpoint auth valid f db))"
  by (auto simp: gate_endpoint_def split: sum.split)

definition valid_name :: "string \<Rightarrow> bool" where
  "valid_name s \<longleftrightarrow> 1 \<le> length s \<and> length s \<le> 128"

section \<open>Administration\<close>

text \<open>\<open>create_tenant\<close> and \<open>create_device\<close> answer every failed commit with 409.\<close>

definition conflict_as :: "string \<Rightarrow> gate_error + 'a \<Rightarrow> gate_error + 'a" where
  "conflict_as code r = (case r of Inl e \<Rightarrow> Inl (HttpError 409 code) | Inr a \<Rightarrow> Inr a)"

definition create_tenant :: "gate_setup \<Rightarrow> int \<Rightarrow> int \<Rightarrow> string \<Rightarrow> string option \<Rightarrow> string \<Rightarrow>
    (tenant \<times> string) gate_tx" where
  "create_tenant su now nid admin_key key name =
     gate_endpoint (\<lambda>db. require_super_admin su key) (valid_name name) (\<lambda>_ db.
       let t = \<lparr>tn_id = nid, tn_name = strip name, tn_admin_key_hash = gs_hash su admin_key, tn_created_at = now\<rparr>
       in map_prod (conflict_as ''tenant_exists'') (\<lambda>d. d)
            (commit_then db (db\<lparr>tenants := tenants db @ [t]\<rparr>) (Inr (t, admin_key))))"

definition create_access_point :: "gate_setup \<Rightarrow> int \<Rightarrow> int \<Rightarrow> string option \<Rightarrow> string \<Rightarrow> int \<Rightarrow>
    access_point gate_tx" where
  "create_access_point su now nid key name cap =
     gate_endpoint (require_tenant su key) (valid_name name \<and> 0 \<le> cap \<and> cap \<le> 1000000) (\<lambda>t db.
       let ap = \<lparr>ap_id = nid, ap_tenant_id = tn_id t, ap_name = strip name, capacity = cap, ap_created_at = now\<rparr>
       in commit_then db (db\<lparr>access_points := access_points db @ [ap]\<rparr>) (Inr ap))"

definition list_access_points :: "gate_setup \<Rightarrow> string option \<Rightarrow> (access_point \<times> nat) list gate_tx" where
  "list_access_points su key =
     gate_endpoint (require_tenant su key) True (\<lambda>t db.
       (Inr (map (\<lambda>a. (a, length (active_of_ap db (ap_id a))))
          (sort_key ap_created_at (sort_key ap_id
            (filter (\<lambda>a. ap_tenant_id a = tn_id t) (access_points db))))), db))"

text \<open>A path parameter is \<open>None\<close> when it is not a UUID; the database then refuses the comparison.\<close>

definition get_tenant_ap :: "tenant \<Rightarrow> int option \<Rightarrow> gate \<Rightarrow> gate_error + access_point" where
  "get_tenant_ap t apid db =
     (case apid of
        None \<Rightarrow> Inl (DbError ''22P02'')
      | Some i \<Rightarrow>
          (case row_by ap_id i (access_points db) of
             None \<Rightarrow> Inl (HttpError 404 ''access_point_not_found'')
           | Some ap \<Rightarrow> if ap_tenant_id ap \<noteq> tn_id t then Inl (HttpError 404 ''access_point_not_found'') else Inr ap))"

text \<open>The first of the existing pools that overlaps, an error when a CIDR does not parse.\<close>

fun find_overlap :: "string \<Rightarrow> string list \<Rightarrow> pool_error + string option" where
  "find_overlap cidr [] = Inr None"
| "find_overlap cidr (other # others) =
     bindR (pools_overlap cidr other) (\<lambda>o'. if o' then Inr (Some other) else find_overlap cidr others)"

definition pool_body :: "int \<Rightarrow> int \<Rightarrow> int option \<Rightarrow> string \<Rightarrow> int \<Rightarrow> int \<Rightarrow> tenant \<Rightarrow> (address_pool \<times> nat) gate_tx" where
  "pool_body now nid apid cidr rf rl t db =
     (case get_tenant_ap t apid db of
        Inl e \<Rightarrow> (Inl e, db)
      | Inr ap \<Rightarrow>
          (case pool_hosts cidr rf rl of
             Inl e \<Rightarrow> (Inl (HttpError 422 ''invalid_pool''), db)
           | Inr hosts \<Rightarrow>
               (case find_overlap cidr (map pl_cidr (filter (\<lambda>p. pl_access_point_id p = ap_id ap) (pools db))) of
                  Inl e \<Rightarrow> (Inl (Uncaught ''ValueError''), db)
                | Inr (Some other) \<Rightarrow> (Inl (HttpError 422 ''pool_overlap''), db)
                | Inr None \<Rightarrow>
                    (let p = \<lparr>pl_id = nid, pl_tenant_id = tn_id t, pl_access_point_id = ap_id ap,
                              pl_cidr = cidr, reserved_first = rf, reserved_last = rl, pl_created_at = now\<rparr>
                     in commit_then db (db\<lparr>pools := pools db @ [p]\<rparr>) (Inr (p, length hosts))))))"

text \<open>The body's validator replaces the CIDR by the canonical text of the trimmed one.\<close>

definition create_pool :: "gate_setup \<Rightarrow> int \<Rightarrow> int \<Rightarrow> string option \<Rightarrow> int option \<Rightarrow> string \<Rightarrow> int \<Rightarrow> int \<Rightarrow>
    (address_pool \<times> nat) gate_tx" where
  "create_pool su now nid key apid cidr rf rl =
     gate_endpoint (require_tenant su key)
       (canonical_cidr (strip cidr) \<noteq> None \<and> 0 \<le> rf \<and> rf \<le> 1000000 \<and> 0 \<le> rl \<and> rl \<le> 1000000)
       (case canonical_cidr (strip cidr) of
          None \<Rightarrow> (\<lambda>t db. (Inl BadRequest, db))
        | Some c \<Rightarrow> pool_body now nid apid c rf rl)"

definition list_pools :: "gate_setup \<Rightarrow> string option \<Rightarrow> int option \<Rightarrow> (address_pool \<times> nat) list gate_tx" where
  "list_pools su key apid =
     gate_endpoint (require_tenant su key) True (\<lambda>t db.
       (bindR (get_tenant_ap t apid db) (\<lambda>ap.
          foldR (\<lambda>out p. case pool_hosts (pl_cidr p) (reserved_first p) (reserved_last p) of
                   Inl e \<Rightarrow> Inl (Uncaught ''ValueError'') | Inr hosts \<Rightarrow> Inr (out @ [(p, length hosts)]))
            [] (ap_pools db (ap_id ap))), db))"

definition create_device :: "gate_setup \<Rightarrow> int \<Rightarrow> int \<Rightarrow> string \<Rightarrow> string option \<Rightarrow> string \<Rightarrow>
    (device \<times> string) gate_tx" where
  "create_device su now nid token key name =
     gate_endpoint (require_tenant su key) (valid_name name) (\<lambda>t db.
       let d = \<lparr>dv_id = nid, dv_tenant_id = tn_id t, dv_name = strip name, dv_token_hash = gs_hash su token,
                dv_status = DeviceActive, dv_created_at = now, dv_revoked_at = None\<rparr>
       in map_prod (conflict_as ''device_exists'') (\<lambda>d. d)
            (commit_then db (db\<lparr>devices := devices db @ [d]\<rparr>) (Inr (d, token))))"

definition list_devices :: "gate_setup \<Rightarrow> string option \<Rightarrow> device list gate_tx" where
  "list_devices su key =
     gate_endpoint (require_tenant su key) True (\<lambda>t db.
       (Inr (sort_key dv_created_at (sort_key dv_id (filter (\<lambda>d. dv_tenant_id d = tn_id t) (devices db)))), db))"

definition get_tenant_device :: "tenant \<Rightarrow> int option \<Rightarrow> gate \<Rightarrow> gate_error + device" where
  "get_tenant_device t did db =
     (case did of
        None \<Rightarrow> Inl (DbError ''22P02'')
      | Some i \<Rightarrow>
          (case row_by dv_id i (devices db) of
             None \<Rightarrow> Inl (HttpError 404 ''device_not_found'')
           | Some d \<Rightarrow> if dv_tenant_id d \<noteq> tn_id t then Inl (HttpError 404 ''device_not_found'') else Inr d))"

definition revoke_endpoint :: "gate_setup \<Rightarrow> (nat \<Rightarrow> int) \<Rightarrow> (nat \<Rightarrow> string option) \<Rightarrow> string option \<Rightarrow>
    int option \<Rightarrow> device gate_tx" where
  "revoke_endpoint su now conc key did =
     gate_endpoint (require_tenant su key) True (\<lambda>t db.
       case get_tenant_device t did db of
         Inl e \<Rightarrow> (Inl e, db)
       | Inr d \<Rightarrow>
           (case revoke_device now conc (dv_id d) db of
              (Inl e, db') \<Rightarrow> (Inl e, db')
            | (Inr snapshot, db') \<Rightarrow>
                (someR (row_by dv_id (dv_id d) (devices db')) (Uncaught ''InvalidRequestError''), db')))"

text \<open>The two identifier filters are \<open>Some None\<close> when their text is not a UUID.\<close>

definition list_leases :: "gate_setup \<Rightarrow> string option \<Rightarrow> lease_status option \<Rightarrow> int option option \<Rightarrow>
    int option option \<Rightarrow> lease list gate_tx" where
  "list_leases su key st did apid =
     gate_endpoint (require_tenant su key) True (\<lambda>t db.
       (if did = Some None \<or> apid = Some None then Inl (DbError ''22P02'')
        else Inr (take 500 (sort_key (\<lambda>l. - connected_at l) (sort_key ls_id
          (filter (\<lambda>l. ls_tenant_id l = tn_id t \<and>
             (case st of None \<Rightarrow> True | Some s \<Rightarrow> ls_status l = s) \<and>
             (did = None \<or> did = Some (Some (ls_device_id l))) \<and>
             (apid = None \<or> apid = Some (Some (ls_access_point_id l)))) (leases db))))), db))"

definition get_tenant_lease :: "tenant \<Rightarrow> int option \<Rightarrow> gate \<Rightarrow> gate_error + lease" where
  "get_tenant_lease t lid db =
     (case lid of
        None \<Rightarrow> Inl (DbError ''22P02'')
      | Some i \<Rightarrow>
          (case row_by ls_id i (leases db) of
             None \<Rightarrow> Inl (HttpError 404 ''lease_not_found'')
           | Some l \<Rightarrow> if ls_tenant_id l \<noteq> tn_id t then Inl (HttpError 404 ''lease_not_found'') else Inr l))"

definition get_lease :: "gate_setup \<Rightarrow> string option \<Rightarrow> int option \<Rightarrow> lease gate_tx" where
  "get_lease su key lid =
     gate_endpoint (require_tenant su key) True (\<lambda>t db. (get_tenant_lease t lid db, db))"

definition get_lease_events :: "gate_setup \<Rightarrow> string option \<Rightarrow> int option \<Rightarrow> lease_event list gate_tx" where
  "get_lease_events su key lid =
     gate_endpoint (require_tenant su key) True (\<lambda>t db.
       (bindR (get_tenant_lease t lid db) (\<lambda>l.
          Inr (sort_key ev_created_at (filter (\<lambda>e. ev_lease_id e = Some (ls_id l)) (lease_events db)))), db))"

section \<open>Devices\<close>

definition connect :: "gate_setup \<Rightarrow> (nat \<Rightarrow> lease_env) \<Rightarrow> (nat \<Rightarrow> string option) \<Rightarrow> string option \<Rightarrow>
    int option \<Rightarrow> connect_result gate_tx" where
  "connect su envs conc token apid =
     gate_endpoint (require_device su token) (apid \<noteq> None)
       (\<lambda>dev. establish_session envs conc (dv_id dev) (the apid))"

definition post_heartbeat :: "gate_setup \<Rightarrow> (nat \<Rightarrow> int) \<Rightarrow> (nat \<Rightarrow> string option) \<Rightarrow> string option \<Rightarrow>
    int option \<Rightarrow> int \<Rightarrow> lease_view gate_tx" where
  "post_heartbeat su now conc token lid gen =
     gate_endpoint (require_device su token) (1 \<le> gen) (\<lambda>dev. heartbeat now conc (dv_id dev) lid gen)"

definition post_close :: "gate_setup \<Rightarrow> (nat \<Rightarrow> int) \<Rightarrow> (nat \<Rightarrow> string option) \<Rightarrow> string option \<Rightarrow>
    int option \<Rightarrow> int \<Rightarrow> lease_view gate_tx" where
  "post_close su now conc token lid gen =
     gate_endpoint (require_device su token) (1 \<le> gen) (\<lambda>dev. close_session now conc (dv_id dev) lid gen)"

definition current_session :: "gate_setup \<Rightarrow> string option \<Rightarrow> lease_view option gate_tx" where
  "current_session su token =
     gate_endpoint (require_device su token) True (\<lambda>dev db.
       (bindR (one_or_none (active_of_device db (dv_id dev))) (\<lambda>l. Inr (map_option lease_out l)), db))"

section \<open>Requests\<close>

datatype gate_op =
    CreateTenant int int string "string option" string
  | CreateAccessPoint int int "string option" string int
  | CreatePool int int "string option" "int option" string int int
  | CreateDevice int int string "string option" string
  | RevokeDevice "nat \<Rightarrow> int" "nat \<Rightarrow> string option" "string option" "int option"
  | Connect "nat \<Rightarrow> lease_env" "nat \<Rightarrow> string option" "string option" "int option"
  | Heartbeat "nat \<Rightarrow> int" "nat \<Rightarrow> string option" "string option" "int option" int
  | CloseSession "nat \<Rightarrow> int" "nat \<Rightarrow> string option" "string option" "int option" int
  | Reap int int "nat \<Rightarrow> int" "nat \<Rightarrow> int set" "nat \<Rightarrow> string option" nat

fun gate_step :: "gate_setup \<Rightarrow> gate_op \<Rightarrow> gate \<Rightarrow> gate" where
  "gate_step su (CreateTenant now nid admin_key key name) db = snd (create_tenant su now nid admin_key key name db)"
| "gate_step su (CreateAccessPoint now nid key name cap) db = snd (create_access_point su now nid key name cap db)"
| "gate_step su (CreatePool now nid key apid cidr rf rl) db = snd (create_pool su now nid key apid cidr rf rl db)"
| "gate_step su (CreateDevice now nid token key name) db = snd (create_device su now nid token key name db)"
| "gate_step su (RevokeDevice now conc key did) db = snd (revoke_endpoint su now conc key did db)"
| "gate_step su (Connect envs conc token apid) db = snd (connect su envs conc token apid db)"
| "gate_step su (Heartbeat now conc token lid gen) db = snd (post_heartbeat su now conc token lid gen db)"
| "gate_step su (CloseSession now conc token lid gen) db = snd (post_close su now conc token lid gen db)"
| "gate_step su (Reap timeout called_at now locked conc limit) db =
     snd (reap_expired timeout called_at now locked conc limit db)"

definition gate_run :: "gate_setup \<Rightarrow> gate_op list \<Rightarrow> gate \<Rightarrow> gate" where
  "gate_run su ops db = fold (gate_step su) ops db"

end
