(* ===== verification/Lease_Invariants.thy ===== *)
theory Lease_Invariants
  imports Lease_Api
begin

text \<open>
  The invariant of the gateway and its preservation by every change the service makes to the
  database: an active lease belongs to a device that is not revoked, uses an assignable address of
  a pool of its access point, generations of a device count up from 1, a lease is released once,
  capacities are respected and pools of an access point do not overlap.
\<close>

section \<open>The invariant\<close>

definition lease_sound :: "gate \<Rightarrow> lease \<Rightarrow> bool" where
  "lease_sound db l \<longleftrightarrow>
     (lease_active l \<longrightarrow> (\<exists>d. row_by dv_id (ls_device_id l) (devices db) = Some d \<and> dv_status d = DeviceActive)) \<and>
     (\<exists>d. row_by dv_id (ls_device_id l) (devices db) = Some d \<and> dv_tenant_id d = ls_tenant_id l) \<and>
     (\<exists>a. row_by ap_id (ls_access_point_id l) (access_points db) = Some a \<and> ap_tenant_id a = ls_tenant_id l) \<and>
     (\<exists>p \<in> set (pools db). \<exists>hs. pl_id p = ls_pool_id l \<and> pl_access_point_id p = ls_access_point_id l \<and>
        pool_hosts (pl_cidr p) (reserved_first p) (reserved_last p) = Inr hs \<and> ip_address l \<in> str_ip ` set hs) \<and>
     (lease_active l \<longleftrightarrow> ended_at l = None)"

definition terminations :: "gate \<Rightarrow> int \<Rightarrow> nat" where
  "terminations db i =
     length (filter (\<lambda>e. ev_lease_id e = Some i \<and> ev_type e = ''terminated'') (lease_events db))"

definition generations :: "gate \<Rightarrow> int \<Rightarrow> int list" where
  "generations db did = map generation (filter (\<lambda>l. ls_device_id l = did) (leases db))"

definition generations_ok :: "gate \<Rightarrow> bool" where
  "generations_ok db \<longleftrightarrow> (\<forall>d. generations db d = [1..int (length (generations db d))])"

definition pool_sound :: "gate \<Rightarrow> address_pool \<Rightarrow> bool" where
  "pool_sound db p \<longleftrightarrow>
     (\<exists>hs. pool_hosts (pl_cidr p) (reserved_first p) (reserved_last p) = Inr hs) \<and>
     (\<forall>q \<in> set (pools db). pl_access_point_id q = pl_access_point_id p \<longrightarrow> pl_id q \<noteq> pl_id p \<longrightarrow>
        pools_overlap (pl_cidr p) (pl_cidr q) = Inr False)"

definition gate_sem :: "gate \<Rightarrow> bool" where
  "gate_sem db \<longleftrightarrow>
     (\<forall>a \<in> set (access_points db). int (length (active_of_ap db (ap_id a))) \<le> capacity a) \<and>
     (\<forall>l \<in> set (leases db). lease_sound db l \<and> terminations db (ls_id l) = (if lease_active l then 0 else 1)) \<and>
     generations_ok db \<and> (\<forall>p \<in> set (pools db). pool_sound db p)"

definition gate_inv :: "gate \<Rightarrow> bool" where
  "gate_inv db \<longleftrightarrow> gate_ok db \<and> gate_sem db"

lemma gate_inv_ok: "gate_inv db \<Longrightarrow> gate_ok db"
  by (simp add: gate_inv_def)

lemma commit_inv:
  "gate_inv old \<Longrightarrow> (gate_ok new \<Longrightarrow> gate_sem new) \<Longrightarrow> gate_inv (snd (commit_then old new r))"
  by (auto simp: commit_then_snd gate_inv_def)

section \<open>Changes that keep the constraints\<close>

lemma add_event_fields [simp]:
  "tenants (add_event now l t r d db) = tenants db" "access_points (add_event now l t r d db) = access_points db"
  "pools (add_event now l t r d db) = pools db" "devices (add_event now l t r d db) = devices db"
  "leases (add_event now l t r d db) = leases db"
  by (simp_all add: add_event_def)

lemma add_event_ok: "gate_ok db \<Longrightarrow> l \<in> set (leases db) \<Longrightarrow> gate_ok (add_event now l t r d db)"
  by (simp add: gate_ok_def gate_unique_def active_unique_def gate_checks_def gate_refs_def add_event_def event_ref_ok_def)

text \<open>A lease keeps its identity under \<open>f\<close>: what the constraints say of it stays true unless it
  becomes active.\<close>

definition same_lease :: "lease \<Rightarrow> lease \<Rightarrow> bool" where
  "same_lease l l' \<longleftrightarrow> ls_id l' = ls_id l \<and> ls_tenant_id l' = ls_tenant_id l \<and>
     ls_access_point_id l' = ls_access_point_id l \<and> ls_device_id l' = ls_device_id l \<and>
     ls_pool_id l' = ls_pool_id l \<and> generation l' = generation l \<and> ip_address l' = ip_address l \<and>
     ls_token_hash l' = ls_token_hash l \<and> connected_at l' = connected_at l \<and>
     (lease_active l' \<longrightarrow> lease_active l)"

lemma same_lease_end [simp]: "st \<noteq> LeaseActive \<Longrightarrow> same_lease l (end_lease st r now l)"
  by (simp add: same_lease_def end_lease_def lease_active_def)

lemma same_lease_touch [simp]: "same_lease l (touch_lease now l)"
  by (simp add: same_lease_def touch_lease_def lease_active_def)

lemma same_lease_refl [simp]: "same_lease l l"
  by (simp add: same_lease_def)

lemma lease_active_touch [simp]: "lease_active (touch_lease now l) = lease_active l"
  by (simp add: lease_active_def touch_lease_def)

lemma lease_active_end [simp]: "lease_active (end_lease st r now l) \<longleftrightarrow> st = LeaseActive"
  by (simp add: lease_active_def end_lease_def)

lemma map_upd_same:
  "(\<And>l. same_lease l (f l)) \<Longrightarrow> (\<And>l l'. same_lease l l' \<Longrightarrow> g l' = g l) \<Longrightarrow> map g (upd_by ls_id i f ls) = map g ls"
  by (induction ls) auto

lemma active_upd_same:
  assumes "\<And>l. same_lease l (f l)" and "\<And>l l'. same_lease l l' \<Longrightarrow> g l' = g l"
  shows "subseq (map g (filter lease_active (upd_by ls_id i f ls))) (map g (filter lease_active ls))"
proof (induction ls)
  case Nil
  then show ?case by simp
next
  case (Cons l ls)
  have "lease_active (f l) \<Longrightarrow> lease_active l" using assms(1)[of l] by (simp add: same_lease_def)
  with Cons assms show ?case by auto
qed

lemma subseq_keeps_distinct: "subseq xs ys \<Longrightarrow> distinct ys \<Longrightarrow> distinct xs"
proof (induction rule: list_emb.induct)
  case (list_emb_Cons2 x y xs ys)
  then show ?case using subseq_order.order_refl by (auto dest: list_emb_set)
qed auto

lemma list_all_upd_same:
  assumes "\<And>l. same_lease l (f l)" and "\<And>l l'. same_lease l l' \<Longrightarrow> Q l' = Q l"
  shows "list_all Q (upd_by ls_id i f ls) = list_all Q ls"
  using assms by (induction ls) auto

lemma upd_lease_ok:
  assumes ok: "gate_ok db" and same: "\<And>l. same_lease l (f l)"
  shows "gate_ok (db\<lparr>leases := upd_by ls_id i f (leases db)\<rparr>)"
proof -
  have k: "map ls_id (upd_by ls_id i f (leases db)) = map ls_id (leases db)"
    by (rule map_upd_same[OF same]) (simp add: same_lease_def)
  then have kset: "ls_id ` set (upd_by ls_id i f (leases db)) = ls_id ` set (leases db)"
    by (metis list.set_map)
  have "active_unique (db\<lparr>leases := upd_by ls_id i f (leases db)\<rparr>)"
    using ok active_upd_same[OF same, of "\<lambda>l. (ls_access_point_id l, ip_address l)" i "leases db"]
      active_upd_same[OF same, of ls_device_id i "leases db"]
    by (auto simp: gate_ok_def active_unique_def Let_def same_lease_def intro: subseq_keeps_distinct)
  moreover have "gate_unique (db\<lparr>leases := upd_by ls_id i f (leases db)\<rparr>)"
    using ok by (simp add: gate_ok_def gate_unique_def k)
  moreover have "gate_refs (db\<lparr>leases := upd_by ls_id i f (leases db)\<rparr>)"
  proof -
    have "list_all (\<lambda>l. ls_tenant_id l \<in> tn_id ` set (tenants db) \<and>
        ls_access_point_id l \<in> ap_id ` set (access_points db) \<and> ls_device_id l \<in> dv_id ` set (devices db) \<and>
        ls_pool_id l \<in> pl_id ` set (pools db)) (upd_by ls_id i f (leases db)) =
      list_all (\<lambda>l. ls_tenant_id l \<in> tn_id ` set (tenants db) \<and>
        ls_access_point_id l \<in> ap_id ` set (access_points db) \<and> ls_device_id l \<in> dv_id ` set (devices db) \<and>
        ls_pool_id l \<in> pl_id ` set (pools db)) (leases db)"
      by (rule list_all_upd_same[OF same]) (simp add: same_lease_def)
    with ok show ?thesis by (simp add: gate_ok_def gate_refs_def kset)
  qed
  ultimately show ?thesis using ok by (simp add: gate_ok_def gate_checks_def)
qed

lemma terminate_ok:
  assumes "gate_ok db" and "l \<in> set (leases db)" and "st \<noteq> LeaseActive"
  shows "gate_ok (snd (terminate_locked l st r now db))"
proof (cases "lease_active l")
  case False
  with assms show ?thesis by (simp add: terminate_locked_def)
next
  case True
  let ?d = "db\<lparr>leases := upd_by ls_id (ls_id l) (end_lease st r now) (leases db)\<rparr>"
  have "gate_ok ?d" by (rule upd_lease_ok[OF assms(1)]) (simp add: assms(3))
  moreover have "gate_ok (add_event now l ''terminated'' (Some r) None ?d)"
  proof -
    have "end_lease st r now l \<in> set (leases ?d)"
      using assms(2) by (auto simp: upd_by_def)
    from add_event_ok[OF \<open>gate_ok ?d\<close> this] show ?thesis by (simp add: add_event_def end_lease_def)
  qed
  ultimately show ?thesis using True by (simp add: terminate_locked_def)
qed

section \<open>Changes that keep the meaning\<close>

lemma gate_semI:
  assumes "\<And>a. a \<in> set (access_points db) \<Longrightarrow> int (length (active_of_ap db (ap_id a))) \<le> capacity a"
    and "\<And>l. l \<in> set (leases db) \<Longrightarrow> lease_sound db l"
    and "\<And>l. l \<in> set (leases db) \<Longrightarrow> terminations db (ls_id l) = (if lease_active l then 0 else 1)"
    and "generations_ok db" and "\<And>p. p \<in> set (pools db) \<Longrightarrow> pool_sound db p"
  shows "gate_sem db"
  using assms by (auto simp: gate_sem_def)

lemma gate_semD:
  assumes "gate_sem db"
  shows "a \<in> set (access_points db) \<Longrightarrow> int (length (active_of_ap db (ap_id a))) \<le> capacity a"
    and "l \<in> set (leases db) \<Longrightarrow> lease_sound db l"
    and "l \<in> set (leases db) \<Longrightarrow> terminations db (ls_id l) = (if lease_active l then 0 else 1)"
    and "generations_ok db" and "p \<in> set (pools db) \<Longrightarrow> pool_sound db p"
  using assms unfolding gate_sem_def by blast+

lemma lease_sound_cong:
  "devices db' = devices db \<Longrightarrow> access_points db' = access_points db \<Longrightarrow> pools db' = pools db \<Longrightarrow>
   lease_sound db' l = lease_sound db l"
  by (simp add: lease_sound_def)

lemma pool_sound_cong: "pools db' = pools db \<Longrightarrow> pool_sound db' p = pool_sound db p"
  by (simp add: pool_sound_def)

lemma filter_upd_le:
  assumes "\<And>l. P (f l) \<Longrightarrow> P l"
  shows "length (filter P (upd_by ls_id i f ls)) \<le> length (filter P ls)"
  using assms by (induction ls) (auto intro: le_SucI)

lemma generations_upd:
  assumes "\<And>l. same_lease l (f l)"
  shows "generations (db\<lparr>leases := upd_by ls_id i f (leases db), lease_events := es\<rparr>) d = generations db d"
proof -
  have "map generation (filter (\<lambda>l. ls_device_id l = d) (upd_by ls_id i f ls)) =
      map generation (filter (\<lambda>l. ls_device_id l = d) ls)" for ls
    using assms by (induction ls) (auto simp: same_lease_def)
  then show ?thesis by (simp add: generations_def)
qed

lemma lease_sound_same:
  assumes "lease_sound db l" and "same_lease l l'" and "lease_active l' \<longleftrightarrow> ended_at l' = None"
  shows "lease_sound db l'"
  using assms by (simp add: lease_sound_def same_lease_def)

lemma sem_upd_lease:
  assumes ok: "gate_ok db" and sem: "gate_sem db" and l: "row_by ls_id i (leases db) = Some l"
    and same: "\<And>l. same_lease l (f l)"
    and ended: "\<And>l. lease_active l = (ended_at l = None) \<Longrightarrow> lease_active (f l) = (ended_at (f l) = None)"
    and db': "db' = db\<lparr>leases := upd_by ls_id i f (leases db), lease_events := es\<rparr>"
    and other: "\<And>j. j \<noteq> i \<Longrightarrow> terminations db' j = terminations db j"
    and self: "terminations db' i = (if lease_active (f l) then 0 else 1)"
  shows "gate_sem db'"
proof -
  have parts: "access_points db' = access_points db" "devices db' = devices db" "pools db' = pools db"
    "leases db' = upd_by ls_id i f (leases db)"
    by (simp_all add: db')
  have inactive: "lease_active (f l) \<Longrightarrow> lease_active l" for l using same[of l] by (simp add: same_lease_def)
  have changed: "lease_sound db' x \<and> terminations db' (ls_id x) = (if lease_active x then 0 else 1)"
    if x: "x \<in> set (leases db')" for x
  proof -
    consider (old) "x \<in> set (leases db)" "ls_id x \<noteq> i"
      | (new) x0 where "x0 \<in> set (leases db)" "ls_id x0 = i" "x = f x0"
      using x unfolding parts by (blast dest!: set_upd_byD)
    then show ?thesis
    proof cases
      case old
      with gate_semD(2,3)[OF sem old(1)] other[OF old(2)] lease_sound_cong[OF parts(2,1,3), of x]
      show ?thesis by simp
    next
      case new
      from ok have "distinct (map ls_id (leases db))" by (simp add: gate_ok_def gate_unique_def)
      from row_by_unique[OF this new(1,2)] l have "x0 = l" by simp
      have s: "lease_sound db x0" by (rule gate_semD(2)[OF sem new(1)])
      have "lease_sound db (f x0)"
        by (rule lease_sound_same[OF s same]) (rule ended, use s in \<open>simp add: lease_sound_def\<close>)
      moreover have "ls_id (f l) = i" using same[of l] new \<open>x0 = l\<close> by (simp add: same_lease_def)
      ultimately show ?thesis
        using self new \<open>x0 = l\<close> lease_sound_cong[OF parts(2,1,3), of "f x0"] by simp
    qed
  qed
  show ?thesis
  proof (rule gate_semI)
    fix a assume "a \<in> set (access_points db')"
    then have a: "a \<in> set (access_points db)" by (simp add: parts)
    have "length (active_of_ap db' (ap_id a)) \<le> length (active_of_ap db (ap_id a))"
      unfolding active_of_ap_def parts
      by (rule filter_upd_le) (use same inactive in \<open>auto simp: same_lease_def\<close>)
    with gate_semD(1)[OF sem a] show "int (length (active_of_ap db' (ap_id a))) \<le> capacity a" by simp
  next
    fix x assume "x \<in> set (leases db')"
    with changed show "lease_sound db' x" and "terminations db' (ls_id x) = (if lease_active x then 0 else 1)" by auto
  next
    have "generations db' d = generations db d" for d unfolding db' by (rule generations_upd[OF same])
    with gate_semD(4)[OF sem] show "generations_ok db'" by (simp add: generations_ok_def)
  next
    fix p assume "p \<in> set (pools db')"
    with gate_semD(5)[OF sem] pool_sound_cong[OF parts(3)] show "pool_sound db' p" by (simp add: parts)
  qed
qed

lemma terminations_event:
  "terminations (add_event now l t r d db) j =
     terminations db j + (if j = ls_id l \<and> t = ''terminated'' then 1 else 0)"
  by (auto simp: terminations_def add_event_def)

lemma terminations_cong: "lease_events db' = lease_events db \<Longrightarrow> terminations db' j = terminations db j"
  by (simp add: terminations_def)

lemma terminate_sem:
  assumes ok: "gate_ok db" and sem: "gate_sem db" and l: "row_by ls_id (ls_id l) (leases db) = Some l"
    and st: "st \<noteq> LeaseActive"
  shows "gate_sem (snd (terminate_locked l st r now db))"
proof (cases "lease_active l")
  case False
  with sem show ?thesis by (simp add: terminate_locked_def)
next
  case True
  let ?db' = "snd (terminate_locked l st r now db)"
  have "l \<in> set (leases db)" using row_by_SomeD[OF l] by simp
  from gate_semD(3)[OF sem this] True have t0: "terminations db (ls_id l) = 0" by simp
  let ?d = "db\<lparr>leases := upd_by ls_id (ls_id l) (end_lease st r now) (leases db)\<rparr>"
  have "terminations ?d j = terminations db j" for j by (rule terminations_cong) simp
  then have ts: "terminations ?db' j = terminations db j + (if j = ls_id l then 1 else 0)" for j
    using True by (simp add: terminate_locked_def terminations_event)
  show ?thesis
  proof (rule sem_upd_lease[OF ok sem l])
    show "?db' = db\<lparr>leases := upd_by ls_id (ls_id l) (end_lease st r now) (leases db), lease_events := lease_events ?db'\<rparr>"
      unfolding terminate_locked_def add_event_def using True by simp
    show "same_lease k (end_lease st r now k)" for k by (simp add: st)
    show "lease_active (end_lease st r now k) = (ended_at (end_lease st r now k) = None)" for k
      using st by (simp add: lease_active_def end_lease_def)
    show "j \<noteq> ls_id l \<Longrightarrow> terminations ?db' j = terminations db j" for j by (simp only: ts if_False add_0_right)
    show "terminations ?db' (ls_id l) = (if lease_active (end_lease st r now l) then 0 else 1)"
      using st unfolding ts t0 by simp
  qed
qed

lemma touch_sem:
  assumes ok: "gate_ok db" and sem: "gate_sem db" and l: "row_by ls_id i (leases db) = Some l"
  shows "gate_sem (db\<lparr>leases := upd_by ls_id i (touch_lease now) (leases db)\<rparr>)"
proof (rule sem_upd_lease[OF ok sem l])
  show "db\<lparr>leases := upd_by ls_id i (touch_lease now) (leases db)\<rparr> =
      db\<lparr>leases := upd_by ls_id i (touch_lease now) (leases db), lease_events := lease_events db\<rparr>"
    by simp
  have l': "l \<in> set (leases db)" "ls_id l = i" using row_by_SomeD[OF l] by auto
  have "terminations (db\<lparr>leases := upd_by ls_id i (touch_lease now) (leases db)\<rparr>) i = terminations db i"
    by (rule terminations_cong) simp
  with gate_semD(3)[OF sem l'(1)] l'(2)
  show "terminations (db\<lparr>leases := upd_by ls_id i (touch_lease now) (leases db)\<rparr>) i =
      (if lease_active (touch_lease now l) then 0 else 1)"
    by simp
  show "terminations (db\<lparr>leases := upd_by ls_id i (touch_lease now) (leases db)\<rparr>) j = terminations db j" for j
    by (rule terminations_cong) simp
  show "lease_active k = (ended_at k = None) \<Longrightarrow>
      lease_active (touch_lease now k) = (ended_at (touch_lease now k) = None)" for k
    by (simp add: touch_lease_def lease_active_def)
qed simp

lemma event_sem:
  assumes sem: "gate_sem db" and t: "t \<noteq> ''terminated''"
  shows "gate_sem (add_event now l t r d db)" (is "gate_sem ?db'")
proof (rule gate_semI)
  have "generations ?db' d = generations db d" for d by (simp add: generations_def)
  with gate_semD(4)[OF sem] show "generations_ok ?db'" by (simp add: generations_ok_def)
  show "p \<in> set (pools ?db') \<Longrightarrow> pool_sound ?db' p" for p
    using gate_semD(5)[OF sem] pool_sound_cong[of ?db' db] by simp
  show "a \<in> set (access_points ?db') \<Longrightarrow> int (length (active_of_ap ?db' (ap_id a))) \<le> capacity a" for a
    using gate_semD(1)[OF sem] by (simp add: active_of_ap_def)
  show "x \<in> set (leases ?db') \<Longrightarrow> lease_sound ?db' x" for x
    using gate_semD(2)[OF sem] lease_sound_cong[of ?db' db x] by simp
  show "x \<in> set (leases ?db') \<Longrightarrow> terminations ?db' (ls_id x) = (if lease_active x then 0 else 1)" for x
    using gate_semD(3)[OF sem] t by (simp add: terminations_event)
qed

lemma revoke_sem:
  assumes sem: "gate_sem db" and none: "active_of_device db did = []"
  shows "gate_sem (db\<lparr>devices := upd_by dv_id did (revoke_row now) (devices db)\<rparr>)" (is "gate_sem ?db'")
proof (rule gate_semI)
  have tid: "dv_tenant_id (revoke_row now d) = dv_tenant_id d" for d by (simp add: revoke_row_def)
  show "lease_sound ?db' l" if "l \<in> set (leases ?db')" for l
  proof -
    have l: "l \<in> set (leases db)" using that by simp
    have "lease_active l \<longrightarrow> ls_device_id l \<noteq> did"
      using none l by (auto simp: active_of_device_def filter_empty_conv)
    with gate_semD(2)[OF sem l] show ?thesis
      by (auto simp: lease_sound_def dev_revoke.lookup_upd tid)
  qed
  have "generations ?db' d = generations db d" for d by (simp add: generations_def)
  with gate_semD(4)[OF sem] show "generations_ok ?db'" by (simp add: generations_ok_def)
  show "p \<in> set (pools ?db') \<Longrightarrow> pool_sound ?db' p" for p
    using gate_semD(5)[OF sem] pool_sound_cong[of ?db' db] by simp
  show "a \<in> set (access_points ?db') \<Longrightarrow> int (length (active_of_ap ?db' (ap_id a))) \<le> capacity a" for a
    using gate_semD(1)[OF sem] by (simp add: active_of_ap_def)
  show "x \<in> set (leases ?db') \<Longrightarrow> terminations ?db' (ls_id x) = (if lease_active x then 0 else 1)" for x
    using gate_semD(3)[OF sem] terminations_cong[of ?db' db "ls_id x"] by simp
qed

end
