(* ===== verification/Lease_Steps.thy ===== *)
theory Lease_Steps
  imports Lease_Invariants
begin

text \<open>
  Every request of the gateway keeps the invariant: allocation of a new lease, insertion of rows,
  and the service operations under their retry loop; the service contracts are interpreted on
  \<open>gate_step\<close> at the end of \<open>Lease_History\<close>.
\<close>

section \<open>Allocation\<close>

lemma generations_append:
  "generations (db\<lparr>leases := leases db @ [l]\<rparr>) d = generations db d @ (if ls_device_id l = d then [generation l] else [])"
  by (simp add: generations_def)

lemma foldl_max_upto: "1 \<le> n \<Longrightarrow> foldl max 1 [2..n] = (n::int)"
proof (induction "nat (n - 1)" arbitrary: n)
  case 0
  then show ?case by simp
next
  case (Suc k)
  then have "2 \<le> n" "k = nat (n - 1 - 1)" by linarith+
  then have "foldl max 1 [2..n - 1] = n - 1" by (intro Suc.hyps(1)) auto
  moreover have "[2..n] = [2..n - 1] @ [n]" using \<open>2 \<le> n\<close> by (simp add: upto_rec2)
  ultimately show ?case by simp
qed

lemma max_generation_length:
  assumes "generations_ok db"
  shows "max_generation db did = int (length (generations db did))"
proof -
  let ?n = "int (length (generations db did))"
  have g: "map generation (filter (\<lambda>l. ls_device_id l = did) (leases db)) = [1..?n]"
    using assms by (simp add: generations_ok_def generations_def)
  show ?thesis
  proof (cases "1 \<le> ?n")
    case True
    then have "[1..?n] = 1 # [2..?n]" by (simp add: upto_rec1)
    then show ?thesis using foldl_max_upto[OF True] by (simp add: max_generation_def g del: upto_rec1)
  next
    case False
    then have "generations db did = []" by (cases "generations db did") auto
    then show ?thesis by (simp add: max_generation_def generations_def)
  qed
qed

lemma all_hosts_total:
  "(\<And>p. p \<in> set ps \<Longrightarrow> \<exists>hs. pool_hosts (pl_cidr p) (reserved_first p) (reserved_last p) = Inr hs) \<Longrightarrow>
   \<exists>hs. all_hosts (map pool_spec_of ps) = Inr hs"
  by (induction ps) (fastforce simp: pool_spec_of_def)+

lemma set_ap_pools: "set (ap_pools db i) = {p \<in> set (pools db). pl_access_point_id p = i}"
  by (auto simp: ap_pools_def)

lemma chosen_pool:
  assumes sem: "gate_sem db" and ch: "choose_address (map pool_spec_of (ap_pools db i)) occ = Inr (Some c)"
  shows "aa_ip c \<notin> occ \<and> (\<exists>p \<in> set (pools db). \<exists>hs. pl_id p = aa_pool_id c \<and> pl_access_point_id p = i \<and>
    pool_hosts (pl_cidr p) (reserved_first p) (reserved_last p) = Inr hs \<and> aa_ip c \<in> str_ip ` set hs)"
proof -
  have "\<exists>hs. all_hosts (map pool_spec_of (ap_pools db i)) = Inr hs"
    using gate_semD(5)[OF sem] by (intro all_hosts_total) (auto simp: set_ap_pools pool_sound_def)
  then obtain hs where "all_hosts (map pool_spec_of (ap_pools db i)) = Inr hs" by blast
  from choose_address_in_pool[OF this, of occ] ch obtain rf rl h where
    "aa_ip c \<notin> occ" and "(aa_pool_id c, aa_cidr c, rf, rl) \<in> set (map pool_spec_of (ap_pools db i))"
    and "pool_hosts (aa_cidr c) rf rl = Inr h" and "aa_ip c \<in> str_ip ` set h"
    by auto
  then show ?thesis by (auto simp: set_ap_pools pool_spec_of_def)
qed

lemma new_lease_fields [simp]:
  "ls_id (new_lease env db dev ap c) = le_lease_id env" "ls_device_id (new_lease env db dev ap c) = dv_id dev"
  "ls_access_point_id (new_lease env db dev ap c) = ap_id ap" "ip_address (new_lease env db dev ap c) = aa_ip c"
  "ls_pool_id (new_lease env db dev ap c) = aa_pool_id c" "ls_tenant_id (new_lease env db dev ap c) = dv_tenant_id dev"
  "lease_active (new_lease env db dev ap c)" "ended_at (new_lease env db dev ap c) = None"
  "generation (new_lease env db dev ap c) = max_generation db (dv_id dev) + 1"
  by (simp_all add: new_lease_def lease_active_def)

lemma fresh_terminations:
  assumes "gate_refs db" and "i \<notin> ls_id ` set (leases db)"
  shows "terminations db i = 0"
  using assms by (auto simp: terminations_def filter_empty_conv gate_refs_def list_all_iff event_ref_ok_def)

lemma new_lease_sem:
  assumes inv: "gate_inv db" and dev: "row_by dv_id (dv_id dev) (devices db) = Some dev" "dv_status dev = DeviceActive"
    and ap: "ap \<in> set (access_points db)" "ap_tenant_id ap = dv_tenant_id dev"
    and room: "int (length (active_of_ap db (ap_id ap))) < capacity ap"
    and ch: "choose_address (map pool_spec_of (ap_pools db (ap_id ap))) occ = Inr (Some c)"
    and ok: "gate_ok (db\<lparr>leases := leases db @ [new_lease env db dev ap c]\<rparr>)"
  shows "gate_sem (db\<lparr>leases := leases db @ [new_lease env db dev ap c]\<rparr>)" (is "gate_sem ?db'")
proof (rule gate_semI)
  let ?l = "new_lease env db dev ap c"
  from inv have sem: "gate_sem db" and ok0: "gate_ok db" by (simp_all add: gate_inv_def)
  have apd: "distinct (map ap_id (access_points db))" using ok0 by (simp add: gate_ok_def gate_unique_def)
  from row_by_unique[OF apd ap(1) refl] have apr: "row_by ap_id (ap_id ap) (access_points db) = Some ap" .
  have fresh: "le_lease_id env \<notin> ls_id ` set (leases db)"
    using ok by (auto simp: gate_ok_def gate_unique_def)
  have t0: "terminations ?db' i = terminations db i" for i by (rule terminations_cong) simp
  show "int (length (active_of_ap ?db' (ap_id a))) \<le> capacity a" if "a \<in> set (access_points ?db')" for a
  proof -
    have a: "a \<in> set (access_points db)" using that by simp
    have act: "active_of_ap ?db' (ap_id a) = active_of_ap db (ap_id a) @ (if ap_id ap = ap_id a then [?l] else [])"
      by (simp add: active_of_ap_def)
    show ?thesis
    proof (cases "ap_id ap = ap_id a")
      case True
      with row_by_unique[OF apd a, of "ap_id ap"] apr have "a = ap" by simp
      with room act show ?thesis by simp
    next
      case False
      with gate_semD(1)[OF sem a] act show ?thesis by simp
    qed
  qed
  show "lease_sound ?db' x" if "x \<in> set (leases ?db')" for x
  proof -
    have "lease_sound db x"
    proof (cases "x \<in> set (leases db)")
      case True
      then show ?thesis by (rule gate_semD(2)[OF sem])
    next
      case False
      with that have "x = ?l" by simp
      with dev apr ap(2) chosen_pool[OF sem ch] show ?thesis by (auto simp: lease_sound_def)
    qed
    with lease_sound_cong[of ?db' db x] show ?thesis by simp
  qed
  show "terminations ?db' (ls_id x) = (if lease_active x then 0 else 1)" if "x \<in> set (leases ?db')" for x
  proof (cases "x \<in> set (leases db)")
    case True
    with gate_semD(3)[OF sem] t0 show ?thesis by simp
  next
    case False
    with that have "x = ?l" by simp
    moreover have "terminations db (le_lease_id env) = 0"
      using ok0 fresh by (intro fresh_terminations) (simp_all add: gate_ok_def)
    ultimately show ?thesis using t0 by simp
  qed
  have gens: "generations ?db' d = [1..int (length (generations ?db' d))]" for d
  proof -
    let ?n = "int (length (generations db d))"
    have old: "generations db d = [1..?n]" using gate_semD(4)[OF sem] by (simp only: generations_ok_def)
    show ?thesis
    proof (cases "dv_id dev = d")
      case True
      then have new: "generations ?db' d = generations db d @ [?n + 1]"
        by (simp add: generations_append max_generation_length[OF gate_semD(4)[OF sem]])
      have "[1..?n + 1] = [1..?n] @ [?n + 1]" by (simp add: upto_rec2)
      with old have "generations ?db' d = [1..?n + 1]" using new by argo
      moreover have "int (length (generations ?db' d)) = ?n + 1" using new by simp
      ultimately show ?thesis by argo
    next
      case False
      then have "generations ?db' d = generations db d" by (simp add: generations_append)
      with old show ?thesis by argo
    qed
  qed
  then show "generations_ok ?db'" by (simp only: generations_ok_def) blast
  show "p \<in> set (pools ?db') \<Longrightarrow> pool_sound ?db' p" for p
    using gate_semD(5)[OF sem] pool_sound_cong[of ?db' db] by simp
qed

section \<open>The evolution order\<close>

definition lease_kept :: "lease \<Rightarrow> lease \<Rightarrow> bool" where
  "lease_kept l l' \<longleftrightarrow> same_lease l l' \<and> (\<not> lease_active l \<longrightarrow> l' = l)"

definition leases_kept :: "lease list \<Rightarrow> lease list \<Rightarrow> bool" where
  "leases_kept ls ls' \<longleftrightarrow>
     (\<forall>i l. row_by ls_id i ls = Some l \<longrightarrow> (\<exists>l'. row_by ls_id i ls' = Some l' \<and> lease_kept l l'))"

definition device_kept :: "device \<Rightarrow> device \<Rightarrow> bool" where
  "device_kept d d' \<longleftrightarrow> dv_tenant_id d' = dv_tenant_id d \<and> dv_token_hash d' = dv_token_hash d \<and>
     (dv_status d = DeviceRevoked \<longrightarrow> d' = d)"

definition devices_kept :: "device list \<Rightarrow> device list \<Rightarrow> bool" where
  "devices_kept ds ds' \<longleftrightarrow>
     (\<forall>i d. row_by dv_id i ds = Some d \<longrightarrow> (\<exists>d'. row_by dv_id i ds' = Some d' \<and> device_kept d d'))"

definition gate_le :: "gate \<Rightarrow> gate \<Rightarrow> bool" where
  "gate_le a b \<longleftrightarrow> leases_kept (leases a) (leases b) \<and> devices_kept (devices a) (devices b) \<and>
     prefix (lease_events a) (lease_events b) \<and> prefix (tenants a) (tenants b) \<and>
     prefix (access_points a) (access_points b) \<and> prefix (pools a) (pools b)"

lemma lease_kept_refl [simp]: "lease_kept l l"
  by (simp add: lease_kept_def)

lemma lease_kept_trans: "lease_kept a b \<Longrightarrow> lease_kept b c \<Longrightarrow> lease_kept a c"
  unfolding lease_kept_def same_lease_def by metis

lemma leases_kept_refl [simp]: "leases_kept ls ls"
  by (simp add: leases_kept_def)

lemma leases_kept_trans: "leases_kept a b \<Longrightarrow> leases_kept b c \<Longrightarrow> leases_kept a c"
  unfolding leases_kept_def by (meson lease_kept_trans)

lemma devices_kept_refl [simp]: "devices_kept ds ds"
  by (simp add: devices_kept_def device_kept_def)

lemma device_kept_trans: "device_kept a b \<Longrightarrow> device_kept b c \<Longrightarrow> device_kept a c"
  by (auto simp: device_kept_def)

lemma devices_kept_trans: "devices_kept a b \<Longrightarrow> devices_kept b c \<Longrightarrow> devices_kept a c"
  unfolding devices_kept_def by (meson device_kept_trans)

lemma gate_le_refl [simp]: "gate_le db db"
  by (simp add: gate_le_def)

lemma gate_le_trans: "gate_le a b \<Longrightarrow> gate_le b c \<Longrightarrow> gate_le a c"
  unfolding gate_le_def by (meson leases_kept_trans devices_kept_trans prefix_order.trans)

lemma leases_kept_append [simp]: "leases_kept ls (ls @ xs)"
  by (auto simp: leases_kept_def row_by_append)

lemma devices_kept_append [simp]: "devices_kept ds (ds @ xs)"
  by (auto simp: devices_kept_def device_kept_def row_by_append)

lemma devices_kept_revoke [simp]: "devices_kept ds (upd_by dv_id i (revoke_row now) ds)"
  by (auto simp: devices_kept_def device_kept_def dev_revoke.lookup_upd revoke_row_def)

lemma leases_kept_upd:
  assumes "row_by ls_id i ls = Some l" and "lease_active l" and "\<And>l. same_lease l (f l)"
  shows "leases_kept ls (upd_by ls_id i f ls)"
proof -
  have k: "ls_id (f l) = ls_id l" for l using assms(3)[of l] by (simp add: same_lease_def)
  have lookup: "row_by ls_id j (upd_by ls_id i f ls) =
      (if j = i then map_option f (row_by ls_id i ls) else row_by ls_id j ls)" for j
    by (induction ls) (auto simp: k)
  show ?thesis
    using assms by (auto simp: leases_kept_def lookup lease_kept_def)
qed

lemma commit_le: "gate_le old new \<Longrightarrow> gate_le old (snd (commit_then old new r))"
  by (simp add: commit_then_snd)

lemma add_event_le: "gate_le db (add_event now l t r d db)"
  by (simp add: gate_le_def) (simp add: add_event_def)

lemma terminate_le:
  assumes "row_by ls_id (ls_id l) (leases db) = Some l" and "st \<noteq> LeaseActive"
  shows "gate_le db (snd (terminate_locked l st r now db))"
  using assms leases_kept_upd[OF assms(1), of "end_lease st r now"]
  by (auto simp: terminate_locked_def gate_le_def) (simp add: add_event_def)

end
