(* ===== verification/Lease_History.thy ===== *)
theory Lease_History
  imports Lease_Steps
begin

text \<open>
  Every request of the gateway keeps the invariant and moves forward in the evolution order; the
  interpretation \<open>gate\<close> of the service contracts carries this to every run.
\<close>

definition good :: "gate \<Rightarrow> gate \<Rightarrow> bool" where
  "good db db' \<longleftrightarrow> gate_inv db' \<and> gate_le db db'"

lemma good_refl: "gate_inv db \<Longrightarrow> good db db"
  by (simp add: good_def)

lemma commit_good:
  assumes "gate_inv old" and "gate_ok new \<Longrightarrow> gate_sem new" and "gate_le old new"
  shows "good old (snd (commit_then old new r))"
  unfolding good_def by (rule conjI[OF commit_inv[OF assms(1,2)] commit_le[OF assms(3)]])

lemma event_good:
  assumes inv: "gate_inv db" and "t \<noteq> ''terminated''"
  shows "good db (snd (commit_then db (add_event now l t r d db) res))"
  by (rule commit_good[OF inv _ add_event_le]) (rule event_sem[OF _ assms(2)], use inv in \<open>simp add: gate_inv_def\<close>)

lemma retrying_good:
  assumes "gate_inv db" and "\<And>k. good db (snd (body k db))"
  shows "good db (snd (retrying exhausted conc body n prev db))"
  by (rule retrying_preserves[of "good db"]) (use assms good_refl in auto)

lemma gate_endpoint_good:
  assumes "gate_inv db" and "\<And>u. auth db = Inr u \<Longrightarrow> valid \<Longrightarrow> good db (snd (f u db))"
  shows "good db (snd (gate_endpoint auth valid f db))"
  by (rule gate_endpoint_preserves) (use assms good_refl in auto)

section \<open>The service functions\<close>

lemma one_or_none_Inr: "one_or_none xs = Inr (Some x) \<Longrightarrow> xs = [x]" "one_or_none xs = Inr None \<Longrightarrow> xs = []"
  by (auto simp: one_or_none_def split: list.splits)

lemma inv_row_by_lease: "gate_inv db \<Longrightarrow> l \<in> set (leases db) \<Longrightarrow> row_by ls_id (ls_id l) (leases db) = Some l"
  by (rule row_by_unique) (simp_all add: gate_inv_def gate_ok_def gate_unique_def)

lemma inv_row_by_device: "gate_inv db \<Longrightarrow> d \<in> set (devices db) \<Longrightarrow> row_by dv_id (dv_id d) (devices db) = Some d"
  by (rule row_by_unique) (simp_all add: gate_inv_def gate_ok_def gate_unique_def)

lemma allocate_good:
  assumes inv: "gate_inv db" and dev: "row_by dv_id (dv_id dev) (devices db) = Some dev" "dv_status dev = DeviceActive"
    and ap: "ap \<in> set (access_points db)" "ap_tenant_id ap = dv_tenant_id dev"
  shows "good db (snd (allocate env dev ap db))"
proof (cases "int (length (active_of_ap db (ap_id ap))) \<ge> capacity ap")
  case True
  then show ?thesis using good_refl[OF inv] by (simp add: allocate_def)
next
  case room: False
  let ?occ = "ip_address ` set (active_of_ap db (ap_id ap))"
  let ?choice = "choose_address (map pool_spec_of (ap_pools db (ap_id ap))) ?occ"
  show ?thesis
  proof (cases "\<exists>c. ?choice = Inr (Some c)")
    case False
    then show ?thesis using good_refl[OF inv] room by (auto simp: allocate_def split: sum.splits option.splits)
  next
    case True
    then obtain c where c: "?choice = Inr (Some c)" by blast
    let ?l = "new_lease env db dev ap c"
    let ?db1 = "db\<lparr>leases := leases db @ [?l]\<rparr>"
    show ?thesis
    proof (cases "gate_ok ?db1")
      case False
      then have "\<exists>e. gate_flush ?db1 = Inl e" using gate_flush_Inr_iff[of ?db1] by (cases "gate_flush ?db1") auto
      then show ?thesis using good_refl[OF inv] room c by (auto simp: allocate_def Let_def)
    next
      case ok: True
      from room have room': "int (length (active_of_ap db (ap_id ap))) < capacity ap" by simp
      have sem: "gate_sem ?db1" by (rule new_lease_sem[OF inv dev ap room' c ok])
      have "gate_le db ?db1" by (simp add: gate_le_def)
      then have le: "gate_le db (add_event now ?l t r d ?db1)" for now t r d
        by (rule gate_le_trans[OF _ add_event_le])
      have "good db (snd (commit_then db (add_event (le_now env) ?l ''created'' None (Some (CreatedAt (aa_ip c) (ap_id ap))) ?db1)
          (Inr \<lparr>cr_lease = lease_out ?l, cr_reused = False\<rparr>)))"
        by (rule commit_good[OF inv event_sem[OF sem] le]) simp
      then show ?thesis using room c by (simp add: allocate_def Let_def gate_flush_ok[OF ok])
    qed
  qed
qed

lemma establish_once_good:
  assumes inv: "gate_inv db"
  shows "good db (snd (establish_once env did apid db))"
proof (cases "row_by dv_id did (devices db)")
  case None
  then show ?thesis using good_refl[OF inv] by (simp add: establish_once_def)
next
  case (Some dev)
  have dev: "row_by dv_id (dv_id dev) (devices db) = Some dev"
    using row_by_SomeD[OF Some] Some by simp
  show ?thesis
  proof (cases "dv_status dev = DeviceRevoked")
    case True
    with Some show ?thesis by (simp add: establish_once_def good_refl[OF inv])
  next
    case False
    then have st: "dv_status dev = DeviceActive" by (cases "dv_status dev") auto
    note unf = establish_once_def Some st
    show ?thesis
    proof (cases "one_or_none (active_of_device db (dv_id dev))")
      case (Inl e)
      then show ?thesis by (simp add: unf good_refl[OF inv])
    next
      case (Inr r)
      show ?thesis
      proof (cases r)
        case None
        show ?thesis
        proof (cases "row_by ap_id apid (access_points db)")
          case None
          with Inr \<open>r = None\<close> show ?thesis by (simp add: unf good_refl[OF inv])
        next
          case (Some ap)
          have "ap \<in> set (access_points db)" using row_by_SomeD[OF Some] by simp
          note alloc = allocate_good[OF inv dev st this]
          have eq: "establish_once env did apid db =
              (if ap_tenant_id ap \<noteq> dv_tenant_id dev
               then (Inl (ServiceError ''access_point_not_found'' 404), db) else allocate env dev ap db)"
            by (simp add: unf Inr None Some)
          show ?thesis
          proof (cases "ap_tenant_id ap = dv_tenant_id dev")
            case True
            from alloc[OF this, of env] True show ?thesis unfolding eq by simp
          next
            case False
            then show ?thesis unfolding eq by (simp add: good_refl[OF inv])
          qed
        qed
      next
        case (Some l)
        with Inr show ?thesis by (simp add: unf commit_then_snd good_refl[OF inv])
      qed
    qed
  qed
qed

lemma establish_session_good: "gate_inv db \<Longrightarrow> good db (snd (establish_session envs conc did apid db))"
  unfolding establish_session_def by (rule retrying_good) (simp_all add: establish_once_good)

lemma touch_good:
  assumes inv: "gate_inv db" and l: "row_by ls_id lid (leases db) = Some l" and act: "lease_active l"
  shows "good db (snd (commit_then db (db\<lparr>leases := upd_by ls_id lid (touch_lease now) (leases db)\<rparr>) r))"
proof (rule commit_good[OF inv])
  show "gate_sem (db\<lparr>leases := upd_by ls_id lid (touch_lease now) (leases db)\<rparr>)"
    by (rule touch_sem[OF _ _ l]) (use inv in \<open>simp_all add: gate_inv_def\<close>)
  show "gate_le db (db\<lparr>leases := upd_by ls_id lid (touch_lease now) (leases db)\<rparr>)"
    using leases_kept_upd[OF l act, of "touch_lease now"] by (simp add: gate_le_def)
qed

lemma heartbeat_once_good:
  assumes inv: "gate_inv db"
  shows "good db (snd (heartbeat_once now did lid gen db))"
proof (cases "row_by ls_id lid (leases db)")
  case None
  then show ?thesis using good_refl[OF inv] by (simp add: heartbeat_once_def)
next
  case (Some l)
  then show ?thesis
    by (auto simp: heartbeat_once_def good_refl[OF inv]
        intro!: event_good[OF inv] touch_good[OF inv Some])
qed

lemma heartbeat_good: "gate_inv db \<Longrightarrow> good db (snd (heartbeat now conc did lid gen db))"
  by (auto simp: heartbeat_def good_refl heartbeat_once_good intro!: retrying_good split: option.split)

lemma terminate_good:
  assumes inv: "gate_inv db" and l: "row_by ls_id (ls_id l) (leases db) = Some l" and st: "st \<noteq> LeaseActive"
  shows "good db (snd (commit_then db (snd (terminate_locked l st r now db)) res))"
  by (rule commit_good[OF inv terminate_sem[OF _ _ l st] terminate_le[OF l st]])
     (use inv in \<open>simp_all add: gate_inv_def\<close>)

lemma close_once_good:
  assumes inv: "gate_inv db"
  shows "good db (snd (close_once now did lid gen db))"
proof (cases "row_by ls_id lid (leases db)")
  case None
  then show ?thesis using good_refl[OF inv] by (simp add: close_once_def)
next
  case (Some l)
  then have l: "row_by ls_id (ls_id l) (leases db) = Some l" using row_by_SomeD[OF Some] by simp
  have t: "snd (terminate_locked l LeaseClosed ''closed'' now db) = d" if "terminate_locked l LeaseClosed ''closed'' now db = (b, d)"
    for b d using that by simp
  have "good db (snd (commit_then db d res))" if "terminate_locked l LeaseClosed ''closed'' now db = (b, d)"
    for b d and res :: "gate_error + lease_view"
    using terminate_good[OF inv l, of LeaseClosed "''closed''" now res] t[OF that] by simp
  with Some show ?thesis
    by (auto simp: close_once_def good_refl[OF inv] split: prod.split intro!: event_good[OF inv])
qed

lemma close_session_good: "gate_inv db \<Longrightarrow> good db (snd (close_session now conc did lid gen db))"
  by (auto simp: close_session_def good_refl close_once_good intro!: retrying_good split: option.split)

section \<open>Revocation and recovery\<close>

lemma terminate_devices:
  "snd (terminate_locked l st r now (db\<lparr>devices := ds\<rparr>)) = (snd (terminate_locked l st r now db))\<lparr>devices := ds\<rparr>"
  by (simp add: terminate_locked_def add_event_def)

lemma active_of_device_devices [simp]: "active_of_device (db\<lparr>devices := ds\<rparr>) did = active_of_device db did"
  by (simp add: active_of_device_def)

lemma revoke_once_good:
  assumes inv: "gate_inv db"
  shows "good db (snd (revoke_once now did db))"
proof (cases "row_by dv_id did (devices db)")
  case None
  then show ?thesis by (simp add: revoke_once_def good_refl[OF inv])
next
  case (Some dev)
  let ?ds = "upd_by dv_id did (revoke_row now) (devices db)"
  have did: "dv_id dev = did" using row_by_SomeD[OF Some] by simp
  from inv have ok: "gate_ok db" and sem: "gate_sem db" by (simp_all add: gate_inv_def)
  have dle: "gate_le d (d\<lparr>devices := ?ds\<rparr>)" if "devices d = devices db" for d
    using that by (simp add: gate_le_def)
  show ?thesis
  proof (cases "one_or_none (active_of_device db did)")
    case (Inl e)
    then show ?thesis by (simp add: revoke_once_def Some did good_refl[OF inv])
  next
    case (Inr r)
    show ?thesis
    proof (cases r)
      case None
      with Inr have none: "active_of_device db did = []" by (simp add: one_or_none_Inr)
      have "good db (snd (commit_then db (db\<lparr>devices := ?ds\<rparr>) (Inr None :: gate_error + lease_view option)))"
        by (rule commit_good[OF inv revoke_sem[OF sem none] dle]) simp
      with Inr None Some show ?thesis by (simp add: revoke_once_def did)
    next
      case l: (Some l)
      with Inr have act: "active_of_device db did = [l]" by (simp add: one_or_none_Inr)
      then have "l \<in> set (filter (\<lambda>l. ls_device_id l = did \<and> lease_active l) (leases db))"
        by (simp add: active_of_device_def)
      then have mem: "l \<in> set (leases db)" "lease_active l" "ls_device_id l = did" by auto
      have row: "row_by ls_id (ls_id l) (leases db) = Some l" by (rule inv_row_by_lease[OF inv mem(1)])
      let ?t = "snd (terminate_locked l LeaseRevoked ''device_revoked'' now db)"
      have tsem: "gate_sem ?t" and tle: "gate_le db ?t"
        by (rule terminate_sem[OF ok sem row], simp) (rule terminate_le[OF row], simp)
      have dist: "distinct (map ls_id (leases db))" using ok by (simp add: gate_ok_def gate_unique_def)
      have "active_of_device ?t did = []"
      proof -
        have "\<not> (ls_device_id x = did \<and> lease_active x)" if "x \<in> set (leases ?t)" for x
        proof
          assume x: "ls_device_id x = did \<and> lease_active x"
          from that mem(2) have "x \<in> set (upd_by ls_id (ls_id l) (end_lease LeaseRevoked ''device_revoked'' now) (leases db))"
            by (simp add: terminate_locked_def)
          with x have "x \<in> set (leases db) \<and> ls_id x \<noteq> ls_id l"
            by (auto dest!: set_upd_byD)
          with x have "x \<in> set (active_of_device db did)" "ls_id x \<noteq> ls_id l" by (auto simp: active_of_device_def)
          with act show False by simp
        qed
        then show ?thesis by (simp add: active_of_device_def filter_empty_conv)
      qed
      moreover have td: "devices ?t = devices db" by (simp add: terminate_locked_def)
      ultimately have "gate_sem (?t\<lparr>devices := ?ds\<rparr>)"
        using revoke_sem[OF tsem, of did now] by (simp only: td)
      moreover have "gate_le db (?t\<lparr>devices := ?ds\<rparr>)"
        by (rule gate_le_trans[OF tle dle[OF td]])
      ultimately have "good db (snd (commit_then db (?t\<lparr>devices := ?ds\<rparr>)
          (Inr (Some (lease_out (end_lease LeaseRevoked ''device_revoked'' now l))))))"
        by (intro commit_good[OF inv])
      with Inr l Some show ?thesis by (simp add: revoke_once_def did terminate_devices)
    qed
  qed
qed

lemma revoke_device_good: "gate_inv db \<Longrightarrow> good db (snd (revoke_device now conc did db))"
  unfolding revoke_device_def by (rule retrying_good) (simp_all add: revoke_once_good)

lemma expire_all_facts:
  assumes "gate_ok db" and "gate_sem db" and "distinct (map ls_id ls)"
    and "\<And>l. l \<in> set ls \<Longrightarrow> row_by ls_id (ls_id l) (leases db) = Some l"
  shows "gate_ok (expire_all now ls db) \<and> gate_sem (expire_all now ls db) \<and> gate_le db (expire_all now ls db)"
  using assms
proof (induction ls arbitrary: db)
  case Nil
  then show ?case by (simp add: expire_all_def)
next
  case (Cons l ls)
  let ?t = "snd (terminate_locked l LeaseExpired ''heartbeat_timeout'' now db)"
  have row: "row_by ls_id (ls_id l) (leases db) = Some l" using Cons.prems(4) by simp
  have "l \<in> set (leases db)" using row_by_SomeD[OF row] by simp
  then have "gate_ok ?t" by (rule terminate_ok[OF Cons.prems(1)]) simp
  moreover have "gate_sem ?t" by (rule terminate_sem[OF Cons.prems(1,2) row]) simp
  moreover have "row_by ls_id (ls_id x) (leases ?t) = Some x" if "x \<in> set ls" for x
  proof -
    have "ls_id x \<in> ls_id ` set ls" using that by (rule imageI)
    then have "ls_id x \<noteq> ls_id l" using Cons.prems(3) by auto
    with Cons.prems(4)[of x] that show ?thesis by (simp add: terminate_locked_def lease_end.lookup_upd)
  qed
  ultimately have "gate_ok (expire_all now ls ?t) \<and> gate_sem (expire_all now ls ?t) \<and> gate_le ?t (expire_all now ls ?t)"
    using Cons.prems(3) by (intro Cons.IH) auto
  moreover have "gate_le db ?t" by (rule terminate_le[OF row]) simp
  ultimately show ?case by (auto simp: expire_all_def intro: gate_le_trans)
qed

lemma stale_leases_rows:
  assumes "gate_inv db"
  shows "distinct (map ls_id (stale_leases cutoff locked limit db))"
    and "l \<in> set (stale_leases cutoff locked limit db) \<Longrightarrow> l \<in> set (leases db) \<and> lease_active l \<and> last_seen_at l < cutoff"
proof -
  from assms have "distinct (map ls_id (leases db))" by (simp add: gate_inv_def gate_ok_def gate_unique_def)
  then have "distinct (map ls_id (sort_key last_seen_at (filter P (leases db))))" for P
    by (simp add: distinct_map inj_on_def)
  then show "distinct (map ls_id (stale_leases cutoff locked limit db))"
    by (simp add: stale_leases_def take_map[symmetric])
  show "l \<in> set (stale_leases cutoff locked limit db) \<Longrightarrow> l \<in> set (leases db) \<and> lease_active l \<and> last_seen_at l < cutoff"
    by (auto simp: stale_leases_def dest: in_set_takeD)
qed

lemma expire_stale_facts:
  assumes "gate_inv db"
  shows "gate_ok (expire_all now (stale_leases cutoff locked limit db) db) \<and>
    gate_sem (expire_all now (stale_leases cutoff locked limit db) db) \<and>
    gate_le db (expire_all now (stale_leases cutoff locked limit db) db)"
proof (rule expire_all_facts)
  show "distinct (map ls_id (stale_leases cutoff locked limit db))" by (rule stale_leases_rows(1)[OF assms])
  show "row_by ls_id (ls_id l) (leases db) = Some l" if "l \<in> set (stale_leases cutoff locked limit db)" for l
    using stale_leases_rows(2)[OF assms that] inv_row_by_lease[OF assms] by simp
qed (use assms in \<open>simp_all add: gate_inv_def\<close>)

lemma reap_once_good:
  assumes inv: "gate_inv db"
  shows "good db (snd (reap_once cutoff now locked limit db))"
  unfolding reap_once_def Let_def
  using expire_stale_facts[OF inv] by (intro commit_good[OF inv]) simp_all

lemma reap_expired_good: "gate_inv db \<Longrightarrow> good db (snd (reap_expired timeout called_at now locked conc limit db))"
  unfolding reap_expired_def by (rule retrying_good) (simp_all add: reap_once_good)

section \<open>Administration\<close>

lemma snd_map_prod_id [simp]: "snd (map_prod f (\<lambda>d. d) x) = snd x"
  by (cases x) simp

lemma lease_sound_mono:
  assumes "lease_sound db l"
    and "\<And>i d. row_by dv_id i (devices db) = Some d \<Longrightarrow> row_by dv_id i (devices db') = Some d"
    and "\<And>i a. row_by ap_id i (access_points db) = Some a \<Longrightarrow> row_by ap_id i (access_points db') = Some a"
    and "set (pools db) \<subseteq> set (pools db')"
  shows "lease_sound db' l"
  using assms(1) unfolding lease_sound_def by (meson assms(2-4) subsetD)

text \<open>A database with rows added to the reference tables only.\<close>

lemma grown_good:
  assumes inv: "gate_inv db" and same: "leases db' = leases db" "lease_events db' = lease_events db"
    and dv: "devices db' = devices db @ ds" and ap: "access_points db' = access_points db @ aps"
    and pl: "pools db' = pools db @ ps" and tn: "tenants db' = tenants db @ ts"
    and sound: "gate_ok db' \<Longrightarrow> \<forall>p \<in> set (pools db'). pool_sound db' p"
  shows "good db (snd (commit_then db db' r))"
proof (rule commit_good[OF inv])
  from inv have sem: "gate_sem db" and ok: "gate_ok db" by (simp_all add: gate_inv_def)
  assume ok': "gate_ok db'"
  show "gate_sem db'"
  proof (rule gate_semI)
    show "int (length (active_of_ap db' (ap_id a))) \<le> capacity a" if a: "a \<in> set (access_points db')" for a
    proof (cases "a \<in> set (access_points db)")
      case True
      with gate_semD(1)[OF sem] show ?thesis by (simp add: active_of_ap_def same)
    next
      case False
      with a have "a \<in> set aps" by (simp add: ap)
      with ok' have "ap_id a \<notin> ap_id ` set (access_points db)"
        by (auto simp: gate_ok_def gate_unique_def ap)
      moreover have "ls_access_point_id l \<in> ap_id ` set (access_points db)" if "l \<in> set (leases db)" for l
        using ok that by (simp add: gate_ok_def gate_refs_def list_all_iff)
      ultimately have "active_of_ap db' (ap_id a) = []"
        unfolding active_of_ap_def same filter_empty_conv by metis
      moreover have "0 \<le> capacity a" using ok' a by (simp add: gate_ok_def gate_checks_def list_all_iff)
      ultimately show ?thesis by simp
    qed
    show "l \<in> set (leases db') \<Longrightarrow> lease_sound db' l" for l
      by (rule lease_sound_mono[OF gate_semD(2)[OF sem]])
         (simp_all add: same dv ap pl row_by_append)
    show "l \<in> set (leases db') \<Longrightarrow> terminations db' (ls_id l) = (if lease_active l then 0 else 1)" for l
      using gate_semD(3)[OF sem] terminations_cong[OF same(2)] by (simp add: same)
    have "generations db' d = generations db d" for d by (simp add: generations_def same)
    with gate_semD(4)[OF sem] show "generations_ok db'" by (simp add: generations_ok_def)
    show "p \<in> set (pools db') \<Longrightarrow> pool_sound db' p" for p using sound[OF ok'] by blast
  qed
next
  show "gate_le db db'" by (simp add: gate_le_def same dv ap pl tn)
qed

lemma pool_sound_kept:
  assumes "gate_inv db" and "pools db' = pools db" and "p \<in> set (pools db')"
  shows "pool_sound db' p"
proof -
  from assms(1) have "gate_sem db" by (simp add: gate_inv_def)
  from gate_semD(5)[OF this, of p] assms(2,3) pool_sound_cong[OF assms(2)] show ?thesis by simp
qed

lemma create_tenant_good: "gate_inv db \<Longrightarrow> good db (snd (create_tenant su now nid ak key name db))"
  unfolding create_tenant_def Let_def
proof (rule gate_endpoint_good, assumption)
  fix u assume inv: "gate_inv db"
  let ?db' = "db\<lparr>tenants := tenants db @ [\<lparr>tn_id = nid, tn_name = strip name, tn_admin_key_hash = gs_hash su ak, tn_created_at = now\<rparr>]\<rparr>"
  have "good db (snd (commit_then db ?db' r))" for r :: "gate_error + tenant \<times> string"
    by (rule grown_good[OF inv]) (auto intro: pool_sound_kept[OF inv])
  then show "good db (snd (map_prod (conflict_as ''tenant_exists'') (\<lambda>d. d) (commit_then db ?db'
      (Inr (\<lparr>tn_id = nid, tn_name = strip name, tn_admin_key_hash = gs_hash su ak, tn_created_at = now\<rparr>, ak)))))"
    by simp
qed

lemma create_access_point_good: "gate_inv db \<Longrightarrow> good db (snd (create_access_point su now nid key name cap db))"
  unfolding create_access_point_def Let_def
  by (rule gate_endpoint_good, assumption, rule grown_good, assumption) (auto intro: pool_sound_kept)

lemma create_device_good: "gate_inv db \<Longrightarrow> good db (snd (create_device su now nid token key name db))"
  unfolding create_device_def Let_def
  by (rule gate_endpoint_good, assumption, subst snd_map_prod_id, rule grown_good, assumption)
     (auto intro: pool_sound_kept)

lemma pools_overlap_sym: "pools_overlap a b = Inr x \<Longrightarrow> pools_overlap b a = Inr x"
proof -
  assume o: "pools_overlap a b = Inr x"
  then obtain na nb where n: "parse_network a = Some na" "parse_network b = Some nb"
    by (auto simp: pools_overlap_def bindR_Inr_iff)
  have "(\<exists>y. in_network y nb \<and> in_network y na) = (\<exists>y. in_network y na \<and> in_network y nb)" by blast
  with overlap_iff[OF n] overlap_iff[OF n(2,1)] o show ?thesis by simp
qed

lemma find_overlap_None: "find_overlap cidr others = Inr None \<Longrightarrow> o' \<in> set others \<Longrightarrow> pools_overlap cidr o' = Inr False"
  by (induction others) (auto simp: bindR_Inr_iff split: if_splits)

lemma pool_body_good:
  assumes inv: "gate_inv db"
  shows "good db (snd (pool_body now nid apid cidr rf rl t db))"
proof (cases "\<exists>ap hosts. get_tenant_ap t apid db = Inr ap \<and> pool_hosts cidr rf rl = Inr hosts \<and>
    find_overlap cidr (map pl_cidr (filter (\<lambda>p. pl_access_point_id p = ap_id ap) (pools db))) = Inr None")
  case False
  then show ?thesis by (auto simp: pool_body_def good_refl[OF inv] split: sum.splits option.splits)
next
  case True
  then obtain ap hosts where ap: "get_tenant_ap t apid db = Inr ap" and hosts: "pool_hosts cidr rf rl = Inr hosts"
    and none: "find_overlap cidr (map pl_cidr (filter (\<lambda>p. pl_access_point_id p = ap_id ap) (pools db))) = Inr None"
    by blast
  let ?p = "\<lparr>pl_id = nid, pl_tenant_id = tn_id t, pl_access_point_id = ap_id ap, pl_cidr = cidr,
    reserved_first = rf, reserved_last = rl, pl_created_at = now\<rparr>"
  let ?db' = "db\<lparr>pools := pools db @ [?p]\<rparr>"
  have sem: "gate_sem db" using inv by (simp add: gate_inv_def)
  have apart: "pools_overlap cidr (pl_cidr q) = Inr False"
    if "q \<in> set (pools db)" "pl_access_point_id q = ap_id ap" for q
    by (rule find_overlap_None[OF none]) (use that in auto)
  have "pool_sound ?db' q" if q: "q \<in> set (pools ?db')" for q
  proof (cases "q \<in> set (pools db)")
    case True
    have old: "pool_sound db q" by (rule gate_semD(5)[OF sem True])
    have "pl_access_point_id q = ap_id ap \<Longrightarrow> pools_overlap (pl_cidr q) cidr = Inr False"
      by (rule pools_overlap_sym[OF apart[OF True]])
    with old show ?thesis by (simp add: pool_sound_def)
  next
    case False
    with q have "q = ?p" by simp
    with hosts apart show ?thesis by (simp add: pool_sound_def)
  qed
  then have "good db (snd (commit_then db ?db' (Inr (?p, length hosts))))"
    by (intro grown_good[OF inv]) auto
  with ap hosts none show ?thesis by (simp add: pool_body_def Let_def)
qed

lemma create_pool_good: "gate_inv db \<Longrightarrow> good db (snd (create_pool su now nid key apid cidr rf rl db))"
  unfolding create_pool_def
  by (rule gate_endpoint_good) (auto simp: pool_body_good split: option.split)

section \<open>The service contracts\<close>

lemma gate_step_good: "gate_inv db \<Longrightarrow> good db (gate_step su op db)"
proof (cases op)
  case (RevokeDevice now conc key did)
  assume inv: "gate_inv db"
  have "good db (snd (case revoke_device now conc i db of (Inl e, db') \<Rightarrow> (Inl e, db')
      | (Inr s, db') \<Rightarrow> (someR (row_by dv_id i (devices db')) (Uncaught ''InvalidRequestError''), db')))" for i
    using revoke_device_good[OF inv, of now conc i] by (auto split: prod.split sum.split)
  then show "good db (gate_step su op db)"
    using RevokeDevice inv
    by (auto simp: revoke_endpoint_def good_refl split: sum.split intro!: gate_endpoint_good)
next
  case (Connect envs conc token apid)
  then show "gate_inv db \<Longrightarrow> good db (gate_step su op db)"
    by (auto simp: connect_def intro!: gate_endpoint_good establish_session_good)
next
  case (Heartbeat now conc token lid gen)
  then show "gate_inv db \<Longrightarrow> good db (gate_step su op db)"
    by (auto simp: post_heartbeat_def intro!: gate_endpoint_good heartbeat_good)
next
  case (CloseSession now conc token lid gen)
  then show "gate_inv db \<Longrightarrow> good db (gate_step su op db)"
    by (auto simp: post_close_def intro!: gate_endpoint_good close_session_good)
qed (simp_all add: create_tenant_good create_access_point_good create_pool_good create_device_good reap_expired_good)

interpretation gate: evolving_service "gate_step su" gate_inv gate_le for su
  by unfold_locales (use gate_step_good in \<open>auto simp: good_def intro: gate_le_trans\<close>)

lemmas gate_run_inv = gate.inv_run[folded gate_run_def]
lemmas gate_run_le = gate.le_run[folded gate_run_def]

end
