(* ===== verification/Lease_Properties.thy ===== *)
theory Lease_Properties
  imports Lease_History
begin

text \<open>
  The properties of the access gateway, with witnesses on a sample run: one tenant, one access
  point of capacity 2 with the pool 10.0.0.0/29, and two devices.
\<close>

section \<open>A sample gateway\<close>

definition empty_gate :: gate where
  "empty_gate = \<lparr>tenants = [], access_points = [], pools = [], devices = [], leases = [], lease_events = []\<rparr>"

definition gate_sample :: gate_setup where
  "gate_sample = \<lparr>gs_hash = (\<lambda>s. s), gs_super_key = ''root''\<rparr>"

definition admin_ops :: "gate_op list" where
  "admin_ops = [CreateTenant 0 1 ''adm'' (Some ''root'') ''acme'',
     CreateAccessPoint 0 1 (Some ''adm'') ''hq'' 2,
     CreatePool 0 1 (Some ''adm'') (Some 1) ''10.0.0.0/29'' 1 0,
     CreateDevice 0 1 ''dev1'' (Some ''adm'') ''one'',
     CreateDevice 0 2 ''dev2'' (Some ''adm'') ''two'']"

definition quiet :: "nat \<Rightarrow> string option" where
  "quiet k = None"

definition connect_op :: "int \<Rightarrow> int \<Rightarrow> string \<Rightarrow> gate_op" where
  "connect_op now i token = Connect (\<lambda>k. \<lparr>le_now = now, le_lease_id = i\<rparr>) quiet (Some token) (Some 1)"

definition base_gate :: gate where
  "base_gate = gate_run gate_sample admin_ops empty_gate"

definition busy_gate :: gate where
  "busy_gate = gate_run gate_sample (admin_ops @ [connect_op 5 1 ''dev1'', connect_op 6 2 ''dev2'']) empty_gate"

lemma empty_gate_inv: "gate_inv empty_gate"
proof -
  have "gate_ok empty_gate" by code_simp
  moreover have "gate_sem empty_gate"
    by (simp add: gate_sem_def empty_gate_def generations_ok_def generations_def)
  ultimately show ?thesis by (simp add: gate_inv_def)
qed

lemma base_gate_inv: "gate_inv base_gate"
  unfolding base_gate_def by (rule gate_run_inv[OF empty_gate_inv])

lemma busy_gate_inv: "gate_inv busy_gate"
  unfolding busy_gate_def by (rule gate_run_inv[OF empty_gate_inv])

lemma busy_gate_leases:
  "map (\<lambda>l. (ls_id l, ls_device_id l, generation l, ip_address l, ls_status l)) (leases busy_gate) =
     [(1, 1, 1, ''10.0.0.2'', LeaseActive), (2, 2, 1, ''10.0.0.3'', LeaseActive)]"
  by code_simp

section \<open>Safety of every run\<close>

lemma active_unique_rows:
  assumes "active_unique db" and "distinct (map ls_id (leases db))"
    and "l \<in> set (leases db)" and "l' \<in> set (leases db)" and "lease_active l" and "lease_active l'"
    and "ls_device_id l = ls_device_id l' \<or>
      (ls_access_point_id l = ls_access_point_id l' \<and> ip_address l = ip_address l')"
  shows "l = l'"
proof -
  let ?act = "filter lease_active (leases db)"
  have m: "l \<in> set ?act" "l' \<in> set ?act" using assms(3-6) by simp_all
  from assms(1) have i: "inj_on (\<lambda>l. (ls_access_point_id l, ip_address l)) (set ?act)" "inj_on ls_device_id (set ?act)"
    by (simp_all add: active_unique_def Let_def distinct_map)
  from assms(7) show ?thesis
  proof
    assume "ls_device_id l = ls_device_id l'"
    then show ?thesis using inj_onD[OF i(2) _ m] by blast
  next
    assume "ls_access_point_id l = ls_access_point_id l' \<and> ip_address l = ip_address l'"
    then show ?thesis using inj_onD[OF i(1) _ m] by simp
  qed
qed

text \<open>C12: after any requests from anybody, a device has at most one active lease, an address of an
  access point is held by at most one, capacities are respected, and every active lease belongs to
  a device that is not revoked and holds an assignable address of a pool of its access point.\<close>

theorem gate_run_sound:
  assumes "gate_inv db"
  shows "let db' = gate_run su ops db in
    (\<forall>l \<in> set (leases db'). \<forall>l' \<in> set (leases db'). lease_active l \<and> lease_active l' \<and>
       (ls_device_id l = ls_device_id l' \<or>
        ls_access_point_id l = ls_access_point_id l' \<and> ip_address l = ip_address l') \<longrightarrow> l = l') \<and>
    (\<forall>a \<in> set (access_points db'). int (length (active_of_ap db' (ap_id a))) \<le> capacity a) \<and>
    (\<forall>l \<in> set (leases db'). lease_active l \<longrightarrow>
       (\<exists>d \<in> set (devices db'). dv_id d = ls_device_id l \<and> dv_status d = DeviceActive) \<and>
       (\<exists>p \<in> set (pools db'). \<exists>hs. pl_access_point_id p = ls_access_point_id l \<and>
          pool_hosts (pl_cidr p) (reserved_first p) (reserved_last p) = Inr hs \<and> ip_address l \<in> str_ip ` set hs))"
proof -
  let ?db = "gate_run su ops db"
  from gate_run_inv[OF assms] have ok: "gate_ok ?db" and sem: "gate_sem ?db" by (simp_all add: gate_inv_def)
  from ok have u: "active_unique ?db" "distinct (map ls_id (leases ?db))"
    by (simp_all add: gate_ok_def gate_unique_def)
  have one: "\<forall>l \<in> set (leases ?db). \<forall>l' \<in> set (leases ?db). lease_active l \<and> lease_active l' \<and>
       (ls_device_id l = ls_device_id l' \<or>
        ls_access_point_id l = ls_access_point_id l' \<and> ip_address l = ip_address l') \<longrightarrow> l = l'"
    using active_unique_rows[OF u] by blast
  have "(\<exists>d \<in> set (devices ?db). dv_id d = ls_device_id l \<and> dv_status d = DeviceActive) \<and>
       (\<exists>p \<in> set (pools ?db). \<exists>hs. pl_access_point_id p = ls_access_point_id l \<and>
          pool_hosts (pl_cidr p) (reserved_first p) (reserved_last p) = Inr hs \<and> ip_address l \<in> str_ip ` set hs)"
    if "l \<in> set (leases ?db)" "lease_active l" for l
    using gate_semD(2)[OF sem that(1)] that(2) unfolding lease_sound_def by (meson row_by_SomeD)
  then show ?thesis using one gate_semD(1)[OF sem] by (simp only: Let_def) blast
qed

theorem gate_run_sound_witness:
  "length (leases busy_gate) = 2 \<and>
   list_all (\<lambda>a. int (length (active_of_ap busy_gate (ap_id a))) \<le> capacity a) (access_points busy_gate)"
proof -
  have "length (leases busy_gate) = 2" using arg_cong[OF busy_gate_leases, of length] by simp
  with gate_run_sound[OF empty_gate_inv, of gate_sample "admin_ops @ [connect_op 5 1 ''dev1'', connect_op 6 2 ''dev2'']"]
  show ?thesis unfolding busy_gate_def[symmetric] list_all_iff by (simp only: Let_def) blast
qed

text \<open>C13: a lease that ended is never revived, extended or changed by any later requests, and its
  identity, generation and address never change while it is active either.\<close>

theorem ended_lease_final:
  assumes "gate_inv db" and "row_by ls_id i (leases db) = Some l"
  shows "\<exists>l'. row_by ls_id i (leases (gate_run su ops db)) = Some l' \<and>
    ls_device_id l' = ls_device_id l \<and> generation l' = generation l \<and> ip_address l' = ip_address l \<and>
    (\<not> lease_active l \<longrightarrow> l' = l)"
  using gate_run_le[OF assms(1), of su ops] assms(2)
  unfolding gate_le_def leases_kept_def lease_kept_def same_lease_def by meson

definition close_op :: "string \<Rightarrow> int \<Rightarrow> int \<Rightarrow> gate_op" where
  "close_op token lid gen = CloseSession (\<lambda>k. 8) quiet (Some token) (Some lid) gen"

definition heartbeat_op :: "int \<Rightarrow> string \<Rightarrow> int \<Rightarrow> int \<Rightarrow> gate_op" where
  "heartbeat_op now token lid gen = Heartbeat (\<lambda>k. now) quiet (Some token) (Some lid) gen"

definition closed_gate :: gate where
  "closed_gate = gate_run gate_sample [close_op ''dev1'' 1 1] busy_gate"

lemma closed_gate_inv: "gate_inv closed_gate"
  unfolding closed_gate_def by (rule gate_run_inv[OF busy_gate_inv])

lemma closed_gate_row:
  "\<exists>l. row_by ls_id 1 (leases closed_gate) = Some l \<and> \<not> lease_active l \<and> last_seen_at l = 5 \<and>
     ls_device_id l = 1 \<and> generation l = 1"
proof -
  have "case row_by ls_id 1 (leases closed_gate) of None \<Rightarrow> False
    | Some l \<Rightarrow> \<not> lease_active l \<and> last_seen_at l = 5 \<and> ls_device_id l = 1 \<and> generation l = 1"
    by code_simp
  then show ?thesis by (auto split: option.splits)
qed

theorem ended_lease_final_witness:
  "\<exists>l. row_by ls_id 1 (leases closed_gate) = Some l \<and> \<not> lease_active l \<and>
     row_by ls_id 1 (leases (gate_run gate_sample [heartbeat_op 99 ''dev1'' 1 1, connect_op 100 3 ''dev1''] closed_gate)) = Some l"
proof -
  obtain l where l: "row_by ls_id 1 (leases closed_gate) = Some l" "\<not> lease_active l"
    using closed_gate_row by blast
  from ended_lease_final[OF closed_gate_inv l(1), of gate_sample "[heartbeat_op 99 ''dev1'' 1 1, connect_op 100 3 ''dev1'']"] l
  show ?thesis by auto
qed

section \<open>Heartbeats and closing\<close>

lemma retrying_leases:
  assumes "\<And>k. (\<exists>e. fst (body k db) = Inl e) \<and> leases (snd (body k db)) = leases db"
    and "\<And>p. \<exists>e. exhausted p = Inl e"
  shows "(\<exists>e. fst (retrying exhausted conc body n prev db) = Inl e) \<and>
    leases (snd (retrying exhausted conc body n prev db)) = leases db"
proof (induction n arbitrary: prev)
  case 0
  then show ?case using assms(2)[of prev] by auto
next
  case (Suc n)
  obtain e d where b: "body n db = (Inl e, d)" "leases d = leases db"
    using assms(1)[of n] by (cases "body n db") auto
  with Suc show ?case by (auto split: option.split)
qed

lemma heartbeat_once_rejected:
  assumes inv: "gate_inv db" and l: "row_by ls_id lid (leases db) = Some l"
    and bad: "ls_device_id l \<noteq> did \<or> generation l \<noteq> gen \<or> \<not> lease_active l"
  shows "(\<exists>e. fst (heartbeat_once now did lid gen db) = Inl e) \<and>
    leases (snd (heartbeat_once now did lid gen db)) = leases db"
proof -
  have "l \<in> set (leases db)" using row_by_SomeD[OF l] by simp
  then have "gate_ok (add_event now l t r d db)" for t r d
    using add_event_ok inv by (simp add: gate_inv_def)
  with l bad show ?thesis by (auto simp: heartbeat_once_def)
qed

text \<open>A heartbeat of another device, of another generation than the lease's or for a lease that
  ended is an error and leaves every lease as it is, however its attempts are retried; only the
  rejection is recorded.\<close>

theorem late_heartbeat_changes_no_lease:
  assumes "gate_inv db" and "row_by ls_id lid (leases db) = Some l"
    and "ls_device_id l \<noteq> did \<or> generation l \<noteq> gen \<or> \<not> lease_active l"
  shows "(\<exists>e. fst (heartbeat now conc did (Some lid) gen db) = Inl e) \<and>
    leases (snd (heartbeat now conc did (Some lid) gen db)) = leases db"
  unfolding heartbeat_def option.case
  by (rule retrying_leases) (simp_all add: heartbeat_once_rejected[OF assms] busy_def)

theorem late_heartbeat_changes_no_lease_witness:
  "leases (snd (heartbeat (\<lambda>k. 99) quiet 1 (Some 1) 1 closed_gate)) = leases closed_gate"
proof -
  obtain l where l: "row_by ls_id 1 (leases closed_gate) = Some l" "\<not> lease_active l"
    using closed_gate_row by blast
  from late_heartbeat_changes_no_lease[OF closed_gate_inv l(1)] l(2) show ?thesis by blast
qed

lemma close_once_ended:
  assumes inv: "gate_inv db" and l: "row_by ls_id lid (leases db) = Some l" "ls_device_id l = did"
    "generation l = gen" "\<not> lease_active l"
  shows "close_once now did lid gen db = (Inr (lease_out l), db)"
  using assms gate_inv_ok[OF inv] by (simp add: close_once_def terminate_locked_def)

lemma close_once_Inr:
  assumes inv: "gate_inv db" and ok: "close_once now did lid gen db = (Inr v, db1)"
  obtains l where "row_by ls_id lid (leases db1) = Some l" and "ls_device_id l = did" and "generation l = gen"
    and "\<not> lease_active l" and "v = lease_out l"
proof -
  have no_inr: "commit_then db d (Inl e) \<noteq> (Inr v, db1)" for d e
    by (auto simp: commit_then_def split: sum.splits)
  from ok obtain l where l: "row_by ls_id lid (leases db) = Some l" "ls_device_id l = did" "generation l = gen"
    by (auto simp: close_once_def no_inr split: option.splits if_splits)
  have id: "ls_id l = lid" using row_by_SomeD[OF l(1)] by simp
  show thesis
  proof (cases "lease_active l")
    case False
    with close_once_ended[OF inv l False, of now] ok have "v = lease_out l" "db1 = db" by simp_all
    with that[of l] l False show thesis by simp
  next
    case True
    let ?d = "snd (terminate_locked l LeaseClosed ''closed'' now db)"
    have "l \<in> set (leases db)" using row_by_SomeD[OF l(1)] by simp
    then have okd: "gate_ok ?d" using inv by (intro terminate_ok) (simp_all add: gate_inv_def)
    have "close_once now did lid gen db = commit_then db ?d (Inr (lease_out (end_lease LeaseClosed ''closed'' now l)))"
      using l True by (simp add: close_once_def terminate_locked_def)
    with ok okd have v: "v = lease_out (end_lease LeaseClosed ''closed'' now l)" "db1 = ?d" by simp_all
    have "row_by ls_id lid (leases db1) = Some (end_lease LeaseClosed ''closed'' now l)"
      using l(1) id True by (simp add: v terminate_locked_def lease_end.lookup_upd)
    with that[of "end_lease LeaseClosed ''closed'' now l"] v(1) l(2,3) show thesis
      by (simp add: end_lease_def lease_active_def)
  qed
qed

text \<open>Closing is idempotent and releases once: after a close succeeded, closing again with the
  same generation gives the same answer, at any later time, and changes nothing.\<close>

theorem close_idempotent:
  assumes "gate_inv db" and "close_once now did lid gen db = (Inr v, db1)"
  shows "close_once now2 did lid gen (gate_run su ops db1) = (Inr v, gate_run su ops db1)"
proof -
  from close_once_Inr[OF assms] obtain l where l: "row_by ls_id lid (leases db1) = Some l"
    "ls_device_id l = did" "generation l = gen" "\<not> lease_active l" and v: "v = lease_out l" .
  have inv1: "gate_inv db1" using close_once_good[OF assms(1), of now did lid gen] assms(2) by (simp add: good_def)
  have inv2: "gate_inv (gate_run su ops db1)" by (rule gate_run_inv[OF inv1])
  have "row_by ls_id lid (leases (gate_run su ops db1)) = Some l"
    using gate_run_le[OF inv1, of su ops] l(1,4)
    unfolding gate_le_def leases_kept_def lease_kept_def by metis
  from close_once_ended[OF inv2 this l(2,3,4)] v show ?thesis by simp
qed

theorem close_idempotent_witness:
  "\<exists>v. close_once 8 1 1 1 busy_gate = (Inr v, snd (close_once 8 1 1 1 busy_gate)) \<and>
     close_once 50 1 1 1 (snd (close_once 8 1 1 1 busy_gate)) = (Inr v, snd (close_once 8 1 1 1 busy_gate))"
proof -
  have "case fst (close_once 8 1 1 1 busy_gate) of Inr v \<Rightarrow> True | Inl e \<Rightarrow> False" by code_simp
  then obtain v where v: "close_once 8 1 1 1 busy_gate = (Inr v, snd (close_once 8 1 1 1 busy_gate))"
    by (cases "close_once 8 1 1 1 busy_gate") (auto split: sum.splits)
  from close_idempotent[OF busy_gate_inv v, of 50 gate_sample "[]"] v
  show ?thesis by (auto simp: gate_run_def)
qed

section \<open>Establishing a session\<close>

lemma establish_new:
  assumes inv: "gate_inv db" and ok: "establish_once env did apid db = (Inr r, db')" and new: "\<not> cr_reused r"
  obtains dev ap c where "row_by dv_id did (devices db) = Some dev" and "dv_id dev = did" and "ap_id ap = apid"
    and "active_of_device db did = []"
    and "choose_address (map pool_spec_of (ap_pools db apid)) (ip_address ` set (active_of_ap db apid)) = Inr (Some c)"
    and "leases db' = leases db @ [new_lease env db dev ap c]"
    and "cr_lease r = lease_out (new_lease env db dev ap c)" and "gate_ok db'"
proof -
  have no_inr: "commit_then db d (Inl e) \<noteq> (Inr r, db')" for d e
    by (auto simp: commit_then_def split: sum.splits)
  from ok obtain dev where dev: "row_by dv_id did (devices db) = Some dev" "dv_status dev \<noteq> DeviceRevoked"
    by (auto simp: establish_once_def split: option.splits if_splits)
  have did: "dv_id dev = did" using row_by_SomeD[OF dev(1)] by simp
  have reuse: "commit_then db db (Inr \<lparr>cr_lease = x, cr_reused = True\<rparr>) \<noteq> (Inr r, db')" for x
    using new by (auto simp: commit_then_def split: sum.splits)
  from ok dev reuse have none: "one_or_none (active_of_device db did) = Inr None"
    by (auto simp: establish_once_def did split: sum.splits option.splits)
  with ok dev obtain ap where ap: "row_by ap_id apid (access_points db) = Some ap"
    and al: "allocate env dev ap db = (Inr r, db')"
    by (auto simp: establish_once_def did split: option.splits if_splits)
  have apid: "ap_id ap = apid" using row_by_SomeD[OF ap] by simp
  from al obtain c where c: "choose_address (map pool_spec_of (ap_pools db apid)) (ip_address ` set (active_of_ap db apid)) = Inr (Some c)"
    and room: "\<not> capacity ap \<le> int (length (active_of_ap db apid))"
    by (auto simp: allocate_def apid Let_def split: if_splits sum.splits option.splits)
  let ?l = "new_lease env db dev ap c"
  let ?db1 = "db\<lparr>leases := leases db @ [?l]\<rparr>"
  let ?db2 = "add_event (le_now env) ?l ''created'' None (Some (CreatedAt (aa_ip c) apid)) ?db1"
  from al c room have fl: "gate_flush ?db1 = Inr ?db1" and
    cm: "commit_then db ?db2 (Inr \<lparr>cr_lease = lease_out ?l, cr_reused = False\<rparr>) = (Inr r, db')"
    by (auto simp: allocate_def apid Let_def split: sum.splits)
  from cm have "gate_ok ?db2 \<and> r = \<lparr>cr_lease = lease_out ?l, cr_reused = False\<rparr> \<and> db' = ?db2"
    by (auto simp: commit_then_def split: sum.splits)
  with that[OF dev(1) did apid _ c] one_or_none_Inr(2)[OF none] show thesis by simp
qed

text \<open>A new session appends one active lease to the device, which had none, under the next
  generation (above every earlier one of the device), with an address that no active lease of the
  access point holds.\<close>

theorem new_session_generation:
  assumes "gate_inv db" and "establish_once env did apid db = (Inr r, db')" and "\<not> cr_reused r"
  shows "\<exists>l. leases db' = leases db @ [l] \<and> cr_lease r = lease_out l \<and> lease_active l \<and>
    ls_device_id l = did \<and> ls_access_point_id l = apid \<and>
    generation l = 1 + int (length (filter (\<lambda>x. ls_device_id x = did) (leases db))) \<and>
    (\<forall>x \<in> set (leases db). ls_device_id x = did \<longrightarrow> generation x < generation l \<and> \<not> lease_active x) \<and>
    (\<forall>x \<in> set (leases db). lease_active x \<longrightarrow> ls_access_point_id x = apid \<longrightarrow> ip_address x \<noteq> ip_address l)"
proof -
  from assms obtain dev ap c where did: "dv_id dev = did" and apid: "ap_id ap = apid"
    and none: "active_of_device db did = []"
    and ch: "choose_address (map pool_spec_of (ap_pools db apid)) (ip_address ` set (active_of_ap db apid)) = Inr (Some c)"
    and ls: "leases db' = leases db @ [new_lease env db dev ap c]"
    and cr: "cr_lease r = lease_out (new_lease env db dev ap c)"
    by (rule establish_new)
  let ?n = "int (length (filter (\<lambda>x. ls_device_id x = did) (leases db)))"
  from assms(1) have sem: "gate_sem db" by (simp add: gate_inv_def)
  have gens: "generations db did = [1..?n]"
    using gate_semD(4)[OF sem] by (simp add: generations_ok_def generations_def)
  have max: "max_generation db did = ?n"
    using max_generation_length[OF gate_semD(4)[OF sem]] by (simp add: generations_def)
  have "generation x < ?n + 1" if "x \<in> set (leases db)" "ls_device_id x = did" for x
  proof -
    have "generation x \<in> set (generations db did)" using that by (auto simp: generations_def)
    then show ?thesis unfolding gens by simp
  qed
  moreover have "\<not> lease_active x" if "x \<in> set (leases db)" "ls_device_id x = did" for x
    using none that by (auto simp: active_of_device_def filter_empty_conv)
  moreover have "ip_address x \<noteq> aa_ip c"
    if "x \<in> set (leases db)" "lease_active x" "ls_access_point_id x = apid" for x
  proof -
    have "x \<in> set (active_of_ap db apid)" using that by (simp add: active_of_ap_def)
    then have "ip_address x \<in> ip_address ` set (active_of_ap db apid)" by (rule imageI)
    with conjunct1[OF chosen_pool[OF sem ch]] show ?thesis by metis
  qed
  ultimately show ?thesis using ls cr did apid max by (intro exI[of _ "new_lease env db dev ap c"]) auto
qed

theorem new_session_generation_witness:
  "\<exists>l. leases (snd (establish_once \<lparr>le_now = 9, le_lease_id = 3\<rparr> 1 1 closed_gate)) = leases closed_gate @ [l] \<and>
     generation l = 2 \<and> lease_active l"
proof -
  let ?r = "establish_once \<lparr>le_now = 9, le_lease_id = 3\<rparr> 1 1 closed_gate"
  have "case fst ?r of Inr r \<Rightarrow> \<not> cr_reused r | Inl e \<Rightarrow> False" by code_simp
  then obtain r where r: "?r = (Inr r, snd ?r)" "\<not> cr_reused r"
    by (cases ?r) (auto split: sum.splits)
  have "length (filter (\<lambda>x. ls_device_id x = 1) (leases closed_gate)) = 1" by code_simp
  with new_session_generation[OF closed_gate_inv r] show ?thesis by auto
qed

lemma distinct_single: "distinct xs \<Longrightarrow> x \<in> set xs \<Longrightarrow> (\<And>y. y \<in> set xs \<Longrightarrow> y = x) \<Longrightarrow> xs = [x]"
proof (cases xs)
  case (Cons y ys)
  assume d: "distinct xs" and eq: "\<And>y. y \<in> set xs \<Longrightarrow> y = x"
  then have "y = x" using Cons by simp
  moreover have "ys = []"
  proof (rule ccontr)
    assume "ys \<noteq> []"
    then have "hd ys \<in> set ys" by simp
    with eq[of "hd ys"] eq[of y] d Cons show False by auto
  qed
  ultimately show ?thesis using Cons by simp
qed simp

lemma one_active:
  assumes inv: "gate_inv db" and l: "l \<in> set (leases db)" "lease_active l" "ls_device_id l = did"
  shows "active_of_device db did = [l]"
proof -
  from inv have ok: "gate_ok db" by (simp add: gate_inv_def)
  then have u: "active_unique db" "distinct (map ls_id (leases db))" by (simp_all add: gate_ok_def gate_unique_def)
  have mem: "l \<in> set (active_of_device db did)" using l by (simp add: active_of_device_def)
  have eq: "x = l" if "x \<in> set (active_of_device db did)" for x
  proof -
    from that have "x \<in> set (leases db)" "lease_active x" "ls_device_id x = ls_device_id l"
      using l(3) by (simp_all add: active_of_device_def)
    with l(1,2) show ?thesis by (intro active_unique_rows[OF u]) simp_all
  qed
  have "distinct (active_of_device db did)"
    using u(2) by (simp add: active_of_device_def distinct_map)
  then show ?thesis by (rule distinct_single[OF _ mem eq])
qed

text \<open>Connecting while a session is active returns that session, marked as reused, and changes
  nothing, whatever access point is asked for.\<close>

theorem connect_reuses_session:
  assumes "gate_inv db" and "l \<in> set (leases db)" and "lease_active l" and "conc 9 = None"
  shows "establish_session envs conc (ls_device_id l) apid db =
    (Inr \<lparr>cr_lease = lease_out l, cr_reused = True\<rparr>, db)"
proof -
  from assms(1) have ok: "gate_ok db" and sem: "gate_sem db" by (simp_all add: gate_inv_def)
  from gate_semD(2)[OF sem assms(2)] assms(3) obtain d where
    d: "row_by dv_id (ls_device_id l) (devices db) = Some d" "dv_status d = DeviceActive"
    by (auto simp: lease_sound_def)
  have did: "dv_id d = ls_device_id l" using row_by_SomeD[OF d(1)] by simp
  have "establish_once env (ls_device_id l) apid db = (Inr \<lparr>cr_lease = lease_out l, cr_reused = True\<rparr>, db)" for env
    using one_active[OF assms(1,2,3) refl] d ok
    by (simp add: establish_once_def did one_or_none_def)
  note once = this
  have ten: "MAX_RETRIES = Suc 9" by (simp add: MAX_RETRIES_def)
  show ?thesis unfolding establish_session_def ten retrying.simps assms(4) option.case once by simp
qed

theorem connect_reuses_session_witness:
  "\<exists>l \<in> set (leases busy_gate). establish_session (\<lambda>k. \<lparr>le_now = 9, le_lease_id = 3\<rparr>) quiet (ls_device_id l) 1 busy_gate =
    (Inr \<lparr>cr_lease = lease_out l, cr_reused = True\<rparr>, busy_gate)"
proof -
  have "leases busy_gate \<noteq> []" using busy_gate_leases by auto
  then obtain l ls where ls: "leases busy_gate = l # ls" by (cases "leases busy_gate") auto
  with busy_gate_leases have "lease_active l" by (simp add: lease_active_def)
  with connect_reuses_session[OF busy_gate_inv, of l quiet] ls show ?thesis
    by (intro bexI[of _ l]) (simp_all add: quiet_def)
qed

end
