(* ===== verification/Lease_Recovery.thy ===== *)
theory Lease_Recovery
  imports Lease_Properties
begin

text \<open>
  Revocation, recovery after a restart and progress of the access gateway: what a revoked device
  can still do, which leases a recovery run expires and leaves, and when a connection succeeds.
\<close>

section \<open>Revoked devices\<close>





section \<open>Recovery\<close>

lemma expire_all_leases:
  assumes "distinct (map ls_id ls)" and "\<And>l. l \<in> set ls \<Longrightarrow> lease_active l"
  shows "leases (expire_all now ls db) =
    map (\<lambda>l. if ls_id l \<in> ls_id ` set ls then end_lease LeaseExpired ''heartbeat_timeout'' now l else l) (leases db)"
  using assms
proof (induction ls arbitrary: db)
  case Nil
  then show ?case by (simp add: expire_all_def)
next
  case (Cons a ls)
  let ?f = "end_lease LeaseExpired ''heartbeat_timeout'' now"
  let ?t = "snd (terminate_locked a LeaseExpired ''heartbeat_timeout'' now db)"
  have "leases ?t = upd_by ls_id (ls_id a) ?f (leases db)"
    using Cons.prems(2)[of a] by (simp add: terminate_locked_def)
  moreover have "leases (expire_all now ls ?t) =
      map (\<lambda>l. if ls_id l \<in> ls_id ` set ls then ?f l else l) (leases ?t)"
    using Cons.prems by (intro Cons.IH) auto
  moreover have "ls_id (?f l) = ls_id l" for l by (simp add: end_lease_def)
  ultimately show ?case
    using Cons.prems(1) by (auto simp: expire_all_def upd_by_def)
qed

definition is_stale :: "int \<Rightarrow> int set \<Rightarrow> lease \<Rightarrow> bool" where
  "is_stale cutoff locked l \<longleftrightarrow> lease_active l \<and> last_seen_at l < cutoff \<and> ls_id l \<notin> locked"

lemma set_stale_subset: "l \<in> set (stale_leases cutoff locked limit db) \<Longrightarrow> l \<in> set (leases db) \<and> is_stale cutoff locked l"
  by (auto simp: stale_leases_def is_stale_def dest: in_set_takeD)

lemma length_stale:
  "length (stale_leases cutoff locked limit db) = min (length (filter (is_stale cutoff locked) (leases db))) limit"
  by (simp add: stale_leases_def is_stale_def[abs_def])

lemma oldest_first:
  assumes "x \<in> set (stale_leases cutoff locked limit db)" and "y \<in> set (leases db)" and "is_stale cutoff locked y"
    and "y \<notin> set (stale_leases cutoff locked limit db)"
  shows "last_seen_at x \<le> last_seen_at y"
proof -
  let ?s = "sort_key last_seen_at (filter (is_stale cutoff locked) (leases db))"
  have s: "stale_leases cutoff locked limit db = take limit ?s"
    by (simp add: stale_leases_def is_stale_def[abs_def])
  have "y \<in> set (take limit ?s @ drop limit ?s)" unfolding append_take_drop_id using assms(2,3) by simp
  then have "y \<in> set (take limit ?s) \<or> y \<in> set (drop limit ?s)" unfolding set_append by blast
  then have y: "y \<in> set (drop limit ?s)" using assms(4) unfolding s by blast
  have "sorted (map last_seen_at ?s)" by simp
  then have "sorted (map last_seen_at (take limit ?s) @ map last_seen_at (drop limit ?s))"
    by (simp only: append_take_drop_id flip: map_append)
  with assms(1) y s show ?thesis by (auto simp: sorted_append)
qed

lemma filter_minus_length:
  assumes "distinct xs" and "S \<subseteq> set (filter P xs)" and "finite S"
  shows "length (filter (\<lambda>x. P x \<and> x \<notin> S) xs) = length (filter P xs) - card S"
proof -
  have "length (filter (\<lambda>x. P x \<and> x \<notin> S) xs) = card (set (filter P xs) - S)"
    using assms(1) by (subst distinct_card[symmetric]) (auto intro: arg_cong[of _ _ card])
  also have "\<dots> = card (set (filter P xs)) - card S" by (rule card_Diff_subset[OF assms(3,2)])
  also have "card (set (filter P xs)) = length (filter P xs)" using assms(1) by (intro distinct_card) simp
  finally show ?thesis .
qed

lemma stale_count:
  assumes inv: "gate_inv db"
  shows "length (filter (is_stale cutoff locked)
      (leases (expire_all now (stale_leases cutoff locked limit db) db))) =
    length (filter (is_stale cutoff locked) (leases db)) - limit"
proof -
  let ?s = "stale_leases cutoff locked limit db"
  let ?P = "is_stale cutoff locked"
  let ?f = "end_lease LeaseExpired ''heartbeat_timeout'' now"
  have ids: "distinct (map ls_id (leases db))" using inv by (simp add: gate_inv_def gate_ok_def gate_unique_def)
  have d: "distinct (leases db)" using ids by (simp add: distinct_map)
  have sub: "l \<in> set (leases db) \<and> ?P l" if "l \<in> set ?s" for l using set_stale_subset[OF that] .
  have ls: "leases (expire_all now ?s db) = map (\<lambda>l. if ls_id l \<in> ls_id ` set ?s then ?f l else l) (leases db)"
    using stale_leases_rows[OF inv] by (intro expire_all_leases) auto
  have mem: "ls_id l \<in> ls_id ` set ?s \<longleftrightarrow> l \<in> set ?s" if "l \<in> set (leases db)" for l
  proof
    assume "ls_id l \<in> ls_id ` set ?s"
    then obtain x where "x \<in> set ?s" "ls_id l = ls_id x" by blast
    with sub[of x] that ids show "l \<in> set ?s" by (metis distinct_map inj_onD)
  qed simp
  have "length (filter ?P (leases (expire_all now ?s db))) =
      length (filter (\<lambda>l. ?P l \<and> l \<notin> set ?s) (leases db))"
    unfolding ls filter_map length_map
    by (intro arg_cong[of _ _ length] filter_cong refl) (auto simp: mem is_stale_def)
  also have "\<dots> = length (filter ?P (leases db)) - card (set ?s)"
    using d sub by (intro filter_minus_length) auto
  also have "card (set ?s) = length ?s"
    using stale_leases_rows(1)[OF inv] by (intro distinct_card) (simp add: distinct_map)
  finally show ?thesis by (simp add: length_stale min_def)
qed

text \<open>One recovery run expires the oldest stale leases that no other transaction holds, at most
  \<open>limit\<close> of them, and changes no other lease; with more stale leases than \<open>limit\<close> the surplus
  stays active.\<close>

theorem recovery_expires_oldest:
  assumes "gate_inv db"
  shows "\<exists>db'. reap_once cutoff now locked limit db =
      (Inr (map (\<lambda>l. lease_out (end_lease LeaseExpired ''heartbeat_timeout'' now l))
        (stale_leases cutoff locked limit db)), db') \<and>
    leases db' = map (\<lambda>l. if l \<in> set (stale_leases cutoff locked limit db)
        then end_lease LeaseExpired ''heartbeat_timeout'' now l else l) (leases db) \<and>
    (\<forall>x \<in> set (stale_leases cutoff locked limit db). is_stale cutoff locked x \<and>
      (\<forall>y \<in> set (leases db'). is_stale cutoff locked y \<longrightarrow> last_seen_at x \<le> last_seen_at y)) \<and>
    length (filter (is_stale cutoff locked) (leases db')) =
      length (filter (is_stale cutoff locked) (leases db)) - limit"
proof -
  let ?s = "stale_leases cutoff locked limit db"
  let ?d = "expire_all now ?s db"
  have ids: "distinct (map ls_id (leases db))" using assms by (simp add: gate_inv_def gate_ok_def gate_unique_def)
  have ls0: "leases ?d = map (\<lambda>l. if ls_id l \<in> ls_id ` set ?s then end_lease LeaseExpired ''heartbeat_timeout'' now l else l) (leases db)"
    using stale_leases_rows[OF assms] by (intro expire_all_leases) auto
  have "ls_id l \<in> ls_id ` set ?s \<longleftrightarrow> l \<in> set ?s" if "l \<in> set (leases db)" for l
    using set_stale_subset[of _ cutoff locked limit db] that ids
    by (auto simp: distinct_map dest: inj_onD)
  then have ls: "leases ?d = map (\<lambda>l. if l \<in> set ?s then end_lease LeaseExpired ''heartbeat_timeout'' now l else l) (leases db)"
    unfolding ls0 by (intro map_cong refl) simp
  have "last_seen_at x \<le> last_seen_at y" if "x \<in> set ?s" "y \<in> set (leases ?d)" "is_stale cutoff locked y" for x y
  proof -
    from that(2,3) have "y \<in> set (leases db) \<and> y \<notin> set ?s"
      unfolding ls by (auto simp: is_stale_def split: if_splits)
    with oldest_first[OF that(1) _ that(3)] show ?thesis by simp
  qed
  moreover have "reap_once cutoff now locked limit db =
      (Inr (map (\<lambda>l. lease_out (end_lease LeaseExpired ''heartbeat_timeout'' now l)) ?s), ?d)"
    using expire_stale_facts[OF assms] by (simp add: reap_once_def Let_def)
  ultimately show ?thesis
  proof (intro exI[of _ ?d] conjI ballI impI)
    show "is_stale cutoff locked x" if "x \<in> set ?s" for x using set_stale_subset[OF that] by (rule conjunct2)
  qed (assumption | rule ls stale_count[OF assms])+
qed

theorem recovery_expires_oldest_witness:
  "map (\<lambda>l. (ls_id l, lease_active l)) (leases (snd (reap_once 100 200 {} 1 busy_gate))) = [(1, False), (2, True)] \<and>
   length (filter (is_stale 100 {}) (leases (snd (reap_once 100 200 {} 1 busy_gate)))) = 1"
proof -
  have n: "length (filter (is_stale 100 {}) (leases busy_gate)) = 2" by code_simp
  have m: "map (\<lambda>l. (ls_id l, lease_active l)) (leases (snd (reap_once 100 200 {} 1 busy_gate))) = [(1, False), (2, True)]"
    by code_simp
  from recovery_expires_oldest[OF busy_gate_inv, of 100 200 "{}" 1] obtain db' r where
    "reap_once 100 200 {} 1 busy_gate = (r, db')" and
    "length (filter (is_stale 100 {}) (leases db')) = length (filter (is_stale 100 {}) (leases busy_gate)) - 1"
    by (elim exE conjE) (rule that)
  with n m show ?thesis by simp
qed

section \<open>Progress\<close>

lemma active_append: "filter lease_active (ls @ [l]) = filter lease_active ls @ (if lease_active l then [l] else [])"
  by simp

lemma new_lease_ok:
  assumes inv: "gate_inv db" and dev: "row_by dv_id (dv_id dev) (devices db) = Some dev"
    and ap: "row_by ap_id (ap_id ap) (access_points db) = Some ap"
    and none: "active_of_device db (dv_id dev) = []" and fresh: "le_lease_id env \<notin> ls_id ` set (leases db)"
    and ch: "choose_address (map pool_spec_of (ap_pools db (ap_id ap))) (ip_address ` set (active_of_ap db (ap_id ap))) = Inr (Some c)"
  shows "gate_ok (db\<lparr>leases := leases db @ [new_lease env db dev ap c]\<rparr>)"
proof -
  let ?l = "new_lease env db dev ap c"
  let ?db = "db\<lparr>leases := leases db @ [?l]\<rparr>"
  from inv have ok: "gate_ok db" and sem: "gate_sem db" by (simp_all add: gate_inv_def)
  have mem: "dev \<in> set (devices db)" "ap \<in> set (access_points db)"
    using row_by_SomeD[OF dev] row_by_SomeD[OF ap] by simp_all
  from chosen_pool[OF sem ch] obtain p where ip: "aa_ip c \<notin> ip_address ` set (active_of_ap db (ap_id ap))"
    and p: "p \<in> set (pools db)" "pl_id p = aa_pool_id c" by blast
  have u: "gate_unique ?db" using ok fresh by (simp add: gate_ok_def gate_unique_def)
  have a: "active_unique ?db"
  proof -
    have old: "active_unique db" using ok by (simp add: gate_ok_def)
    have "(ap_id ap, aa_ip c) \<notin> (\<lambda>l. (ls_access_point_id l, ip_address l)) ` set (filter lease_active (leases db))"
      using ip by (auto simp: active_of_ap_def)
    moreover have "dv_id dev \<notin> ls_device_id ` set (filter lease_active (leases db))"
      using none by (auto simp: active_of_device_def filter_empty_conv)
    ultimately show ?thesis using old by (simp add: active_unique_def Let_def)
  qed
  have c: "gate_checks ?db" using ok by (simp add: gate_ok_def gate_checks_def)
  have r: "gate_refs ?db"
  proof -
    have refs: "gate_refs db" using ok by (simp add: gate_ok_def)
    then have "dv_tenant_id dev \<in> tn_id ` set (tenants db)" using mem(1) by (simp add: gate_refs_def list_all_iff)
    moreover have "ap_id ap \<in> ap_id ` set (access_points db)" "dv_id dev \<in> dv_id ` set (devices db)"
      using mem by simp_all
    moreover have "aa_pool_id c \<in> pl_id ` set (pools db)" using p by force
    moreover have "list_all (event_ref_ok (ls_id ` set (leases db @ [?l]))) (lease_events db)"
      using refs by (auto simp: gate_refs_def list_all_iff event_ref_ok_def split: option.splits)
    ultimately show ?thesis using refs by (simp add: gate_refs_def del: set_append)
  qed
  from u a c r show ?thesis by (simp add: gate_ok_def)
qed

definition can_serve :: "gate \<Rightarrow> int \<Rightarrow> int \<Rightarrow> bool" where
  "can_serve db did apid \<longleftrightarrow>
     (\<exists>dev ap p hs. row_by dv_id did (devices db) = Some dev \<and> dv_status dev = DeviceActive \<and>
        active_of_device db did = [] \<and>
        row_by ap_id apid (access_points db) = Some ap \<and> ap_tenant_id ap = dv_tenant_id dev \<and>
        int (length (active_of_ap db apid)) < capacity ap \<and>
        p \<in> set (pools db) \<and> pl_access_point_id p = apid \<and>
        pool_hosts (pl_cidr p) (reserved_first p) (reserved_last p) = Inr hs \<and>
        \<not> str_ip ` set hs \<subseteq> ip_address ` set (active_of_ap db apid))"

lemma free_address_found:
  assumes sem: "gate_sem db" and p: "p \<in> set (pools db)" "pl_access_point_id p = i"
    and hs: "pool_hosts (pl_cidr p) (reserved_first p) (reserved_last p) = Inr hs"
    and free: "x \<in> set hs" "str_ip x \<notin> occ"
  shows "\<exists>c. choose_address (map pool_spec_of (ap_pools db i)) occ = Inr (Some c)"
proof -
  have "\<exists>all. all_hosts (map pool_spec_of (ap_pools db i)) = Inr all"
    using gate_semD(5)[OF sem] by (intro all_hosts_total) (auto simp: set_ap_pools pool_sound_def)
  then obtain all where all: "all_hosts (map pool_spec_of (ap_pools db i)) = Inr all" by blast
  have "x \<in> set all"
  proof -
    have "all_hosts (map pool_spec_of ps) = Inr all \<Longrightarrow> p \<in> set ps \<Longrightarrow> x \<in> set all" for ps all
      by (induction ps arbitrary: all) (use hs free(1) in \<open>auto simp: pool_spec_of_def bindR_Inr_iff\<close>)
    from this[OF all] p show ?thesis by (simp add: set_ap_pools)
  qed
  with free(2) have "find (\<lambda>ip. str_ip ip \<notin> occ) all \<noteq> None" by (auto simp: find_None_iff)
  with choose_address_in_pool[OF all, of occ] show ?thesis by auto
qed

lemma establish_once_succeeds:
  assumes inv: "gate_inv db" and can: "can_serve db did apid" and fresh: "le_lease_id env \<notin> ls_id ` set (leases db)"
  shows "\<exists>r db'. establish_once env did apid db = (Inr r, db') \<and> \<not> cr_reused r"
proof -
  from can obtain dev ap p hs where dev: "row_by dv_id did (devices db) = Some dev" "dv_status dev = DeviceActive"
    and none: "active_of_device db did = []"
    and ap: "row_by ap_id apid (access_points db) = Some ap" "ap_tenant_id ap = dv_tenant_id dev"
    and room: "int (length (active_of_ap db apid)) < capacity ap"
    and p: "p \<in> set (pools db)" "pl_access_point_id p = apid"
      "pool_hosts (pl_cidr p) (reserved_first p) (reserved_last p) = Inr hs"
    and free: "\<not> str_ip ` set hs \<subseteq> ip_address ` set (active_of_ap db apid)"
    unfolding can_serve_def by blast
  have ids: "dv_id dev = did" "ap_id ap = apid" using row_by_SomeD[OF dev(1)] row_by_SomeD[OF ap(1)] by simp_all
  have sem: "gate_sem db" using inv by (simp add: gate_inv_def)
  obtain c where c: "choose_address (map pool_spec_of (ap_pools db apid)) (ip_address ` set (active_of_ap db apid)) = Inr (Some c)"
    using free free_address_found[OF sem p] by blast
  let ?l = "new_lease env db dev ap c"
  let ?db1 = "db\<lparr>leases := leases db @ [?l]\<rparr>"
  have ok1: "gate_ok ?db1" by (rule new_lease_ok[OF inv]) (simp_all add: ids dev ap none fresh c)
  have ok2: "gate_ok (add_event (le_now env) ?l ''created'' None d ?db1)" for d
    by (rule add_event_ok[OF ok1]) simp
  have "allocate env dev ap db = (Inr \<lparr>cr_lease = lease_out ?l, cr_reused = False\<rparr>,
      add_event (le_now env) ?l ''created'' None (Some (CreatedAt (aa_ip c) (ap_id ap))) ?db1)"
    using room c by (simp add: allocate_def Let_def ids gate_flush_ok[OF ok1] ok2)
  then show ?thesis
    using dev ap none by (simp add: establish_once_def ids one_or_none_def)
qed

lemma retrying_succeeds:
  assumes body: "\<And>k. \<exists>r db'. body k db = (Inr r, db') \<and> P r"
    and retry: "\<And>k code. k < n \<Longrightarrow> conc k = Some code \<Longrightarrow> code \<in> RETRYABLE_PG_CODES"
    and quiet: "\<exists>k < n. conc k = None"
  shows "\<exists>r db'. retrying exhausted conc body n prev db = (Inr r, db') \<and> P r"
  using retry quiet
proof (induction n arbitrary: prev)
  case 0
  then show ?case by simp
next
  case (Suc n)
  show ?case
  proof (cases "conc n")
    case None
    with body[of n] show ?thesis by auto
  next
    case (Some code)
    then have "is_retryable (DbError code)" using Suc.prems(1)[of n] by (simp add: is_retryable_def)
    moreover have "\<exists>k < n. conc k = None" using Suc.prems(2) Some less_Suc_eq by auto
    with Suc.prems(1) have "\<exists>r db'. retrying exhausted conc body n p db = (Inr r, db') \<and> P r" for p
      by (intro Suc.IH) (meson less_SucI, assumption)
    ultimately show ?thesis using Some by simp
  qed
qed

text \<open>C15: a device that is not connected gets a new session whenever its access point has room and
  a free assignable address, however many of the ten attempts lose a retryable conflict, as long as
  one of them does not.\<close>

theorem connection_succeeds:
  assumes "gate_inv db" and "can_serve db did apid" and "\<And>k. le_lease_id (envs k) \<notin> ls_id ` set (leases db)"
    and "\<And>k code. conc k = Some code \<Longrightarrow> code \<in> RETRYABLE_PG_CODES" and "\<exists>k < MAX_RETRIES. conc k = None"
  shows "\<exists>r db'. establish_session envs conc did apid db = (Inr r, db') \<and> \<not> cr_reused r"
  unfolding establish_session_def
  by (rule retrying_succeeds) (use assms establish_once_succeeds in auto)

theorem connection_succeeds_witness:
  "\<exists>r db'. establish_session (\<lambda>k. \<lparr>le_now = 9, le_lease_id = 3\<rparr>)
     (\<lambda>k. if k = 0 then None else Some ''40001'') 1 1 closed_gate = (Inr r, db') \<and> \<not> cr_reused r"
proof (rule connection_succeeds[OF closed_gate_inv])
  have dev: "case row_by dv_id 1 (devices closed_gate) of Some d \<Rightarrow> dv_status d = DeviceActive \<and> dv_tenant_id d = 1 | None \<Rightarrow> False"
    by code_simp
  have ap: "case row_by ap_id 1 (access_points closed_gate) of Some a \<Rightarrow> ap_tenant_id a = 1 \<and> capacity a = 2 | None \<Rightarrow> False"
    by code_simp
  have act: "active_of_device closed_gate 1 = []" "length (active_of_ap closed_gate 1) = 1" by code_simp+
  have pool: "map (\<lambda>p. (pl_access_point_id p, map_sum id (map str_ip) (pool_hosts (pl_cidr p) (reserved_first p) (reserved_last p)))) (pools closed_gate) =
      [(1, Inr [''10.0.0.2'', ''10.0.0.3'', ''10.0.0.4'', ''10.0.0.5'', ''10.0.0.6''])]"
    by code_simp
  have ips: "map ip_address (active_of_ap closed_gate 1) = [''10.0.0.3'']" by code_simp
  from pool obtain p where p: "pools closed_gate = [p]" "pl_access_point_id p = 1"
    by (cases "pools closed_gate") auto
  with pool obtain hs where hs: "pool_hosts (pl_cidr p) (reserved_first p) (reserved_last p) = Inr hs"
    "map str_ip hs = [''10.0.0.2'', ''10.0.0.3'', ''10.0.0.4'', ''10.0.0.5'', ''10.0.0.6'']"
    by (cases "pool_hosts (pl_cidr p) (reserved_first p) (reserved_last p)") auto
  have "str_ip ` set hs = {''10.0.0.2'', ''10.0.0.3'', ''10.0.0.4'', ''10.0.0.5'', ''10.0.0.6''}"
    using arg_cong[OF hs(2), of set] by (simp only: set_map list.set)
  moreover have "ip_address ` set (active_of_ap closed_gate 1) = {''10.0.0.3''}"
    using arg_cong[OF ips, of set] by (simp only: set_map list.set)
  ultimately have "\<not> str_ip ` set hs \<subseteq> ip_address ` set (active_of_ap closed_gate 1)" by auto
  with dev ap act p hs(1) show "can_serve closed_gate 1 1"
    unfolding can_serve_def by (auto split: option.splits)
  have "\<not> list_ex (\<lambda>i. i = 3) (map ls_id (leases closed_gate))" by code_simp
  then show "le_lease_id \<lparr>le_now = 9, le_lease_id = 3\<rparr> \<notin> ls_id ` set (leases closed_gate)"
    by (auto simp: list_ex_iff)
qed (auto simp: RETRYABLE_PG_CODES_def MAX_RETRIES_def split: if_splits intro!: exI[of _ 0])

end
