(* ===== verification/Flow_Values.thy ===== *)
theory Flow_Values
  imports Complex_Main Py_Text
begin

text \<open>
  JSON values as the workflow engine (\<open>text8/a/app\<close>) computes with them in Python: equality across
  types, the orders that exist and the \<open>TypeError\<close>s where they do not (\<open>None\<close>), membership,
  truth and hashability. Numbers are exact: integers, finite floats as rationals, and the two
  infinities; \<open>NaN\<close> is neither a literal nor stored in a JSONB column. Objects are association
  lists, the first binding of a key counts.
\<close>

datatype jval =
    JNull
  | JBool bool
  | JInt int
  | JFloat rat
  | JInf bool
  | JStr string
  | JList "jval list"
  | JObj "(string \<times> jval) list"

type_synonym jobj = "(string \<times> jval) list"

section \<open>Access\<close>

text \<open>\<open>d.get(k)\<close> of a dict, and of a value that may be no dict.\<close>

definition jget :: "string \<Rightarrow> jobj \<Rightarrow> jval" where
  "jget k d = (case map_of d k of Some v \<Rightarrow> v | None \<Rightarrow> JNull)"

definition has_key :: "string \<Rightarrow> jobj \<Rightarrow> bool" where
  "has_key k d \<longleftrightarrow> map_of d k \<noteq> None"

definition is_str :: "jval \<Rightarrow> bool" where
  "is_str v = (case v of JStr s \<Rightarrow> True | _ \<Rightarrow> False)"

text \<open>\<open>isinstance(a, str) and a.strip()\<close>.\<close>

definition is_text :: "jval \<Rightarrow> bool" where
  "is_text v = (case v of JStr s \<Rightarrow> strip s \<noteq> [] | _ \<Rightarrow> False)"

definition hashable :: "jval \<Rightarrow> bool" where
  "hashable v = (case v of JList xs \<Rightarrow> False | JObj d \<Rightarrow> False | _ \<Rightarrow> True)"

definition truthy :: "jval \<Rightarrow> bool" where
  "truthy v = (case v of JNull \<Rightarrow> False | JBool b \<Rightarrow> b | JInt i \<Rightarrow> i \<noteq> 0 | JFloat r \<Rightarrow> r \<noteq> 0
     | JInf neg \<Rightarrow> True | JStr s \<Rightarrow> s \<noteq> [] | JList xs \<Rightarrow> xs \<noteq> [] | JObj d \<Rightarrow> d \<noteq> [])"

section \<open>Equality\<close>

text \<open>The place of a number among all numbers; \<open>True\<close> is 1.\<close>

definition num_rank :: "jval \<Rightarrow> (int \<times> rat) option" where
  "num_rank v = (case v of JBool b \<Rightarrow> Some (0, if b then 1 else 0) | JInt i \<Rightarrow> Some (0, of_int i)
     | JFloat r \<Rightarrow> Some (0, r) | JInf neg \<Rightarrow> Some (if neg then -1 else 1, 0) | _ \<Rightarrow> None)"

fun py_eq :: "jval \<Rightarrow> jval \<Rightarrow> bool"
  and py_eq_list :: "jval list \<Rightarrow> jval list \<Rightarrow> bool"
  and py_eq_obj :: "jobj \<Rightarrow> jobj \<Rightarrow> bool" where
  "py_eq JNull b = (b = JNull)"
| "py_eq (JStr s) b = (b = JStr s)"
| "py_eq (JList xs) b = (case b of JList ys \<Rightarrow> py_eq_list xs ys | _ \<Rightarrow> False)"
| "py_eq (JObj d) b = (case b of JObj e \<Rightarrow> length d = length e \<and> py_eq_obj d e | _ \<Rightarrow> False)"
| "py_eq (JBool x) b = (num_rank b = num_rank (JBool x))"
| "py_eq (JInt x) b = (num_rank b = num_rank (JInt x))"
| "py_eq (JFloat x) b = (num_rank b = num_rank (JFloat x))"
| "py_eq (JInf x) b = (num_rank b = num_rank (JInf x))"
| "py_eq_list [] ys = (ys = [])"
| "py_eq_list (x # xs) ys = (case ys of [] \<Rightarrow> False | y # zs \<Rightarrow> py_eq x y \<and> py_eq_list xs zs)"
| "py_eq_obj [] e = True"
| "py_eq_obj ((k, v) # d) e = (case map_of e k of None \<Rightarrow> False | Some w \<Rightarrow> py_eq v w \<and> py_eq_obj d e)"

section \<open>Order\<close>

text \<open>Three-way comparison, negative, zero or positive; \<open>None\<close> is a \<open>TypeError\<close>. Lists compare by
  their first elements that differ, then by length.\<close>

fun str_cmp :: "string \<Rightarrow> string \<Rightarrow> int" where
  "str_cmp [] [] = 0"
| "str_cmp [] (d # ds) = -1"
| "str_cmp (c # cs) [] = 1"
| "str_cmp (c # cs) (d # ds) =
     (if c = d then str_cmp cs ds else if (of_char c :: int) < of_char d then -1 else 1)"

definition num_cmp :: "int \<times> rat \<Rightarrow> int \<times> rat \<Rightarrow> int" where
  "num_cmp a b = (if a = b then 0 else if fst a < fst b \<or> (fst a = fst b \<and> snd a < snd b) then -1 else 1)"

fun py_cmp :: "jval \<Rightarrow> jval \<Rightarrow> int option"
  and py_cmp_list :: "jval list \<Rightarrow> jval list \<Rightarrow> int option" where
  "py_cmp (JStr s) b = (case b of JStr t \<Rightarrow> Some (str_cmp s t) | _ \<Rightarrow> None)"
| "py_cmp (JList xs) b = (case b of JList ys \<Rightarrow> py_cmp_list xs ys | _ \<Rightarrow> None)"
| "py_cmp JNull b = None"
| "py_cmp (JObj d) b = None"
| "py_cmp (JBool x) b = map_option (num_cmp (0, if x then 1 else 0)) (num_rank b)"
| "py_cmp (JInt x) b = map_option (num_cmp (0, of_int x)) (num_rank b)"
| "py_cmp (JFloat x) b = map_option (num_cmp (0, x)) (num_rank b)"
| "py_cmp (JInf neg) b = map_option (num_cmp (if neg then -1 else 1, 0)) (num_rank b)"
| "py_cmp_list [] ys = Some (if ys = [] then 0 else -1)"
| "py_cmp_list (x # xs) ys =
     (case ys of [] \<Rightarrow> Some 1 | y # zs \<Rightarrow> if py_eq x y then py_cmp_list xs zs else py_cmp x y)"

section \<open>Membership\<close>

fun is_substring :: "string \<Rightarrow> string \<Rightarrow> bool" where
  "is_substring s [] = (s = [])"
| "is_substring s (c # t) = (prefix s (c # t) \<or> is_substring s t)"

text \<open>\<open>a in b\<close>.\<close>

definition py_in :: "jval \<Rightarrow> jval \<Rightarrow> bool option" where
  "py_in a b =
     (case b of
        JList ys \<Rightarrow> Some (list_ex (py_eq a) ys)
      | JStr t \<Rightarrow> (case a of JStr s \<Rightarrow> Some (is_substring s t) | _ \<Rightarrow> None)
      | JObj d \<Rightarrow> if \<not> hashable a then None
                  else Some (case a of JStr k \<Rightarrow> has_key k d | _ \<Rightarrow> False)
      | _ \<Rightarrow> None)"

lemma py_eq_list_refl: "(\<And>x. x \<in> set xs \<Longrightarrow> py_eq x x) \<Longrightarrow> py_eq_list xs xs"
  by (induction xs) auto

lemma is_substring_iff: "is_substring s t \<longleftrightarrow> (\<exists>a b. t = a @ s @ b)"
proof (induction t)
  case Nil
  then show ?case by auto
next
  case (Cons c t)
  have "(\<exists>a b. c # t = a @ s @ b) \<longleftrightarrow> prefix s (c # t) \<or> (\<exists>a b. t = a @ s @ b)"
  proof
    assume "\<exists>a b. c # t = a @ s @ b"
    then obtain a b where ab: "c # t = a @ s @ b" by blast
    then show "prefix s (c # t) \<or> (\<exists>a b. t = a @ s @ b)"
      by (cases a) (auto simp: prefix_def)
  next
    assume "prefix s (c # t) \<or> (\<exists>a b. t = a @ s @ b)"
    then show "\<exists>a b. c # t = a @ s @ b"
    proof
      assume "prefix s (c # t)"
      then obtain b where "c # t = [] @ s @ b" by (auto simp: prefix_def)
      then show ?thesis by blast
    next
      assume "\<exists>a b. t = a @ s @ b"
      then obtain a b where "c # t = (c # a) @ s @ b" by auto
      then show ?thesis by blast
    qed
  qed
  with Cons show ?case by simp
qed

end
