(* ===== verification/Flow_Expr.thy ===== *)
theory Flow_Expr
  imports Flow_Values
begin

text \<open>
  The restricted condition expressions (\<open>text8/a/app/expressions.py\<close>): the syntax tree of Python's
  \<open>ast\<close> as far as the code inspects it, the white list walk with its node budget, and the
  evaluator. \<open>ast.parse\<close> is a parameter: it gives a tree or the name of the exception it raises.
\<close>

section \<open>Syntax trees\<close>

datatype bool_op = AndOp | OrOp

datatype unary_op = NotOp | UAdd | USub | Invert

datatype cmp_op = CEq | CNotEq | CLt | CLtE | CGt | CGtE | CIn | CNotIn | CIs | CIsNot

datatype const = CNone | CBool bool | CInt int | CFloat rat | CInf | CStr string | COther

text \<open>\<open>Other\<close> is a node of any other class.\<close>

datatype ast =
    Expression ast
  | BoolOp bool_op "ast list"
  | UnaryOp unary_op ast
  | Compare ast "(cmp_op \<times> ast) list"
  | Name string
  | Constant const
  | ListLit "ast list"
  | TupleLit "ast list"
  | Other string

text \<open>\<open>RestrictedSyntaxError\<close> is \<open>BadSyntax\<close> in the walk and \<open>Incomparable\<close> in a comparison;
  \<open>ExprRaise\<close> is another exception.\<close>

datatype expr_error = BadSyntax | Incomparable | ExprRaise string

section \<open>The white list\<close>

definition MAX_EXPRESSION_NODES :: nat where "MAX_EXPRESSION_NODES = 100"
definition MAX_NAME_LEN :: nat where "MAX_NAME_LEN = 64"
definition MAX_CONSTANT_LEN :: nat where "MAX_CONSTANT_LEN = 500"
definition MAX_LIST_ITEMS :: nat where "MAX_LIST_ITEMS = 50"

definition ALLOWED_CMP_OPS :: "cmp_op set" where
  "ALLOWED_CMP_OPS = {CEq, CNotEq, CLt, CLtE, CGt, CGtE, CIn, CNotIn}"

text \<open>\<open>str.isidentifier()\<close> on ASCII text.\<close>

definition is_letter :: "char \<Rightarrow> bool" where
  "is_letter c \<longleftrightarrow> (let n = of_char c :: int in (65 \<le> n \<and> n \<le> 90) \<or> (97 \<le> n \<and> n \<le> 122))"

definition is_identifier :: "string \<Rightarrow> bool" where
  "is_identifier s \<longleftrightarrow> s \<noteq> [] \<and> (is_letter (hd s) \<or> hd s = CHR ''_'') \<and>
     list_all (\<lambda>c. is_letter c \<or> is_digit c \<or> c = CHR ''_'') s"

definition name_ok :: "string \<Rightarrow> bool" where
  "name_ok s \<longleftrightarrow> is_identifier s \<and> length s \<le> MAX_NAME_LEN"

definition const_ok :: "const \<Rightarrow> bool" where
  "const_ok c = (case c of COther \<Rightarrow> False | CStr s \<Rightarrow> length s \<le> MAX_CONSTANT_LEN | _ \<Rightarrow> True)"

text \<open>\<open>walk\<close> of \<open>_validate\<close>: the counter of visited nodes is threaded through the tree.\<close>

fun walk :: "ast \<Rightarrow> nat \<Rightarrow> expr_error + nat"
  and walk_list :: "ast list \<Rightarrow> nat \<Rightarrow> expr_error + nat"
  and walk_cmps :: "(cmp_op \<times> ast) list \<Rightarrow> nat \<Rightarrow> expr_error + nat" where
  "walk (Expression t) seen =
     (if Suc seen > MAX_EXPRESSION_NODES then Inl BadSyntax else walk t (Suc seen))"
| "walk (BoolOp op ts) seen =
     (if Suc seen > MAX_EXPRESSION_NODES then Inl BadSyntax else walk_list ts (Suc seen))"
| "walk (UnaryOp op t) seen =
     (if Suc seen > MAX_EXPRESSION_NODES \<or> op \<noteq> NotOp then Inl BadSyntax else walk t (Suc seen))"
| "walk (Compare l cs) seen =
     (if Suc seen > MAX_EXPRESSION_NODES then Inl BadSyntax
      else bindR (walk l (Suc seen)) (\<lambda>n. walk_cmps cs n))"
| "walk (Name s) seen =
     (if Suc seen > MAX_EXPRESSION_NODES \<or> \<not> name_ok s then Inl BadSyntax else Inr (Suc seen))"
| "walk (Constant c) seen =
     (if Suc seen > MAX_EXPRESSION_NODES \<or> \<not> const_ok c then Inl BadSyntax else Inr (Suc seen))"
| "walk (ListLit ts) seen =
     (if Suc seen > MAX_EXPRESSION_NODES \<or> length ts > MAX_LIST_ITEMS then Inl BadSyntax
      else walk_list ts (Suc seen))"
| "walk (TupleLit ts) seen =
     (if Suc seen > MAX_EXPRESSION_NODES \<or> length ts > MAX_LIST_ITEMS then Inl BadSyntax
      else walk_list ts (Suc seen))"
| "walk (Other s) seen = Inl BadSyntax"
| "walk_list [] seen = Inr seen"
| "walk_list (t # ts) seen = bindR (walk t seen) (\<lambda>n. walk_list ts n)"
| "walk_cmps [] seen = Inr seen"
| "walk_cmps ((op, t) # cs) seen =
     (if op \<notin> ALLOWED_CMP_OPS then Inl BadSyntax else bindR (walk t seen) (\<lambda>n. walk_cmps cs n))"

type_synonym parser = "string \<Rightarrow> string + ast"

definition parse_expression :: "parser \<Rightarrow> string \<Rightarrow> expr_error + ast" where
  "parse_expression parse text =
     (if strip text = [] \<or> length text > 1000 then Inl BadSyntax
      else case parse text of
        Inl exc \<Rightarrow> Inl (if exc = ''SyntaxError'' then BadSyntax else ExprRaise exc)
      | Inr tree \<Rightarrow> bindR (walk tree 0) (\<lambda>_. Inr tree))"

section \<open>Evaluation\<close>

definition const_val :: "const \<Rightarrow> jval" where
  "const_val c = (case c of CNone \<Rightarrow> JNull | CBool b \<Rightarrow> JBool b | CInt i \<Rightarrow> JInt i | CFloat r \<Rightarrow> JFloat r
     | CInf \<Rightarrow> JInf False | CStr s \<Rightarrow> JStr s | COther \<Rightarrow> JNull)"

text \<open>The comparison functions; \<open>None\<close> is a \<open>TypeError\<close>. The two that are not allowed raise it too.\<close>

definition cmp_fn :: "cmp_op \<Rightarrow> jval \<Rightarrow> jval \<Rightarrow> bool option" where
  "cmp_fn op a b =
     (case op of
        CEq \<Rightarrow> Some (py_eq a b) | CNotEq \<Rightarrow> Some (\<not> py_eq a b)
      | CLt \<Rightarrow> map_option (\<lambda>c. c < 0) (py_cmp a b) | CLtE \<Rightarrow> map_option (\<lambda>c. c \<le> 0) (py_cmp a b)
      | CGt \<Rightarrow> map_option (\<lambda>c. c > 0) (py_cmp a b) | CGtE \<Rightarrow> map_option (\<lambda>c. c \<ge> 0) (py_cmp a b)
      | CIn \<Rightarrow> py_in a b | CNotIn \<Rightarrow> map_option Not (py_in a b)
      | _ \<Rightarrow> None)"

text \<open>\<open>and\<close> and \<open>or\<close> are Python's lazy \<open>all\<close> and \<open>any\<close>: operands after the deciding one are not evaluated;
  a comparison chain stops at the first that fails.\<close>

function (sequential) eval :: "ast \<Rightarrow> jobj \<Rightarrow> expr_error + jval"
  and eval_all :: "ast list \<Rightarrow> jobj \<Rightarrow> expr_error + bool"
  and eval_any :: "ast list \<Rightarrow> jobj \<Rightarrow> expr_error + bool"
  and eval_list :: "ast list \<Rightarrow> jobj \<Rightarrow> expr_error + jval list"
  and eval_cmps :: "jval \<Rightarrow> (cmp_op \<times> ast) list \<Rightarrow> jobj \<Rightarrow> expr_error + bool" where
  "eval (Expression t) ctx = eval t ctx"
| "eval (BoolOp op ts) ctx =
     bindR (case op of AndOp \<Rightarrow> eval_all ts ctx | OrOp \<Rightarrow> eval_any ts ctx) (\<lambda>b. Inr (JBool b))"
| "eval (UnaryOp op t) ctx =
     (if op = NotOp then bindR (eval t ctx) (\<lambda>v. Inr (JBool (\<not> truthy v))) else Inl BadSyntax)"
| "eval (Compare l cs) ctx = bindR (eval l ctx) (\<lambda>v. bindR (eval_cmps v cs ctx) (\<lambda>b. Inr (JBool b)))"
| "eval (Name s) ctx = Inr (jget s ctx)"
| "eval (Constant c) ctx = Inr (const_val c)"
| "eval (ListLit ts) ctx = bindR (eval_list ts ctx) (\<lambda>vs. Inr (JList vs))"
| "eval (TupleLit ts) ctx = bindR (eval_list ts ctx) (\<lambda>vs. Inr (JList vs))"
| "eval (Other s) ctx = Inl BadSyntax"
| "eval_all [] ctx = Inr True"
| "eval_all (t # ts) ctx = bindR (eval t ctx) (\<lambda>v. if truthy v then eval_all ts ctx else Inr False)"
| "eval_any [] ctx = Inr False"
| "eval_any (t # ts) ctx = bindR (eval t ctx) (\<lambda>v. if truthy v then Inr True else eval_any ts ctx)"
| "eval_list [] ctx = Inr []"
| "eval_list (t # ts) ctx = bindR (eval t ctx) (\<lambda>v. bindR (eval_list ts ctx) (\<lambda>vs. Inr (v # vs)))"
| "eval_cmps l [] ctx = Inr True"
| "eval_cmps l ((op, t) # cs) ctx =
     bindR (eval t ctx) (\<lambda>r.
       case cmp_fn op l r of
         None \<Rightarrow> Inl Incomparable
       | Some ok \<Rightarrow> if \<not> ok then Inr False else eval_cmps r cs ctx)"
  by pat_completeness auto

termination
  by (relation "measure (case_sum (case_sum (\<lambda>(t, c). size t) (\<lambda>(ts, c). size_list size ts))
    (case_sum (\<lambda>(ts, c). size_list size ts) (case_sum (\<lambda>(ts, c). size_list size ts) (\<lambda>(l, cs, c). size_list (size_prod (\<lambda>x. 0) size) cs))))") auto

definition safe_evaluate :: "parser \<Rightarrow> string \<Rightarrow> jobj \<Rightarrow> expr_error + bool" where
  "safe_evaluate parse expression ctx =
     bindR (parse_expression parse expression) (\<lambda>tree. bindR (eval tree ctx) (\<lambda>v. Inr (truthy v)))"

text \<open>\<open>validate_condition_expression\<close> turns a \<open>RestrictedSyntaxError\<close> into a validation error.\<close>

definition validate_condition_expression :: "parser \<Rightarrow> string \<Rightarrow> expr_error option" where
  "validate_condition_expression parse expression =
     (case parse_expression parse expression of Inl e \<Rightarrow> Some e | Inr tree \<Rightarrow> None)"

end
