(* ===== verification/Flow_Expr_Facts.thy ===== *)
theory Flow_Expr_Facts
  imports Flow_Expr
begin

text \<open>
  What the white list admits, in closed form, and what evaluating an admitted condition can do:
  it ends in a value or in a comparison of incomparable values, and reads nothing but the context.
\<close>

section \<open>The language admitted\<close>

fun nodes :: "ast \<Rightarrow> nat"
  and nodes_list :: "ast list \<Rightarrow> nat"
  and nodes_cmps :: "(cmp_op \<times> ast) list \<Rightarrow> nat" where
  "nodes (Expression t) = Suc (nodes t)"
| "nodes (BoolOp op ts) = Suc (nodes_list ts)"
| "nodes (UnaryOp op t) = Suc (nodes t)"
| "nodes (Compare l cs) = Suc (nodes l + nodes_cmps cs)"
| "nodes (ListLit ts) = Suc (nodes_list ts)"
| "nodes (TupleLit ts) = Suc (nodes_list ts)"
| "nodes _ = 1"
| "nodes_list [] = 0"
| "nodes_list (t # ts) = nodes t + nodes_list ts"
| "nodes_cmps [] = 0"
| "nodes_cmps ((op, t) # cs) = nodes t + nodes_cmps cs"

fun allowed :: "ast \<Rightarrow> bool"
  and allowed_list :: "ast list \<Rightarrow> bool"
  and allowed_cmps :: "(cmp_op \<times> ast) list \<Rightarrow> bool" where
  "allowed (Expression t) = allowed t"
| "allowed (BoolOp op ts) = allowed_list ts"
| "allowed (UnaryOp op t) = (op = NotOp \<and> allowed t)"
| "allowed (Compare l cs) = (allowed l \<and> allowed_cmps cs)"
| "allowed (Name s) = name_ok s"
| "allowed (Constant c) = const_ok c"
| "allowed (ListLit ts) = (length ts \<le> MAX_LIST_ITEMS \<and> allowed_list ts)"
| "allowed (TupleLit ts) = (length ts \<le> MAX_LIST_ITEMS \<and> allowed_list ts)"
| "allowed (Other s) = False"
| "allowed_list [] = True"
| "allowed_list (t # ts) = (allowed t \<and> allowed_list ts)"
| "allowed_cmps [] = True"
| "allowed_cmps ((op, t) # cs) = (op \<in> ALLOWED_CMP_OPS \<and> allowed t \<and> allowed_cmps cs)"

lemma nodes_pos: "0 < nodes t"
  by (cases t) auto

lemma walk_eq:
  "walk t seen = (if allowed t \<and> seen + nodes t \<le> MAX_EXPRESSION_NODES then Inr (seen + nodes t) else Inl BadSyntax)"
  "seen \<le> MAX_EXPRESSION_NODES \<Longrightarrow> walk_list ts seen =
    (if allowed_list ts \<and> seen + nodes_list ts \<le> MAX_EXPRESSION_NODES then Inr (seen + nodes_list ts) else Inl BadSyntax)"
  "seen \<le> MAX_EXPRESSION_NODES \<Longrightarrow> walk_cmps cs seen =
    (if allowed_cmps cs \<and> seen + nodes_cmps cs \<le> MAX_EXPRESSION_NODES then Inr (seen + nodes_cmps cs) else Inl BadSyntax)"
proof (induction t seen and ts seen and cs seen rule: walk_walk_list_walk_cmps.induct)
  case (4 l cs seen)
  then show ?case by (cases "allowed l \<and> Suc seen + nodes l \<le> MAX_EXPRESSION_NODES") auto
next
  case (11 t ts seen)
  then show ?case by (cases "allowed t \<and> seen + nodes t \<le> MAX_EXPRESSION_NODES") auto
next
  case (13 op t cs seen)
  then show ?case by (cases "allowed t \<and> seen + nodes t \<le> MAX_EXPRESSION_NODES") auto
qed auto

lemma walk_iff: "walk t 0 = Inr n \<longleftrightarrow> allowed t \<and> n = nodes t \<and> n \<le> MAX_EXPRESSION_NODES"
  by (auto simp: walk_eq)

lemma admitted_allowed: "parse_expression parse text = Inr t \<Longrightarrow> allowed t"
  by (auto simp: parse_expression_def bindR_Inr_iff walk_iff split: sum.splits if_splits)

text \<open>A condition is admitted if and only if its text is neither blank nor longer than 1000
  characters, parses, contains only literals, names, lists, boolean operators and the eight
  comparisons, each within its bound, and has at most 100 nodes.\<close>

theorem parse_expression_iff:
  "parse_expression parse text = Inr t \<longleftrightarrow>
     strip text \<noteq> [] \<and> length text \<le> 1000 \<and> parse text = Inr t \<and> allowed t \<and> nodes t \<le> MAX_EXPRESSION_NODES"
  by (auto simp: parse_expression_def bindR_Inr_iff walk_iff split: sum.splits)

section \<open>Evaluation of admitted conditions\<close>

lemma eval_errors:
  "allowed t \<Longrightarrow> eval t ctx = Inl e \<Longrightarrow> e = Incomparable"
  "allowed_list ts \<Longrightarrow> eval_all ts ctx = Inl e \<Longrightarrow> e = Incomparable"
  "allowed_list ts \<Longrightarrow> eval_any ts ctx = Inl e \<Longrightarrow> e = Incomparable"
  "allowed_list ts \<Longrightarrow> eval_list ts ctx = Inl e \<Longrightarrow> e = Incomparable"
  "allowed_cmps cs \<Longrightarrow> eval_cmps l cs ctx = Inl e \<Longrightarrow> e = Incomparable"
  by (induction t ctx and ts ctx and ts ctx and ts ctx and l cs ctx
      rule: eval_eval_all_eval_any_eval_list_eval_cmps.induct)
     (auto simp: bindR_Inl_iff split: bool_op.splits if_splits option.splits)

fun names :: "ast \<Rightarrow> string set"
  and names_list :: "ast list \<Rightarrow> string set"
  and names_cmps :: "(cmp_op \<times> ast) list \<Rightarrow> string set" where
  "names (Expression t) = names t"
| "names (BoolOp op ts) = names_list ts"
| "names (UnaryOp op t) = names t"
| "names (Compare l cs) = names l \<union> names_cmps cs"
| "names (Name s) = {s}"
| "names (ListLit ts) = names_list ts"
| "names (TupleLit ts) = names_list ts"
| "names _ = {}"
| "names_list [] = {}"
| "names_list (t # ts) = names t \<union> names_list ts"
| "names_cmps [] = {}"
| "names_cmps ((op, t) # cs) = names t \<union> names_cmps cs"

definition agree_on :: "string set \<Rightarrow> jobj \<Rightarrow> jobj \<Rightarrow> bool" where
  "agree_on X c d \<longleftrightarrow> (\<forall>x \<in> X. jget x c = jget x d)"

lemma agree_on_simps [simp]:
  "agree_on {} c d" "agree_on {x} c d \<longleftrightarrow> jget x c = jget x d"
  "agree_on (X \<union> Y) c d \<longleftrightarrow> agree_on X c d \<and> agree_on Y c d"
  by (auto simp: agree_on_def)

lemma eval_agree:
  "agree_on (names t) ctx d \<Longrightarrow> eval t d = eval t ctx"
  "agree_on (names_list ts) ctx d \<Longrightarrow> eval_all ts d = eval_all ts ctx"
  "agree_on (names_list ts) ctx d \<Longrightarrow> eval_any ts d = eval_any ts ctx"
  "agree_on (names_list ts) ctx d \<Longrightarrow> eval_list ts d = eval_list ts ctx"
  "agree_on (names_cmps cs) ctx d \<Longrightarrow> eval_cmps l cs d = eval_cmps l cs ctx"
  by (induction t ctx and ts ctx and ts ctx and ts ctx and l cs ctx
      rule: eval_eval_all_eval_any_eval_list_eval_cmps.induct)
     (auto intro!: bindR_cong split: bool_op.splits option.splits)

text \<open>C16: a condition that was admitted when its template was published evaluates, in every
  context, to a truth value or to the one error of comparing incomparable values, which the engine
  reports as a conflict; the result depends on nothing but the context's values of its names.\<close>

theorem admitted_condition_safe:
  assumes "parse_expression parse text = Inr t"
  shows "((\<exists>b. safe_evaluate parse text ctx = Inr b) \<or> safe_evaluate parse text ctx = Inl Incomparable) \<and>
    (agree_on (names t) ctx ctx' \<longrightarrow> safe_evaluate parse text ctx' = safe_evaluate parse text ctx)"
proof -
  have ok: "allowed t"
    using assms by (auto simp: parse_expression_def bindR_Inr_iff walk_iff split: sum.splits if_splits)
  show ?thesis
  proof (cases "eval t ctx")
    case (Inl e)
    then show ?thesis using eval_errors(1)[OF ok Inl] eval_agree(1)[of t ctx ctx']
      by (auto simp: safe_evaluate_def assms)
  next
    case (Inr v)
    then show ?thesis using eval_agree(1)[of t ctx ctx'] by (auto simp: safe_evaluate_def assms)
  qed
qed

text \<open>The condition \<open>amount >= 10000\<close>.\<close>

definition sample_condition :: ast where
  "sample_condition = Expression (Compare (Name ''amount'') [(CGtE, Constant (CInt 10000))])"

definition sample_parser :: parser where
  "sample_parser s = (if s = ''amount >= 10000'' then Inr sample_condition else Inl ''SyntaxError'')"

theorem admitted_condition_safe_witness:
  "(\<exists>b. safe_evaluate sample_parser ''amount >= 10000'' [(''amount'', JInt 12000)] = Inr b) \<and>
   safe_evaluate sample_parser ''amount >= 10000'' [(''amount'', JStr ''much'')] = Inl Incomparable"
proof -
  have p: "parse_expression sample_parser ''amount >= 10000'' = Inr sample_condition" by code_simp
  have "safe_evaluate sample_parser ''amount >= 10000'' [(''amount'', JInt 12000)] \<noteq> Inl Incomparable"
    by code_simp
  with admitted_condition_safe[OF p, of "[(''amount'', JInt 12000)]"]
  have "\<exists>b. safe_evaluate sample_parser ''amount >= 10000'' [(''amount'', JInt 12000)] = Inr b" by blast
  moreover have "safe_evaluate sample_parser ''amount >= 10000'' [(''amount'', JStr ''much'')] = Inl Incomparable"
    by code_simp
  ultimately show ?thesis by simp
qed

end
