(* ===== verification/Flow_Dsl.thy ===== *)
theory Flow_Dsl
  imports Flow_Expr_Facts
begin

text \<open>
  The validation of workflow definitions before they are published (\<open>text8/a/app/dsl.py\<close>), on the JSON
  value itself: the checks of each node with the exceptions they can raise, the resolution of the
  edges, the reachability loop and the three-colour search for cycles. \<open>limit\<close> is the number of
  nested calls Python's recursion limit leaves to the search.
\<close>

section \<open>Errors\<close>

datatype dsl_problem =
    NodesNotList
  | NodeNotObject nat
  | BadNodeId nat
  | DuplicateId string
  | BadType string
  | NeedsNext string
  | NoNextAllowed string
  | BadMode string
  | BadAssignees string
  | DuplicateAssignees string
  | TimeoutNotObject string
  | BadSeconds string
  | BadTargets string
  | NeedsBranches string
  | BranchNotObject string nat
  | BadWhen string nat
  | WhenNotText string nat
  | BranchNeedsNext string nat
  | NeedsDefault string
  | StartCount nat
  | NoEnd
  | BadStartNode
  | MissingTarget string jval
  | MissingDefault string jval
  | UnreachableNodes "string list"
  | Cycle "string list"

text \<open>The classes of \<open>errors.py\<close>, exceptions of Python and of the database (by SQLSTATE class).\<close>

datatype flow_error =
    ValidationError "dsl_problem list"
  | NotFoundError
  | ConflictError string
  | AuthzError
  | RequestInvalid
  | PyError string
  | DbError string

section \<open>Checks of one node\<close>

definition node_id_char :: "char \<Rightarrow> bool" where
  "node_id_char c \<longleftrightarrow> is_letter c \<or> is_digit c \<or> c = CHR ''_'' \<or> c = CHR ''-''"

text \<open>\<open>_NODE_ID_RE.match\<close>: Python's \<open>$\<close> also matches before a final line break.\<close>

definition id_body_ok :: "string \<Rightarrow> bool" where
  "id_body_ok s \<longleftrightarrow> 1 \<le> length s \<and> length s \<le> 64 \<and> list_all node_id_char s"

definition node_id_ok :: "string \<Rightarrow> bool" where
  "node_id_ok s \<longleftrightarrow> id_body_ok s \<or> (s \<noteq> [] \<and> last s = CHR 0x0A \<and> id_body_ok (butlast s))"

definition check :: "bool \<Rightarrow> dsl_problem \<Rightarrow> dsl_problem list" where
  "check ok p = (if ok then [] else [p])"

definition NODE_TYPES :: "string list" where
  "NODE_TYPES = [''start'', ''approval'', ''condition'', ''end'']"

definition APPROVAL_MODES :: "string list" where
  "APPROVAL_MODES = [''all'', ''any'']"

text \<open>\<open>v in {...}\<close> for a set of strings raises \<open>TypeError\<close> when \<open>v\<close> has no hash.\<close>

definition in_strings :: "jval \<Rightarrow> string list \<Rightarrow> flow_error + bool" where
  "in_strings v ss =
     (if \<not> hashable v then Inl (PyError ''TypeError'')
      else Inr (case v of JStr s \<Rightarrow> s \<in> set ss | _ \<Rightarrow> False))"

fun distinct_vals :: "jval list \<Rightarrow> bool" where
  "distinct_vals [] = True"
| "distinct_vals (v # vs) = (\<not> list_ex (py_eq v) vs \<and> distinct_vals vs)"

definition text_list :: "jval \<Rightarrow> bool" where
  "text_list v = (case v of JList vs \<Rightarrow> vs \<noteq> [] \<and> list_all is_text vs | _ \<Rightarrow> False)"

definition validate_timeout :: "string \<Rightarrow> jval \<Rightarrow> dsl_problem list" where
  "validate_timeout nid timeout =
     (case timeout of
        JObj d \<Rightarrow>
          check (case jget ''seconds'' d of JInt n \<Rightarrow> n > 0 | _ \<Rightarrow> False) (BadSeconds nid) @
          check (text_list (jget ''targets'' d)) (BadTargets nid)
      | _ \<Rightarrow> [TimeoutNotObject nid])"

definition start_problems :: "string \<Rightarrow> jobj \<Rightarrow> dsl_problem list" where
  "start_problems nid node = check (is_str (jget ''next'' node)) (NeedsNext nid)"

definition end_problems :: "string \<Rightarrow> jobj \<Rightarrow> dsl_problem list" where
  "end_problems nid node = check (\<not> has_key ''next'' node) (NoNextAllowed nid)"

definition assignee_duplicates :: "string \<Rightarrow> jval \<Rightarrow> flow_error + dsl_problem list" where
  "assignee_duplicates nid v =
     (case v of
        JList vs \<Rightarrow> if \<not> list_all hashable vs then Inl (PyError ''TypeError'')
                    else Inr (check (distinct_vals vs) (DuplicateAssignees nid))
      | _ \<Rightarrow> Inr [])"

definition approval_problems :: "string \<Rightarrow> jobj \<Rightarrow> flow_error + dsl_problem list" where
  "approval_problems nid node =
     bindR (in_strings (jget ''mode'' node) APPROVAL_MODES) (\<lambda>mode_ok.
     bindR (assignee_duplicates nid (jget ''assignees'' node)) (\<lambda>dups.
     Inr (check (is_str (jget ''next'' node)) (NeedsNext nid) @ check mode_ok (BadMode nid) @
          check (text_list (jget ''assignees'' node)) (BadAssignees nid) @ dups @
          (if jget ''timeout'' node \<noteq> JNull then validate_timeout nid (jget ''timeout'' node) else []))))"

definition branch_problems :: "parser \<Rightarrow> string \<Rightarrow> dsl_problem list \<Rightarrow> nat \<times> jval \<Rightarrow> flow_error + dsl_problem list" where
  "branch_problems parse nid errs jb =
     (let (j, b) = jb in
      case b of
        JObj br \<Rightarrow>
          bindR (case jget ''when'' br of
                   JStr w \<Rightarrow>
                     if strip w = [] then Inr [WhenNotText nid j]
                     else (case parse_expression parse w of
                             Inl (ExprRaise exc) \<Rightarrow> Inl (PyError exc)
                           | Inl e \<Rightarrow> Inr [BadWhen nid j]
                           | Inr t \<Rightarrow> Inr [])
                 | _ \<Rightarrow> Inr [WhenNotText nid j])
            (\<lambda>ps. Inr (errs @ ps @ check (is_str (jget ''next'' br)) (BranchNeedsNext nid j)))
      | _ \<Rightarrow> Inr (errs @ [BranchNotObject nid j]))"

definition condition_problems :: "parser \<Rightarrow> string \<Rightarrow> jobj \<Rightarrow> flow_error + dsl_problem list" where
  "condition_problems parse nid node =
     bindR (case jget ''branches'' node of
              JList bs \<Rightarrow> foldR (branch_problems parse nid) (check (bs \<noteq> []) (NeedsBranches nid)) (enumerate 0 bs)
            | _ \<Rightarrow> Inr [NeedsBranches nid])
       (\<lambda>ps. Inr (ps @ check (is_str (jget ''default'' node)) (NeedsDefault nid) @
                  check (\<not> has_key ''next'' node) (NoNextAllowed nid)))"

text \<open>The checks that depend on the type; an unknown type has been reported already.\<close>

definition typed_problems :: "parser \<Rightarrow> string \<Rightarrow> jobj \<Rightarrow> flow_error + dsl_problem list" where
  "typed_problems parse nid node =
     (case jget ''type'' node of
        JStr t \<Rightarrow>
          if t = ''start'' then Inr (start_problems nid node)
          else if t = ''end'' then Inr (end_problems nid node)
          else if t = ''approval'' then approval_problems nid node
          else if t = ''condition'' then condition_problems parse nid node
          else Inr []
      | _ \<Rightarrow> Inr [])"

section \<open>The loop over the nodes\<close>

type_synonym node_table = "(string \<times> jobj) list"

record node_scan =
  by_id :: node_table
  starts :: "string list"
  ends :: "string list"
  problems :: "dsl_problem list"

definition add_problem :: "dsl_problem \<Rightarrow> node_scan \<Rightarrow> node_scan" where
  "add_problem p st = st\<lparr>problems := problems st @ [p]\<rparr>"

definition add_node :: "string \<Rightarrow> jobj \<Rightarrow> dsl_problem list \<Rightarrow> node_scan \<Rightarrow> node_scan" where
  "add_node nid node ps st =
     st\<lparr>by_id := by_id st @ [(nid, node)],
        starts := starts st @ (if jget ''type'' node = JStr ''start'' then [nid] else []),
        ends := ends st @ (if jget ''type'' node = JStr ''end'' then [nid] else []),
        problems := problems st @ ps\<rparr>"

definition scan_node :: "parser \<Rightarrow> node_scan \<Rightarrow> nat \<times> jval \<Rightarrow> flow_error + node_scan" where
  "scan_node parse st iv =
     (let (i, v) = iv in
      case v of
        JObj node \<Rightarrow>
          (case jget ''id'' node of
             JStr nid \<Rightarrow>
               if \<not> node_id_ok nid then Inr (add_problem (BadNodeId i) st)
               else if nid \<in> fst ` set (by_id st) then Inr (add_problem (DuplicateId nid) st)
               else
                 bindR (in_strings (jget ''type'' node) NODE_TYPES) (\<lambda>type_ok.
                 bindR (typed_problems parse nid node) (\<lambda>ps.
                 Inr (add_node nid node (check type_ok (BadType nid) @ ps) st)))
           | _ \<Rightarrow> Inr (add_problem (BadNodeId i) st))
      | _ \<Rightarrow> Inr (add_problem (NodeNotObject i) st))"

definition scan_nodes :: "parser \<Rightarrow> jval list \<Rightarrow> flow_error + node_scan" where
  "scan_nodes parse vs =
     foldR (scan_node parse) \<lparr>by_id = [], starts = [], ends = [], problems = []\<rparr> (enumerate 0 vs)"

definition count_problems :: "node_scan \<Rightarrow> dsl_problem list" where
  "count_problems st =
     check (length (starts st) = 1) (StartCount (length (starts st))) @ check (ends st \<noteq> []) NoEnd"

section \<open>Edges\<close>

definition target_of :: "node_table \<Rightarrow> (jval \<Rightarrow> dsl_problem) \<Rightarrow> jval \<Rightarrow> string list \<times> dsl_problem list" where
  "target_of tab missing v =
     (case v of
        JStr t \<Rightarrow> if t \<in> fst ` set tab then ([t], []) else ([], [missing v])
      | _ \<Rightarrow> ([], [missing v]))"

definition obj_of :: "jval \<Rightarrow> jobj" where
  "obj_of v = (case v of JObj d \<Rightarrow> d | _ \<Rightarrow> [])"

definition list_of :: "jval \<Rightarrow> jval list" where
  "list_of v = (case v of JList vs \<Rightarrow> vs | _ \<Rightarrow> [])"

definition node_targets :: "node_table \<Rightarrow> string \<times> jobj \<Rightarrow> (string list \<times> dsl_problem list) list" where
  "node_targets tab en =
     (let (nid, node) = en in
      case jget ''type'' node of
        JStr t \<Rightarrow>
          if t = ''start'' \<or> t = ''approval'' then [target_of tab (MissingTarget nid) (jget ''next'' node)]
          else if t = ''condition'' then
            map (\<lambda>b. target_of tab (MissingTarget nid) (jget ''next'' (obj_of b))) (list_of (jget ''branches'' node)) @
            [target_of tab (MissingDefault nid) (jget ''default'' node)]
          else []
      | _ \<Rightarrow> [])"

type_synonym edge_table = "(string \<times> string list) list"

definition edges_of :: "node_table \<Rightarrow> edge_table" where
  "edges_of tab = map (\<lambda>en. (fst en, concat (map fst (node_targets tab en)))) tab"

definition edge_problems :: "node_table \<Rightarrow> dsl_problem list" where
  "edge_problems tab = concat (map (\<lambda>en. concat (map snd (node_targets tab en))) tab)"

section \<open>Reachability\<close>

text \<open>The stack's top is the head of the list; \<open>edges[cur]\<close> raises when \<open>cur\<close> is no node.\<close>

function reach :: "edge_table \<Rightarrow> string list \<Rightarrow> string list \<Rightarrow> flow_error + string list" where
  "reach es [] seen = Inr seen"
| "reach es (cur # stack) seen =
     (if cur \<in> set seen then reach es stack seen
      else case map_of es cur of
        None \<Rightarrow> Inl (PyError ''KeyError'')
      | Some ts \<Rightarrow> reach es (rev ts @ stack) (cur # seen))"
  by pat_completeness auto

termination
proof (relation "(\<lambda>(es, stack, seen). card (fst ` set es - set seen)) <*mlex*> measure (\<lambda>(es, stack, seen). length stack)")
  show "wf ((\<lambda>(es :: edge_table, stack :: string list, seen). card (fst ` set es - set seen)) <*mlex*>
      measure (\<lambda>(es, stack, seen). length stack))"
    by (simp add: wf_mlex)
  show "((es, stack, seen), (es, cur # stack, seen)) \<in>
      (\<lambda>(es, stack, seen). card (fst ` set es - set seen)) <*mlex*> measure (\<lambda>(es, stack, seen). length stack)"
    if "cur \<in> set seen" for es :: edge_table and cur :: string and stack seen
    by (simp add: mlex_prod_def)
  show "((es, rev ts @ stack, cur # seen), (es, cur # stack, seen)) \<in>
      (\<lambda>(es, stack, seen). card (fst ` set es - set seen)) <*mlex*> measure (\<lambda>(es, stack, seen). length stack)"
    if "cur \<notin> set seen" and "map_of es cur = Some ts" for es :: edge_table and cur stack seen ts
  proof (rule mlex_less)
    have "cur \<in> fst ` set es" using that(2) by (force dest: map_of_SomeD)
    then have "fst ` set es - set (cur # seen) \<subset> fst ` set es - set seen" using that(1) by auto
    then show "(case (es, rev ts @ stack, cur # seen) of (es, stack, seen) \<Rightarrow> card (fst ` set es - set seen)) <
        (case (es, cur # stack, seen) of (es, stack, seen) \<Rightarrow> card (fst ` set es - set seen))"
      by (auto intro: psubset_card_mono)
  qed
qed

section \<open>Cycles\<close>

datatype color = White | Gray | Black

type_synonym dfs_result = "flow_error + string list option \<times> (string \<Rightarrow> color)"

text \<open>\<open>dfs\<close> and its loop over the targets; \<open>Some\<close> cycle stops the search. The path is from the root.\<close>

fun dfs :: "edge_table \<Rightarrow> nat \<Rightarrow> string \<Rightarrow> string list \<Rightarrow> (string \<Rightarrow> color) \<Rightarrow> dfs_result"
  and dfs_targets :: "edge_table \<Rightarrow> nat \<Rightarrow> string list \<Rightarrow> string list \<Rightarrow> (string \<Rightarrow> color) \<Rightarrow> dfs_result" where
  "dfs es 0 nid path color = Inl (PyError ''RecursionError'')"
| "dfs es (Suc limit) nid path color =
     (case map_of es nid of
        None \<Rightarrow> Inl (PyError ''KeyError'')
      | Some ts \<Rightarrow>
          bindR (dfs_targets es limit ts (path @ [nid]) (color(nid := Gray))) (\<lambda>(cycle, color').
          Inr (cycle, if cycle = None then color'(nid := Black) else color')))"
| "dfs_targets es limit [] path color = Inr (None, color)"
| "dfs_targets es limit (t # ts) path color =
     (case color t of
        Gray \<Rightarrow> Inr (Some (dropWhile (\<lambda>x. x \<noteq> t) path @ [t]), color)
      | White \<Rightarrow>
          bindR (dfs es limit t path color) (\<lambda>(cycle, color').
          if cycle \<noteq> None then Inr (cycle, color') else dfs_targets es limit ts path color')
      | Black \<Rightarrow> dfs_targets es limit ts path color)"

fun dfs_all :: "edge_table \<Rightarrow> nat \<Rightarrow> string list \<Rightarrow> (string \<Rightarrow> color) \<Rightarrow> flow_error + string list option" where
  "dfs_all es limit [] color = Inr None"
| "dfs_all es limit (n # ns) color =
     (if color n \<noteq> White then dfs_all es limit ns color
      else bindR (dfs es limit n [] color) (\<lambda>(cycle, color').
           if cycle \<noteq> None then Inr cycle else dfs_all es limit ns color'))"

section \<open>Validation\<close>

definition validate_graph :: "nat \<Rightarrow> node_table \<Rightarrow> jval \<Rightarrow> flow_error + unit" where
  "validate_graph limit tab start_node =
     (let ps = check (case start_node of JStr s \<Rightarrow> s \<in> fst ` set tab | _ \<Rightarrow> False) BadStartNode @ edge_problems tab
      in if ps \<noteq> [] then Inl (ValidationError ps)
         else
           bindR (reach (edges_of tab) [case start_node of JStr s \<Rightarrow> s | _ \<Rightarrow> []] []) (\<lambda>reachable.
           bindR (dfs_all (edges_of tab) limit (map fst tab) (\<lambda>_. White)) (\<lambda>cycle.
           let unreachable = filter (\<lambda>n. n \<notin> set reachable) (map fst tab);
               ps = (if unreachable \<noteq> [] then [UnreachableNodes unreachable] else []) @
                    (case cycle of None \<Rightarrow> [] | Some c \<Rightarrow> [Cycle c])
           in if ps \<noteq> [] then Inl (ValidationError ps) else Inr ())))"

definition validate_definition :: "parser \<Rightarrow> nat \<Rightarrow> jval \<Rightarrow> flow_error + unit" where
  "validate_definition parse limit definition =
     (case definition of
        JObj d \<Rightarrow>
          (case jget ''nodes'' d of
             JList vs \<Rightarrow>
               if vs = [] then Inl (ValidationError [NodesNotList])
               else
                 bindR (scan_nodes parse vs) (\<lambda>st.
                 let ps = problems st @ count_problems st
                 in if ps \<noteq> [] then Inl (ValidationError ps)
                    else validate_graph limit (by_id st) (jget ''start_node'' d))
           | _ \<Rightarrow> Inl (ValidationError [NodesNotList]))
      | _ \<Rightarrow> Inl (ValidationError []))"

text \<open>\<open>node_index\<close>: the last node of an id wins.\<close>

definition node_index :: "jobj \<Rightarrow> node_table" where
  "node_index d = rev (map (\<lambda>v. (case jget ''id'' (obj_of v) of JStr s \<Rightarrow> s | _ \<Rightarrow> [], obj_of v)) (list_of (jget ''nodes'' d)))"

definition str_of :: "jval \<Rightarrow> string" where
  "str_of v = (case v of JStr s \<Rightarrow> s | _ \<Rightarrow> [])"

definition out_targets :: "jobj \<Rightarrow> string list" where
  "out_targets node =
     (if jget ''type'' node \<in> {JStr ''start'', JStr ''approval''} then [str_of (jget ''next'' node)]
      else if jget ''type'' node = JStr ''condition''
      then map (\<lambda>b. str_of (jget ''next'' (obj_of b))) (list_of (jget ''branches'' node)) @ [str_of (jget ''default'' node)]
      else [])"

end
