(* ===== verification/Flow_Graph.thy ===== *)
theory Flow_Graph
  imports Flow_Dsl
begin

text \<open>
  Correctness of the two graph searches of the validation: the loop computes the nodes reachable
  from the start, the three-colour search finds a cycle if and only if there is one, and with as
  many nested calls as there are nodes it never meets the recursion limit.
\<close>

section \<open>The graph of an edge table\<close>

definition edge_rel :: "edge_table \<Rightarrow> (string \<times> string) set" where
  "edge_rel es = {(a, b). \<exists>ts. map_of es a = Some ts \<and> b \<in> set ts}"

definition closed_table :: "edge_table \<Rightarrow> bool" where
  "closed_table es \<longleftrightarrow> (\<forall>a ts. map_of es a = Some ts \<longrightarrow> set ts \<subseteq> fst ` set es)"

lemma edge_relI: "map_of es a = Some ts \<Longrightarrow> b \<in> set ts \<Longrightarrow> (a, b) \<in> edge_rel es"
  by (auto simp: edge_rel_def)

lemma edge_source: "(a, b) \<in> edge_rel es \<Longrightarrow> a \<in> fst ` set es"
  by (force simp: edge_rel_def dest: map_of_SomeD)

lemma edge_target: "closed_table es \<Longrightarrow> (a, b) \<in> edge_rel es \<Longrightarrow> b \<in> fst ` set es"
  by (auto simp: edge_rel_def closed_table_def)

lemma key_eqI:
  assumes "a \<in> fst ` set es"
  obtains ts where "map_of es a = Some ts"
proof (cases "map_of es a")
  case None
  then have "a \<notin> fst ` set es" unfolding map_of_eq_None_iff .
  with assms show thesis by blast
qed (rule that)

section \<open>Reachability\<close>

lemma reach_total:
  "closed_table es \<Longrightarrow> set stack \<subseteq> fst ` set es \<Longrightarrow> \<exists>r. reach es stack seen = Inr r"
proof (induction es stack seen rule: reach.induct)
  case (2 es cur stack seen)
  then show ?case
  proof (cases "cur \<in> set seen")
    case False
    from 2(4) have "cur \<in> fst ` set es" by (simp only: list.set insert_subset)
    then obtain ts where "map_of es cur = Some ts" by (rule key_eqI)
    with 2 False show ?thesis by (simp add: closed_table_def)
  qed simp
qed simp

lemma reach_keeps: "reach es stack seen = Inr r \<Longrightarrow> set seen \<union> set stack \<subseteq> set r"
  by (induction es stack seen rule: reach.induct) (auto split: if_splits option.splits)

lemma reach_closed:
  assumes "reach es stack seen = Inr r" and "edge_rel es `` set seen \<subseteq> set seen \<union> set stack"
  shows "edge_rel es `` set r \<subseteq> set r"
  using assms
proof (induction es stack seen rule: reach.induct)
  case (1 es seen)
  then show ?case by simp
next
  case (2 es cur stack seen)
  show ?case
  proof (cases "cur \<in> set seen")
    case True
    with 2(3,4) show ?thesis by (intro "2.IH"(1)) auto
  next
    case False
    with 2(3) obtain ts where ts: "map_of es cur = Some ts" "reach es (rev ts @ stack) (cur # seen) = Inr r"
      by (auto split: option.splits)
    moreover have "edge_rel es `` set (cur # seen) \<subseteq> set (cur # seen) \<union> set (rev ts @ stack)"
      using 2(4) ts(1) by (auto simp: edge_rel_def)
    ultimately show ?thesis using "2.IH"(2)[OF False] by blast
  qed
qed

lemma reach_sound: "reach es stack seen = Inr r \<Longrightarrow> set r \<subseteq> set seen \<union> (edge_rel es)\<^sup>* `` set stack"
proof (induction es stack seen rule: reach.induct)
  case (1 es seen)
  then show ?case by simp
next
  case (2 es cur stack seen)
  show ?case
  proof (cases "cur \<in> set seen")
    case True
    with "2.IH"(1) 2(3) show ?thesis by auto
  next
    case False
    with 2(3) obtain ts where ts: "map_of es cur = Some ts" "reach es (rev ts @ stack) (cur # seen) = Inr r"
      by (auto split: option.splits)
    from "2.IH"(2)[OF False this] have "set r \<subseteq> set (cur # seen) \<union> (edge_rel es)\<^sup>* `` set (rev ts @ stack)" .
    moreover have "(edge_rel es)\<^sup>* `` set ts \<subseteq> (edge_rel es)\<^sup>* `` {cur}"
      using edge_relI[OF ts(1)] by (auto intro: converse_rtrancl_into_rtrancl)
    ultimately show ?thesis by auto
  qed
qed

lemma reach_from:
  assumes "closed_table es" and "s \<in> fst ` set es"
  shows "\<exists>r. reach es [s] [] = Inr r \<and> set r = (edge_rel es)\<^sup>* `` {s}"
proof -
  have "set [s] \<subseteq> fst ` set es" using assms(2) by (simp only: list.set insert_subset empty_subsetI)
  from reach_total[OF assms(1) this] obtain r where r: "reach es [s] [] = Inr r" by blast
  have "edge_rel es `` set r \<subseteq> set r" using reach_closed[OF r] by simp
  then have "(edge_rel es)\<^sup>* `` set r \<subseteq> set r" by (simp add: Image_closed_trancl)
  moreover have "s \<in> set r" using reach_keeps[OF r] by simp
  ultimately have "(edge_rel es)\<^sup>* `` {s} \<subseteq> set r" by blast
  with reach_sound[OF r] r show ?thesis by auto
qed

section \<open>The three-colour search\<close>

definition safe_nodes :: "edge_table \<Rightarrow> string set" where
  "safe_nodes es = Wellfounded.acc ((edge_rel es)\<inverse>)"

lemma safeI: "(\<And>b. (a, b) \<in> edge_rel es \<Longrightarrow> b \<in> safe_nodes es) \<Longrightarrow> a \<in> safe_nodes es"
  unfolding safe_nodes_def by (rule accI) simp

definition has_cycle :: "edge_table \<Rightarrow> bool" where
  "has_cycle es \<longleftrightarrow> (\<exists>x. (x, x) \<in> (edge_rel es)\<^sup>+)"

lemma all_safe_acyclic:
  assumes "fst ` set es \<subseteq> safe_nodes es"
  shows "\<not> has_cycle es"
proof -
  have "x \<in> safe_nodes es" for x
  proof (cases "x \<in> fst ` set es")
    case False
    show ?thesis by (rule safeI) (use False edge_source in blast)
  qed (use assms in blast)
  then have "wf ((edge_rel es)\<inverse>)" unfolding safe_nodes_def by (intro acc_wfI) simp
  then have "acyclic ((edge_rel es)\<inverse>)" by (rule wf_acyclic)
  then have "acyclic (edge_rel es)" unfolding acyclic_converse .
  then show ?thesis unfolding has_cycle_def acyclic_def by blast
qed

text \<open>Every node of the path leads to \<open>n\<close>.\<close>

definition path_to :: "edge_table \<Rightarrow> string list \<Rightarrow> string \<Rightarrow> bool" where
  "path_to es path n \<longleftrightarrow> (\<forall>x \<in> set path. (x, n) \<in> (edge_rel es)\<^sup>+)"

lemma path_to_snoc:
  "path_to es path n \<Longrightarrow> (n, m) \<in> edge_rel es \<Longrightarrow> path_to es (path @ [n]) m"
  by (auto simp: path_to_def intro: trancl_into_trancl)

definition dfs_state :: "edge_table \<Rightarrow> string list \<Rightarrow> (string \<Rightarrow> color) \<Rightarrow> bool" where
  "dfs_state es path color \<longleftrightarrow> {x. color x = Gray} = set path \<and> distinct path \<and> set path \<subseteq> fst ` set es \<and>
     {x. color x = Black} \<subseteq> safe_nodes es"

text \<open>A search that runs into the recursion limit had fewer nested calls than nodes left.\<close>

definition out_of_calls :: "edge_table \<Rightarrow> nat \<Rightarrow> string list \<Rightarrow> 'a + 'b \<Rightarrow> 'a \<Rightarrow> bool" where
  "out_of_calls es limit path res e \<longleftrightarrow> res = Inl e \<and> limit + length path < card (fst ` set es)"

definition dfs_ok :: "edge_table \<Rightarrow> string list \<Rightarrow> (string \<Rightarrow> color) \<Rightarrow> string set \<Rightarrow> dfs_result \<Rightarrow> bool" where
  "dfs_ok es path color done res \<longleftrightarrow>
     (\<exists>cycle color'. res = Inr (cycle, color') \<and>
        (cycle \<noteq> None \<longrightarrow> has_cycle es) \<and>
        (cycle = None \<longrightarrow> dfs_state es path color' \<and> {x. color x = Black} \<union> done \<subseteq> {x. color' x = Black}))"

lemma dfs_okE:
  assumes "dfs_ok es path color done res"
  obtains (found) c color' where "res = Inr (Some c, color')" and "has_cycle es"
  | (none) color' where "res = Inr (None, color')" and "dfs_state es path color'"
      and "{x. color x = Black} \<subseteq> {x. color' x = Black}" and "done \<subseteq> {x. color' x = Black}"
  using assms unfolding dfs_ok_def by (metis (no_types, lifting) Un_subset_iff not_None_eq)

lemma dfs_ok_found: "has_cycle es \<Longrightarrow> dfs_ok es path color done (Inr (Some c, color'))"
  by (simp add: dfs_ok_def)

lemma dfs_ok_none:
  "dfs_state es path color' \<Longrightarrow> {x. color x = Black} \<union> done \<subseteq> {x. color' x = Black} \<Longrightarrow>
   dfs_ok es path color done (Inr (None, color'))"
  by (simp add: dfs_ok_def)

lemma dfs_ok_mono:
  "dfs_ok es path color2 done2 res \<Longrightarrow> {x. color x = Black} \<union> done \<subseteq> {x. color2 x = Black} \<union> done2 \<Longrightarrow>
   dfs_ok es path color done res"
  unfolding dfs_ok_def by blast

lemma dfs_stateD:
  assumes "dfs_state es path color"
  shows "color x = Gray \<longleftrightarrow> x \<in> set path" and "distinct path" and "set path \<subseteq> fst ` set es"
    and "color x = Black \<Longrightarrow> x \<in> safe_nodes es"
  using assms by (auto simp: dfs_state_def)

lemma dfs_state_enter:
  assumes "dfs_state es path color" and "color nid = White" and "nid \<in> fst ` set es"
  shows "dfs_state es (path @ [nid]) (color(nid := Gray))"
proof -
  have "nid \<notin> set path" using dfs_stateD(1)[OF assms(1), of nid] assms(2) by auto
  then show ?thesis using assms by (auto simp: dfs_state_def split: if_splits)
qed

lemma dfs_state_leave:
  assumes "dfs_state es (path @ [nid]) color" and "nid \<in> safe_nodes es"
  shows "dfs_state es path (color(nid := Black))"
  using assms by (auto simp: dfs_state_def split: if_splits)

lemma path_room:
  assumes "dfs_state es path color" and "color nid = White" and "nid \<in> fst ` set es"
  shows "length path < card (fst ` set es)"
proof -
  have "dfs_state es (path @ [nid]) (color(nid := Gray))" by (rule dfs_state_enter[OF assms])
  then have "distinct (path @ [nid])" "set (path @ [nid]) \<subseteq> fst ` set es"
    unfolding dfs_state_def by blast+
  then have "length (path @ [nid]) \<le> card (fst ` set es)"
    by (metis card_mono distinct_card finite_imageI List.finite_set)
  then show ?thesis by simp
qed

lemma dfs_correct:
  "closed_table es \<Longrightarrow> dfs_state es path color \<Longrightarrow> nid \<in> fst ` set es \<Longrightarrow> color nid = White \<Longrightarrow>
    path_to es path nid \<Longrightarrow>
    dfs_ok es path color {nid} (dfs es limit nid path color) \<or>
    out_of_calls es limit path (dfs es limit nid path color) (PyError ''RecursionError'')"
  "closed_table es \<Longrightarrow> dfs_state es path color \<Longrightarrow>
    (\<And>t. t \<in> set ts \<Longrightarrow> t \<in> fst ` set es \<and> path_to es path t) \<Longrightarrow>
    dfs_ok es path color (set ts) (dfs_targets es limit ts path color) \<or>
    out_of_calls es limit path (dfs_targets es limit ts path color) (PyError ''RecursionError'')"
proof (induction es limit nid path color and es limit ts path color rule: dfs_dfs_targets.induct)
  case (1 es nid path color)
  then show ?case using path_room[OF 1(2,4,3)] by (simp add: out_of_calls_def)
next
  case (2 es limit nid path color)
  obtain ts where ts: "map_of es nid = Some ts" using 2(4) by (rule key_eqI)
  let ?r = "dfs_targets es limit ts (path @ [nid]) (color(nid := Gray))"
  have tgt: "t \<in> fst ` set es \<and> path_to es (path @ [nid]) t" if "t \<in> set ts" for t
    using edge_relI[OF ts that] edge_target[OF 2(2)] path_to_snoc[OF 2(6)] by blast
  have "dfs_ok es (path @ [nid]) (color(nid := Gray)) (set ts) ?r \<or>
      out_of_calls es limit (path @ [nid]) ?r (PyError ''RecursionError'')"
    by (rule "2.IH"[OF ts 2(2) dfs_state_enter[OF 2(3,5,4)] tgt])
  then show ?case
  proof
    assume "out_of_calls es limit (path @ [nid]) ?r (PyError ''RecursionError'')"
    with ts show ?case by (simp add: out_of_calls_def)
  next
    assume "dfs_ok es (path @ [nid]) (color(nid := Gray)) (set ts) ?r"
    then show ?case
    proof (cases rule: dfs_okE)
      case (found c color')
      with ts show ?thesis by (simp add: dfs_ok_found)
    next
      case (none color')
      have "nid \<in> safe_nodes es"
      proof (rule safeI)
        fix b assume "(nid, b) \<in> edge_rel es"
        then have "b \<in> set ts" using ts by (simp add: edge_rel_def)
        with none(4) have "color' b = Black" by blast
        then show "b \<in> safe_nodes es" by (rule dfs_stateD(4)[OF none(2)])
      qed
      then have "dfs_state es path (color'(nid := Black))" by (rule dfs_state_leave[OF none(2)])
      moreover have "{x. color x = Black} \<union> {nid} \<subseteq> {x. (color'(nid := Black)) x = Black}"
        using none(3) by auto
      ultimately show ?thesis using none(1) ts by (simp add: dfs_ok_none)
    qed
  qed
next
  case (3 es limit path color)
  then show ?case by (simp add: dfs_ok_none)
next
  case (4 es limit t ts path color)
  have t: "t \<in> fst ` set es" "path_to es path t" using 4(6)[of t] by simp_all
  show ?case
  proof (cases "color t")
    case Gray
    then have "t \<in> set path" using dfs_stateD(1)[OF 4(5)] by blast
    with t(2) have "has_cycle es" by (auto simp: path_to_def has_cycle_def)
    with Gray show ?thesis by (simp add: dfs_ok_found)
  next
    case Black
    have "dfs_ok es path color (set ts) (dfs_targets es limit ts path color) \<or>
        out_of_calls es limit path (dfs_targets es limit ts path color) (PyError ''RecursionError'')"
      by (rule "4.IH"(3)[OF Black 4(4,5) 4(6)]) simp
    then have "dfs_ok es path color (set (t # ts)) (dfs_targets es limit ts path color) \<or>
        out_of_calls es limit path (dfs_targets es limit ts path color) (PyError ''RecursionError'')"
      by (elim disj_forward dfs_ok_mono) (use Black in auto)
    with Black show ?thesis by simp
  next
    case White
    have "dfs_ok es path color {t} (dfs es limit t path color) \<or>
        out_of_calls es limit path (dfs es limit t path color) (PyError ''RecursionError'')"
      by (rule "4.IH"(1)[OF White 4(4,5) t(1) White t(2)])
    then show ?thesis
    proof
      assume "out_of_calls es limit path (dfs es limit t path color) (PyError ''RecursionError'')"
      with White show ?thesis by (simp add: out_of_calls_def)
    next
      assume "dfs_ok es path color {t} (dfs es limit t path color)"
      then show ?thesis
      proof (cases rule: dfs_okE)
        case (found c color')
        with White show ?thesis by (simp add: dfs_ok_found)
      next
        case (none color')
        have "dfs_ok es path color' (set ts) (dfs_targets es limit ts path color') \<or>
            out_of_calls es limit path (dfs_targets es limit ts path color') (PyError ''RecursionError'')"
          by (rule "4.IH"(2)[OF White none(1) refl _ 4(4) none(2) 4(6)]) simp_all
        then have "dfs_ok es path color (set (t # ts)) (dfs_targets es limit ts path color') \<or>
            out_of_calls es limit path (dfs_targets es limit ts path color') (PyError ''RecursionError'')"
          by (elim disj_forward dfs_ok_mono) (use none(3,4) in auto)
        with none(1) White show ?thesis by simp
      qed
    qed
  qed
qed

definition search_ok :: "edge_table \<Rightarrow> string set \<Rightarrow> flow_error + string list option \<Rightarrow> bool" where
  "search_ok es X res \<longleftrightarrow> (\<exists>cycle. res = Inr cycle \<and> (cycle \<noteq> None \<longrightarrow> has_cycle es) \<and>
    (cycle = None \<longrightarrow> X \<subseteq> safe_nodes es))"

lemma search_ok_mono: "search_ok es X res \<Longrightarrow> Y \<subseteq> X \<union> safe_nodes es \<Longrightarrow> search_ok es Y res"
  unfolding search_ok_def by blast

lemma dfs_all_correct:
  assumes "closed_table es" and "dfs_state es [] color" and "set ns \<subseteq> fst ` set es"
  shows "search_ok es ({x. color x = Black} \<union> set ns) (dfs_all es limit ns color) \<or>
    out_of_calls es limit [] (dfs_all es limit ns color) (PyError ''RecursionError'')"
  using assms
proof (induction es limit ns color rule: dfs_all.induct)
  case (1 es limit color)
  then show ?case by (auto simp: dfs_state_def search_ok_def)
next
  case (2 es limit n ns color)
  show ?case
  proof (cases "color n")
    case White
    have "dfs_ok es [] color {n} (dfs es limit n [] color) \<or>
        out_of_calls es limit [] (dfs es limit n [] color) (PyError ''RecursionError'')"
      by (rule dfs_correct(1)) (use 2 White in \<open>simp_all add: path_to_def\<close>)
    then show ?thesis
    proof
      assume "out_of_calls es limit [] (dfs es limit n [] color) (PyError ''RecursionError'')"
      with White show ?thesis by (simp add: out_of_calls_def)
    next
      assume "dfs_ok es [] color {n} (dfs es limit n [] color)"
      then show ?thesis
      proof (cases rule: dfs_okE)
        case (found c color')
        with White show ?thesis by (simp add: search_ok_def)
      next
        case (none color')
        have "search_ok es ({x. color' x = Black} \<union> set ns) (dfs_all es limit ns color') \<or>
            out_of_calls es limit [] (dfs_all es limit ns color') (PyError ''RecursionError'')"
          by (rule "2.IH"(2)[OF _ none(1) refl]) (use White none(2) 2 in auto)
        then have "search_ok es ({x. color x = Black} \<union> set (n # ns)) (dfs_all es limit ns color') \<or>
            out_of_calls es limit [] (dfs_all es limit ns color') (PyError ''RecursionError'')"
          by (elim disj_forward search_ok_mono) (use none(3,4) in auto)
        with none(1) White show ?thesis by simp
      qed
    qed
  next
    case Gray
    then show ?thesis using dfs_stateD(1)[OF 2(4), of n] by simp
  next
    case Black
    then have n: "n \<in> safe_nodes es" by (rule dfs_stateD(4)[OF 2(4)])
    have "search_ok es ({x. color x = Black} \<union> set ns) (dfs_all es limit ns color) \<or>
        out_of_calls es limit [] (dfs_all es limit ns color) (PyError ''RecursionError'')"
      by (rule "2.IH"(1)) (use Black 2 in auto)
    then have "search_ok es ({x. color x = Black} \<union> set (n # ns)) (dfs_all es limit ns color) \<or>
        out_of_calls es limit [] (dfs_all es limit ns color) (PyError ''RecursionError'')"
      by (elim disj_forward search_ok_mono) (use n in auto)
    with Black show ?thesis by simp
  qed
qed

lemma cycle_search_cases:
  assumes "closed_table es" and "set ns = fst ` set es"
  obtains (finished) cycle where "dfs_all es limit ns (\<lambda>_. White) = Inr cycle" and "cycle = None \<longleftrightarrow> \<not> has_cycle es"
    | (limited) "dfs_all es limit ns (\<lambda>_. White) = Inl (PyError ''RecursionError'')" and "limit < card (fst ` set es)"
proof -
  have "dfs_state es [] (\<lambda>_. White)" by (simp add: dfs_state_def)
  from dfs_all_correct[OF assms(1) this, of ns limit] assms(2) have
    "search_ok es ({x. White = Black} \<union> set ns) (dfs_all es limit ns (\<lambda>_. White)) \<or>
     out_of_calls es limit [] (dfs_all es limit ns (\<lambda>_. White)) (PyError ''RecursionError'')"
    by blast
  then show thesis
  proof
    assume "search_ok es ({x. White = Black} \<union> set ns) (dfs_all es limit ns (\<lambda>_. White))"
    then obtain cycle where c: "dfs_all es limit ns (\<lambda>_. White) = Inr cycle" "cycle \<noteq> None \<Longrightarrow> has_cycle es"
      "cycle = None \<Longrightarrow> fst ` set es \<subseteq> safe_nodes es"
      unfolding search_ok_def assms(2) by blast
    have "cycle = None \<longleftrightarrow> \<not> has_cycle es" using c(2,3) all_safe_acyclic[of es] by (cases cycle) auto
    with c(1) show thesis by (rule finished)
  qed (use limited in \<open>simp_all add: out_of_calls_def\<close>)
qed

end
