(* ===== verification/Flow_Dsl_Facts.thy ===== *)
theory Flow_Dsl_Facts
  imports Flow_Graph
begin

text \<open>
  What the validation accepts, in closed form: the shape of each kind of node, distinct node ids,
  one start and an end, and a graph whose edges end in nodes, in which the start reaches every
  node and which has no cycle.
\<close>

section \<open>Well-formed nodes\<close>

definition wf_texts :: "jval \<Rightarrow> bool" where
  "wf_texts v \<longleftrightarrow> (\<exists>ss. v = JList (map JStr ss) \<and> ss \<noteq> [] \<and> (\<forall>s \<in> set ss. strip s \<noteq> []))"

definition wf_timeout :: "jval \<Rightarrow> bool" where
  "wf_timeout v \<longleftrightarrow> v = JNull \<or>
     (\<exists>d n. v = JObj d \<and> jget ''seconds'' d = JInt n \<and> n > 0 \<and> wf_texts (jget ''targets'' d))"

definition wf_branch :: "parser \<Rightarrow> jval \<Rightarrow> bool" where
  "wf_branch parse b \<longleftrightarrow>
     (\<exists>br w t s. b = JObj br \<and> jget ''when'' br = JStr w \<and> parse_expression parse w = Inr t \<and>
        jget ''next'' br = JStr s)"

definition wf_approval :: "jobj \<Rightarrow> bool" where
  "wf_approval node \<longleftrightarrow>
     (\<exists>s. jget ''next'' node = JStr s) \<and> (\<exists>m \<in> set APPROVAL_MODES. jget ''mode'' node = JStr m) \<and>
     (\<exists>ss. jget ''assignees'' node = JList (map JStr ss) \<and> ss \<noteq> [] \<and> (\<forall>s \<in> set ss. strip s \<noteq> []) \<and> distinct ss) \<and>
     wf_timeout (jget ''timeout'' node)"

definition wf_condition :: "parser \<Rightarrow> jobj \<Rightarrow> bool" where
  "wf_condition parse node \<longleftrightarrow>
     (\<exists>bs. jget ''branches'' node = JList bs \<and> bs \<noteq> [] \<and> (\<forall>b \<in> set bs. wf_branch parse b)) \<and>
     (\<exists>s. jget ''default'' node = JStr s) \<and> \<not> has_key ''next'' node"

definition wf_node :: "parser \<Rightarrow> jobj \<Rightarrow> bool" where
  "wf_node parse node \<longleftrightarrow>
     (jget ''type'' node = JStr ''start'' \<and> (\<exists>s. jget ''next'' node = JStr s)) \<or>
     (jget ''type'' node = JStr ''end'' \<and> \<not> has_key ''next'' node) \<or>
     (jget ''type'' node = JStr ''approval'' \<and> wf_approval node) \<or>
     (jget ''type'' node = JStr ''condition'' \<and> wf_condition parse node)"

lemma check_Nil [simp]: "check ok p = [] \<longleftrightarrow> ok"
  by (simp add: check_def)

lemma is_str_iff [simp]: "is_str v \<longleftrightarrow> (\<exists>s. v = JStr s)"
  by (cases v) (auto simp: is_str_def)

lemma is_text_iff: "is_text v \<longleftrightarrow> (\<exists>s. v = JStr s \<and> strip s \<noteq> [])"
  by (cases v) (auto simp: is_text_def)

lemma list_all_text: "list_all is_text vs \<longleftrightarrow> (\<exists>ss. vs = map JStr ss \<and> (\<forall>s \<in> set ss. strip s \<noteq> []))"
proof (induction vs)
  case Nil
  then show ?case by simp
next
  case (Cons v vs)
  show ?case (is "?l \<longleftrightarrow> ?r")
  proof
    assume ?l
    then have v: "is_text v" and vs: "list_all is_text vs" by simp_all
    obtain ss where "vs = map JStr ss" "\<forall>s \<in> set ss. strip s \<noteq> []" using Cons vs by blast
    moreover obtain s where "v = JStr s" "strip s \<noteq> []" using v is_text_iff by blast
    ultimately have "v # vs = map JStr (s # ss) \<and> (\<forall>s \<in> set (s # ss). strip s \<noteq> [])" by simp
    then show ?r by (rule exI)
  next
    assume ?r
    then obtain ss where "v # vs = map JStr ss" "\<forall>s \<in> set ss. strip s \<noteq> []" by (elim exE conjE)
    with Cons show ?l by (cases ss) (auto simp: is_text_iff)
  qed
qed

lemma text_list_iff: "text_list v \<longleftrightarrow> wf_texts v"
  by (cases v) (auto simp: text_list_def wf_texts_def list_all_text)

lemma distinct_vals_str [simp]: "distinct_vals (map JStr ss) \<longleftrightarrow> distinct ss"
  by (induction ss) (auto simp: list_ex_iff)

lemma in_strings_True: "in_strings v ss = Inr True \<longleftrightarrow> (\<exists>s \<in> set ss. v = JStr s)"
  by (cases v) (auto simp: in_strings_def hashable_def)

lemma timeout_ok: "v \<noteq> JNull \<Longrightarrow> validate_timeout nid v = [] \<longleftrightarrow> wf_timeout v"
  by (cases v) (auto simp: validate_timeout_def wf_timeout_def text_list_iff split: jval.splits)

lemma approval_split:
  "approval_problems nid node = Inr [] \<longleftrightarrow>
     in_strings (jget ''mode'' node) APPROVAL_MODES = Inr True \<and>
     (assignee_duplicates nid (jget ''assignees'' node) = Inr [] \<and> text_list (jget ''assignees'' node)) \<and>
     is_str (jget ''next'' node) \<and>
     (if jget ''timeout'' node \<noteq> JNull then validate_timeout nid (jget ''timeout'' node) else []) = []"
  unfolding approval_problems_def bindR_Inr_iff by (auto simp del: is_str_iff)

lemma assignees_ok:
  "assignee_duplicates nid v = Inr [] \<and> text_list v \<longleftrightarrow>
     (\<exists>ss. v = JList (map JStr ss) \<and> ss \<noteq> [] \<and> (\<forall>s \<in> set ss. strip s \<noteq> []) \<and> distinct ss)"
proof -
  have "assignee_duplicates nid (JList (map JStr ss)) = Inr (check (distinct ss) (DuplicateAssignees nid))" for ss
    by (simp add: assignee_duplicates_def list_all_iff hashable_def)
  then show ?thesis unfolding text_list_iff wf_texts_def by auto
qed

lemma approval_ok: "approval_problems nid node = Inr [] \<longleftrightarrow> wf_approval node"
proof -
  have "(if jget ''timeout'' node \<noteq> JNull then validate_timeout nid (jget ''timeout'' node) else []) = [] \<longleftrightarrow>
      wf_timeout (jget ''timeout'' node)"
    using timeout_ok[of "jget ''timeout'' node" nid] by (cases "jget ''timeout'' node = JNull") (simp_all add: wf_timeout_def)
  then show ?thesis
    unfolding approval_split assignees_ok in_strings_True wf_approval_def is_str_iff by blast
qed

lemma branch_ok:
  "branch_problems parse nid errs (j, b) = Inr [] \<longleftrightarrow> errs = [] \<and> wf_branch parse b"
proof (cases b)
  case (JObj br)
  show ?thesis
  proof (cases "jget ''when'' br")
    case (JStr w)
    have "strip w = [] \<Longrightarrow> parse_expression parse w \<noteq> Inr t" for t by (simp add: parse_expression_def)
    then show ?thesis
      by (auto simp: JObj JStr branch_problems_def wf_branch_def bindR_Inr_iff split: sum.splits expr_error.splits)
  qed (auto simp: JObj branch_problems_def wf_branch_def)
qed (auto simp: branch_problems_def wf_branch_def)

lemma branch_grows: "branch_problems parse nid errs jb = Inr ps \<Longrightarrow> prefix errs ps"
  by (cases jb) (auto simp: branch_problems_def bindR_Inr_iff split: jval.splits)

lemma branches_ok:
  "foldR (branch_problems parse nid) errs (enumerate j bs) = Inr [] \<longleftrightarrow> errs = [] \<and> (\<forall>b \<in> set bs. wf_branch parse b)"
proof (induction bs arbitrary: j errs)
  case Nil
  then show ?case by simp
next
  case (Cons b bs)
  show ?case
    using branch_ok[of parse nid errs j b] by (auto simp: bindR_Inr_iff Cons.IH)
qed

lemma condition_ok: "condition_problems parse nid node = Inr [] \<longleftrightarrow> wf_condition parse node"
  by (auto simp: condition_problems_def wf_condition_def bindR_Inr_iff branches_ok split: jval.splits)

lemma node_ok:
  "in_strings (jget ''type'' node) NODE_TYPES = Inr True \<and> typed_problems parse nid node = Inr [] \<longleftrightarrow> wf_node parse node"
proof (cases "jget ''type'' node")
  case (JStr t)
  then show ?thesis
    by (auto simp: in_strings_def hashable_def NODE_TYPES_def typed_problems_def wf_node_def start_problems_def
        end_problems_def approval_ok condition_ok)
qed (auto simp: in_strings_True wf_node_def)

section \<open>The node scan\<close>

definition node_entry :: "jval \<Rightarrow> string \<times> jobj" where
  "node_entry v = (str_of (jget ''id'' (obj_of v)), obj_of v)"

definition wf_entry :: "parser \<Rightarrow> jval \<Rightarrow> bool" where
  "wf_entry parse v \<longleftrightarrow>
     (\<exists>node nid. v = JObj node \<and> jget ''id'' node = JStr nid \<and> node_id_ok nid \<and> wf_node parse node)"

lemma wf_entryD: "wf_entry parse v \<Longrightarrow> v = JObj (snd (node_entry v)) \<and>
    jget ''id'' (snd (node_entry v)) = JStr (fst (node_entry v)) \<and> wf_node parse (snd (node_entry v))"
  by (auto simp: wf_entry_def node_entry_def obj_of_def str_of_def)

lemma typed_check:
  "(\<exists>type_ok ps. in_strings (jget ''type'' node) NODE_TYPES = Inr type_ok \<and> typed_problems parse nid node = Inr ps \<and>
      check type_ok p @ ps = []) \<longleftrightarrow> wf_node parse node"
  unfolding node_ok[of node parse nid, symmetric] by auto

lemma check_True [simp]: "check True p = []"
  by simp

lemma problems_add_node [simp]: "problems (add_node nid node ps st) = problems st @ ps"
  by (simp add: add_node_def)

lemma scan_node_ok:
  "scan_node parse st (i, v) = Inr st' \<and> problems st' = [] \<longleftrightarrow>
     problems st = [] \<and> wf_entry parse v \<and> fst (node_entry v) \<notin> fst ` set (by_id st) \<and>
     st' = add_node (fst (node_entry v)) (snd (node_entry v)) [] st"
proof (cases v)
  case (JObj node)
  show ?thesis
  proof (cases "jget ''id'' node")
    case (JStr nid)
    have e: "node_entry (JObj node) = (nid, node)" by (simp add: node_entry_def JStr obj_of_def str_of_def)
    show ?thesis
    proof (cases "node_id_ok nid \<and> nid \<notin> fst ` set (by_id st)")
      case True
      then have "scan_node parse st (i, v) = Inr st' \<and> problems st' = [] \<longleftrightarrow>
          (\<exists>type_ok ps. in_strings (jget ''type'' node) NODE_TYPES = Inr type_ok \<and> typed_problems parse nid node = Inr ps \<and>
            st' = add_node nid node (check type_ok (BadType nid) @ ps) st) \<and> problems st' = []"
        by (simp add: scan_node_def JObj JStr bindR_Inr_iff) blast
      also have "\<dots> \<longleftrightarrow> problems st = [] \<and> st' = add_node nid node [] st \<and>
          (\<exists>type_ok ps. in_strings (jget ''type'' node) NODE_TYPES = Inr type_ok \<and> typed_problems parse nid node = Inr ps \<and>
            check type_ok (BadType nid) @ ps = [])"
        by auto
      finally show ?thesis using True unfolding typed_check by (auto simp: wf_entry_def JObj JStr e)
    next
      case False
      then show ?thesis
        by (auto simp: scan_node_def JObj JStr add_problem_def wf_entry_def e)
    qed
  qed (auto simp: scan_node_def JObj add_problem_def wf_entry_def)
qed (auto simp: scan_node_def add_problem_def wf_entry_def)

lemma scan_node_grows: "scan_node parse st iv = Inr st' \<Longrightarrow> problems st' = [] \<Longrightarrow> problems st = []"
  using scan_node_ok[of parse st "fst iv" "snd iv" st'] by simp

lemma scan_grows: "foldR (scan_node parse) st ivs = Inr st' \<Longrightarrow> problems st' = [] \<Longrightarrow> problems st = []"
proof (induction ivs arbitrary: st)
  case (Cons iv ivs)
  then obtain st1 where "scan_node parse st iv = Inr st1" "foldR (scan_node parse) st1 ivs = Inr st'"
    by (auto simp: bindR_Inr_iff)
  with Cons scan_node_grows show ?case by blast
qed simp

definition add_entries :: "(string \<times> jobj) list \<Rightarrow> node_scan \<Rightarrow> node_scan" where
  "add_entries es st =
     st\<lparr>by_id := by_id st @ es,
        starts := starts st @ map fst (filter (\<lambda>e. jget ''type'' (snd e) = JStr ''start'') es),
        ends := ends st @ map fst (filter (\<lambda>e. jget ''type'' (snd e) = JStr ''end'') es)\<rparr>"

lemma add_entries_Cons: "add_entries es (add_node (fst e) (snd e) [] st) = add_entries (e # es) st"
  by (simp add: add_entries_def add_node_def)

lemma scan_ok:
  "foldR (scan_node parse) st (enumerate i vs) = Inr st' \<and> problems st' = [] \<longleftrightarrow>
     problems st = [] \<and> (\<forall>v \<in> set vs. wf_entry parse v) \<and> distinct (map (fst \<circ> node_entry) vs) \<and>
     (fst \<circ> node_entry) ` set vs \<inter> fst ` set (by_id st) = {} \<and> st' = add_entries (map node_entry vs) st"
proof (induction vs arbitrary: st i)
  case Nil
  then show ?case by (auto simp: add_entries_def)
next
  case (Cons v vs)
  let ?e = "node_entry v"
  let ?st1 = "add_node (fst ?e) (snd ?e) [] st"
  have st1: "problems ?st1 = problems st" "by_id ?st1 = by_id st @ [?e]" by (simp_all add: add_node_def)
  have "foldR (scan_node parse) st (enumerate i (v # vs)) = Inr st' \<and> problems st' = [] \<longleftrightarrow>
      (\<exists>s. (scan_node parse st (i, v) = Inr s \<and> problems s = []) \<and>
        foldR (scan_node parse) s (enumerate (Suc i) vs) = Inr st' \<and> problems st' = [])"
    using scan_grows[of parse _ "enumerate (Suc i) vs" st'] by (auto simp: bindR_Inr_iff)
  also have "\<dots> \<longleftrightarrow> problems st = [] \<and> wf_entry parse v \<and> fst ?e \<notin> fst ` set (by_id st) \<and>
      foldR (scan_node parse) ?st1 (enumerate (Suc i) vs) = Inr st' \<and> problems st' = []"
    unfolding scan_node_ok by blast
  also have "\<dots> \<longleftrightarrow> problems st = [] \<and> wf_entry parse v \<and> fst ?e \<notin> fst ` set (by_id st) \<and>
      (\<forall>v \<in> set vs. wf_entry parse v) \<and> distinct (map (fst \<circ> node_entry) vs) \<and>
      (fst \<circ> node_entry) ` set vs \<inter> fst ` set (by_id st @ [?e]) = {} \<and> st' = add_entries (map node_entry (v # vs)) st"
    unfolding Cons.IH st1 add_entries_Cons list.map by blast
  also have "\<dots> \<longleftrightarrow> problems st = [] \<and> (\<forall>v \<in> set (v # vs). wf_entry parse v) \<and>
      distinct (map (fst \<circ> node_entry) (v # vs)) \<and>
      (fst \<circ> node_entry) ` set (v # vs) \<inter> fst ` set (by_id st) = {} \<and> st' = add_entries (map node_entry (v # vs)) st"
    by auto
  finally show ?case .
qed

section \<open>Edges\<close>

lemma target_str:
  assumes "\<exists>t. v = JStr t"
  shows "snd (target_of tab missing v) = [] \<longleftrightarrow> str_of v \<in> fst ` set tab"
    and "str_of v \<in> fst ` set tab \<Longrightarrow> fst (target_of tab missing v) = [str_of v]"
proof -
  obtain t where v: "v = JStr t" using assms by blast
  show "snd (target_of tab missing v) = [] \<longleftrightarrow> str_of v \<in> fst ` set tab"
    by (cases "t \<in> fst ` set tab") (simp_all only: v target_of_def str_of_def jval.case if_True if_False prod.sel list.simps simp_thms)
  show "str_of v \<in> fst ` set tab \<Longrightarrow> fst (target_of tab missing v) = [str_of v]"
    by (simp only: v target_of_def str_of_def jval.case if_True prod.sel)
qed

lemma linear_targets:
  assumes "jget ''type'' node \<in> {JStr ''start'', JStr ''approval''}"
  shows "node_targets tab (nid, node) = [target_of tab (MissingTarget nid) (jget ''next'' node)]"
    and "out_targets node = [str_of (jget ''next'' node)]"
  using assms by (auto simp: node_targets_def out_targets_def)

lemma wf_targets:
  assumes "wf_node parse node"
  shows "concat (map snd (node_targets tab (nid, node))) = [] \<longleftrightarrow> set (out_targets node) \<subseteq> fst ` set tab"
    and "set (out_targets node) \<subseteq> fst ` set tab \<Longrightarrow> concat (map fst (node_targets tab (nid, node))) = out_targets node"
proof -
  consider (linear) s where "jget ''type'' node \<in> {JStr ''start'', JStr ''approval''}" "jget ''next'' node = JStr s"
    | (fin) "jget ''type'' node = JStr ''end''"
    | (cond) bs s where "jget ''type'' node = JStr ''condition''" "jget ''branches'' node = JList bs"
        "\<forall>b \<in> set bs. \<exists>t. jget ''next'' (obj_of b) = JStr t" "jget ''default'' node = JStr s"
    using assms by (auto simp: wf_node_def wf_approval_def wf_condition_def wf_branch_def obj_of_def) (fastforce simp: obj_of_def)+
  note cases = this
  show "concat (map snd (node_targets tab (nid, node))) = [] \<longleftrightarrow> set (out_targets node) \<subseteq> fst ` set tab"
    using cases
  proof cases
    case (cond bs s)
    have "snd (target_of tab (MissingTarget nid) (jget ''next'' (obj_of b))) = [] \<longleftrightarrow>
        str_of (jget ''next'' (obj_of b)) \<in> fst ` set tab" if "b \<in> set bs" for b
      using cond(3) that by (intro target_str) simp
    then have "concat (map snd (node_targets tab (nid, node))) = [] \<longleftrightarrow>
        (\<forall>b \<in> set bs. str_of (jget ''next'' (obj_of b)) \<in> fst ` set tab) \<and> str_of (JStr s) \<in> fst ` set tab"
      using target_str(1)[of "JStr s" tab "MissingDefault nid"] by (simp add: node_targets_def cond list_of_def)
    then show ?thesis by (simp add: out_targets_def cond list_of_def image_subset_iff conj_commute)
  next
    case (linear s)
    have "snd (target_of tab (MissingTarget nid) (jget ''next'' node)) = [] \<longleftrightarrow>
        str_of (jget ''next'' node) \<in> fst ` set tab"
      using linear(2) by (intro target_str(1)) (rule exI)
    then show ?thesis by (simp only: linear_targets[OF linear(1)] list.map concat.simps append_Nil2 list.set
        insert_subset empty_subsetI simp_thms)
  next
    case fin
    then show ?thesis by (simp add: node_targets_def out_targets_def)
  qed
  show "concat (map fst (node_targets tab (nid, node))) = out_targets node" if sub: "set (out_targets node) \<subseteq> fst ` set tab"
    using cases
  proof cases
    case (cond bs s)
    have "fst (target_of tab (MissingTarget nid) (jget ''next'' (obj_of b))) = [str_of (jget ''next'' (obj_of b))]"
      if "b \<in> set bs" for b
    proof (rule target_str(2))
      show "str_of (jget ''next'' (obj_of b)) \<in> fst ` set tab"
        using sub that by (auto simp: out_targets_def cond list_of_def)
    qed (use cond(3) that in simp)
    moreover have "fst (target_of tab (MissingDefault nid) (JStr s)) = [str_of (JStr s)]"
      using sub by (intro target_str(2)) (auto simp: out_targets_def cond)
    ultimately show ?thesis
      by (simp add: node_targets_def out_targets_def cond list_of_def comp_def concat_map_singleton cong: map_cong)
  next
    case (linear s)
    have "str_of (jget ''next'' node) \<in> fst ` set tab"
      using sub by (simp only: linear_targets[OF linear(1)] list.set insert_subset)
    then have "fst (target_of tab (MissingTarget nid) (jget ''next'' node)) = [str_of (jget ''next'' node)]"
      using linear(2) by (intro target_str(2)) (rule exI)
    then show ?thesis by (simp only: linear_targets[OF linear(1)] list.map concat.simps append_Nil2)
  next
    case fin
    then show ?thesis by (simp add: node_targets_def out_targets_def)
  qed
qed

section \<open>Accepted definitions\<close>

definition flow_rel :: "node_table \<Rightarrow> (string \<times> string) set" where
  "flow_rel tab = {(a, b). \<exists>node. (a, node) \<in> set tab \<and> b \<in> set (out_targets node)}"

definition wf_graph :: "node_table \<Rightarrow> string \<Rightarrow> bool" where
  "wf_graph tab s \<longleftrightarrow> s \<in> fst ` set tab \<and>
     (\<forall>en \<in> set tab. set (out_targets (snd en)) \<subseteq> fst ` set tab) \<and>
     fst ` set tab \<subseteq> (flow_rel tab)\<^sup>* `` {s} \<and> acyclic (flow_rel tab)"

definition wf_table :: "parser \<Rightarrow> node_table \<Rightarrow> bool" where
  "wf_table parse tab \<longleftrightarrow> distinct (map fst tab) \<and> (\<forall>en \<in> set tab. wf_node parse (snd en))"

definition flow_table :: "jobj \<Rightarrow> node_table" where
  "flow_table d = map node_entry (list_of (jget ''nodes'' d))"

definition wf_definition :: "parser \<Rightarrow> jobj \<Rightarrow> bool" where
  "wf_definition parse d \<longleftrightarrow>
     (\<exists>vs. jget ''nodes'' d = JList vs \<and> (\<forall>v \<in> set vs. wf_entry parse v)) \<and>
     distinct (map fst (flow_table d)) \<and>
     length (filter (\<lambda>en. jget ''type'' (snd en) = JStr ''start'') (flow_table d)) = 1 \<and>
     (\<exists>en \<in> set (flow_table d). jget ''type'' (snd en) = JStr ''end'') \<and>
     (\<exists>s. jget ''start_node'' d = JStr s \<and> wf_graph (flow_table d) s)"

lemma edge_problems_iff:
  assumes "wf_table parse tab"
  shows "edge_problems tab = [] \<longleftrightarrow> (\<forall>en \<in> set tab. set (out_targets (snd en)) \<subseteq> fst ` set tab)"
proof -
  have "concat (map snd (node_targets tab en)) = [] \<longleftrightarrow> set (out_targets (snd en)) \<subseteq> fst ` set tab"
    if "en \<in> set tab" for en
    using wf_targets(1)[of parse "snd en" tab "fst en"] assms that by (auto simp: wf_table_def)
  then show ?thesis unfolding edge_problems_def concat_eq_Nil_conv by auto
qed

lemma edges_eq:
  assumes "wf_table parse tab" and "\<forall>en \<in> set tab. set (out_targets (snd en)) \<subseteq> fst ` set tab"
  shows "edges_of tab = map (\<lambda>en. (fst en, out_targets (snd en))) tab"
  unfolding edges_of_def
proof (intro map_cong refl)
  fix en assume "en \<in> set tab"
  then show "(fst en, concat (map fst (node_targets tab en))) = (fst en, out_targets (snd en))"
    using wf_targets(2)[of parse "snd en" tab "fst en"] assms by (auto simp: wf_table_def)
qed

lemma edge_graph:
  assumes "wf_table parse tab" and "\<forall>en \<in> set tab. set (out_targets (snd en)) \<subseteq> fst ` set tab"
  shows "edge_rel (edges_of tab) = flow_rel tab" and "closed_table (edges_of tab)"
    and "fst ` set (edges_of tab) = fst ` set tab"
proof -
  have e: "edges_of tab = map (\<lambda>en. (fst en, out_targets (snd en))) tab" by (rule edges_eq[OF assms])
  then show k: "fst ` set (edges_of tab) = fst ` set tab" by (simp add: image_image)
  have "distinct (map fst (edges_of tab))" using assms(1) by (simp add: e comp_def wf_table_def)
  then have m: "map_of (edges_of tab) a = Some ts \<longleftrightarrow> (\<exists>node. (a, node) \<in> set tab \<and> ts = out_targets node)" for a ts
  proof (subst map_of_eq_Some_iff)
    show "(a, ts) \<in> set (edges_of tab) \<longleftrightarrow> (\<exists>node. (a, node) \<in> set tab \<and> ts = out_targets node)"
      unfolding e by force
  qed
  show "edge_rel (edges_of tab) = flow_rel tab" unfolding edge_rel_def flow_rel_def m by blast
  show "closed_table (edges_of tab)" unfolding closed_table_def m k using assms(2) by fastforce
qed

lemma validate_graph_cases:
  assumes wf: "wf_table parse tab"
  shows "validate_graph limit tab v = Inr () \<longrightarrow> (\<exists>s. v = JStr s \<and> wf_graph tab s)"
    and "length tab \<le> limit \<Longrightarrow> (\<exists>s. v = JStr s \<and> wf_graph tab s) \<longrightarrow> validate_graph limit tab v = Inr ()"
proof -
  have "(validate_graph limit tab v = Inr () \<longrightarrow> (\<exists>s. v = JStr s \<and> wf_graph tab s)) \<and>
    (length tab \<le> limit \<longrightarrow> (\<exists>s. v = JStr s \<and> wf_graph tab s) \<longrightarrow> validate_graph limit tab v = Inr ())"
  proof (cases "(\<exists>s. v = JStr s \<and> s \<in> fst ` set tab) \<and> edge_problems tab = []")
    case False
    then have "validate_graph limit tab v \<noteq> Inr ()"
      by (cases v) (auto simp: validate_graph_def Let_def check_def)
    with False show ?thesis unfolding edge_problems_iff[OF wf] wf_graph_def by auto
  next
    case True
    then obtain s where s: "v = JStr s" "s \<in> fst ` set tab" and ep: "edge_problems tab = []" by blast
    then have refs: "\<forall>en \<in> set tab. set (out_targets (snd en)) \<subseteq> fst ` set tab"
      unfolding edge_problems_iff[OF wf] by simp
    note g = edge_graph[OF wf refs]
    obtain r where r: "reach (edges_of tab) [s] [] = Inr r" "set r = (flow_rel tab)\<^sup>* `` {s}"
      using reach_from[OF g(2), of s] s(2) unfolding g(1,3) by blast
    have ns: "set (map fst tab) = fst ` set (edges_of tab)" unfolding g(3) by simp
    consider (finished) cycle where "dfs_all (edges_of tab) limit (map fst tab) (\<lambda>_. White) = Inr cycle"
        and "cycle = None \<longleftrightarrow> \<not> has_cycle (edges_of tab)"
      | (limited) "dfs_all (edges_of tab) limit (map fst tab) (\<lambda>_. White) = Inl (PyError ''RecursionError'')"
        and "limit < card (fst ` set (edges_of tab))"
      using cycle_search_cases[OF g(2) ns, of limit] by metis
    then show ?thesis
    proof cases
      case (finished cycle)
      have "validate_graph limit tab v = Inr () \<longleftrightarrow>
          filter (\<lambda>n. n \<notin> set r) (map fst tab) = [] \<and> cycle = None"
        using s ep r(1) finished(1) by (simp add: validate_graph_def Let_def split: option.split)
      also have "\<dots> \<longleftrightarrow> wf_graph tab s"
        using s refs finished(2) by (auto simp: wf_graph_def filter_empty_conv r(2) has_cycle_def g(1) acyclic_def)
      finally show ?thesis using s by simp
    next
      case limited
      then have "limit < length tab" using card_length[of "map fst tab"] unfolding g(3) by simp
      moreover have "validate_graph limit tab v \<noteq> Inr ()"
        using s ep r(1) limited(1) by (simp add: validate_graph_def Let_def)
      ultimately show ?thesis by simp
    qed
  qed
  then show "validate_graph limit tab v = Inr () \<longrightarrow> (\<exists>s. v = JStr s \<and> wf_graph tab s)"
    and "length tab \<le> limit \<Longrightarrow> (\<exists>s. v = JStr s \<and> wf_graph tab s) \<longrightarrow> validate_graph limit tab v = Inr ()"
    by simp_all
qed

lemma validate_definition_split:
  assumes "jget ''nodes'' d = JList vs"
  shows "validate_definition parse limit (JObj d) = Inr () \<longleftrightarrow>
    (\<forall>v \<in> set vs. wf_entry parse v) \<and> distinct (map fst (map node_entry vs)) \<and>
    length (filter (\<lambda>en. jget ''type'' (snd en) = JStr ''start'') (map node_entry vs)) = 1 \<and>
    (\<exists>en \<in> set (map node_entry vs). jget ''type'' (snd en) = JStr ''end'') \<and>
    validate_graph limit (map node_entry vs) (jget ''start_node'' d) = Inr ()"
proof -
  let ?st = "add_entries (map node_entry vs) \<lparr>by_id = [], starts = [], ends = [], problems = []\<rparr>"
  have st: "by_id ?st = map node_entry vs"
    "starts ?st = map fst (filter (\<lambda>en. jget ''type'' (snd en) = JStr ''start'') (map node_entry vs))"
    "ends ?st = map fst (filter (\<lambda>en. jget ''type'' (snd en) = JStr ''end'') (map node_entry vs))"
    by (simp_all add: add_entries_def)
  define good where "good \<longleftrightarrow> (\<forall>v \<in> set vs. wf_entry parse v) \<and> distinct (map fst (map node_entry vs))"
  have scan: "scan_nodes parse vs = Inr s \<and> problems s = [] \<longleftrightarrow> good \<and> s = ?st" for s
    unfolding scan_nodes_def scan_ok good_def by auto
  have "validate_definition parse limit (JObj d) = Inr () \<longleftrightarrow> vs \<noteq> [] \<and>
      (\<exists>s. (scan_nodes parse vs = Inr s \<and> problems s = []) \<and> count_problems s = [] \<and>
        validate_graph limit (by_id s) (jget ''start_node'' d) = Inr ())"
    by (auto simp: validate_definition_def assms bindR_Inr_iff Let_def)
  also have "\<dots> \<longleftrightarrow> vs \<noteq> [] \<and> good \<and> count_problems ?st = [] \<and>
      validate_graph limit (map node_entry vs) (jget ''start_node'' d) = Inr ()"
    unfolding scan by (auto simp: st(1))
  also have "\<dots> \<longleftrightarrow> good \<and> count_problems ?st = [] \<and>
      validate_graph limit (map node_entry vs) (jget ''start_node'' d) = Inr ()"
    by (auto simp: count_problems_def st)
  finally show ?thesis
    unfolding good_def by (auto simp: count_problems_def st filter_empty_conv)
qed

lemma wf_entries_table: "\<forall>v \<in> set vs. wf_entry parse v \<Longrightarrow> distinct (map fst (map node_entry vs)) \<Longrightarrow>
    wf_table parse (map node_entry vs)"
  using wf_entryD by (auto simp: wf_table_def)

lemma validate_definition_sound:
  assumes "validate_definition parse limit (JObj d) = Inr ()"
  shows "wf_definition parse d"
proof (cases "jget ''nodes'' d")
  case (JList vs)
  have tab: "flow_table d = map node_entry vs" by (simp add: flow_table_def JList list_of_def)
  note a = assms[unfolded validate_definition_split[OF JList]]
  from a have "wf_table parse (map node_entry vs)" by (intro wf_entries_table) simp_all
  with a validate_graph_cases(1) have "\<exists>s. jget ''start_node'' d = JStr s \<and> wf_graph (map node_entry vs) s" by blast
  with a show ?thesis unfolding wf_definition_def tab by (simp add: JList)
qed (use assms in \<open>simp_all add: validate_definition_def\<close>)

text \<open>C17: with at least as many nested calls as there are nodes, a definition is accepted if and
  only if every node has the shape of its type (conditions included), ids are distinct, there is
  exactly one start and an end, \<open>start_node\<close> is a node, every edge ends in a node, every node is
  reachable from \<open>start_node\<close> and the graph has no cycle.\<close>

theorem validate_definition_iff:
  assumes "length (list_of (jget ''nodes'' d)) \<le> limit"
  shows "validate_definition parse limit (JObj d) = Inr () \<longleftrightarrow> wf_definition parse d"
proof
  assume wf: "wf_definition parse d"
  then obtain vs s where vs: "jget ''nodes'' d = JList vs" "\<forall>v \<in> set vs. wf_entry parse v"
    and s: "jget ''start_node'' d = JStr s" "wf_graph (flow_table d) s"
    unfolding wf_definition_def by blast
  have tab: "flow_table d = map node_entry vs" by (simp add: flow_table_def vs list_of_def)
  have d: "distinct (map fst (map node_entry vs))" using wf unfolding wf_definition_def tab by simp
  have "length (map node_entry vs) \<le> limit" using assms by (simp add: vs list_of_def)
  with validate_graph_cases(2)[OF wf_entries_table[OF vs(2) d]] s
  have "validate_graph limit (map node_entry vs) (jget ''start_node'' d) = Inr ()" unfolding tab by blast
  with wf vs d show "validate_definition parse limit (JObj d) = Inr ()"
    unfolding validate_definition_split[OF vs(1)] wf_definition_def tab by simp
qed (rule validate_definition_sound)

section \<open>A sample definition\<close>

definition node_json :: "string \<Rightarrow> string \<Rightarrow> jobj \<Rightarrow> jval" where
  "node_json nid t rest = JObj ([(''id'', JStr nid), (''type'', JStr t)] @ rest)"

text \<open>The leave request of the README.\<close>

definition leave_demo :: jobj where
  "leave_demo = [(''start_node'', JStr ''start''), (''nodes'', JList
     [node_json ''start'' ''start'' [(''next'', JStr ''dept_approval'')],
      node_json ''dept_approval'' ''approval'' [(''mode'', JStr ''all''),
        (''assignees'', JList [JStr ''alice'', JStr ''bob'']), (''next'', JStr ''amount_check''),
        (''timeout'', JObj [(''seconds'', JInt 120), (''targets'', JList [JStr ''frank''])])],
      node_json ''amount_check'' ''condition'' [(''branches'', JList
        [JObj [(''when'', JStr ''amount >= 10000''), (''next'', JStr ''gm_approval'')]]), (''default'', JStr ''end'')],
      node_json ''gm_approval'' ''approval'' [(''mode'', JStr ''any''),
        (''assignees'', JList [JStr ''carol'', JStr ''dave'']), (''next'', JStr ''end'')],
      node_json ''end'' ''end'' []])]"

theorem validate_definition_iff_witness:
  "wf_definition sample_parser leave_demo \<and>
   \<not> wf_definition sample_parser [(''start_node'', JStr ''a''), (''nodes'', JList
     [node_json ''a'' ''start'' [(''next'', JStr ''b'')], node_json ''b'' ''approval'' [(''mode'', JStr ''any''),
        (''assignees'', JList [JStr ''bob'']), (''next'', JStr ''a'')], node_json ''c'' ''end'' []])]"
    (is "_ \<and> \<not> wf_definition _ ?bad")
proof -
  have "validate_definition sample_parser 10 (JObj leave_demo) = Inr ()" by code_simp
  moreover have "validate_definition sample_parser 10 (JObj ?bad) \<noteq> Inr ()" by code_simp
  moreover have "length (list_of (jget ''nodes'' leave_demo)) \<le> 10" "length (list_of (jget ''nodes'' ?bad)) \<le> 10"
    by code_simp+
  ultimately show ?thesis
    using validate_definition_iff[of leave_demo 10 sample_parser] validate_definition_iff[of ?bad 10 sample_parser] by blast
qed

end
