(* ===== verification/Flow_Model.thy ===== *)
theory Flow_Model
  imports Flow_Dsl_Facts
begin

text \<open>
  The tables of the workflow engine (\<open>text8/a/app/models.py\<close>, \<open>enums.py\<close>), their unique constraints and
  column widths, idempotency records and the change of rows. Times are seconds since 1970; ids come
  from one increasing sequence; requests are serialised transactions.
\<close>

section \<open>Tables\<close>

datatype instance_status = Running | Completed | Rejected | Withdrawn

datatype task_status = TaskPending | TaskApproved | TaskRejected | TaskCanceled

datatype version_status = Draft | Published

datatype escalation_status = EscPending | EscDone | EscCanceled

datatype event_type =
    EvStart | EvTaskApprove | EvTaskReject | EvTasksCanceled | EvNodeApprove
  | EvBranch | EvEscalate | EvWithdraw | EvReject | EvComplete

definition CLOSED :: "instance_status set" where
  "CLOSED = {Completed, Rejected, Withdrawn}"

record template =
  tp_id :: int
  tp_key :: string
  tp_name :: string
  tp_current :: "int option"

record template_version =
  tv_id :: int
  tv_template_id :: int
  tv_version :: int
  tv_status :: version_status
  tv_definition :: jobj
  tv_published_at :: "int option"

record flow_instance =
  fi_id :: string
  fi_template_id :: int
  fi_version_id :: int
  fi_version_number :: int
  fi_status :: instance_status
  fi_submitter :: string
  fi_context :: jobj
  fi_node :: "string option"
  fi_reject_reason :: "string option"
  fi_start_request :: "string option"
  fi_closed_at :: "int option"

record flow_task =
  ft_id :: int
  ft_instance :: string
  ft_node :: string
  ft_assignee :: string
  ft_status :: task_status
  ft_decision :: "task_status option"
  ft_handled_by :: "string option"
  ft_comment :: "string option"
  ft_handled_at :: "int option"

text \<open>The JSON details of the events; the label of a branch is its index, \<open>None\<close> the default.\<close>

datatype event_detail =
    NoDetail
  | BranchDetail string "nat option"
  | TaskDetail int string "string option"
  | RejectDetail string string
  | ReasonDetail string
  | ModeDetail string
  | EscalateDetail "string list" "string list"

record history_event =
  he_instance :: string
  he_node :: "string option"
  he_type :: event_type
  he_actor :: "string option"
  he_detail :: event_detail

record escalation =
  es_id :: int
  es_instance :: string
  es_node :: string
  es_status :: escalation_status
  es_due_at :: int
  es_targets :: "string list"
  es_attempts :: int
  es_last_error :: "flow_error option"
  es_processed_at :: "int option"

text \<open>The answer of a request: \<open>_instance_payload\<close>.\<close>

record payload =
  py_instance :: string
  py_status :: instance_status
  py_version :: int
  py_submitter :: string
  py_node :: "string option"
  py_reject_reason :: "string option"
  py_pending :: "(int \<times> string \<times> string) list"

record idem_record =
  ir_request :: string
  ir_scope :: string
  ir_fingerprint :: string
  ir_response :: "payload option"

record flow =
  templates :: "template list"
  versions :: "template_version list"
  instances :: "flow_instance list"
  tasks :: "flow_task list"
  history :: "history_event list"
  escalations :: "escalation list"
  requests :: "idem_record list"
  next_id :: int

section \<open>Constraints\<close>

definition flow_unique :: "flow \<Rightarrow> bool" where
  "flow_unique db \<longleftrightarrow>
     distinct (map tp_id (templates db)) \<and> distinct (map tp_key (templates db)) \<and>
     distinct (map tv_id (versions db)) \<and> distinct (map (\<lambda>v. (tv_template_id v, tv_version v)) (versions db)) \<and>
     distinct (map fi_id (instances db)) \<and>
     distinct (map fi_start_request (filter (\<lambda>i. fi_start_request i \<noteq> None) (instances db))) \<and>
     distinct (map ft_id (tasks db)) \<and> distinct (map es_id (escalations db)) \<and>
     distinct (map (\<lambda>e. (es_instance e, es_node e)) (escalations db)) \<and>
     distinct (map ir_request (requests db))"

text \<open>The widths of the text columns that a value can exceed: assignees, node ids and request ids.\<close>

definition widths_ok :: "flow \<Rightarrow> bool" where
  "widths_ok db \<longleftrightarrow>
     list_all (\<lambda>t. length (ft_assignee t) \<le> 64 \<and> length (ft_node t) \<le> 64) (tasks db) \<and>
     list_all (\<lambda>i. case fi_node i of None \<Rightarrow> True | Some n \<Rightarrow> length n \<le> 64) (instances db) \<and>
     list_all (\<lambda>r. length (ir_request r) \<le> 64) (requests db)"

definition flow_commit :: "flow \<Rightarrow> flow_error + flow" where
  "flow_commit db =
     (if \<not> flow_unique db then Inl (DbError ''23505'') else if \<not> widths_ok db then Inl (DbError ''22001'') else Inr db)"

lemma flow_commit_Inr [simp]: "flow_commit db = Inr db' \<longleftrightarrow> db' = db \<and> flow_unique db \<and> widths_ok db"
  by (auto simp: flow_commit_def)

section \<open>Changes of rows\<close>

definition upd_instance :: "string \<Rightarrow> (flow_instance \<Rightarrow> flow_instance) \<Rightarrow> flow \<Rightarrow> flow" where
  "upd_instance iid f db = db\<lparr>instances := upd_by fi_id iid f (instances db)\<rparr>"

definition set_node :: "string \<Rightarrow> flow_instance \<Rightarrow> flow_instance" where
  "set_node nid i = i\<lparr>fi_node := Some nid\<rparr>"

definition close_instance :: "instance_status \<Rightarrow> string option \<Rightarrow> int \<Rightarrow> flow_instance \<Rightarrow> flow_instance" where
  "close_instance st reason now i =
     i\<lparr>fi_status := st, fi_closed_at := Some now,
       fi_reject_reason := (if reason = None then fi_reject_reason i else reason)\<rparr>"

interpretation instance_node: row_update fi_id "set_node nid" for nid
  by unfold_locales (simp add: set_node_def)

interpretation instance_close: row_update fi_id "close_instance st reason now" for st reason now
  by unfold_locales (simp add: close_instance_def)

definition add_history :: "string \<Rightarrow> string option \<Rightarrow> event_type \<Rightarrow> string option \<Rightarrow> event_detail \<Rightarrow> flow \<Rightarrow> flow" where
  "add_history iid nid typ actor detail db =
     db\<lparr>history := history db @ [\<lparr>he_instance = iid, he_node = nid, he_type = typ, he_actor = actor, he_detail = detail\<rparr>]\<rparr>"

definition add_task :: "string \<Rightarrow> string \<Rightarrow> string \<Rightarrow> flow \<Rightarrow> flow" where
  "add_task iid nid assignee db =
     db\<lparr>tasks := tasks db @ [\<lparr>ft_id = next_id db, ft_instance = iid, ft_node = nid, ft_assignee = assignee,
          ft_status = TaskPending, ft_decision = None, ft_handled_by = None, ft_comment = None, ft_handled_at = None\<rparr>],
        next_id := next_id db + 1\<rparr>"

definition add_tasks :: "string \<Rightarrow> string \<Rightarrow> string list \<Rightarrow> flow \<Rightarrow> flow" where
  "add_tasks iid nid assignees db = fold (add_task iid nid) assignees db"

text \<open>\<open>_pending_tasks\<close>, and the pending tasks of an instance at any node.\<close>

definition pending_at :: "string \<Rightarrow> string \<Rightarrow> flow \<Rightarrow> flow_task list" where
  "pending_at iid nid db =
     filter (\<lambda>t. ft_instance t = iid \<and> ft_node t = nid \<and> ft_status t = TaskPending) (tasks db)"

definition pending_of :: "string \<Rightarrow> flow \<Rightarrow> flow_task list" where
  "pending_of iid db = filter (\<lambda>t. ft_instance t = iid \<and> ft_status t = TaskPending) (tasks db)"

text \<open>\<open>_cancel_pending\<close>: the conditional update of the given tasks.\<close>

definition cancel_task :: "int \<Rightarrow> int list \<Rightarrow> flow_task \<Rightarrow> flow_task" where
  "cancel_task now ids t =
     (if ft_id t \<in> set ids \<and> ft_status t = TaskPending then t\<lparr>ft_status := TaskCanceled, ft_handled_at := Some now\<rparr> else t)"

definition cancel_pending :: "int \<Rightarrow> flow_task list \<Rightarrow> flow \<Rightarrow> flow" where
  "cancel_pending now ts db = db\<lparr>tasks := map (cancel_task now (map ft_id ts)) (tasks db)\<rparr>"

text \<open>\<open>_cancel_escalations\<close>; without a node nothing is cancelled.\<close>

definition cancel_escalation :: "int \<Rightarrow> string \<Rightarrow> string \<Rightarrow> escalation \<Rightarrow> escalation" where
  "cancel_escalation now iid nid e =
     (if es_instance e = iid \<and> es_node e = nid \<and> es_status e = EscPending
      then e\<lparr>es_status := EscCanceled, es_processed_at := Some now\<rparr> else e)"

definition cancel_escalations :: "int \<Rightarrow> string \<Rightarrow> string option \<Rightarrow> flow \<Rightarrow> flow" where
  "cancel_escalations now iid nid db =
     (case nid of None \<Rightarrow> db | Some n \<Rightarrow> db\<lparr>escalations := map (cancel_escalation now iid n) (escalations db)\<rparr>)"

section \<open>Idempotency\<close>

text \<open>\<open>_fingerprint\<close> hashes the parts of a request; the hash is a parameter.\<close>

datatype fp_parts =
    StartParts string string jobj
  | DecideParts string int int string string "string option"
  | WithdrawParts string string

type_synonym fingerprint = "fp_parts \<Rightarrow> string"

text \<open>\<open>acquire_idempotency\<close>: \<open>Inr (Some p, db)\<close> replays a recorded answer, \<open>Inr (None, db)\<close> has declared
  the request. A record without an answer is one of a request still running.\<close>

definition acquire :: "string \<Rightarrow> string \<Rightarrow> string \<Rightarrow> flow \<Rightarrow> flow_error + payload option \<times> flow" where
  "acquire rid scope fp db =
     (case row_by ir_request rid (requests db) of
        None \<Rightarrow>
          bindR (flow_commit (db\<lparr>requests := requests db @
            [\<lparr>ir_request = rid, ir_scope = scope, ir_fingerprint = fp, ir_response = None\<rparr>]\<rparr>)) (\<lambda>db1. Inr (None, db1))
      | Some r \<Rightarrow>
          if ir_fingerprint r \<noteq> fp then Inl (ConflictError ''fingerprint'')
          else case ir_response r of
            None \<Rightarrow> Inl (ConflictError ''in progress'')
          | Some p \<Rightarrow> Inr (Some p, db))"

definition set_response :: "payload \<Rightarrow> idem_record \<Rightarrow> idem_record" where
  "set_response p r = r\<lparr>ir_response := Some p\<rparr>"

interpretation request_response: row_update ir_request "set_response p" for p
  by unfold_locales (simp add: set_response_def)

definition store_result :: "string \<Rightarrow> payload \<Rightarrow> flow \<Rightarrow> flow" where
  "store_result rid p db = db\<lparr>requests := upd_by ir_request rid (set_response p) (requests db)\<rparr>"

definition instance_payload :: "string \<Rightarrow> flow \<Rightarrow> flow_error + payload" where
  "instance_payload iid db =
     (case row_by fi_id iid (instances db) of
        None \<Rightarrow> Inl (PyError ''AttributeError'')
      | Some i \<Rightarrow> Inr \<lparr>py_instance = fi_id i, py_status = fi_status i, py_version = fi_version_number i,
          py_submitter = fi_submitter i, py_node = fi_node i, py_reject_reason = fi_reject_reason i,
          py_pending = map (\<lambda>t. (ft_id t, ft_node t, ft_assignee t)) (sort_key ft_id (pending_of iid db))\<rparr>)"

end
