(* ===== verification/Flow_Engine.thy ===== *)
theory Flow_Engine
  imports Flow_Model
begin

text \<open>
  The operations of \<open>text8/a/app/engine.py\<close>: templates and versions, starting an instance, advancing
  it through conditions to the next approval or the end, decisions, withdrawal and escalation.
  Every operation is one transaction: it gives the new database or the error it is rolled back with.
\<close>

section \<open>Templates and versions\<close>

definition get_template :: "string \<Rightarrow> flow \<Rightarrow> flow_error + template" where
  "get_template key db = someR (row_by tp_key key (templates db)) NotFoundError"

definition get_version :: "int \<Rightarrow> int \<Rightarrow> flow \<Rightarrow> flow_error + template_version" where
  "get_version tid n db =
     someR (row_by (\<lambda>v. (tv_template_id v, tv_version v)) (tid, n) (versions db)) NotFoundError"

text \<open>The highest version number of a template, 0 without versions.\<close>

definition last_version :: "int \<Rightarrow> flow \<Rightarrow> int" where
  "last_version tid db = foldr max (map tv_version (filter (\<lambda>v. tv_template_id v = tid) (versions db))) 0"

definition add_version :: "parser \<Rightarrow> nat \<Rightarrow> int \<Rightarrow> jobj \<Rightarrow> flow \<Rightarrow> flow_error + flow" where
  "add_version parse limit tid d db =
     bindR (validate_definition parse limit (JObj d)) (\<lambda>_.
     flow_commit (db\<lparr>versions := versions db @ [\<lparr>tv_id = next_id db, tv_template_id = tid,
          tv_version = last_version tid db + 1, tv_status = Draft, tv_definition = d, tv_published_at = None\<rparr>],
        next_id := next_id db + 1\<rparr>))"

definition create_template :: "parser \<Rightarrow> nat \<Rightarrow> string \<Rightarrow> string \<Rightarrow> jobj \<Rightarrow> flow \<Rightarrow> flow_error + flow" where
  "create_template parse limit key name d db =
     (if row_by tp_key key (templates db) \<noteq> None then Inl (ConflictError ''template exists'')
      else
        add_version parse limit (next_id db) d
          (db\<lparr>templates := templates db @ [\<lparr>tp_id = next_id db, tp_key = key, tp_name = name, tp_current = None\<rparr>],
              next_id := next_id db + 1\<rparr>))"

definition publish_row :: "int \<Rightarrow> template_version \<Rightarrow> template_version" where
  "publish_row now v = v\<lparr>tv_status := Published, tv_published_at := Some now\<rparr>"

definition set_current :: "int \<Rightarrow> template \<Rightarrow> template" where
  "set_current vid t = t\<lparr>tp_current := Some vid\<rparr>"

interpretation version_publish: row_update tv_id "publish_row now" for now
  by unfold_locales (simp add: publish_row_def)

interpretation template_current: row_update tp_id "set_current vid" for vid
  by unfold_locales (simp add: set_current_def)

definition publish_version :: "parser \<Rightarrow> nat \<Rightarrow> int \<Rightarrow> string \<Rightarrow> int \<Rightarrow> flow \<Rightarrow> flow_error + flow" where
  "publish_version parse limit now key n db =
     bindR (get_template key db) (\<lambda>t.
     bindR (get_version (tp_id t) n db) (\<lambda>v.
     if tv_status v = Published then Inl (ConflictError ''published'')
     else
       bindR (validate_definition parse limit (JObj (tv_definition v))) (\<lambda>_.
       flow_commit (db\<lparr>versions := upd_by tv_id (tv_id v) (publish_row now) (versions db),
                       templates := upd_by tp_id (tp_id t) (set_current (tv_id v)) (templates db)\<rparr>))))"

definition rollback_template :: "string \<Rightarrow> int \<Rightarrow> flow \<Rightarrow> flow_error + flow" where
  "rollback_template key n db =
     bindR (get_template key db) (\<lambda>t.
     bindR (get_version (tp_id t) n db) (\<lambda>v.
     if tv_status v \<noteq> Published then Inl (ConflictError ''not published'')
     else if tp_current t = Some (tv_id v) then Inl (ConflictError ''already current'')
     else flow_commit (db\<lparr>templates := upd_by tp_id (tp_id t) (set_current (tv_id v)) (templates db)\<rparr>)))"

section \<open>Advancing an instance\<close>

definition str_list :: "jval \<Rightarrow> string list" where
  "str_list v = map str_of (list_of v)"

text \<open>The last second that \<open>datetime\<close> can represent: 9999-12-31 23:59:59.\<close>

definition MAX_TIMESTAMP :: int where
  "MAX_TIMESTAMP = 253402300799"

definition new_escalation :: "string \<Rightarrow> string \<Rightarrow> int \<Rightarrow> string list \<Rightarrow> flow \<Rightarrow> flow" where
  "new_escalation iid nid due targets db =
     db\<lparr>escalations := escalations db @ [\<lparr>es_id = next_id db, es_instance = iid, es_node = nid,
          es_status = EscPending, es_due_at = due, es_targets = targets, es_attempts = 0,
          es_last_error = None, es_processed_at = None\<rparr>],
        next_id := next_id db + 1\<rparr>"

definition schedule :: "int \<Rightarrow> string \<Rightarrow> string \<Rightarrow> jval \<Rightarrow> flow \<Rightarrow> flow_error + flow" where
  "schedule now iid nid timeout db =
     (if \<not> truthy timeout then Inr db
      else case jget ''seconds'' (obj_of timeout) of
        JInt n \<Rightarrow>
          if now + n > MAX_TIMESTAMP then Inl (PyError ''OverflowError'')
          else Inr (new_escalation iid nid (now + n) (str_list (jget ''targets'' (obj_of timeout))) db)
      | _ \<Rightarrow> Inl (PyError ''TypeError''))"

text \<open>The branch taken: the first whose condition holds, with its index, or the default.\<close>

fun pick_branch :: "parser \<Rightarrow> jobj \<Rightarrow> string \<Rightarrow> nat \<Rightarrow> jval list \<Rightarrow> flow_error + string \<times> nat option" where
  "pick_branch parse ctx dflt idx [] = Inr (dflt, None)"
| "pick_branch parse ctx dflt idx (b # bs) =
     (case safe_evaluate parse (str_of (jget ''when'' (obj_of b))) ctx of
        Inl (ExprRaise exc) \<Rightarrow> Inl (PyError exc)
      | Inl _ \<Rightarrow> Inl (ConflictError ''condition'')
      | Inr hit \<Rightarrow> if hit then Inr (str_of (jget ''next'' (obj_of b)), Some idx)
                  else pick_branch parse ctx dflt (Suc idx) bs)"

text \<open>\<open>_activate\<close>; \<open>limit\<close> counts the nested calls that Python's recursion limit leaves.\<close>

fun activate :: "parser \<Rightarrow> int \<Rightarrow> string \<Rightarrow> jobj \<Rightarrow> node_table \<Rightarrow> nat \<Rightarrow> string \<Rightarrow> flow \<Rightarrow> flow_error + flow" where
  "activate parse now iid ctx tab 0 nid db = Inl (PyError ''RecursionError'')"
| "activate parse now iid ctx tab (Suc limit) nid db =
     (case map_of tab nid of
        None \<Rightarrow> Inl (PyError ''KeyError'')
      | Some node \<Rightarrow>
          let db1 = upd_instance iid (set_node nid) db; t = jget ''type'' node in
          if t = JStr ''approval'' then
            schedule now iid nid (jget ''timeout'' node) (add_tasks iid nid (str_list (jget ''assignees'' node)) db1)
          else if t = JStr ''condition'' then
            bindR (pick_branch parse ctx (str_of (jget ''default'' node)) 0 (list_of (jget ''branches'' node)))
              (\<lambda>(chosen, label).
                activate parse now iid ctx tab limit chosen
                  (add_history iid (Some nid) EvBranch None (BranchDetail chosen label) db1))
          else if t = JStr ''end'' then
            Inr (add_history iid (Some nid) EvComplete None NoDetail
              (upd_instance iid (close_instance Completed None now) db1))
          else Inl (ConflictError ''node type''))"

definition advance :: "parser \<Rightarrow> int \<Rightarrow> string \<Rightarrow> jobj \<Rightarrow> node_table \<Rightarrow> nat \<Rightarrow> string \<Rightarrow> flow \<Rightarrow> flow_error + flow" where
  "advance parse now iid ctx tab limit from db =
     (case map_of tab from of
        None \<Rightarrow> Inl (PyError ''KeyError'')
      | Some node \<Rightarrow>
          (case jget ''next'' node of
             JStr nid \<Rightarrow> activate parse now iid ctx tab limit nid db
           | _ \<Rightarrow> Inl (PyError ''KeyError'')))"

section \<open>Starting\<close>

definition new_instance :: "string \<Rightarrow> template \<Rightarrow> template_version \<Rightarrow> string \<Rightarrow> jobj \<Rightarrow> string \<Rightarrow> string \<Rightarrow> flow_instance" where
  "new_instance iid t v submitter ctx rid start =
     \<lparr>fi_id = iid, fi_template_id = tp_id t, fi_version_id = tv_id v, fi_version_number = tv_version v,
      fi_status = Running, fi_submitter = submitter, fi_context = ctx, fi_node = Some start,
      fi_reject_reason = None, fi_start_request = Some rid, fi_closed_at = None\<rparr>"

text \<open>The end of a request: its answer is stored with the request and everything is committed.\<close>

definition finish :: "string \<Rightarrow> string \<Rightarrow> flow \<Rightarrow> flow_error + payload \<times> flow" where
  "finish rid iid db =
     bindR (instance_payload iid db) (\<lambda>p.
     bindR (flow_commit (store_result rid p db)) (\<lambda>db1. Inr (p, db1)))"

definition published_version :: "template \<Rightarrow> flow \<Rightarrow> flow_error + template_version" where
  "published_version t db =
     (case tp_current t of
        None \<Rightarrow> Inl (ValidationError [])
      | Some vid \<Rightarrow>
          (case row_by tv_id vid (versions db) of
             None \<Rightarrow> Inl (ConflictError ''version'')
           | Some v \<Rightarrow> if tv_status v \<noteq> Published then Inl (ConflictError ''version'') else Inr v))"

definition start_body :: "parser \<Rightarrow> nat \<Rightarrow> int \<Rightarrow> string \<Rightarrow> string \<Rightarrow> string \<Rightarrow> jobj \<Rightarrow> string \<Rightarrow> flow \<Rightarrow>
    flow_error + payload \<times> flow" where
  "start_body parse limit now iid key submitter ctx rid db =
     bindR (get_template key db) (\<lambda>t.
     bindR (published_version t db) (\<lambda>v.
     case jget ''start_node'' (tv_definition v) of
       JStr start \<Rightarrow>
         bindR (advance parse now iid ctx (node_index (tv_definition v)) limit start
                  (add_history iid (Some start) EvStart (Some submitter) NoDetail
                    (db\<lparr>instances := instances db @ [new_instance iid t v submitter ctx rid start]\<rparr>)))
           (\<lambda>db1. finish rid iid db1)
     | _ \<Rightarrow> Inl (PyError ''KeyError'')))"

text \<open>The boolean of an answer is whether it is a replay.\<close>

definition idempotent :: "string \<Rightarrow> string \<Rightarrow> string \<Rightarrow> (flow \<Rightarrow> flow_error + payload \<times> flow) \<Rightarrow> flow \<Rightarrow>
    flow_error + (payload \<times> bool) \<times> flow" where
  "idempotent rid scope fp body db =
     bindR (acquire rid scope fp db) (\<lambda>(replay, db1).
     case replay of
       Some p \<Rightarrow> Inr ((p, True), db1)
     | None \<Rightarrow> bindR (body db1) (\<lambda>(p, db2). Inr ((p, False), db2)))"

definition start_instance :: "fingerprint \<Rightarrow> parser \<Rightarrow> nat \<Rightarrow> int \<Rightarrow> string \<Rightarrow> string \<Rightarrow> string \<Rightarrow> jobj \<Rightarrow> string \<Rightarrow>
    flow \<Rightarrow> flow_error + (payload \<times> bool) \<times> flow" where
  "start_instance fp parse limit now iid key submitter ctx rid =
     idempotent rid ''start'' (fp (StartParts key submitter ctx))
       (start_body parse limit now iid key submitter ctx rid)"

end
