(* ===== verification/Flow_Decide.thy ===== *)
theory Flow_Decide
  imports Flow_Engine
begin

text \<open>
  Decisions on tasks, withdrawal and the escalation of overdue approvals
  (\<open>text8/a/app/engine.py\<close>), the queries, the endpoints of \<open>api.py\<close> and the step relation of the
  requests and of the worker.
\<close>

section \<open>Decisions\<close>

definition lock_instance :: "string \<Rightarrow> flow \<Rightarrow> flow_error + flow_instance" where
  "lock_instance iid db = someR (row_by fi_id iid (instances db)) NotFoundError"

text \<open>The version an instance is bound to, and the index of its nodes.\<close>

definition bound_definition :: "flow_instance \<Rightarrow> flow \<Rightarrow> flow_error + jobj" where
  "bound_definition i db =
     (case row_by tv_id (fi_version_id i) (versions db) of
        None \<Rightarrow> Inl (PyError ''AttributeError'') | Some v \<Rightarrow> Inr (tv_definition v))"

definition decide_row :: "task_status \<Rightarrow> string \<Rightarrow> string option \<Rightarrow> int \<Rightarrow> flow_task \<Rightarrow> flow_task" where
  "decide_row st actor comment now t =
     t\<lparr>ft_status := st, ft_decision := Some st, ft_handled_by := Some actor, ft_comment := comment,
       ft_handled_at := Some now\<rparr>"

interpretation task_decide: row_update ft_id "decide_row st actor comment now" for st actor comment now
  by unfold_locales (simp add: decide_row_def)

definition reject_node :: "int \<Rightarrow> string \<Rightarrow> string \<Rightarrow> string \<Rightarrow> string \<Rightarrow> string \<Rightarrow> flow \<Rightarrow> flow" where
  "reject_node now iid nid actor reason mode db =
     add_history iid (Some nid) EvReject (Some actor) (RejectDetail reason mode)
       (upd_instance iid (close_instance Rejected (Some reason) now) (cancel_escalations now iid (Some nid) db))"

text \<open>\<open>default_reason\<close> is the text made from the actor when there is no comment.\<close>

definition handle_rejection :: "int \<Rightarrow> string \<Rightarrow> string \<Rightarrow> string \<Rightarrow> string \<Rightarrow> string option \<Rightarrow> string \<Rightarrow> flow \<Rightarrow> flow" where
  "handle_rejection now iid nid mode actor comment default_reason db =
     (let pending = pending_at iid nid db;
          reason = or_default comment default_reason
      in if mode = ''all'' \<or> pending = []
         then reject_node now iid nid actor reason mode (if pending \<noteq> [] then cancel_pending now pending db else db)
         else db)"

definition handle_approval :: "parser \<Rightarrow> nat \<Rightarrow> int \<Rightarrow> flow_instance \<Rightarrow> string \<Rightarrow> string \<Rightarrow> flow \<Rightarrow> flow_error + flow" where
  "handle_approval parse limit now i nid mode db =
     (let pending = pending_at (fi_id i) nid db
      in if mode \<noteq> ''any'' \<and> pending \<noteq> [] then Inr db
         else
           (let db1 = (if pending \<noteq> []
                       then add_history (fi_id i) (Some nid) EvTasksCanceled None (ReasonDetail ''any_mode_first_approval'')
                              (cancel_pending now pending db)
                       else db);
                db2 = add_history (fi_id i) (Some nid) EvNodeApprove None (ModeDetail mode)
                        (cancel_escalations now (fi_id i) (Some nid) db1)
            in bindR (bound_definition i db2) (\<lambda>d.
               advance parse now (fi_id i) (fi_context i) (node_index d) limit nid db2)))"

definition decide_checked :: "parser \<Rightarrow> nat \<Rightarrow> int \<Rightarrow> string \<Rightarrow> flow_instance \<Rightarrow> flow_task \<Rightarrow> string \<Rightarrow> task_status \<Rightarrow> string option \<Rightarrow>
    flow \<Rightarrow> flow_error + flow" where
  "decide_checked parse limit now default_reason i t actor st comment db =
     (let db1 = db\<lparr>tasks := upd_by ft_id (ft_id t) (decide_row st actor comment now) (tasks db)\<rparr>
      in
      bindR (bound_definition i db1) (\<lambda>d.
      case map_of (node_index d) (ft_node t) of
        None \<Rightarrow> Inl (PyError ''KeyError'')
      | Some node \<Rightarrow>
          if \<not> has_key ''mode'' node then Inl (PyError ''KeyError'')
          else
            (let mode = str_of (jget ''mode'' node);
                 db2 = add_history (fi_id i) (Some (ft_node t)) (if st = TaskApproved then EvTaskApprove else EvTaskReject)
                         (Some actor) (TaskDetail (ft_id t) mode comment) db1
             in if st = TaskRejected
                then Inr (handle_rejection now (fi_id i) (ft_node t) mode actor comment default_reason db2)
                else handle_approval parse limit now i (ft_node t) mode db2)))"

definition decide_body :: "parser \<Rightarrow> nat \<Rightarrow> int \<Rightarrow> string \<Rightarrow> string \<Rightarrow> int \<Rightarrow> int \<Rightarrow> string \<Rightarrow> string \<Rightarrow> string option \<Rightarrow> string \<Rightarrow> flow \<Rightarrow>
    flow_error + payload \<times> flow" where
  "decide_body parse limit now default_reason iid tid expected_version actor decision comment rid db =
     bindR (lock_instance iid db) (\<lambda>i.
     if fi_version_number i \<noteq> expected_version then Inl (ConflictError ''version'')
     else if fi_status i \<noteq> Running then Inl (ConflictError ''closed'')
     else case row_by ft_id tid (tasks db) of
       None \<Rightarrow> Inl NotFoundError
     | Some t \<Rightarrow>
         if ft_instance t \<noteq> fi_id i then Inl NotFoundError
         else if ft_assignee t \<noteq> actor then Inl AuthzError
         else if ft_status t \<noteq> TaskPending then Inl (ConflictError ''handled'')
         else if decision \<notin> {''approve'', ''reject''} then Inl (ValidationError [])
         else
           bindR (decide_checked parse limit now default_reason i t actor
                    (if decision = ''approve'' then TaskApproved else TaskRejected) comment db)
             (\<lambda>db1. finish rid iid db1))"

definition decide_task :: "fingerprint \<Rightarrow> parser \<Rightarrow> nat \<Rightarrow> int \<Rightarrow> string \<Rightarrow> string \<Rightarrow> int \<Rightarrow> string \<Rightarrow> int \<Rightarrow> string \<Rightarrow> string \<Rightarrow>
    string option \<Rightarrow> flow \<Rightarrow> flow_error + (payload \<times> bool) \<times> flow" where
  "decide_task fp parse limit now default_reason iid tid rid expected_version actor decision comment =
     idempotent rid ''task_action'' (fp (DecideParts iid tid expected_version actor decision comment))
       (decide_body parse limit now default_reason iid tid expected_version actor decision comment rid)"

section \<open>Withdrawal\<close>

definition withdraw_body :: "int \<Rightarrow> string \<Rightarrow> string \<Rightarrow> string \<Rightarrow> flow \<Rightarrow> flow_error + payload \<times> flow" where
  "withdraw_body now iid actor rid db =
     bindR (lock_instance iid db) (\<lambda>i.
     if fi_submitter i \<noteq> actor then Inl AuthzError
     else if fi_status i \<in> CLOSED then Inl (ConflictError ''closed'')
     else
       finish rid iid
         (add_history (fi_id i) (fi_node i) EvWithdraw (Some actor) NoDetail
           (upd_instance (fi_id i) (close_instance Withdrawn None now)
             (cancel_escalations now (fi_id i) (fi_node i) (cancel_pending now (pending_of (fi_id i) db) db)))))"

definition withdraw :: "fingerprint \<Rightarrow> int \<Rightarrow> string \<Rightarrow> string \<Rightarrow> string \<Rightarrow> flow \<Rightarrow> flow_error + (payload \<times> bool) \<times> flow" where
  "withdraw fp now iid rid actor =
     idempotent rid ''withdraw'' (fp (WithdrawParts iid actor)) (withdraw_body now iid actor rid)"

section \<open>Escalation\<close>

definition end_escalation :: "escalation_status \<Rightarrow> int \<Rightarrow> escalation \<Rightarrow> escalation" where
  "end_escalation st now e = e\<lparr>es_status := st, es_processed_at := Some now\<rparr>"

definition escalation_failed :: "flow_error \<Rightarrow> escalation \<Rightarrow> escalation" where
  "escalation_failed err e =
     (if es_status e = EscPending then e\<lparr>es_attempts := es_attempts e + 1, es_last_error := Some err\<rparr> else e)"

interpretation escalation_end: row_update es_id "end_escalation st now" for st now
  by unfold_locales (simp add: end_escalation_def)

interpretation escalation_fail: row_update es_id "escalation_failed err" for err
  by unfold_locales (simp add: escalation_failed_def)

definition set_escalation :: "escalation \<Rightarrow> escalation_status \<Rightarrow> int \<Rightarrow> flow \<Rightarrow> flow" where
  "set_escalation e st now db = db\<lparr>escalations := upd_by es_id (es_id e) (end_escalation st now) (escalations db)\<rparr>"

text \<open>\<open>_apply_escalation\<close>, on the claimed row \<open>e\<close>.\<close>

definition apply_escalation :: "int \<Rightarrow> escalation \<Rightarrow> flow \<Rightarrow> flow" where
  "apply_escalation now e db =
     (case row_by fi_id (es_instance e) (instances db) of
        None \<Rightarrow> set_escalation e EscCanceled now db
      | Some i \<Rightarrow>
          if fi_status i \<noteq> Running \<or> fi_node i \<noteq> Some (es_node e) then set_escalation e EscCanceled now db
          else
            (let pending = pending_at (fi_id i) (es_node e) db
             in if pending = [] then set_escalation e EscCanceled now db
                else
                  set_escalation e EscDone now
                    (add_history (fi_id i) (Some (es_node e)) EvEscalate None
                      (EscalateDetail (map ft_assignee pending) (es_targets e))
                      (add_tasks (fi_id i) (es_node e) (es_targets e) (cancel_pending now pending db)))))"

text \<open>One claimed escalation: committed, or rolled back and recorded as failed.\<close>

definition process_one :: "int \<Rightarrow> escalation \<Rightarrow> flow \<Rightarrow> bool \<times> flow" where
  "process_one now e db =
     (case flow_commit (apply_escalation now e db) of
        Inr db1 \<Rightarrow> (True, db1)
      | Inl err \<Rightarrow> (False, db\<lparr>escalations := upd_by es_id (es_id e) (escalation_failed err) (escalations db)\<rparr>))"

text \<open>\<open>locked\<close> are the rows that \<open>SKIP LOCKED\<close> leaves out.\<close>

definition due_escalations :: "int \<Rightarrow> int set \<Rightarrow> nat \<Rightarrow> flow \<Rightarrow> escalation list" where
  "due_escalations now locked limit db =
     take limit (sort_key es_due_at
       (filter (\<lambda>e. es_status e = EscPending \<and> es_due_at e \<le> now \<and> es_id e \<notin> locked) (escalations db)))"

fun process_claimed :: "int \<Rightarrow> escalation list \<Rightarrow> flow \<Rightarrow> nat \<times> flow" where
  "process_claimed now [] db = (0, db)"
| "process_claimed now (e # es) db =
     (let (ok, db1) = process_one now e db; (n, db2) = process_claimed now es db1
      in ((if ok then Suc n else n), db2))"

definition process_due_escalations :: "int \<Rightarrow> int set \<Rightarrow> nat \<Rightarrow> flow \<Rightarrow> nat \<times> flow" where
  "process_due_escalations now locked limit db = process_claimed now (due_escalations now locked limit db) db"

section \<open>Queries\<close>

definition get_instance :: "string \<Rightarrow> flow \<Rightarrow> flow_error + flow_instance" where
  "get_instance iid db = someR (row_by fi_id iid (instances db)) NotFoundError"

definition get_history :: "string \<Rightarrow> flow \<Rightarrow> flow_error + history_event list" where
  "get_history iid db = bindR (get_instance iid db) (\<lambda>_. Inr (filter (\<lambda>h. he_instance h = iid) (history db)))"

definition list_tasks :: "string \<Rightarrow> task_status option \<Rightarrow> flow \<Rightarrow> flow_error + string option \<times> flow_task list" where
  "list_tasks iid st db =
     bindR (get_instance iid db) (\<lambda>i.
     Inr (fi_node i, sort_key ft_id
       (filter (\<lambda>t. ft_instance t = fi_id i \<and> (case st of None \<Rightarrow> True | Some s \<Rightarrow> ft_status t = s)) (tasks db))))"

definition instance_detail :: "string \<Rightarrow> flow \<Rightarrow> flow_error + payload" where
  "instance_detail iid db = bindR (get_instance iid db) (\<lambda>i. instance_payload iid db)"

text \<open>\<open>_template_view\<close>: the name, the number of the current version and the versions in order.\<close>

definition template_view :: "string \<Rightarrow> flow \<Rightarrow> flow_error + string \<times> int option \<times> template_version list" where
  "template_view key db =
     bindR (get_template key db) (\<lambda>t.
     let vs = sort_key tv_version (filter (\<lambda>v. tv_template_id v = tp_id t) (versions db));
         current = (case tp_current t of None \<Rightarrow> None
                    | Some c \<Rightarrow> map_option tv_version (find (\<lambda>v. tv_id v = c) vs))
     in Inr (tp_name t, current, vs))"

section \<open>Endpoints\<close>

definition commit_or_keep :: "flow_error + 'a \<times> flow \<Rightarrow> flow \<Rightarrow> (flow_error + 'a) \<times> flow" where
  "commit_or_keep r db = (case r of Inl e \<Rightarrow> (Inl e, db) | Inr (a, db1) \<Rightarrow> (Inr a, db1))"

definition len_between :: "nat \<Rightarrow> nat \<Rightarrow> string \<Rightarrow> bool" where
  "len_between a b s \<longleftrightarrow> a \<le> length s \<and> length s \<le> b"

definition key_ok :: "string \<Rightarrow> bool" where
  "key_ok s \<longleftrightarrow> len_between 1 64 s \<and> list_all node_id_char s"

datatype flow_op =
    CreateTemplate string string jobj
  | AddVersion string jobj
  | Publish int string int
  | Rollback string int
  | Start int string string string jobj string
  | Decide int string string int string int string string "string option"
  | Withdraw int string string string
  | Escalate int "int set" nat
  | EscalateRow int escalation

text \<open>What a deployment fixes: the hash of the fingerprints, Python's parser and its recursion limit.\<close>

record flow_setup =
  fs_hash :: fingerprint
  fs_parse :: parser
  fs_limit :: nat

definition template_change :: "string \<Rightarrow> (flow \<Rightarrow> flow_error + flow) \<Rightarrow> flow \<Rightarrow>
    flow_error + (string \<times> int option \<times> template_version list) \<times> flow" where
  "template_change key f db = bindR (f db) (\<lambda>db1. bindR (template_view key db1) (\<lambda>v. Inr (v, db1)))"

definition post_template :: "flow_setup \<Rightarrow> string \<Rightarrow> string \<Rightarrow> jobj \<Rightarrow> flow \<Rightarrow>
    flow_error + (string \<times> int option \<times> template_version list) \<times> flow" where
  "post_template su key name d db =
     (if \<not> (key_ok key \<and> len_between 1 128 name) then Inl RequestInvalid
      else template_change key (create_template (fs_parse su) (fs_limit su) key name d) db)"

definition post_version :: "flow_setup \<Rightarrow> string \<Rightarrow> jobj \<Rightarrow> flow \<Rightarrow>
    flow_error + (string \<times> int option \<times> template_version list) \<times> flow" where
  "post_version su key d db =
     bindR (get_template key db) (\<lambda>t. template_change key (add_version (fs_parse su) (fs_limit su) (tp_id t) d) db)"

definition publish :: "flow_setup \<Rightarrow> int \<Rightarrow> string \<Rightarrow> int \<Rightarrow> flow \<Rightarrow>
    flow_error + (string \<times> int option \<times> template_version list) \<times> flow" where
  "publish su now key n = template_change key (publish_version (fs_parse su) (fs_limit su) now key n)"

definition rollback :: "string \<Rightarrow> int \<Rightarrow> flow \<Rightarrow> flow_error + (string \<times> int option \<times> template_version list) \<times> flow" where
  "rollback key n db = (if n < 1 then Inl RequestInvalid else template_change key (rollback_template key n) db)"

definition post_instance :: "flow_setup \<Rightarrow> int \<Rightarrow> string \<Rightarrow> string \<Rightarrow> string \<Rightarrow> jobj \<Rightarrow> string \<Rightarrow> flow \<Rightarrow>
    flow_error + (payload \<times> bool) \<times> flow" where
  "post_instance su now iid key submitter ctx rid db =
     (if \<not> (len_between 1 64 key \<and> len_between 1 64 submitter \<and> len_between 1 64 rid) then Inl RequestInvalid
      else start_instance (fs_hash su) (fs_parse su) (fs_limit su) now iid key submitter ctx rid db)"

definition post_decision :: "flow_setup \<Rightarrow> int \<Rightarrow> string \<Rightarrow> string \<Rightarrow> int \<Rightarrow> string \<Rightarrow> int \<Rightarrow> string \<Rightarrow> string \<Rightarrow> string option \<Rightarrow>
    flow \<Rightarrow> flow_error + (payload \<times> bool) \<times> flow" where
  "post_decision su now default_reason iid tid rid version actor decision comment db =
     (if \<not> (decision \<in> {''approve'', ''reject''} \<and> len_between 1 64 actor \<and> 1 \<le> version \<and> len_between 1 64 rid \<and>
            (case comment of None \<Rightarrow> True | Some c \<Rightarrow> length c \<le> 2000)) then Inl RequestInvalid
      else decide_task (fs_hash su) (fs_parse su) (fs_limit su) now default_reason iid tid rid version actor decision comment db)"

definition post_withdraw :: "flow_setup \<Rightarrow> int \<Rightarrow> string \<Rightarrow> string \<Rightarrow> string \<Rightarrow> flow \<Rightarrow> flow_error + (payload \<times> bool) \<times> flow" where
  "post_withdraw su now iid rid actor db =
     (if \<not> (len_between 1 64 actor \<and> len_between 1 64 rid) then Inl RequestInvalid
      else withdraw (fs_hash su) now iid rid actor db)"

text \<open>
  The worker commits after every claimed row, so requests and other workers can come in between:
  \<open>Escalate\<close> is a whole batch, \<open>EscalateRow\<close> the transaction of one row of a batch, as it was
  read when the batch was claimed. The columns that tell a row apart never change.
\<close>

definition same_escalation :: "escalation \<Rightarrow> escalation \<Rightarrow> bool" where
  "same_escalation e e' \<longleftrightarrow> es_id e' = es_id e \<and> es_instance e' = es_instance e \<and> es_node e' = es_node e \<and>
     es_due_at e' = es_due_at e \<and> es_targets e' = es_targets e"

fun flow_step :: "flow_setup \<Rightarrow> flow_op \<Rightarrow> flow \<Rightarrow> flow" where
  "flow_step su (CreateTemplate key name d) db = snd (commit_or_keep (post_template su key name d db) db)"
| "flow_step su (AddVersion key d) db = snd (commit_or_keep (post_version su key d db) db)"
| "flow_step su (Publish now key n) db = snd (commit_or_keep (publish su now key n db) db)"
| "flow_step su (Rollback key n) db = snd (commit_or_keep (rollback key n db) db)"
| "flow_step su (Start now iid key submitter ctx rid) db =
     snd (commit_or_keep (post_instance su now iid key submitter ctx rid db) db)"
| "flow_step su (Decide now dr iid tid rid version actor decision comment) db =
     snd (commit_or_keep (post_decision su now dr iid tid rid version actor decision comment db) db)"
| "flow_step su (Withdraw now iid rid actor) db = snd (commit_or_keep (post_withdraw su now iid rid actor db) db)"
| "flow_step su (Escalate now locked limit) db = snd (process_due_escalations now locked limit db)"
| "flow_step su (EscalateRow now e) db = (if list_ex (same_escalation e) (escalations db) then snd (process_one now e db) else db)"

definition flow_run :: "flow_setup \<Rightarrow> flow_op list \<Rightarrow> flow \<Rightarrow> flow" where
  "flow_run su ops db = fold (flow_step su) ops db"

end
