(* ===== verification/Flow_Activation.thy ===== *)
theory Flow_Activation
  imports Flow_Decide
begin

text \<open>
  Activation of nodes: what it leaves behind when it returns, and that on an accepted definition it
  always returns within as many nested calls as there are nodes, at an approval with its tasks or
  at the end, or with one of the two errors a published definition can still cause.
\<close>

section \<open>The node index of an accepted definition\<close>

lemma node_index_rev: "node_index d = rev (flow_table d)"
  by (simp add: node_index_def flow_table_def node_entry_def[abs_def] str_of_def)

lemma wf_definitionD:
  assumes "wf_definition parse d"
  shows "distinct (map fst (flow_table d))" and "en \<in> set (flow_table d) \<Longrightarrow> wf_node parse (snd en)"
    and "acyclic (flow_rel (flow_table d))" and "length (flow_table d) = length (list_of (jget ''nodes'' d))"
proof -
  from assms obtain vs where vs: "jget ''nodes'' d = JList vs" "\<forall>v \<in> set vs. wf_entry parse v"
    unfolding wf_definition_def by blast
  show "distinct (map fst (flow_table d))" using assms by (simp add: wf_definition_def)
  show "acyclic (flow_rel (flow_table d))" using assms by (auto simp: wf_definition_def wf_graph_def)
  show "en \<in> set (flow_table d) \<Longrightarrow> wf_node parse (snd en)"
    using vs wf_entryD by (auto simp: flow_table_def list_of_def)
  show "length (flow_table d) = length (list_of (jget ''nodes'' d))" by (simp add: flow_table_def)
qed

lemma index_iff:
  assumes "wf_definition parse d"
  shows "map_of (node_index d) n = Some node \<longleftrightarrow> (n, node) \<in> set (flow_table d)"
proof -
  have "distinct (map fst (node_index d))"
    using wf_definitionD(1)[OF assms] by (simp add: node_index_rev rev_map[symmetric])
  then show ?thesis by (subst map_of_eq_Some_iff) (simp_all add: node_index_rev)
qed

lemma flow_target:
  assumes "wf_definition parse d" and "(a, b) \<in> flow_rel (flow_table d)"
  obtains node where "(b, node) \<in> set (flow_table d)"
  using assms unfolding wf_definition_def wf_graph_def flow_rel_def by force

lemma finite_flow_rel: "finite (flow_rel tab)"
proof (rule finite_subset)
  show "flow_rel tab \<subseteq> (\<Union>en \<in> set tab. {fst en} \<times> set (out_targets (snd en)))"
    by (force simp: flow_rel_def)
qed simp

section \<open>Branches\<close>

lemma wf_branch_eval:
  assumes "wf_branch parse b"
  shows "(\<exists>hit. safe_evaluate parse (str_of (jget ''when'' (obj_of b))) ctx = Inr hit) \<or>
    safe_evaluate parse (str_of (jget ''when'' (obj_of b))) ctx = Inl Incomparable"
proof -
  from assms obtain br w t where b: "b = JObj br" "jget ''when'' br = JStr w" and p: "parse_expression parse w = Inr t"
    unfolding wf_branch_def by blast
  from b have "str_of (jget ''when'' (obj_of b)) = w" by (simp add: obj_of_def str_of_def)
  moreover from p have "allowed t" by (rule admitted_allowed)
  ultimately show ?thesis using eval_errors(1)[of t ctx] p by (cases "eval t ctx") (auto simp: safe_evaluate_def)
qed

lemma pick_branch_cases:
  assumes "\<forall>b \<in> set bs. wf_branch parse b"
  shows "pick_branch parse ctx dflt idx bs = Inl (ConflictError ''condition'') \<or>
    (\<exists>chosen label. pick_branch parse ctx dflt idx bs = Inr (chosen, label) \<and>
      chosen \<in> set (map (\<lambda>b. str_of (jget ''next'' (obj_of b))) bs @ [dflt]))"
  using assms
proof (induction bs arbitrary: idx)
  case (Cons b bs)
  then have b: "wf_branch parse b" and bs: "\<forall>b \<in> set bs. wf_branch parse b" by simp_all
  from wf_branch_eval[OF b, of ctx] show ?case
  proof
    assume "\<exists>hit. safe_evaluate parse (str_of (jget ''when'' (obj_of b))) ctx = Inr hit"
    then obtain hit where hit: "safe_evaluate parse (str_of (jget ''when'' (obj_of b))) ctx = Inr hit" ..
    show ?thesis
    proof (cases hit)
      case False
      with hit have "pick_branch parse ctx dflt idx (b # bs) = pick_branch parse ctx dflt (Suc idx) bs" by simp
      with Cons.IH[OF bs, of "Suc idx"] show ?thesis by (elim disjE exE conjE) simp_all
    qed (simp add: hit)
  qed simp
qed simp

section \<open>Where an activation lands\<close>

lemma upd_instance_set_node [simp]:
  "upd_instance iid (set_node m) (upd_instance iid (set_node n) db) = upd_instance iid (set_node m) db"
  by (simp add: upd_instance_def upd_by_def set_node_def)

lemma add_history_upd: "add_history iid n t a d (upd_instance i f db) = upd_instance i f (add_history iid n t a d db)"
  by (simp add: add_history_def upd_instance_def)

definition landed :: "parser \<Rightarrow> int \<Rightarrow> string \<Rightarrow> node_table \<Rightarrow> string \<Rightarrow> jobj \<Rightarrow> history_event list \<Rightarrow> flow \<Rightarrow> flow \<Rightarrow> bool" where
  "landed parse now iid tab m node hs db db' \<longleftrightarrow>
     map_of tab m = Some node \<and> (\<forall>h \<in> set hs. he_instance h = iid \<and> he_type h = EvBranch) \<and>
     (let db1 = upd_instance iid (set_node m) (db\<lparr>history := history db @ hs\<rparr>) in
      (jget ''type'' node = JStr ''approval'' \<and>
        schedule now iid m (jget ''timeout'' node) (add_tasks iid m (str_list (jget ''assignees'' node)) db1) = Inr db') \<or>
      (jget ''type'' node = JStr ''end'' \<and>
        db' = add_history iid (Some m) EvComplete None NoDetail (upd_instance iid (close_instance Completed None now) db1)))"

definition edge_step :: "node_table \<Rightarrow> (string \<times> string) set" where
  "edge_step tab = {(a, b). \<exists>node. map_of tab a = Some node \<and> b \<in> set (out_targets node)}"

lemma pick_branch_target:
  "pick_branch parse ctx dflt idx bs = Inr (chosen, label) \<Longrightarrow>
   chosen \<in> set (map (\<lambda>b. str_of (jget ''next'' (obj_of b))) bs @ [dflt])"
  by (induction bs arbitrary: idx) (auto split: sum.splits expr_error.splits if_splits)

lemma activate_lands:
  "activate parse now iid ctx tab limit n db = Inr db' \<Longrightarrow>
   \<exists>m node hs. landed parse now iid tab m node hs db db' \<and> (n, m) \<in> (edge_step tab)\<^sup>*"
proof (induction limit arbitrary: n db)
  case (Suc limit)
  from Suc.prems obtain node where node: "map_of tab n = Some node" by (auto split: option.splits)
  let ?t = "jget ''type'' node"
  consider (approval) "?t = JStr ''approval''" | (cond) "?t = JStr ''condition''" | (fin) "?t = JStr ''end''"
    using Suc.prems node by (auto simp: Let_def split: if_splits)
  then show ?case
  proof cases
    case approval
    with Suc.prems node have "landed parse now iid tab n node [] db db'"
      by (simp add: landed_def Let_def)
    then show ?thesis by blast
  next
    case fin
    with Suc.prems node have "landed parse now iid tab n node [] db db'"
      by (simp add: landed_def Let_def)
    then show ?thesis by blast
  next
    case cond
    let ?db1 = "upd_instance iid (set_node n) db"
    from Suc.prems node cond obtain chosen label where
      p: "pick_branch parse ctx (str_of (jget ''default'' node)) 0 (list_of (jget ''branches'' node)) = Inr (chosen, label)"
      and rec: "activate parse now iid ctx tab limit chosen
        (add_history iid (Some n) EvBranch None (BranchDetail chosen label) ?db1) = Inr db'"
      by (auto simp: Let_def bindR_Inr_iff)
    have edge: "(n, chosen) \<in> edge_step tab"
      using pick_branch_target[OF p] node cond by (auto simp: edge_step_def out_targets_def)
    from Suc.IH[OF rec] obtain m mnode hs where
      l: "landed parse now iid tab m mnode hs (add_history iid (Some n) EvBranch None (BranchDetail chosen label) ?db1) db'"
      and r: "(chosen, m) \<in> (edge_step tab)\<^sup>*" by blast
    let ?h = "\<lparr>he_instance = iid, he_node = Some n, he_type = EvBranch, he_actor = None, he_detail = BranchDetail chosen label\<rparr>"
    have same: "upd_instance iid (set_node m) (add_history iid (Some n) EvBranch None (BranchDetail chosen label) ?db1
        \<lparr>history := history (add_history iid (Some n) EvBranch None (BranchDetail chosen label) ?db1) @ hs\<rparr>) =
      upd_instance iid (set_node m) (db\<lparr>history := history db @ ?h # hs\<rparr>)"
      by (simp add: add_history_def upd_instance_def upd_by_def set_node_def)
    have "landed parse now iid tab m mnode (?h # hs) db db'"
      using l unfolding landed_def same by simp
    with r edge show ?thesis by (blast intro: converse_rtrancl_into_rtrancl)
  qed
qed simp

section \<open>Activation returns\<close>

text \<open>\<open>start_node\<close> is the node of type start, as the language intends; the validation does not ask for it.\<close>

definition proper_start :: "jobj \<Rightarrow> bool" where
  "proper_start d \<longleftrightarrow>
     list_ex (\<lambda>(nid, node). JStr nid = jget ''start_node'' d \<and> jget ''type'' node = JStr ''start'') (flow_table d)"

lemma single_start:
  assumes "length (filter P tab) = 1" and "x \<in> set tab" "P x" "y \<in> set tab" "P y"
  shows "x = y"
proof -
  obtain z where "filter P tab = [z]" using assms(1) by (auto simp: length_Suc_conv)
  then have "{e \<in> set tab. P e} = {z}" by (metis set_filter list.simps(15) empty_set)
  moreover have "x \<in> {e \<in> set tab. P e}" "y \<in> {e \<in> set tab. P e}" using assms(2-) by simp_all
  ultimately show ?thesis by simp
qed

lemma no_edge_to_start:
  assumes wf: "wf_definition parse d" and st: "proper_start d" and e: "(a, b) \<in> flow_rel (flow_table d)"
    and b: "(b, node) \<in> set (flow_table d)"
  shows "jget ''type'' node \<noteq> JStr ''start''"
proof
  assume t: "jget ''type'' node = JStr ''start''"
  let ?P = "\<lambda>en :: string \<times> jobj. jget ''type'' (snd en) = JStr ''start''"
  obtain s snode where s: "(s, snode) \<in> set (flow_table d)" "jget ''start_node'' d = JStr s" "?P (s, snode)"
    using st by (auto simp: proper_start_def list_ex_iff)
  have one: "length (filter ?P (flow_table d)) = 1" using wf by (simp add: wf_definition_def)
  have bs: "b = s" using single_start[where P = ?P, OF one b _ s(1)] t s(3) by simp
  have g: "wf_graph (flow_table d) s" using wf s(2) by (auto simp: wf_definition_def)
  have "a \<in> fst ` set (flow_table d)" using e by (force simp: flow_rel_def)
  with g have "(s, a) \<in> (flow_rel (flow_table d))\<^sup>*" by (auto simp: wf_graph_def)
  then have "(s, s) \<in> (flow_rel (flow_table d))\<^sup>+" using e unfolding bs by (rule rtrancl_into_trancl1)
  then show False using g by (simp add: wf_graph_def acyclic_def)
qed

lemma schedule_cases:
  assumes "wf_timeout v"
  shows "schedule now iid nid v db = Inl (PyError ''OverflowError'') \<or> (\<exists>db'. schedule now iid nid v db = Inr db')"
proof (cases "v = JNull")
  case False
  with assms obtain d n where "v = JObj d" "jget ''seconds'' d = JInt n" unfolding wf_timeout_def by blast
  then show ?thesis by (cases "now + n > MAX_TIMESTAMP") (simp_all add: schedule_def obj_of_def)
qed (simp add: schedule_def truthy_def)

lemma descendants_shrink:
  assumes "acyclic R" and "finite R" and "(a, b) \<in> R"
  shows "card (R\<^sup>+ `` {b}) < card (R\<^sup>+ `` {a})"
proof (rule psubset_card_mono)
  show "finite (R\<^sup>+ `` {a})" by (rule finite_subset[of _ "snd ` (R\<^sup>+)"]) (force, simp add: assms(2))
  have "b \<notin> R\<^sup>+ `` {b}" using assms(1) by (auto simp: acyclic_def)
  moreover have "R\<^sup>+ `` {b} \<subseteq> R\<^sup>+ `` {a}" "b \<in> R\<^sup>+ `` {a}" using assms(3) by (auto intro: trancl_into_trancl2)
  ultimately show "R\<^sup>+ `` {b} \<subset> R\<^sup>+ `` {a}" by blast
qed

lemma condition_targets:
  "jget ''type'' node = JStr ''condition'' \<Longrightarrow>
   out_targets node = map (\<lambda>b. str_of (jget ''next'' (obj_of b))) (list_of (jget ''branches'' node)) @ [str_of (jget ''default'' node)]"
  by (simp add: out_targets_def)

lemma activate_returns:
  assumes wf: "wf_definition parse d" and st: "proper_start d"
  shows "(n, node) \<in> set (flow_table d) \<Longrightarrow> jget ''type'' node \<noteq> JStr ''start'' \<Longrightarrow>
    card ((flow_rel (flow_table d))\<^sup>+ `` {n}) < limit \<Longrightarrow>
    activate parse now iid ctx (node_index d) limit n db \<in> {Inl (ConflictError ''condition''), Inl (PyError ''OverflowError'')} \<or>
    (\<exists>db'. activate parse now iid ctx (node_index d) limit n db = Inr db')"
proof (induction limit arbitrary: n node db)
  case (Suc limit)
  have idx: "map_of (node_index d) n = Some node" using index_iff[OF wf] Suc.prems(1) by simp
  have "wf_node parse (snd (n, node))" by (rule wf_definitionD(2)[OF wf Suc.prems(1)])
  with Suc.prems(2) consider (fin) "jget ''type'' node = JStr ''end''"
    | (approval) "jget ''type'' node = JStr ''approval''" "wf_timeout (jget ''timeout'' node)"
    | (cond) "jget ''type'' node = JStr ''condition''" "\<forall>b \<in> set (list_of (jget ''branches'' node)). wf_branch parse b"
    by (auto simp: wf_node_def wf_approval_def wf_condition_def list_of_def)
  then show ?case
  proof cases
    case fin
    then show ?thesis by (simp add: idx)
  next
    case approval
    let ?db1 = "add_tasks iid n (str_list (jget ''assignees'' node)) (upd_instance iid (set_node n) db)"
    have "activate parse now iid ctx (node_index d) (Suc limit) n db = schedule now iid n (jget ''timeout'' node) ?db1"
      by (simp add: idx approval(1))
    then show ?thesis using schedule_cases[OF approval(2), of now iid n ?db1] by auto
  next
    case cond
    let ?db1 = "upd_instance iid (set_node n) db"
    let ?dflt = "str_of (jget ''default'' node)" and ?bs = "list_of (jget ''branches'' node)"
    have act: "activate parse now iid ctx (node_index d) (Suc limit) n db =
        bindR (pick_branch parse ctx ?dflt 0 ?bs) (\<lambda>(chosen, label).
          activate parse now iid ctx (node_index d) limit chosen
            (add_history iid (Some n) EvBranch None (BranchDetail chosen label) ?db1))"
      by (simp add: idx cond(1))
    from pick_branch_cases[OF cond(2), of ctx ?dflt 0] consider
        (stuck) "pick_branch parse ctx ?dflt 0 ?bs = Inl (ConflictError ''condition'')"
      | (picked) chosen label where "pick_branch parse ctx ?dflt 0 ?bs = Inr (chosen, label)" "chosen \<in> set (out_targets node)"
      unfolding condition_targets[OF cond(1)] by metis
    then show ?thesis
    proof cases
      case stuck
      then show ?thesis unfolding act by simp
    next
      case (picked chosen label)
      have edge: "(n, chosen) \<in> flow_rel (flow_table d)" using Suc.prems(1) picked(2) by (auto simp: flow_rel_def)
      obtain cnode where c: "(chosen, cnode) \<in> set (flow_table d)" by (rule flow_target[OF wf edge])
      have "card ((flow_rel (flow_table d))\<^sup>+ `` {chosen}) < limit"
        using descendants_shrink[OF wf_definitionD(3)[OF wf] finite_flow_rel edge] Suc.prems(3) by simp
      with Suc.IH[OF c no_edge_to_start[OF wf st edge c]] show ?thesis unfolding act picked(1) by simp
    qed
  qed
qed simp

lemma edge_step_index: "wf_definition parse d \<Longrightarrow> edge_step (node_index d) = flow_rel (flow_table d)"
  using index_iff[of parse d] by (auto simp: edge_step_def flow_rel_def)

lemma descendants_bound:
  assumes wf: "wf_definition parse d" and n: "(n, node) \<in> set (flow_table d)"
  shows "card ((flow_rel (flow_table d))\<^sup>+ `` {n}) < length (flow_table d)"
proof -
  let ?R = "flow_rel (flow_table d)" and ?N = "fst ` set (flow_table d)"
  have "b \<in> ?N" if "(n, b) \<in> ?R\<^sup>+" for b
    using that by (rule tranclE) (metis flow_target[OF wf] fst_conv image_eqI)+
  moreover have "n \<notin> ?R\<^sup>+ `` {n}" using wf_definitionD(3)[OF wf] by (auto simp: acyclic_def)
  moreover have "n \<in> ?N" using n by force
  ultimately have "?R\<^sup>+ `` {n} \<subset> ?N" by blast
  then have "card (?R\<^sup>+ `` {n}) < card ?N" by (intro psubset_card_mono) simp_all
  also have "\<dots> \<le> length (flow_table d)" using card_length[of "map fst (flow_table d)"] by simp
  finally show ?thesis .
qed

lemma linear_next:
  assumes "wf_definition parse d" and "(from, node) \<in> set (flow_table d)"
    and "jget ''type'' node \<in> {JStr ''start'', JStr ''approval''}"
  obtains s where "jget ''next'' node = JStr s" "(from, s) \<in> flow_rel (flow_table d)"
proof -
  have "wf_node parse (snd (from, node))" by (rule wf_definitionD(2)[OF assms(1,2)])
  with assms(3) obtain s where s: "jget ''next'' node = JStr s" by (auto simp: wf_node_def wf_approval_def)
  then have "(from, s) \<in> flow_rel (flow_table d)"
    using assms(2,3) unfolding flow_rel_def by (auto simp: out_targets_def str_of_def intro!: exI[of _ node])
  with s show thesis by (rule that)
qed

text \<open>C18: in an accepted definition whose \<open>start_node\<close> is its start, with Python's stack at least as
  deep as there are nodes, advancing from the start or from an approval always returns: it stops at
  a later approval, whose tasks it creates, or at the end, which it completes, or it fails with one
  of two errors, a condition that compares incomparable values or a timeout beyond the year 9999.\<close>

theorem advance_terminates:
  assumes wf: "wf_definition parse d" and st: "proper_start d" and n: "(from, node) \<in> set (flow_table d)"
    and t: "jget ''type'' node \<in> {JStr ''start'', JStr ''approval''}" and limit: "length (flow_table d) \<le> limit"
  shows "advance parse now iid ctx (node_index d) limit from db \<in>
      {Inl (ConflictError ''condition''), Inl (PyError ''OverflowError'')} \<or>
    (\<exists>db' m mnode hs. advance parse now iid ctx (node_index d) limit from db = Inr db' \<and>
      landed parse now iid (node_index d) m mnode hs db db' \<and> (from, m) \<in> (flow_rel (flow_table d))\<^sup>+)"
proof -
  obtain s where s: "jget ''next'' node = JStr s" "(from, s) \<in> flow_rel (flow_table d)"
    by (rule linear_next[OF wf n t])
  obtain snode where sn: "(s, snode) \<in> set (flow_table d)" by (rule flow_target[OF wf s(2)])
  have adv: "advance parse now iid ctx (node_index d) limit from db = activate parse now iid ctx (node_index d) limit s db"
    using index_iff[OF wf, of "from" node] n s(1) by (simp add: advance_def)
  have "card ((flow_rel (flow_table d))\<^sup>+ `` {s}) < limit" using descendants_bound[OF wf sn] limit by simp
  from activate_returns[OF wf st sn no_edge_to_start[OF wf st s(2) sn] this, of now iid ctx db] consider
      "advance parse now iid ctx (node_index d) limit from db \<in> {Inl (ConflictError ''condition''), Inl (PyError ''OverflowError'')}"
    | db' where "activate parse now iid ctx (node_index d) limit s db = Inr db'"
    unfolding adv by blast
  then show ?thesis
  proof cases
    case (2 db')
    from activate_lands[OF 2] obtain m mnode hs where l: "landed parse now iid (node_index d) m mnode hs db db'"
      and p: "(s, m) \<in> (flow_rel (flow_table d))\<^sup>*" unfolding edge_step_index[OF wf] by blast
    from s(2) p have "(from, m) \<in> (flow_rel (flow_table d))\<^sup>+" by (rule rtrancl_into_trancl2)
    with l 2 show ?thesis unfolding adv by blast
  qed blast
qed

definition no_rows :: flow where
  "no_rows = \<lparr>templates = [], versions = [], instances = [], tasks = [], history = [], escalations = [],
     requests = [], next_id = 1\<rparr>"

lemma leave_demo_ok:
  "wf_definition sample_parser leave_demo" "proper_start leave_demo" "length (flow_table leave_demo) \<le> 5"
  "advance sample_parser 0 ''i'' [(''amount'', JStr ''much'')] (node_index leave_demo) 5 ''dept_approval'' no_rows =
     Inl (ConflictError ''condition'')"
proof -
  have "validate_definition sample_parser 10 (JObj leave_demo) = Inr ()" by code_simp
  then show "wf_definition sample_parser leave_demo" by (rule validate_definition_sound)
qed code_simp+

theorem advance_terminates_witness:
  "\<exists>db' m mnode hs. advance sample_parser 0 ''i'' [(''amount'', JInt 20000)] (node_index leave_demo) 5 ''dept_approval'' no_rows = Inr db' \<and>
     landed sample_parser 0 ''i'' (node_index leave_demo) m mnode hs no_rows db' \<and>
     (''dept_approval'', m) \<in> (flow_rel (flow_table leave_demo))\<^sup>+"
proof -
  obtain node where n: "map_of (node_index leave_demo) ''dept_approval'' = Some node"
      "jget ''type'' node = JStr ''approval''"
  proof -
    have "(case map_of (node_index leave_demo) ''dept_approval'' of None \<Rightarrow> False
        | Some node \<Rightarrow> jget ''type'' node = JStr ''approval'')" by code_simp
    then show thesis by (auto split: option.splits intro: that)
  qed
  then have "(''dept_approval'', node) \<in> set (flow_table leave_demo)" using index_iff[OF leave_demo_ok(1)] by simp
  moreover have "case advance sample_parser 0 ''i'' [(''amount'', JInt 20000)] (node_index leave_demo) 5 ''dept_approval'' no_rows of
      Inl e \<Rightarrow> False | Inr db' \<Rightarrow> True" by code_simp
  ultimately show ?thesis
    using advance_terminates[OF leave_demo_ok(1,2) _ _ leave_demo_ok(3), of "''dept_approval''" node 0 "''i''"
      "[(''amount'', JInt 20000)]" no_rows] n(2) by auto
qed

end
