(* ===== verification/Flow_Evolution.thy ===== *)
theory Flow_Evolution
  imports Flow_Activation
begin

text \<open>
  How the database of the workflow engine evolves: rows are only added or changed in place, a
  published version, a closed instance, a handled task and an answered request are never changed
  again, and the history is only appended to. Each elementary write moves forward in this order.
\<close>

section \<open>The order\<close>

definition grows :: "('a \<Rightarrow> 'a \<Rightarrow> bool) \<Rightarrow> 'a list \<Rightarrow> 'a list \<Rightarrow> bool" where
  "grows R xs ys \<longleftrightarrow> (\<exists>as bs. ys = as @ bs \<and> list_all2 R xs as)"

lemma grows_refl: "(\<And>x. R x x) \<Longrightarrow> grows R xs xs"
  unfolding grows_def by (rule exI[of _ xs], rule exI[of _ "[]"]) (simp add: list.rel_refl)

lemma grows_append: "(\<And>x. R x x) \<Longrightarrow> grows R xs (xs @ zs)"
  unfolding grows_def by (rule exI[of _ xs], rule exI[of _ zs]) (simp add: list.rel_refl)

lemma grows_map: "(\<And>x. x \<in> set xs \<Longrightarrow> R x (f x)) \<Longrightarrow> grows R xs (map f xs)"
  unfolding grows_def by (rule exI[of _ "map f xs"], rule exI[of _ "[]"]) (auto simp: list_all2_conv_all_nth)

lemma grows_upd_by: "(\<And>x. x \<in> set xs \<Longrightarrow> key x = k \<Longrightarrow> R x (f x)) \<Longrightarrow> (\<And>x. R x x) \<Longrightarrow> grows R xs (upd_by key k f xs)"
  unfolding upd_by_def by (rule grows_map) auto

lemma grows_trans:
  assumes tr: "\<And>x y z. R x y \<Longrightarrow> R y z \<Longrightarrow> R x z" and "grows R xs ys" "grows R ys zs"
  shows "grows R xs zs"
proof -
  obtain as bs where ys: "ys = as @ bs" and 1: "list_all2 R xs as" using assms(2) unfolding grows_def by blast
  obtain cs ds where zs: "zs = cs @ ds" and 2: "list_all2 R ys cs" using assms(3) unfolding grows_def by blast
  from 2 obtain cs1 cs2 where cs: "cs = cs1 @ cs2" and 3: "list_all2 R as cs1"
    unfolding ys by (auto simp: list_all2_append1)
  have "list_all2 R xs cs1" by (rule list_all2_trans[OF tr 1 3])
  then show ?thesis unfolding grows_def zs cs by (intro exI[of _ cs1] exI[of _ "cs2 @ ds"]) simp
qed

lemma grows_mem: "grows R xs ys \<Longrightarrow> x \<in> set xs \<Longrightarrow> \<exists>y \<in> set ys. R x y"
proof -
  assume "grows R xs ys" and x: "x \<in> set xs"
  then obtain as bs where ys: "ys = as @ bs" and "list_all2 R xs as" unfolding grows_def by blast
  from this(2) x have "\<exists>y \<in> set as. R x y" by (induction rule: list_all2_induct) auto
  then show ?thesis by (auto simp: ys)
qed

definition template_le :: "template \<Rightarrow> template \<Rightarrow> bool" where
  "template_le t t' \<longleftrightarrow> tp_id t' = tp_id t \<and> tp_key t' = tp_key t \<and> tp_name t' = tp_name t"

definition version_le :: "template_version \<Rightarrow> template_version \<Rightarrow> bool" where
  "version_le v v' \<longleftrightarrow> tv_id v' = tv_id v \<and> tv_template_id v' = tv_template_id v \<and> tv_version v' = tv_version v \<and>
     tv_definition v' = tv_definition v \<and> (tv_status v = Published \<longrightarrow> v' = v)"

definition instance_le :: "flow_instance \<Rightarrow> flow_instance \<Rightarrow> bool" where
  "instance_le i i' \<longleftrightarrow> fi_id i' = fi_id i \<and> fi_template_id i' = fi_template_id i \<and>
     fi_version_id i' = fi_version_id i \<and> fi_version_number i' = fi_version_number i \<and>
     fi_submitter i' = fi_submitter i \<and> fi_context i' = fi_context i \<and>
     fi_start_request i' = fi_start_request i \<and> (fi_status i \<in> CLOSED \<longrightarrow> i' = i)"

definition task_le :: "flow_task \<Rightarrow> flow_task \<Rightarrow> bool" where
  "task_le t t' \<longleftrightarrow> ft_id t' = ft_id t \<and> ft_instance t' = ft_instance t \<and> ft_node t' = ft_node t \<and>
     ft_assignee t' = ft_assignee t \<and> (ft_status t \<noteq> TaskPending \<longrightarrow> t' = t)"

definition escalation_le :: "escalation \<Rightarrow> escalation \<Rightarrow> bool" where
  "escalation_le e e' \<longleftrightarrow> es_id e' = es_id e \<and> es_instance e' = es_instance e \<and> es_node e' = es_node e \<and>
     es_due_at e' = es_due_at e \<and> es_targets e' = es_targets e"

definition request_le :: "idem_record \<Rightarrow> idem_record \<Rightarrow> bool" where
  "request_le r r' \<longleftrightarrow> ir_request r' = ir_request r \<and> ir_scope r' = ir_scope r \<and>
     ir_fingerprint r' = ir_fingerprint r \<and> (ir_response r \<noteq> None \<longrightarrow> r' = r)"

definition flow_le :: "flow \<Rightarrow> flow \<Rightarrow> bool" where
  "flow_le db db' \<longleftrightarrow> grows template_le (templates db) (templates db') \<and>
     grows version_le (versions db) (versions db') \<and> grows instance_le (instances db) (instances db') \<and>
     grows task_le (tasks db) (tasks db') \<and> prefix (history db) (history db') \<and>
     grows escalation_le (escalations db) (escalations db') \<and> grows request_le (requests db) (requests db')"

lemmas row_le_defs = template_le_def version_le_def instance_le_def task_le_def escalation_le_def request_le_def

lemma row_le_refl [simp]:
  "template_le t t" "version_le v v" "instance_le i i" "task_le k k" "escalation_le e e" "request_le r r"
  by (simp_all add: row_le_defs)

lemma row_le_trans:
  "template_le t t' \<Longrightarrow> template_le t' t'' \<Longrightarrow> template_le t t''"
  "version_le v v' \<Longrightarrow> version_le v' v'' \<Longrightarrow> version_le v v''"
  "instance_le i i' \<Longrightarrow> instance_le i' i'' \<Longrightarrow> instance_le i i''"
  "task_le k k' \<Longrightarrow> task_le k' k'' \<Longrightarrow> task_le k k''"
  "escalation_le e e' \<Longrightarrow> escalation_le e' e'' \<Longrightarrow> escalation_le e e''"
  "request_le r r' \<Longrightarrow> request_le r' r'' \<Longrightarrow> request_le r r''"
  by (auto simp: row_le_defs)

lemma grows_row_refl [simp]:
  "grows template_le ts ts" "grows version_le vs vs" "grows instance_le is is" "grows task_le ks ks"
  "grows escalation_le es es" "grows request_le rs rs"
  by (simp_all add: grows_refl)

lemma flow_le_refl [simp, intro]: "flow_le db db"
  by (simp add: flow_le_def)

lemma flow_le_trans: "flow_le a b \<Longrightarrow> flow_le b c \<Longrightarrow> flow_le a c"
  unfolding flow_le_def by (auto intro: grows_trans row_le_trans prefix_order.trans)

section \<open>Elementary writes\<close>

definition running_rows :: "string \<Rightarrow> flow \<Rightarrow> bool" where
  "running_rows iid db \<longleftrightarrow> (\<forall>i \<in> set (instances db). fi_id i = iid \<longrightarrow> fi_status i = Running)"

lemma upd_instance_le:
  assumes "\<And>i. i \<in> set (instances db) \<Longrightarrow> fi_id i = iid \<Longrightarrow> instance_le i (f i)"
  shows "flow_le db (upd_instance iid f db)"
  using assms by (simp add: flow_le_def upd_instance_def grows_upd_by)

lemma set_node_le:
  assumes "running_rows iid db"
  shows "flow_le db (upd_instance iid (set_node n) db)"
  by (rule upd_instance_le) (use assms in \<open>simp add: running_rows_def instance_le_def set_node_def CLOSED_def\<close>)

lemma running_rows_set_node: "running_rows iid db \<Longrightarrow> running_rows iid (upd_instance iid (set_node n) db)"
  by (simp add: running_rows_def upd_instance_def upd_by_def set_node_def ball_Un)

lemma close_le:
  assumes "running_rows iid db"
  shows "flow_le db (upd_instance iid (close_instance st reason now) db)"
  by (rule upd_instance_le) (use assms in \<open>simp add: running_rows_def instance_le_def close_instance_def CLOSED_def\<close>)

lemma add_history_flow_le [simp]: "flow_le db (add_history iid n t a d db)"
  by (simp add: flow_le_def add_history_def)

lemma add_task_flow_le [simp]: "flow_le db (add_task iid n a db)"
  by (simp add: flow_le_def add_task_def grows_append)

lemma add_tasks_flow_le [simp]: "flow_le db (add_tasks iid n as db)"
  unfolding add_tasks_def
  by (induction as arbitrary: db) (auto intro: flow_le_trans[OF add_task_flow_le])

lemma cancel_pending_le [simp]: "flow_le db (cancel_pending now ts db)"
  by (auto simp: flow_le_def cancel_pending_def cancel_task_def task_le_def intro!: grows_map)

lemma cancel_escalations_le [simp]: "flow_le db (cancel_escalations now iid nid db)"
  by (cases nid) (auto simp: flow_le_def cancel_escalations_def cancel_escalation_def escalation_le_def intro!: grows_map)

lemma new_escalation_le [simp]: "flow_le db (new_escalation iid nid due targets db)"
  by (simp add: flow_le_def new_escalation_def grows_append)

lemma set_escalation_le [simp]: "flow_le db (set_escalation e st now db)"
  by (auto simp: flow_le_def set_escalation_def end_escalation_def escalation_le_def intro!: grows_upd_by)

lemma escalation_failed_le [simp]:
  "flow_le db (db\<lparr>escalations := upd_by es_id k (escalation_failed err) (escalations db)\<rparr>)"
  by (auto simp: flow_le_def escalation_failed_def escalation_le_def intro!: grows_upd_by)

lemma other_tables_same [simp]:
  "requests (add_tasks iid n as db) = requests db" "templates (add_tasks iid n as db) = templates db"
  "versions (add_tasks iid n as db) = versions db" "instances (add_tasks iid n as db) = instances db"
  "escalations (add_tasks iid n as db) = escalations db" "history (add_tasks iid n as db) = history db"
  unfolding add_tasks_def by (induction as arbitrary: db) (simp_all add: add_task_def)

text \<open>The writes that need no hypothesis, at the end of a sequence of writes.\<close>

lemma flow_le_after [intro]:
  "flow_le a b \<Longrightarrow> flow_le a (add_history iid nid t x d b)" "flow_le a b \<Longrightarrow> flow_le a (add_tasks iid n as b)"
  "flow_le a b \<Longrightarrow> flow_le a (cancel_pending now ts b)" "flow_le a b \<Longrightarrow> flow_le a (cancel_escalations now iid nid b)"
  "flow_le a b \<Longrightarrow> flow_le a (new_escalation iid n due targets b)" "flow_le a b \<Longrightarrow> flow_le a (set_escalation e st now b)"
  by (rule flow_le_trans; assumption?; simp)+

section \<open>Operations\<close>

lemma running_rows_same [simp]:
  "running_rows iid (add_history jid n t a d db) = running_rows iid db"
  "running_rows iid (add_tasks jid nid as db) = running_rows iid db"
  "running_rows iid (cancel_pending now ts db) = running_rows iid db"
  "running_rows iid (cancel_escalations now jid n db) = running_rows iid db"
  "running_rows iid (db\<lparr>tasks := ts\<rparr>) = running_rows iid db"
  "running_rows iid (db\<lparr>history := hs\<rparr>) = running_rows iid db"
  by (simp_all add: running_rows_def add_history_def cancel_pending_def cancel_escalations_def split: option.split)

lemma schedule_le: "schedule now iid nid v db = Inr db' \<Longrightarrow> flow_le db db'"
  by (auto simp: schedule_def split: if_splits jval.splits)

lemma landed_le:
  assumes run: "running_rows iid db" and l: "landed parse now iid tab m node hs db db'"
  shows "flow_le db db'"
proof -
  let ?db0 = "db\<lparr>history := history db @ hs\<rparr>" and ?db1 = "upd_instance iid (set_node m) (db\<lparr>history := history db @ hs\<rparr>)"
  have "flow_le db ?db0" by (simp add: flow_le_def)
  moreover have "flow_le ?db0 ?db1" using run by (intro set_node_le) simp
  ultimately have 1: "flow_le db ?db1" by (rule flow_le_trans)
  have run1: "running_rows iid ?db1" using run by (intro running_rows_set_node) simp
  from l consider
      (approval) "schedule now iid m (jget ''timeout'' node) (add_tasks iid m (str_list (jget ''assignees'' node)) ?db1) = Inr db'"
    | (fin) "db' = add_history iid (Some m) EvComplete None NoDetail (upd_instance iid (close_instance Completed None now) ?db1)"
    unfolding landed_def Let_def by blast
  then show ?thesis
  proof cases
    case approval
    from schedule_le[OF this] have "flow_le (add_tasks iid m (str_list (jget ''assignees'' node)) ?db1) db'" .
    then show ?thesis using 1 by (blast intro: flow_le_trans add_tasks_flow_le)
  next
    case fin
    then show ?thesis using 1 close_le[OF run1] by (blast intro: flow_le_trans add_history_flow_le)
  qed
qed

lemma advance_landed:
  assumes "advance parse now iid ctx tab limit from db = Inr db'"
  obtains m node hs where "landed parse now iid tab m node hs db db'"
  using assms activate_lands by (fastforce simp: advance_def split: option.splits jval.splits)

lemma advance_le:
  "advance parse now iid ctx tab limit from db = Inr db' \<Longrightarrow> running_rows iid db \<Longrightarrow> flow_le db db'"
  by (erule advance_landed) (rule landed_le)

lemma reject_node_le: "running_rows iid db \<Longrightarrow> flow_le db (reject_node now iid nid actor reason mode db)"
  unfolding reject_node_def
  by (rule flow_le_trans[OF cancel_escalations_le flow_le_trans[OF close_le add_history_flow_le]]) simp

lemma handle_rejection_le:
  assumes "running_rows iid db"
  shows "flow_le db (handle_rejection now iid nid mode actor comment dr db)"
proof -
  have "flow_le db (reject_node now iid nid actor r mode (if c then cancel_pending now ts db else db))" for r c ts
    using assms by (cases c) (auto intro: flow_le_trans[OF cancel_pending_le reject_node_le] reject_node_le)
  then show ?thesis by (simp add: handle_rejection_def Let_def)
qed

text \<open>The state in which a finished approval is left.\<close>

definition approved_state :: "int \<Rightarrow> string \<Rightarrow> string \<Rightarrow> string \<Rightarrow> flow \<Rightarrow> flow" where
  "approved_state now iid nid mode db =
     (let pending = pending_at iid nid db;
          db1 = (if pending \<noteq> []
                 then add_history iid (Some nid) EvTasksCanceled None (ReasonDetail ''any_mode_first_approval'')
                        (cancel_pending now pending db)
                 else db)
      in add_history iid (Some nid) EvNodeApprove None (ModeDetail mode) (cancel_escalations now iid (Some nid) db1))"

lemma handle_approval_eq:
  "handle_approval parse limit now i nid mode db =
     (if mode \<noteq> ''any'' \<and> pending_at (fi_id i) nid db \<noteq> [] then Inr db
      else bindR (bound_definition i (approved_state now (fi_id i) nid mode db)) (\<lambda>d.
        advance parse now (fi_id i) (fi_context i) (node_index d) limit nid (approved_state now (fi_id i) nid mode db)))"
  by (simp add: handle_approval_def approved_state_def Let_def)

lemma approved_state_le: "flow_le db (approved_state now iid nid mode db)"
  by (auto simp: approved_state_def Let_def intro!: flow_le_after)

lemma running_rows_approved [simp]: "running_rows iid (approved_state now jid nid mode db) = running_rows iid db"
  by (simp add: approved_state_def Let_def)

lemma handle_approval_le:
  "handle_approval parse limit now i nid mode db = Inr db' \<Longrightarrow> running_rows (fi_id i) db \<Longrightarrow> flow_le db db'"
  using approved_state_le[of db now "fi_id i" nid mode]
  by (auto simp: handle_approval_eq bindR_Inr_iff split: if_splits dest!: advance_le intro: flow_le_trans)

lemma decide_row_le:
  assumes "distinct (map ft_id (tasks db))" and "row_by ft_id tid (tasks db) = Some t" and "ft_status t = TaskPending"
  shows "flow_le db (db\<lparr>tasks := upd_by ft_id tid (decide_row st actor comment now) (tasks db)\<rparr>)"
proof -
  have "x = t" if "x \<in> set (tasks db)" "ft_id x = tid" for x
    using row_by_unique[OF assms(1) that] assms(2) by simp
  then show ?thesis using assms(3) by (auto simp: flow_le_def task_le_def decide_row_def intro!: grows_upd_by)
qed

lemma decide_checked_le:
  assumes u: "distinct (map ft_id (tasks db))" and t: "row_by ft_id (ft_id t) (tasks db) = Some t" "ft_status t = TaskPending"
    and run: "running_rows (fi_id i) db" and r: "decide_checked parse limit now dr i t actor st comment db = Inr db'"
  shows "flow_le db db'"
proof -
  let ?db1 = "db\<lparr>tasks := upd_by ft_id (ft_id t) (decide_row st actor comment now) (tasks db)\<rparr>"
  let ?db2 = "\<lambda>mode. add_history (fi_id i) (Some (ft_node t)) (if st = TaskApproved then EvTaskApprove else EvTaskReject)
      (Some actor) (TaskDetail (ft_id t) mode comment) ?db1"
  have "flow_le db (?db2 mode)" for mode
    by (rule flow_le_trans[OF decide_row_le[OF u t] add_history_flow_le])
  moreover obtain mode where "db' = handle_rejection now (fi_id i) (ft_node t) mode actor comment dr (?db2 mode) \<or>
      handle_approval parse limit now i (ft_node t) mode (?db2 mode) = Inr db'"
    using r by (auto simp: decide_checked_def Let_def bindR_Inr_iff split: option.splits if_splits)
  then have "flow_le (?db2 mode) db'" using run handle_rejection_le handle_approval_le by fastforce
  ultimately show ?thesis by (blast intro: flow_le_trans)
qed

end
