(* ===== verification/Flow_Rest.thy ===== *)
theory Flow_Rest
  imports Flow_Evolution
begin

text \<open>
  What a request of the workflow engine leaves of an instance: at rest, that is running at an
  approval whose pending tasks are all its own, or closed without pending tasks; and that it does
  not touch the other instances.
\<close>

section \<open>At rest\<close>

definition approval_at :: "jobj \<Rightarrow> string \<Rightarrow> bool" where
  "approval_at d n \<longleftrightarrow>
     (case map_of (node_index d) n of None \<Rightarrow> False | Some node \<Rightarrow> jget ''type'' node = JStr ''approval'')"

definition version_bound :: "template_version list \<Rightarrow> flow_instance \<Rightarrow> template_version \<Rightarrow> bool" where
  "version_bound vs i v \<longleftrightarrow> row_by tv_id (fi_version_id i) vs = Some v \<and>
     tv_template_id v = fi_template_id i \<and> tv_version v = fi_version_number i \<and> tv_status v = Published"

definition at_rest :: "flow_task list \<Rightarrow> flow_instance \<Rightarrow> jobj \<Rightarrow> bool" where
  "at_rest ps i d \<longleftrightarrow>
     (if fi_status i = Running then
        fi_closed_at i = None \<and> ps \<noteq> [] \<and>
        (\<exists>n. fi_node i = Some n \<and> approval_at d n \<and> (\<forall>t \<in> set ps. ft_node t = n))
      else fi_closed_at i \<noteq> None \<and> ps = [])"

definition settled :: "flow \<Rightarrow> string \<Rightarrow> bool" where
  "settled db iid \<longleftrightarrow>
     (case row_by fi_id iid (instances db) of
        None \<Rightarrow> pending_of iid db = []
      | Some i \<Rightarrow> \<exists>v. version_bound (versions db) i v \<and> at_rest (pending_of iid db) i (tv_definition v))"

definition frame :: "string \<Rightarrow> flow \<Rightarrow> flow \<Rightarrow> bool" where
  "frame iid db db' \<longleftrightarrow> templates db' = templates db \<and> versions db' = versions db \<and> requests db' = requests db \<and>
     map fi_id (instances db') = map fi_id (instances db) \<and>
     (\<forall>j. j \<noteq> iid \<longrightarrow> row_by fi_id j (instances db') = row_by fi_id j (instances db) \<and> pending_of j db' = pending_of j db)"

definition targets_ok :: "flow \<Rightarrow> bool" where
  "targets_ok db \<longleftrightarrow> (\<forall>e \<in> set (escalations db). es_targets e \<noteq> [])"

lemma frame_refl [simp]: "frame iid db db"
  by (simp add: frame_def)

lemma frame_trans: "frame iid a b \<Longrightarrow> frame iid b c \<Longrightarrow> frame iid a c"
  by (simp add: frame_def)

lemma frame_settled: "frame iid db db' \<Longrightarrow> j \<noteq> iid \<Longrightarrow> settled db j \<Longrightarrow> settled db' j"
  by (simp add: frame_def settled_def split: option.splits)

section \<open>Pending tasks\<close>

lemma filter_map_unchanged:
  "(\<And>x. x \<in> set xs \<Longrightarrow> P (f x) \<longleftrightarrow> P x \<and> Q x) \<Longrightarrow> (\<And>x. x \<in> set xs \<Longrightarrow> P x \<Longrightarrow> Q x \<Longrightarrow> f x = x) \<Longrightarrow>
   filter P (map f xs) = filter Q (filter P xs)"
  by (induction xs) auto

lemma in_pending_of: "t \<in> set (pending_of iid db) \<longleftrightarrow> t \<in> set (tasks db) \<and> ft_instance t = iid \<and> ft_status t = TaskPending"
  by (auto simp: pending_of_def)

lemma in_pending_at: "t \<in> set (pending_at iid n db) \<longleftrightarrow> t \<in> set (pending_of iid db) \<and> ft_node t = n"
  by (auto simp: pending_of_def pending_at_def)

lemma pending_at_eq: "(\<forall>t \<in> set (pending_of iid db). ft_node t = n) \<Longrightarrow> pending_at iid n db = pending_of iid db"
  unfolding pending_of_def pending_at_def by (rule filter_cong) auto

text \<open>The rows that activating an approval or escalating it inserts.\<close>

lemma add_tasks_rows:
  obtains new where "tasks (add_tasks iid n as db) = tasks db @ new" "map ft_assignee new = as"
    "\<forall>t \<in> set new. ft_instance t = iid \<and> ft_node t = n \<and> ft_status t = TaskPending \<and> ft_handled_by t = None"
proof -
  have "\<exists>new. tasks (add_tasks iid n as db) = tasks db @ new \<and> map ft_assignee new = as \<and>
      (\<forall>t \<in> set new. ft_instance t = iid \<and> ft_node t = n \<and> ft_status t = TaskPending \<and> ft_handled_by t = None)"
  proof (induction "as" arbitrary: db)
    case (Cons a as)
    let ?t = "\<lparr>ft_id = next_id db, ft_instance = iid, ft_node = n, ft_assignee = a,
      ft_status = TaskPending, ft_decision = None, ft_handled_by = None, ft_comment = None, ft_handled_at = None\<rparr>"
    obtain new where "tasks (add_tasks iid n as (add_task iid n a db)) = tasks (add_task iid n a db) @ new"
      "map ft_assignee new = as"
      "\<forall>t \<in> set new. ft_instance t = iid \<and> ft_node t = n \<and> ft_status t = TaskPending \<and> ft_handled_by t = None"
      using Cons.IH by blast
    then show ?case by (intro exI[of _ "?t # new"]) (simp add: add_tasks_def add_task_def)
  qed (simp add: add_tasks_def)
  then show thesis using that by blast
qed

lemma pending_of_add_tasks:
  "j \<noteq> iid \<Longrightarrow> pending_of j (add_tasks iid n as db) = pending_of j db"
  "\<exists>new. pending_of iid (add_tasks iid n as db) = pending_of iid db @ new \<and> map ft_assignee new = as \<and>
    (\<forall>t \<in> set new. ft_node t = n)"
proof -
  obtain new where new: "tasks (add_tasks iid n as db) = tasks db @ new" "map ft_assignee new = as"
    "\<forall>t \<in> set new. ft_instance t = iid \<and> ft_node t = n \<and> ft_status t = TaskPending \<and> ft_handled_by t = None"
    by (rule add_tasks_rows)
  then have "filter (\<lambda>t. ft_instance t = iid \<and> ft_status t = TaskPending) new = new" by (simp add: filter_id_conv)
  with new show "\<exists>new. pending_of iid (add_tasks iid n as db) = pending_of iid db @ new \<and> map ft_assignee new = as \<and>
    (\<forall>t \<in> set new. ft_node t = n)" by (intro exI[of _ new]) (simp add: pending_of_def)
  show "j \<noteq> iid \<Longrightarrow> pending_of j (add_tasks iid n as db) = pending_of j db"
    using new by (simp add: pending_of_def filter_empty_conv)
qed

lemma same_id_task:
  "distinct (map ft_id (tasks db)) \<Longrightarrow> x \<in> set (tasks db) \<Longrightarrow> y \<in> set (tasks db) \<Longrightarrow> ft_id x = ft_id y \<Longrightarrow> x = y"
  by (metis row_by_unique option.inject)

lemma pending_of_cancel:
  assumes u: "distinct (map ft_id (tasks db))" and ts: "set ts \<subseteq> set (tasks db)"
  shows "pending_of j (cancel_pending now ts db) = filter (\<lambda>t. t \<notin> set ts) (pending_of j db)"
proof -
  have mem: "ft_id x \<in> set (map ft_id ts) \<longleftrightarrow> x \<in> set ts" if "x \<in> set (tasks db)" for x
    using same_id_task[OF u that] ts by auto
  have rows: "tasks (cancel_pending now ts db) = map (cancel_task now (map ft_id ts)) (tasks db)"
    by (simp add: cancel_pending_def)
  show ?thesis
    unfolding pending_of_def rows
  proof (rule filter_map_unchanged)
    fix x assume x: "x \<in> set (tasks db)"
    show "(ft_instance (cancel_task now (map ft_id ts) x) = j \<and> ft_status (cancel_task now (map ft_id ts) x) = TaskPending) \<longleftrightarrow>
        (ft_instance x = j \<and> ft_status x = TaskPending) \<and> x \<notin> set ts"
      unfolding cancel_task_def mem[OF x] by auto
    show "x \<notin> set ts \<Longrightarrow> cancel_task now (map ft_id ts) x = x"
      unfolding cancel_task_def mem[OF x] by simp
  qed
qed

lemma pending_of_decide:
  assumes u: "distinct (map ft_id (tasks db))" and t: "t \<in> set (tasks db)" and st: "st \<noteq> TaskPending"
  shows "pending_of j (db\<lparr>tasks := upd_by ft_id (ft_id t) (decide_row st actor comment now) (tasks db)\<rparr>) =
    filter (\<lambda>x. x \<noteq> t) (pending_of j db)" (is "pending_of j ?db1 = _")
proof -
  have rows: "tasks ?db1 = map (\<lambda>x. if ft_id x = ft_id t then decide_row st actor comment now x else x) (tasks db)"
    by (simp add: upd_by_def)
  show ?thesis
    unfolding pending_of_def rows
  proof (rule filter_map_unchanged)
    fix x assume x: "x \<in> set (tasks db)"
    have mem: "ft_id x = ft_id t \<longleftrightarrow> x = t" using same_id_task[OF u x t] by auto
    show "(ft_instance (if ft_id x = ft_id t then decide_row st actor comment now x else x) = j \<and>
        ft_status (if ft_id x = ft_id t then decide_row st actor comment now x else x) = TaskPending) \<longleftrightarrow>
        (ft_instance x = j \<and> ft_status x = TaskPending) \<and> x \<noteq> t"
      unfolding mem using st by (simp add: decide_row_def)
    show "x \<noteq> t \<Longrightarrow> (if ft_id x = ft_id t then decide_row st actor comment now x else x) = x"
      unfolding mem by simp
  qed
qed

lemma pending_of_same [simp]:
  "pending_of j (add_history iid n t a d db) = pending_of j db"
  "pending_of j (cancel_escalations now iid nid db) = pending_of j db"
  "pending_of j (upd_instance iid f db) = pending_of j db"
  "pending_of j (new_escalation iid m due targets db) = pending_of j db"
  "pending_of j (set_escalation e st now db) = pending_of j db"
  "pending_of j (db\<lparr>history := hs\<rparr>) = pending_of j db"
  "pending_of j (db\<lparr>requests := rs\<rparr>) = pending_of j db"
  "pending_of j (db\<lparr>escalations := es\<rparr>) = pending_of j db"
  "pending_of j (db\<lparr>instances := is\<rparr>) = pending_of j db"
  by (simp_all add: pending_of_def add_history_def cancel_escalations_def upd_instance_def new_escalation_def
      set_escalation_def split: option.split)

lemma instances_same [simp]:
  "instances (add_history iid n t a d db) = instances db"
  "instances (cancel_escalations now iid nid db) = instances db"
  "instances (cancel_pending now ts db) = instances db"
  "instances (new_escalation iid m due targets db) = instances db"
  "instances (set_escalation e st now db) = instances db"
  by (simp_all add: add_history_def cancel_escalations_def cancel_pending_def new_escalation_def
      set_escalation_def split: option.split)

section \<open>Landing\<close>

lemma frame_upd_instance [simp]:
  "frame iid db (upd_instance iid (set_node n) db)" "frame iid db (upd_instance iid (close_instance st r now) db)"
  by (simp_all add: frame_def upd_instance_def instance_node.lookup_upd instance_close.lookup_upd
      instance_node.keys_upd instance_close.keys_upd)

lemma frame_add_tasks [simp]: "frame iid db (add_tasks iid n as db)"
  by (simp add: frame_def pending_of_add_tasks)

lemma frame_same [simp]:
  "frame iid db (add_history jid n t a d db)" "frame iid db (cancel_escalations now jid n db)"
  "frame iid db (new_escalation jid m due targets db)" "frame iid db (set_escalation e st now db)"
  "frame iid db (db\<lparr>history := hs\<rparr>)"
proof -
  show "frame iid db (add_history jid n t a d db)" "frame iid db (new_escalation jid m due targets db)"
    "frame iid db (set_escalation e st now db)" "frame iid db (db\<lparr>history := hs\<rparr>)"
    by (simp_all add: frame_def) (simp_all add: add_history_def new_escalation_def set_escalation_def)
  show "frame iid db (cancel_escalations now jid n db)"
    by (simp add: frame_def) (simp add: cancel_escalations_def split: option.split)
qed

lemma frame_cancel:
  assumes "distinct (map ft_id (tasks db))" and "set ts \<subseteq> set (pending_of iid db)"
  shows "frame iid db (cancel_pending now ts db)"
proof -
  have ts: "set ts \<subseteq> set (tasks db)" using assms(2) by (auto simp: in_pending_of)
  have "filter (\<lambda>t. t \<notin> set ts) (pending_of j db) = pending_of j db" if "j \<noteq> iid" for j
    using that assms(2) by (force simp: filter_id_conv in_pending_of)
  then show ?thesis
    by (simp add: frame_def pending_of_cancel[OF assms(1) ts]) (simp add: cancel_pending_def)
qed

lemma schedule_shape:
  assumes "schedule now iid n v db = Inr db'"
  shows "db' = db \<or> (\<exists>due targets. db' = new_escalation iid n due targets db \<and> (wf_timeout v \<longrightarrow> targets \<noteq> []))"
proof (cases "truthy v")
  case True
  with assms obtain s where s: "jget ''seconds'' (obj_of v) = JInt s"
    "db' = new_escalation iid n (now + s) (str_list (jget ''targets'' (obj_of v))) db"
    by (auto simp: schedule_def split: jval.splits if_splits)
  have "wf_timeout v \<Longrightarrow> str_list (jget ''targets'' (obj_of v)) \<noteq> []"
    using True by (auto simp: wf_timeout_def truthy_def obj_of_def wf_texts_def str_list_def list_of_def)
  with s show ?thesis by blast
qed (use assms in \<open>simp add: schedule_def\<close>)

lemma targets_ok_same [simp]:
  "targets_ok (add_history iid n t a d db) = targets_ok db" "targets_ok (add_tasks iid m as db) = targets_ok db"
  "targets_ok (upd_instance iid f db) = targets_ok db" "targets_ok (cancel_pending now ts db) = targets_ok db"
  "targets_ok (db\<lparr>history := hs\<rparr>) = targets_ok db" "targets_ok (db\<lparr>tasks := us\<rparr>) = targets_ok db"
  "targets_ok (new_escalation iid m due targets db) \<longleftrightarrow> targets_ok db \<and> targets \<noteq> []"
  by (auto simp: targets_ok_def add_history_def upd_instance_def cancel_pending_def new_escalation_def)

lemma targets_ok_escalations:
  "targets_ok db \<Longrightarrow> targets_ok (cancel_escalations now iid n db)"
  "targets_ok db \<Longrightarrow> targets_ok (set_escalation e st now db)"
  "targets_ok db \<Longrightarrow> targets_ok (db\<lparr>escalations := upd_by es_id k (escalation_failed err) (escalations db)\<rparr>)"
  by (auto simp: targets_ok_def cancel_escalations_def cancel_escalation_def set_escalation_def upd_by_def
      end_escalation_def escalation_failed_def split: option.splits)

lemma node_assignees:
  assumes "wf_definition parse d" and "map_of (node_index d) m = Some node" and "jget ''type'' node = JStr ''approval''"
  shows "str_list (jget ''assignees'' node) \<noteq> []" and "wf_timeout (jget ''timeout'' node)"
proof -
  have "(m, node) \<in> set (flow_table d)" using index_iff[OF assms(1)] assms(2) by blast
  from wf_definitionD(2)[OF assms(1) this] assms(3) have "wf_approval node" by (simp add: wf_node_def)
  then show "str_list (jget ''assignees'' node) \<noteq> []" and "wf_timeout (jget ''timeout'' node)"
    by (auto simp: wf_approval_def str_list_def list_of_def)
qed

text \<open>An activated instance comes to rest, at the approval or at the end it landed on.\<close>

lemma landed_rest:
  assumes l: "landed parse now iid (node_index d) m node hs db db'" and wf: "wf_definition parse d"
    and i: "row_by fi_id iid (instances db) = Some i" "fi_status i = Running" "fi_closed_at i = None"
    and p: "pending_of iid db = []"
  shows "frame iid db db'" and "targets_ok db \<Longrightarrow> targets_ok db'"
    and "\<exists>i'. row_by fi_id iid (instances db') = Some i' \<and> instance_le i i' \<and> at_rest (pending_of iid db') i' d"
proof -
  let ?db1 = "upd_instance iid (set_node m) (db\<lparr>history := history db @ hs\<rparr>)"
  let ?as = "str_list (jget ''assignees'' node)"
  have f1: "frame iid db ?db1" by (rule frame_trans[OF frame_same(5) frame_upd_instance(1)])
  have r1: "row_by fi_id iid (instances ?db1) = Some (set_node m i)"
    using i(1) by (simp add: upd_instance_def instance_node.lookup_upd)
  have node: "map_of (node_index d) m = Some node" using l by (simp add: landed_def)
  from l consider
      (approval) "jget ''type'' node = JStr ''approval''"
        "schedule now iid m (jget ''timeout'' node) (add_tasks iid m ?as ?db1) = Inr db'"
    | (fin) "db' = add_history iid (Some m) EvComplete None NoDetail (upd_instance iid (close_instance Completed None now) ?db1)"
    unfolding landed_def Let_def by blast
  then have "frame iid db db' \<and> (targets_ok db \<longrightarrow> targets_ok db') \<and>
    (\<exists>i'. row_by fi_id iid (instances db') = Some i' \<and> instance_le i i' \<and> at_rest (pending_of iid db') i' d)"
  proof cases
    case approval
    let ?db2 = "add_tasks iid m ?as ?db1"
    note na = node_assignees[OF wf node approval(1)]
    obtain new where new: "pending_of iid ?db2 = pending_of iid ?db1 @ new" "map ft_assignee new = ?as" "\<forall>t \<in> set new. ft_node t = m"
      using pending_of_add_tasks(2)[of iid m ?as ?db1] by blast
    have "new \<noteq> []" using new(2) na(1) by auto
    then have "at_rest (pending_of iid ?db2) (set_node m i) d"
      using new p i node approval(1) by (simp add: at_rest_def set_node_def approval_at_def)
    moreover have "frame iid db ?db2" by (rule frame_trans[OF f1]) simp
    moreover have "row_by fi_id iid (instances ?db2) = Some (set_node m i)" using r1 by simp
    moreover have "instance_le i (set_node m i)" using i(2) by (simp add: instance_le_def set_node_def CLOSED_def)
    moreover have "frame iid ?db2 db' \<and> (targets_ok ?db2 \<longrightarrow> targets_ok db') \<and> instances db' = instances ?db2 \<and> pending_of iid db' = pending_of iid ?db2"
      using schedule_shape[OF approval(2)] na(2) by (elim disjE exE conjE) simp_all
    ultimately show ?thesis by (auto intro: frame_trans)
  next
    case fin
    let ?i = "close_instance Completed None now (set_node m i)"
    have "row_by fi_id iid (instances db') = Some ?i"
      using r1 by (simp add: fin upd_instance_def instance_close.lookup_upd)
    moreover have "frame iid db db'" unfolding fin by (rule frame_trans[OF f1 frame_trans[OF frame_upd_instance(2) frame_same(1)]])
    moreover have "instance_le i ?i" using i(2) by (simp add: instance_le_def set_node_def close_instance_def CLOSED_def)
    moreover have "at_rest (pending_of iid db') ?i d" using p by (simp add: fin at_rest_def close_instance_def)
    ultimately show ?thesis by (simp add: fin)
  qed
  then show "frame iid db db'" and "targets_ok db \<Longrightarrow> targets_ok db'"
    and "\<exists>i'. row_by fi_id iid (instances db') = Some i' \<and> instance_le i i' \<and> at_rest (pending_of iid db') i' d"
    by simp_all
qed

section \<open>Decisions\<close>

text \<open>The hypotheses of a decision: the instance runs at the node \<open>n\<close>, with its tasks there.\<close>

definition runs_at :: "flow \<Rightarrow> flow_instance \<Rightarrow> string \<Rightarrow> bool" where
  "runs_at db i n \<longleftrightarrow> row_by fi_id (fi_id i) (instances db) = Some i \<and> fi_status i = Running \<and> fi_closed_at i = None \<and>
     fi_node i = Some n \<and> (\<forall>t \<in> set (pending_of (fi_id i) db). ft_node t = n) \<and> distinct (map ft_id (tasks db))"

lemma cancel_here:
  assumes "runs_at db i n"
  shows "frame (fi_id i) db (cancel_pending now (pending_at (fi_id i) n db) db)"
    and "pending_of (fi_id i) (cancel_pending now (pending_at (fi_id i) n db) db) = []"
proof -
  have p: "pending_at (fi_id i) n db = pending_of (fi_id i) db" using assms by (simp add: runs_at_def pending_at_eq)
  have u: "distinct (map ft_id (tasks db))" using assms by (simp add: runs_at_def)
  have "set (pending_of (fi_id i) db) \<subseteq> set (tasks db)" by (auto simp: in_pending_of)
  from pending_of_cancel[OF u this]
  show "pending_of (fi_id i) (cancel_pending now (pending_at (fi_id i) n db) db) = []" unfolding p by simp
  show "frame (fi_id i) db (cancel_pending now (pending_at (fi_id i) n db) db)" unfolding p by (rule frame_cancel[OF u]) simp
qed

lemma decided:
  fixes now :: int and comment :: "string option" and actor :: string
  assumes r: "runs_at db i n" and t: "t \<in> set (pending_of (fi_id i) db)" and st: "st \<noteq> TaskPending"
  defines "db1 \<equiv> db\<lparr>tasks := upd_by ft_id (ft_id t) (decide_row st actor comment now) (tasks db)\<rparr>"
  shows "frame (fi_id i) db db1" and "runs_at db1 i n"
    and "pending_of (fi_id i) db1 = filter (\<lambda>x. x \<noteq> t) (pending_of (fi_id i) db)"
proof -
  have tm: "t \<in> set (tasks db)" "ft_instance t = fi_id i" and u: "distinct (map ft_id (tasks db))"
    using t r by (simp_all add: in_pending_of runs_at_def)
  have p: "pending_of j db1 = filter (\<lambda>x. x \<noteq> t) (pending_of j db)" for j
    unfolding db1_def by (rule pending_of_decide[OF u tm(1) st])
  then show "pending_of (fi_id i) db1 = filter (\<lambda>x. x \<noteq> t) (pending_of (fi_id i) db)" .
  have "filter (\<lambda>x. x \<noteq> t) (pending_of j db) = pending_of j db" if "j \<noteq> fi_id i" for j
    using that tm by (auto simp: filter_id_conv in_pending_of)
  then show "frame (fi_id i) db db1" by (simp add: frame_def p) (simp add: db1_def)
  show "runs_at db1 i n" using r unfolding runs_at_def p by (simp add: db1_def task_decide.keys_upd)
qed

lemma runs_at_history [simp]: "runs_at (add_history jid m t a d db) i n = runs_at db i n"
  by (simp add: runs_at_def) (simp add: add_history_def)

lemma rejection_rest:
  fixes now :: int and mode actor dr :: string and comment :: "string option"
  assumes r: "runs_at db i n" and a: "approval_at d n"
  defines "db' \<equiv> handle_rejection now (fi_id i) n mode actor comment dr db"
  shows "frame (fi_id i) db db'" and "targets_ok db \<Longrightarrow> targets_ok db'"
    and "\<exists>i'. row_by fi_id (fi_id i) (instances db') = Some i' \<and> instance_le i i' \<and> at_rest (pending_of (fi_id i) db') i' d"
proof -
  let ?ps = "pending_at (fi_id i) n db"
  have p: "?ps = pending_of (fi_id i) db" using r by (simp add: runs_at_def pending_at_eq)
  have main: "frame (fi_id i) db db' \<and> (targets_ok db \<longrightarrow> targets_ok db') \<and>
    (\<exists>i'. row_by fi_id (fi_id i) (instances db') = Some i' \<and> instance_le i i' \<and> at_rest (pending_of (fi_id i) db') i' d)"
  proof (cases "mode = ''all'' \<or> ?ps = []")
    case True
    let ?reason = "or_default comment dr"
    let ?db1 = "if ?ps \<noteq> [] then cancel_pending now ?ps db else db"
    let ?i = "close_instance Rejected (Some ?reason) now i"
    have d: "db' = reject_node now (fi_id i) n actor ?reason mode ?db1"
      using True by (simp add: db'_def handle_rejection_def Let_def)
    have f1: "frame (fi_id i) db ?db1" and q: "pending_of (fi_id i) ?db1 = []"
      using cancel_here[OF r, of now] unfolding p by simp_all
    have "frame (fi_id i) db db'" unfolding d reject_node_def
      by (rule frame_trans[OF f1 frame_trans[OF frame_same(2) frame_trans[OF frame_upd_instance(2) frame_same(1)]]])
    moreover have "targets_ok db \<longrightarrow> targets_ok db'"
      using targets_ok_escalations(1)[of ?db1] by (simp add: d reject_node_def)
    moreover have "row_by fi_id (fi_id i) (instances ?db1) = Some i" using r by (simp add: runs_at_def)
    then have "row_by fi_id (fi_id i) (instances db') = Some ?i"
      by (simp add: d reject_node_def upd_instance_def instance_close.lookup_upd)
    moreover have "instance_le i ?i" using r by (simp add: instance_le_def close_instance_def CLOSED_def runs_at_def)
    moreover have "at_rest (pending_of (fi_id i) db') ?i d" using q
      by (simp add: d reject_node_def at_rest_def close_instance_def)
    ultimately show ?thesis by blast
  next
    case False
    then have "db' = db" by (simp add: db'_def handle_rejection_def Let_def)
    moreover have "at_rest (pending_of (fi_id i) db) i d"
      using r a False p by (simp add: at_rest_def runs_at_def)
    moreover have "row_by fi_id (fi_id i) (instances db) = Some i" using r by (simp add: runs_at_def)
    ultimately show ?thesis by simp
  qed
  then show "frame (fi_id i) db db'" and "targets_ok db \<Longrightarrow> targets_ok db'"
    and "\<exists>i'. row_by fi_id (fi_id i) (instances db') = Some i' \<and> instance_le i i' \<and> at_rest (pending_of (fi_id i) db') i' d"
    by simp_all
qed

lemma approved_state_rest:
  fixes now :: int and mode :: string
  assumes r: "runs_at db i n"
  defines "db' \<equiv> approved_state now (fi_id i) n mode db"
  shows "frame (fi_id i) db db'" and "targets_ok db \<Longrightarrow> targets_ok db'" and "pending_of (fi_id i) db' = []"
    and "row_by fi_id (fi_id i) (instances db') = Some i"
proof -
  let ?ps = "pending_at (fi_id i) n db"
  let ?db1 = "if ?ps \<noteq> [] then add_history (fi_id i) (Some n) EvTasksCanceled None (ReasonDetail ''any_mode_first_approval'')
      (cancel_pending now ?ps db) else db"
  have d: "db' = add_history (fi_id i) (Some n) EvNodeApprove None (ModeDetail mode) (cancel_escalations now (fi_id i) (Some n) ?db1)"
    unfolding db'_def approved_state_def Let_def ..
  have p: "?ps = pending_of (fi_id i) db" using r by (simp add: runs_at_def pending_at_eq)
  have f1: "frame (fi_id i) db ?db1"
    using frame_trans[OF cancel_here(1)[OF r, of now] frame_same(1)] by simp
  have q: "pending_of (fi_id i) ?db1 = []" using cancel_here(2)[OF r, of now] unfolding p by simp
  show "frame (fi_id i) db db'" unfolding d by (rule frame_trans[OF f1 frame_trans[OF frame_same(2) frame_same(1)]])
  show "targets_ok db \<Longrightarrow> targets_ok db'" using targets_ok_escalations(1)[of ?db1] by (simp add: d)
  show "pending_of (fi_id i) db' = []" using q by (simp add: d)
  show "row_by fi_id (fi_id i) (instances db') = Some i" using r by (simp add: d runs_at_def)
qed

lemma approval_rest:
  assumes h: "handle_approval parse limit now i n mode db = Inr db'" and r: "runs_at db i n" and a: "approval_at d n"
    and v: "row_by tv_id (fi_version_id i) (versions db) = Some v" "d = tv_definition v" and wf: "wf_definition parse d"
  shows "frame (fi_id i) db db'" and "targets_ok db \<Longrightarrow> targets_ok db'"
    and "\<exists>i'. row_by fi_id (fi_id i) (instances db') = Some i' \<and> instance_le i i' \<and> at_rest (pending_of (fi_id i) db') i' d"
proof -
  let ?ps = "pending_at (fi_id i) n db" and ?db1 = "approved_state now (fi_id i) n mode db"
  have p: "?ps = pending_of (fi_id i) db" using r by (simp add: runs_at_def pending_at_eq)
  have "frame (fi_id i) db db' \<and> (targets_ok db \<longrightarrow> targets_ok db') \<and>
    (\<exists>i'. row_by fi_id (fi_id i) (instances db') = Some i' \<and> instance_le i i' \<and> at_rest (pending_of (fi_id i) db') i' d)"
  proof (cases "mode \<noteq> ''any'' \<and> ?ps \<noteq> []")
    case True
    then have "db' = db" using h by (simp add: handle_approval_eq)
    moreover have "at_rest (pending_of (fi_id i) db) i d" using r a True p by (simp add: at_rest_def runs_at_def)
    moreover have "row_by fi_id (fi_id i) (instances db) = Some i" using r by (simp add: runs_at_def)
    ultimately show ?thesis by simp
  next
    case False
    note s = approved_state_rest[OF r, of now mode]
    have "bound_definition i ?db1 = Inr d" using s(1) v by (simp add: bound_definition_def frame_def)
    with h False have "advance parse now (fi_id i) (fi_context i) (node_index d) limit n ?db1 = Inr db'"
      by (auto simp: handle_approval_eq)
    then obtain m node hs where l: "landed parse now (fi_id i) (node_index d) m node hs ?db1 db'" by (rule advance_landed)
    have "fi_status i = Running" "fi_closed_at i = None" using r by (simp_all add: runs_at_def)
    note lr = landed_rest[OF l wf s(4) this s(3)]
    show ?thesis using lr(2,3) s(2) frame_trans[OF s(1) lr(1)] by blast
  qed
  then show "frame (fi_id i) db db'" and "targets_ok db \<Longrightarrow> targets_ok db'"
    and "\<exists>i'. row_by fi_id (fi_id i) (instances db') = Some i' \<and> instance_le i i' \<and> at_rest (pending_of (fi_id i) db') i' d"
    by simp_all
qed

lemma decide_checked_rest:
  assumes dc: "decide_checked parse limit now dr i t actor st comment db = Inr db'"
    and r: "runs_at db i n" and t: "t \<in> set (pending_of (fi_id i) db)" and st: "st \<noteq> TaskPending" and a: "approval_at d n"
    and v: "row_by tv_id (fi_version_id i) (versions db) = Some v" "d = tv_definition v" and wf: "wf_definition parse d"
  shows "frame (fi_id i) db db'" and "targets_ok db \<Longrightarrow> targets_ok db'"
    and "\<exists>i'. row_by fi_id (fi_id i) (instances db') = Some i' \<and> instance_le i i' \<and> at_rest (pending_of (fi_id i) db') i' d"
proof -
  let ?db1 = "db\<lparr>tasks := upd_by ft_id (ft_id t) (decide_row st actor comment now) (tasks db)\<rparr>"
  let ?db2 = "\<lambda>mode. add_history (fi_id i) (Some (ft_node t)) (if st = TaskApproved then EvTaskApprove else EvTaskReject)
      (Some actor) (TaskDetail (ft_id t) mode comment) ?db1"
  have n: "ft_node t = n" using r t by (simp add: runs_at_def)
  note dd = decided[OF r t st, of actor comment now]
  obtain mode where m: "(db' = handle_rejection now (fi_id i) n mode actor comment dr (?db2 mode)) \<or>
      handle_approval parse limit now i n mode (?db2 mode) = Inr db'"
    using dc unfolding n[symmetric] by (auto simp: decide_checked_def Let_def bindR_Inr_iff split: option.splits if_splits)
  have f: "frame (fi_id i) db (?db2 mode)" by (rule frame_trans[OF dd(1) frame_same(1)])
  have r2: "runs_at (?db2 mode) i n" using dd(2) by simp
  have v2: "row_by tv_id (fi_version_id i) (versions (?db2 mode)) = Some v" using f v(1) by (simp add: frame_def)
  have "frame (fi_id i) (?db2 mode) db' \<and> (targets_ok (?db2 mode) \<longrightarrow> targets_ok db') \<and>
    (\<exists>i'. row_by fi_id (fi_id i) (instances db') = Some i' \<and> instance_le i i' \<and> at_rest (pending_of (fi_id i) db') i' d)"
    using m rejection_rest[OF r2 a, of now mode actor comment dr] approval_rest[OF _ r2 a v2 v(2) wf] by metis
  then show "frame (fi_id i) db db'" and "targets_ok db \<Longrightarrow> targets_ok db'"
    and "\<exists>i'. row_by fi_id (fi_id i) (instances db') = Some i' \<and> instance_le i i' \<and> at_rest (pending_of (fi_id i) db') i' d"
    using f by (auto intro: frame_trans)
qed

section \<open>Withdrawal and escalation\<close>

lemma withdrawal_rest:
  fixes now :: int and actor :: string
  assumes u: "distinct (map ft_id (tasks db))" and i: "row_by fi_id (fi_id i) (instances db) = Some i" "fi_status i = Running"
  defines "db' \<equiv> add_history (fi_id i) (fi_node i) EvWithdraw (Some actor) NoDetail
    (upd_instance (fi_id i) (close_instance Withdrawn None now)
      (cancel_escalations now (fi_id i) (fi_node i) (cancel_pending now (pending_of (fi_id i) db) db)))"
  shows "frame (fi_id i) db db'" and "targets_ok db \<Longrightarrow> targets_ok db'"
    and "\<exists>i'. row_by fi_id (fi_id i) (instances db') = Some i' \<and> instance_le i i' \<and> at_rest (pending_of (fi_id i) db') i' d"
proof -
  let ?db1 = "cancel_pending now (pending_of (fi_id i) db) db"
  have sub: "set (pending_of (fi_id i) db) \<subseteq> set (tasks db)" by (auto simp: in_pending_of)
  have q: "pending_of (fi_id i) ?db1 = []" using pending_of_cancel[OF u sub] by simp
  have "frame (fi_id i) db ?db1" by (rule frame_cancel[OF u order_refl])
  then show "frame (fi_id i) db db'" unfolding db'_def
    by (rule frame_trans[OF _ frame_trans[OF frame_same(2) frame_trans[OF frame_upd_instance(2) frame_same(1)]]])
  show "targets_ok db \<Longrightarrow> targets_ok db'" using targets_ok_escalations(1)[of ?db1] by (simp add: db'_def)
  let ?i = "close_instance Withdrawn None now i"
  have "row_by fi_id (fi_id i) (instances db') = Some ?i"
    using i(1) by (simp add: db'_def upd_instance_def instance_close.lookup_upd)
  moreover have "instance_le i ?i" using i(2) by (simp add: instance_le_def close_instance_def CLOSED_def)
  moreover have "at_rest (pending_of (fi_id i) db') ?i d" using q by (simp add: db'_def at_rest_def close_instance_def)
  ultimately show "\<exists>i'. row_by fi_id (fi_id i) (instances db') = Some i' \<and> instance_le i i' \<and> at_rest (pending_of (fi_id i) db') i' d"
    by blast
qed

lemma escalation_rest:
  fixes now :: int
  assumes r: "runs_at db i n" and a: "approval_at d n" and n: "es_node e = n" "es_instance e = fi_id i" and t: "es_targets e \<noteq> []"
  defines "db' \<equiv> set_escalation e EscDone now
    (add_history (fi_id i) (Some n) EvEscalate None (EscalateDetail (map ft_assignee (pending_at (fi_id i) n db)) (es_targets e))
      (add_tasks (fi_id i) n (es_targets e) (cancel_pending now (pending_at (fi_id i) n db) db)))"
  shows "frame (fi_id i) db db'" and "targets_ok db \<Longrightarrow> targets_ok db'"
    and "row_by fi_id (fi_id i) (instances db') = Some i" and "at_rest (pending_of (fi_id i) db') i d"
    and "\<exists>new. pending_of (fi_id i) db' = new \<and> map ft_assignee new = es_targets e"
proof -
  let ?db1 = "cancel_pending now (pending_at (fi_id i) n db) db"
  note c = cancel_here[OF r, of now]
  show "frame (fi_id i) db db'" unfolding db'_def
    by (rule frame_trans[OF c(1) frame_trans[OF frame_add_tasks frame_trans[OF frame_same(1) frame_same(4)]]])
  show "targets_ok db \<Longrightarrow> targets_ok db'"
    using targets_ok_escalations(2) by (simp add: db'_def)
  show "row_by fi_id (fi_id i) (instances db') = Some i" using r by (simp add: db'_def runs_at_def)
  obtain new where new: "pending_of (fi_id i) (add_tasks (fi_id i) n (es_targets e) ?db1) = pending_of (fi_id i) ?db1 @ new"
      "map ft_assignee new = es_targets e" "\<forall>t \<in> set new. ft_node t = n"
    using pending_of_add_tasks(2)[of "fi_id i" n "es_targets e" ?db1] by blast
  have p: "pending_of (fi_id i) db' = new" using c(2) new(1) by (simp add: db'_def)
  have "new \<noteq> []" using new(2) t by auto
  then show "at_rest (pending_of (fi_id i) db') i d" using r a new(3) by (simp add: p at_rest_def runs_at_def)
  show "\<exists>new. pending_of (fi_id i) db' = new \<and> map ft_assignee new = es_targets e" using p new(2) by blast
qed

end
