(* ===== verification/Flow_Invariants.thy ===== *)
theory Flow_Invariants
  imports Flow_Rest
begin

text \<open>
  The invariant of the workflow database and its preservation by every endpoint and by the
  worker; the interpretation \<open>flows\<close> of the service contracts carries it to every run.
\<close>

definition catalog_ok :: "parser \<Rightarrow> flow \<Rightarrow> bool" where
  "catalog_ok parse db \<longleftrightarrow> (\<forall>v \<in> set (versions db). wf_definition parse (tv_definition v)) \<and>
     (\<forall>t \<in> set (templates db). \<forall>vid. tp_current t = Some vid \<longrightarrow>
        (\<exists>v. row_by tv_id vid (versions db) = Some v \<and> tv_template_id v = tp_id t \<and> tv_status v = Published))"

definition mid_ok :: "parser \<Rightarrow> flow \<Rightarrow> bool" where
  "mid_ok parse db \<longleftrightarrow> catalog_ok parse db \<and> (\<forall>iid. settled db iid) \<and> targets_ok db"

definition answered :: "flow \<Rightarrow> bool" where
  "answered db \<longleftrightarrow> (\<forall>r \<in> set (requests db). ir_response r \<noteq> None)"

definition flow_inv :: "parser \<Rightarrow> flow \<Rightarrow> bool" where
  "flow_inv parse db \<longleftrightarrow> flow_unique db \<and> mid_ok parse db \<and> answered db"

definition goes_well :: "parser \<Rightarrow> flow \<Rightarrow> flow \<Rightarrow> bool" where
  "goes_well parse db db' \<longleftrightarrow> flow_inv parse db' \<and> flow_le db db'"

lemma goes_well_refl: "flow_inv parse db \<Longrightarrow> goes_well parse db db"
  by (simp add: goes_well_def)

lemma commit_or_keep_cases:
  "P db \<Longrightarrow> (\<And>a db'. r = Inr (a, db') \<Longrightarrow> P db') \<Longrightarrow> P (snd (commit_or_keep r db))"
  by (auto simp: commit_or_keep_def split: sum.split)

section \<open>Templates\<close>

definition keeps_published :: "flow \<Rightarrow> flow \<Rightarrow> bool" where
  "keeps_published db db' \<longleftrightarrow> (\<forall>vid v. row_by tv_id vid (versions db) = Some v \<longrightarrow> tv_status v = Published \<longrightarrow>
     row_by tv_id vid (versions db') = Some v)"

lemma keeps_settled:
  "keeps_published db db' \<Longrightarrow> instances db' = instances db \<Longrightarrow> tasks db' = tasks db \<Longrightarrow> settled db j \<Longrightarrow> settled db' j"
  by (auto simp: keeps_published_def settled_def version_bound_def pending_of_def split: option.splits)

lemma template_commit:
  assumes inv: "flow_inv parse db" and k: "keeps_published db db'" and u: "flow_unique db'" and c: "catalog_ok parse db'"
    and same: "instances db' = instances db" "tasks db' = tasks db" "escalations db' = escalations db"
      "requests db' = requests db" "history db' = history db"
    and le: "grows template_le (templates db) (templates db')" "grows version_le (versions db) (versions db')"
  shows "goes_well parse db db'"
  using inv u c same le keeps_settled[OF k same(1,2)]
  by (auto simp: goes_well_def flow_inv_def mid_ok_def answered_def targets_ok_def flow_le_def)

lemma row_by_append_Some: "row_by key k xs = Some x \<Longrightarrow> row_by key k (xs @ ys) = Some x"
  by (simp add: row_by_append)

lemma add_version_good:
  assumes inv: "flow_inv parse db" and ts: "ts = [] \<or> (\<exists>t. ts = [t] \<and> tp_current t = None)"
    and r: "add_version parse limit tid d (db\<lparr>templates := templates db @ ts, next_id := nid\<rparr>) = Inr db'"
  shows "goes_well parse db db'"
proof -
  let ?v = "\<lparr>tv_id = nid, tv_template_id = tid,
      tv_version = last_version tid (db\<lparr>templates := templates db @ ts, next_id := nid\<rparr>) + 1, tv_status = Draft,
      tv_definition = d, tv_published_at = None\<rparr>"
  from r have wf: "wf_definition parse d" and u: "flow_unique db'"
    and db': "db' = db\<lparr>templates := templates db @ ts, versions := versions db @ [?v], next_id := nid + 1\<rparr>"
    unfolding add_version_def bindR_Inr_iff by (auto dest: validate_definition_sound)
  have k: "keeps_published db db'" by (auto simp: keeps_published_def db' intro: row_by_append_Some)
  have "catalog_ok parse db" using inv by (simp add: flow_inv_def mid_ok_def)
  then have "catalog_ok parse db'"
    using wf ts by (auto simp: catalog_ok_def db' dest!: bspec intro: row_by_append_Some)
  then show ?thesis by (rule template_commit[OF inv k u]) (simp_all add: db' grows_append)
qed

lemma create_template_good:
  assumes "flow_inv parse db" and "create_template parse limit key name d db = Inr db'"
  shows "goes_well parse db db'"
  using assms(2) add_version_good[OF assms(1), where nid = "next_id db + 1" and
      ts = "[\<lparr>tp_id = next_id db, tp_key = key, tp_name = name, tp_current = None\<rparr>]"]
  by (auto simp: create_template_def split: if_splits)

lemma post_version_good:
  assumes "flow_inv parse db" and "add_version parse limit tid d db = Inr db'"
  shows "goes_well parse db db'"
  using assms by (intro add_version_good[where ts = "[]" and nid = "next_id db"]) simp_all

lemma get_version_row:
  assumes "get_version tid n db = Inr v" and "flow_unique db"
  shows "row_by tv_id (tv_id v) (versions db) = Some v" and "v \<in> set (versions db)" and "tv_template_id v = tid"
  using assms row_by_SomeD[of "\<lambda>v. (tv_template_id v, tv_version v)" "(tid, n)" "versions db" v]
  by (auto simp: get_version_def flow_unique_def intro: row_by_unique)

lemma set_current_rows:
  assumes "t' \<in> set (upd_by tp_id k (set_current vid) ts)"
  obtains t where "t \<in> set ts" "tp_id t' = tp_id t" "tp_current t' = (if tp_id t = k then Some vid else tp_current t)"
  using assms by (auto simp: upd_by_def set_current_def)

lemma template_le_current: "grows template_le ts (upd_by tp_id k (set_current vid) ts)"
  by (rule grows_upd_by) (simp_all add: template_le_def set_current_def)

lemma rollback_good:
  assumes inv: "flow_inv parse db" and r: "rollback_template key n db = Inr db'"
  shows "goes_well parse db db'"
proof -
  obtain t v where t: "get_template key db = Inr t" and v: "get_version (tp_id t) n db = Inr v" "tv_status v = Published"
    and u: "flow_unique db'" and db': "db' = db\<lparr>templates := upd_by tp_id (tp_id t) (set_current (tv_id v)) (templates db)\<rparr>"
    using r by (auto simp: rollback_template_def bindR_Inr_iff split: if_splits)
  have "flow_unique db" using inv by (simp add: flow_inv_def)
  note gv = get_version_row[OF v(1) this]
  have c: "catalog_ok parse db" using inv by (simp add: flow_inv_def mid_ok_def)
  have "catalog_ok parse db'"
    unfolding catalog_ok_def
  proof (intro conjI ballI allI impI)
    show "v' \<in> set (versions db') \<Longrightarrow> wf_definition parse (tv_definition v')" for v' using c by (simp add: db' catalog_ok_def)
    fix t' vid assume "t' \<in> set (templates db')" and cur: "tp_current t' = Some vid"
    then obtain t0 where "t0 \<in> set (templates db)" "tp_id t' = tp_id t0"
      "tp_current t' = (if tp_id t0 = tp_id t then Some (tv_id v) else tp_current t0)"
      by (auto simp: db' elim: set_current_rows)
    then show "\<exists>v. row_by tv_id vid (versions db') = Some v \<and> tv_template_id v = tp_id t' \<and> tv_status v = Published"
      using c cur gv v(2) by (cases "tp_id t0 = tp_id t") (auto simp: db' catalog_ok_def)
  qed
  with inv u show ?thesis
    by (intro template_commit) (simp_all add: db' keeps_published_def template_le_current)
qed

lemma publish_good:
  assumes inv: "flow_inv parse db" and r: "publish_version parse limit now key n db = Inr db'"
  shows "goes_well parse db db'"
proof -
  obtain t v where t: "get_template key db = Inr t" and v: "get_version (tp_id t) n db = Inr v" "tv_status v \<noteq> Published"
    and u: "flow_unique db'"
    and db': "db' = db\<lparr>versions := upd_by tv_id (tv_id v) (publish_row now) (versions db),
      templates := upd_by tp_id (tp_id t) (set_current (tv_id v)) (templates db)\<rparr>"
    using r by (auto simp: publish_version_def bindR_Inr_iff split: if_splits)
  have "flow_unique db" using inv by (simp add: flow_inv_def)
  note gv = get_version_row[OF v(1) this]
  have same: "x = v" if "x \<in> set (versions db)" "tv_id x = tv_id v" for x
    using row_by_unique[where key = tv_id, OF _ that] gv(1) \<open>flow_unique db\<close> by (simp add: flow_unique_def)
  have c: "catalog_ok parse db" using inv by (simp add: flow_inv_def mid_ok_def)
  have k: "keeps_published db db'"
    using gv(1) v(2) by (auto simp: keeps_published_def db' version_publish.lookup_upd)
  have "catalog_ok parse db'"
    unfolding catalog_ok_def
  proof (intro conjI ballI allI impI)
    show "v' \<in> set (versions db') \<Longrightarrow> wf_definition parse (tv_definition v')" for v'
      using c by (auto simp: db' catalog_ok_def upd_by_def publish_row_def)
    fix t' vid assume "t' \<in> set (templates db')" and cur: "tp_current t' = Some vid"
    then obtain t0 where t0: "t0 \<in> set (templates db)" "tp_id t' = tp_id t0"
      "tp_current t' = (if tp_id t0 = tp_id t then Some (tv_id v) else tp_current t0)"
      by (auto simp: db' elim: set_current_rows)
    show "\<exists>v. row_by tv_id vid (versions db') = Some v \<and> tv_template_id v = tp_id t' \<and> tv_status v = Published"
    proof (cases "tp_id t0 = tp_id t")
      case True
      then show ?thesis using t0 cur gv by (auto simp: db' version_publish.lookup_upd publish_row_def)
    next
      case False
      with c t0 cur obtain w where "row_by tv_id vid (versions db) = Some w" "tv_template_id w = tp_id t'" "tv_status w = Published"
        unfolding catalog_ok_def by metis
      with k show ?thesis unfolding keeps_published_def by metis
    qed
  qed
  moreover have "grows version_le (versions db) (versions db')"
  proof (simp add: db', rule grows_upd_by)
    fix x assume "x \<in> set (versions db)" "tv_id x = tv_id v"
    then have "x = v" by (rule same)
    then show "version_le x (publish_row now x)" using v(2) by (simp add: version_le_def publish_row_def)
  qed simp
  ultimately show ?thesis
    by (intro template_commit[OF inv k u]) (simp_all add: db' template_le_current)
qed

section \<open>Idempotent requests\<close>

lemma finish_Inr:
  "finish rid iid db = Inr (p, db') \<Longrightarrow> db' = store_result rid p db \<and> flow_unique db' \<and> instance_payload iid db = Inr p"
  by (auto simp: finish_def bindR_Inr_iff)

text \<open>What the body of an idempotent request leaves.\<close>

definition body_result :: "parser \<Rightarrow> string \<Rightarrow> flow \<Rightarrow> payload \<Rightarrow> flow \<Rightarrow> bool" where
  "body_result parse rid db p db' \<longleftrightarrow>
     (\<exists>db2. db' = store_result rid p db2 \<and> flow_unique db' \<and> requests db2 = requests db \<and> mid_ok parse db2 \<and> flow_le db db2)"

lemma mid_ok_requests [simp]: "mid_ok parse (db\<lparr>requests := rs\<rparr>) = mid_ok parse db"
proof -
  have "settled (db\<lparr>requests := rs\<rparr>) iid = settled db iid" for iid by (simp add: settled_def split: option.split)
  then show ?thesis by (simp add: mid_ok_def catalog_ok_def targets_ok_def)
qed

lemma acquire_cases:
  assumes "acquire rid scope fp db = Inr (replay, db1)"
  obtains (replay) p r where "replay = Some p" "db1 = db" "row_by ir_request rid (requests db) = Some r" "ir_response r = Some p"
      "ir_fingerprint r = fp"
    | (fresh) "replay = None" "row_by ir_request rid (requests db) = None" "flow_unique db1"
      "db1 = db\<lparr>requests := requests db @ [\<lparr>ir_request = rid, ir_scope = scope, ir_fingerprint = fp, ir_response = None\<rparr>]\<rparr>"
proof (cases "row_by ir_request rid (requests db)")
  case None
  with assms show thesis by (intro fresh) (auto simp: acquire_def bindR_Inr_iff)
next
  case (Some r)
  with assms have "ir_fingerprint r = fp" by (simp add: acquire_def split: if_splits)
  moreover obtain p where "ir_response r = Some p" using Some assms calculation by (cases "ir_response r") (simp_all add: acquire_def)
  ultimately show thesis using Some assms by (intro replay[of p r]) (simp_all add: acquire_def)
qed

lemma fresh_request_good:
  assumes inv: "flow_inv parse db" and none: "row_by ir_request rid (requests db) = None"
    and db1: "db1 = db\<lparr>requests := requests db @ [\<lparr>ir_request = rid, ir_scope = scope, ir_fingerprint = fp, ir_response = None\<rparr>]\<rparr>"
    and b: "body_result parse rid db1 p db'"
  shows "goes_well parse db db'"
proof -
  obtain db2 where db': "db' = store_result rid p db2" and u: "flow_unique db'" and rq: "requests db2 = requests db1"
    and mid: "mid_ok parse db2" and le: "flow_le db1 db2" using b by (auto simp: body_result_def)
  have absent: "rid \<notin> ir_request ` set (requests db)" using none by (simp add: row_by_None_iff)
  then have rs: "requests db' = requests db @ [\<lparr>ir_request = rid, ir_scope = scope, ir_fingerprint = fp, ir_response = Some p\<rparr>]"
    by (simp add: db' store_result_def rq db1 upd_by_append upd_by_absent set_response_def)
  have "flow_le db db'"
    using le unfolding flow_le_def rs by (simp add: db' store_result_def db1 grows_append)
  moreover have "answered db'" using inv unfolding answered_def rs by (simp add: flow_inv_def answered_def)
  moreover have "mid_ok parse db'" using mid by (simp add: db' store_result_def)
  ultimately show ?thesis using u by (simp add: goes_well_def flow_inv_def)
qed

lemma idempotent_good:
  assumes inv: "flow_inv parse db" and r: "idempotent rid scope fp body db = Inr (out, db')"
    and body: "\<And>db1 p db'. flow_unique db1 \<Longrightarrow> mid_ok parse db1 \<Longrightarrow> body db1 = Inr (p, db') \<Longrightarrow> body_result parse rid db1 p db'"
  shows "goes_well parse db db'"
proof -
  obtain replay db1 where a: "acquire rid scope fp db = Inr (replay, db1)"
    and rest: "(case replay of Some p \<Rightarrow> Inr ((p, True), db1) | None \<Rightarrow> bindR (body db1) (\<lambda>(p, db2). Inr ((p, False), db2))) = Inr (out, db')"
    using r by (auto simp: idempotent_def bindR_Inr_iff)
  from a show ?thesis
  proof (cases rule: acquire_cases)
    case (replay p r)
    with rest inv show ?thesis by (simp add: goes_well_refl)
  next
    case fresh
    obtain p where b: "body db1 = Inr (p, db')" using rest fresh(1) by (auto simp: bindR_Inr_iff)
    have "mid_ok parse db1" using inv fresh(4) by (simp add: flow_inv_def)
    from body[OF fresh(3) this b] show ?thesis by (rule fresh_request_good[OF inv fresh(2,4)])
  qed
qed

section \<open>Requests on one instance\<close>

lemma framed_mid:
  assumes fr: "frame iid db1 db2" and c: "catalog_ok parse db1" and others: "\<And>j. j \<noteq> iid \<Longrightarrow> settled db1 j"
    and t: "targets_ok db2" and s: "settled db2 iid"
  shows "mid_ok parse db2"
proof -
  have "settled db2 j" for j using frame_settled[OF fr, of j] others s by (cases "j = iid") simp_all
  moreover have "catalog_ok parse db2" using c fr by (simp add: catalog_ok_def frame_def)
  ultimately show ?thesis using t by (simp add: mid_ok_def)
qed

lemma framed_result:
  assumes f: "finish rid iid db2 = Inr (p, db')" and fr: "frame iid db db2" and mid: "mid_ok parse db"
    and le: "flow_le db db2" and t: "targets_ok db2" and s: "settled db2 iid"
  shows "body_result parse rid db p db'"
proof -
  have "mid_ok parse db2" by (rule framed_mid[OF fr _ _ t s]) (use mid in \<open>simp_all add: mid_ok_def\<close>)
  with finish_Inr[OF f] fr le show ?thesis by (auto simp: body_result_def frame_def)
qed

lemma settled_row:
  assumes "settled db iid" and "row_by fi_id iid (instances db) = Some i"
  obtains v where "version_bound (versions db) i v" "at_rest (pending_of iid db) i (tv_definition v)"
  using assms by (auto simp: settled_def)

lemma settled_step:
  assumes fr: "frame iid db db'" and i': "row_by fi_id iid (instances db') = Some i'" "instance_le i i'"
    "at_rest (pending_of iid db') i' (tv_definition v)" and v: "version_bound (versions db) i v"
  shows "settled db' iid"
proof -
  have "version_bound (versions db') i' v" using v fr i'(2) by (simp add: version_bound_def frame_def instance_le_def)
  with i' show ?thesis by (auto simp: settled_def)
qed

lemma mid_row:
  assumes mid: "mid_ok parse db" and i: "row_by fi_id iid (instances db) = Some i"
  obtains v where "version_bound (versions db) i v" "at_rest (pending_of iid db) i (tv_definition v)"
    "wf_definition parse (tv_definition v)"
proof -
  have "settled db iid" using mid by (simp add: mid_ok_def)
  then obtain v where v: "version_bound (versions db) i v" "at_rest (pending_of iid db) i (tv_definition v)"
    using i by (rule settled_row)
  then have "v \<in> set (versions db)" by (auto simp: version_bound_def dest: row_by_SomeD)
  then have "wf_definition parse (tv_definition v)" using mid by (simp add: mid_ok_def catalog_ok_def)
  with v show thesis by (rule that)
qed

lemma running_row:
  assumes u: "flow_unique db" and i: "row_by fi_id iid (instances db) = Some i" and run: "fi_status i = Running"
    and rest: "at_rest (pending_of iid db) i d"
  obtains n where "runs_at db i n" "approval_at d n" "running_rows iid db" "fi_id i = iid"
proof -
  have id: "fi_id i = iid" using row_by_SomeD[OF i] by simp
  obtain n where n: "fi_node i = Some n" "approval_at d n" "\<forall>t \<in> set (pending_of iid db). ft_node t = n" "fi_closed_at i = None"
    using rest run by (auto simp: at_rest_def)
  have "x = i" if "x \<in> set (instances db)" "fi_id x = iid" for x
    using row_by_unique[where key = fi_id, OF _ that] i u by (simp add: flow_unique_def)
  then have "running_rows iid db" using run by (auto simp: running_rows_def)
  moreover have "runs_at db i n" using i id n run u by (simp add: runs_at_def flow_unique_def)
  ultimately show thesis using n(2) id that by blast
qed

lemma decide_body_good:
  assumes u: "flow_unique db" and mid: "mid_ok parse db"
    and b: "decide_body parse limit now dr iid tid ev actor dec comment rid db = Inr (p, db')"
  shows "body_result parse rid db p db'"
proof -
  let ?st = "if dec = ''approve'' then TaskApproved else TaskRejected"
  from b obtain i t db2 where i: "row_by fi_id iid (instances db) = Some i" "fi_status i = Running"
    and t: "row_by ft_id tid (tasks db) = Some t" "ft_instance t = fi_id i" "ft_status t = TaskPending"
    and dc: "decide_checked parse limit now dr i t actor ?st comment db = Inr db2" and f: "finish rid iid db2 = Inr (p, db')"
    by (auto simp: decide_body_def lock_instance_def bindR_Inr_iff split: if_splits option.splits)
  obtain v where v: "version_bound (versions db) i v" "at_rest (pending_of iid db) i (tv_definition v)"
    "wf_definition parse (tv_definition v)" by (rule mid_row[OF mid i(1)])
  obtain n where n: "runs_at db i n" "approval_at (tv_definition v) n" "running_rows iid db" "fi_id i = iid"
    by (rule running_row[OF u i v(2)])
  have tm: "t \<in> set (pending_of (fi_id i) db)" "ft_id t = tid" using row_by_SomeD[OF t(1)] t by (simp_all add: in_pending_of)
  have vr: "row_by tv_id (fi_version_id i) (versions db) = Some v" using v(1) by (simp add: version_bound_def)
  have st: "?st \<noteq> TaskPending" by simp
  note rest = decide_checked_rest[OF dc n(1) tm(1) st n(2) vr refl v(3)]
  have "flow_le db db2" using decide_checked_le[OF _ _ t(3) _ dc] u t(1) tm(2) n(3,4) by (simp add: flow_unique_def)
  moreover have "settled db2 iid" using rest(3) settled_step[OF rest(1) _ _ _ v(1)] n(4) by auto
  moreover have "targets_ok db2" using rest(2) mid by (simp add: mid_ok_def)
  ultimately show ?thesis using framed_result[OF f _ mid] rest(1) n(4) by simp
qed

lemma withdraw_body_good:
  assumes u: "flow_unique db" and mid: "mid_ok parse db" and b: "withdraw_body now iid actor rid db = Inr (p, db')"
  shows "body_result parse rid db p db'"
proof -
  let ?db2 = "\<lambda>i. add_history (fi_id i) (fi_node i) EvWithdraw (Some actor) NoDetail
    (upd_instance (fi_id i) (close_instance Withdrawn None now)
      (cancel_escalations now (fi_id i) (fi_node i) (cancel_pending now (pending_of (fi_id i) db) db)))"
  from b obtain i where i: "row_by fi_id iid (instances db) = Some i" "fi_status i \<notin> CLOSED"
    and f: "finish rid iid (?db2 i) = Inr (p, db')"
    by (auto simp: withdraw_body_def lock_instance_def bindR_Inr_iff split: if_splits)
  have run: "fi_status i = Running" using i(2) by (cases "fi_status i") (simp_all add: CLOSED_def)
  obtain v where v: "version_bound (versions db) i v" "at_rest (pending_of iid db) i (tv_definition v)"
    "wf_definition parse (tv_definition v)" by (rule mid_row[OF mid i(1)])
  obtain n where n: "runs_at db i n" "running_rows iid db" "fi_id i = iid" by (rule running_row[OF u i(1) run v(2)])
  have ids: "distinct (map ft_id (tasks db))" "row_by fi_id (fi_id i) (instances db) = Some i" using n(1) by (simp_all add: runs_at_def)
  note rest = withdrawal_rest[OF ids run, of actor now]
  have "flow_le db (?db2 i)" using n(2,3)
    by (intro flow_le_after(1) flow_le_trans[OF flow_le_after(4)[OF flow_le_after(3)[OF flow_le_refl]] close_le]) simp
  moreover have "settled (?db2 i) iid" using rest(3) settled_step[OF rest(1) _ _ _ v(1)] n(3) by auto
  moreover have "targets_ok (?db2 i)" using rest(2) mid by (simp add: mid_ok_def)
  ultimately show ?thesis using framed_result[OF f _ mid] rest(1) n(3) by simp
qed

section \<open>Starting\<close>

lemma landed_ids:
  assumes "landed parse now iid tab m node hs db db'"
  shows "map fi_id (instances db') = map fi_id (instances db)"
proof -
  let ?db1 = "upd_instance iid (set_node m) (db\<lparr>history := history db @ hs\<rparr>)"
  have k: "map fi_id (instances ?db1) = map fi_id (instances db)" by (simp add: upd_instance_def instance_node.keys_upd)
  from assms consider
      "schedule now iid m (jget ''timeout'' node) (add_tasks iid m (str_list (jget ''assignees'' node)) ?db1) = Inr db'"
    | "db' = add_history iid (Some m) EvComplete None NoDetail (upd_instance iid (close_instance Completed None now) ?db1)"
    unfolding landed_def Let_def by blast
  then show ?thesis
  proof cases
    case 1
    from schedule_shape[OF this] have "instances db' = instances ?db1" by (elim disjE exE conjE) simp_all
    with k show ?thesis by simp
  next
    case 2
    then have "instances db' = upd_by fi_id iid (close_instance Completed None now) (instances ?db1)"
      by (simp add: upd_instance_def)
    with k show ?thesis by (simp only: instance_close.keys_upd)
  qed
qed

text \<open>The state in which a new instance is advanced from the start node.\<close>

definition started :: "string \<Rightarrow> template \<Rightarrow> template_version \<Rightarrow> string \<Rightarrow> jobj \<Rightarrow> string \<Rightarrow> string \<Rightarrow> flow \<Rightarrow> flow" where
  "started iid t v submitter ctx rid start db =
     add_history iid (Some start) EvStart (Some submitter) NoDetail
       (db\<lparr>instances := instances db @ [new_instance iid t v submitter ctx rid start]\<rparr>)"

lemma start_body_Inr:
  assumes "start_body parse limit now iid key submitter ctx rid db = Inr (p, db')"
  obtains t v start db2 where "get_template key db = Inr t" "published_version t db = Inr v"
    "jget ''start_node'' (tv_definition v) = JStr start"
    "advance parse now iid ctx (node_index (tv_definition v)) limit start (started iid t v submitter ctx rid start db) = Inr db2"
    "finish rid iid db2 = Inr (p, db')"
proof -
  from assms obtain t v where tv: "get_template key db = Inr t" "published_version t db = Inr v"
    and rest: "(case jget ''start_node'' (tv_definition v) of
       JStr start \<Rightarrow> bindR (advance parse now iid ctx (node_index (tv_definition v)) limit start
           (started iid t v submitter ctx rid start db)) (\<lambda>db1. finish rid iid db1)
     | _ \<Rightarrow> Inl (PyError ''KeyError'')) = Inr (p, db')"
    unfolding start_body_def bindR_Inr_iff started_def by blast
  from rest obtain start where st: "jget ''start_node'' (tv_definition v) = JStr start"
    by (cases "jget ''start_node'' (tv_definition v)") simp_all
  with rest show thesis using that[OF tv st] by (auto simp: bindR_Inr_iff)
qed

lemma published_version_row:
  assumes "get_template key db = Inr t" and "published_version t db = Inr v" and "catalog_ok parse db"
  shows "row_by tv_id (tv_id v) (versions db) = Some v" and "tv_template_id v = tp_id t" and "tv_status v = Published"
    and "wf_definition parse (tv_definition v)"
proof -
  obtain vid where vid: "tp_current t = Some vid" "row_by tv_id vid (versions db) = Some v" "tv_status v = Published"
    using assms(2) by (auto simp: published_version_def split: option.splits if_splits)
  have "t \<in> set (templates db)" using assms(1) by (auto simp: get_template_def dest: row_by_SomeD)
  then show "row_by tv_id (tv_id v) (versions db) = Some v" and "tv_template_id v = tp_id t" and "tv_status v = Published"
    and "wf_definition parse (tv_definition v)"
    using assms(3) vid row_by_SomeD[OF vid(2)] by (auto simp: catalog_ok_def)
qed

lemma start_body_parts:
  assumes u: "flow_unique db" and mid: "mid_ok parse db"
    and b: "start_body parse limit now iid key submitter ctx rid db = Inr (p, db')"
  obtains db2 where "finish rid iid db2 = Inr (p, db')" "iid \<notin> fi_id ` set (instances db)" "mid_ok parse db2"
    "\<And>j. j \<noteq> iid \<Longrightarrow> row_by fi_id j (instances db2) = row_by fi_id j (instances db)" "flow_le db db2" "requests db2 = requests db"
proof -
  obtain t v start db2 where t: "get_template key db = Inr t" and pv: "published_version t db = Inr v"
    and adv: "advance parse now iid ctx (node_index (tv_definition v)) limit start (started iid t v submitter ctx rid start db) = Inr db2"
    and f: "finish rid iid db2 = Inr (p, db')"
    by (rule start_body_Inr[OF b])
  let ?i = "new_instance iid t v submitter ctx rid start" and ?db1 = "started iid t v submitter ctx rid start db"
  have cat: "catalog_ok parse db" using mid by (simp add: mid_ok_def)
  note pvr = published_version_row[OF t pv cat]
  have rows: "instances ?db1 = instances db @ [?i]" "versions ?db1 = versions db" "templates ?db1 = templates db"
    "requests ?db1 = requests db" "tasks ?db1 = tasks db" "escalations ?db1 = escalations db"
    by (simp_all add: started_def) (simp_all add: add_history_def)
  have ids: "fi_id ?i = iid" "fi_status ?i = Running" "fi_closed_at ?i = None" by (simp_all add: new_instance_def)
  obtain m node hs where l: "landed parse now iid (node_index (tv_definition v)) m node hs ?db1 db2" by (rule advance_landed[OF adv])
  have "flow_unique db'" using finish_Inr[OF f] by blast
  moreover have "instances db' = instances db2" using finish_Inr[OF f] by (simp add: store_result_def)
  ultimately have "distinct (map fi_id (instances db @ [?i]))" using landed_ids[OF l] by (simp add: flow_unique_def rows)
  then have fresh: "iid \<notin> fi_id ` set (instances db)" using ids by simp
  then have none: "row_by fi_id iid (instances db) = None" by (simp add: row_by_None_iff)
  have row: "row_by fi_id iid (instances ?db1) = Some ?i" by (simp add: rows row_by_append none ids)
  have pend: "pending_of j ?db1 = pending_of j db" for j by (simp add: pending_of_def rows)
  have "settled db iid" using mid by (simp add: mid_ok_def)
  then have pend0: "pending_of iid ?db1 = []" by (simp add: settled_def none pend)
  have same: "row_by fi_id j (instances ?db1) = row_by fi_id j (instances db)" if "j \<noteq> iid" for j
    using that ids by (simp add: rows row_by_append split: option.split)
  have others: "settled ?db1 j" if "j \<noteq> iid" for j
  proof -
    note same[OF that]
    moreover have "settled db j" using mid by (simp add: mid_ok_def)
    ultimately show ?thesis by (simp add: settled_def pend rows split: option.splits)
  qed
  note rest = landed_rest[OF l pvr(4) row ids(2,3) pend0]
  have vb: "version_bound (versions ?db1) ?i v" using pvr by (simp add: version_bound_def rows new_instance_def)
  have s: "settled db2 iid" using rest(3) settled_step[OF rest(1) _ _ _ vb] by blast
  have "targets_ok db2" using rest(2) mid by (simp add: mid_ok_def targets_ok_def rows)
  moreover have "catalog_ok parse ?db1" using cat by (simp add: catalog_ok_def rows)
  ultimately have mid2: "mid_ok parse db2" using framed_mid[OF rest(1) _ others _ s] by blast
  have "running_rows iid ?db1" using fresh ids(2) by (auto simp: running_rows_def rows)
  from landed_le[OF this l] have "flow_le ?db1 db2" .
  moreover have "flow_le db ?db1" unfolding started_def by (rule flow_le_after(1)) (simp add: flow_le_def grows_append)
  ultimately have "flow_le db db2" by (rule flow_le_trans[rotated])
  moreover have "requests db2 = requests db" using rest(1) by (simp add: frame_def rows)
  moreover have "row_by fi_id j (instances db2) = row_by fi_id j (instances db)" if "j \<noteq> iid" for j
    using rest(1) that same[OF that] by (simp add: frame_def)
  ultimately show thesis using f fresh mid2 by (intro that)
qed

lemma start_body_good:
  assumes u: "flow_unique db" and mid: "mid_ok parse db"
    and b: "start_body parse limit now iid key submitter ctx rid db = Inr (p, db')"
  shows "body_result parse rid db p db'"
proof -
  obtain db2 where "finish rid iid db2 = Inr (p, db')" "mid_ok parse db2" "flow_le db db2" "requests db2 = requests db"
    by (rule start_body_parts[OF u mid b]) blast
  with finish_Inr show ?thesis unfolding body_result_def by blast
qed

section \<open>Escalation\<close>

lemma escalations_only:
  assumes "mid_ok parse db" and "targets_ok (db\<lparr>escalations := es\<rparr>)"
  shows "mid_ok parse (db\<lparr>escalations := es\<rparr>)"
proof -
  have "settled (db\<lparr>escalations := es\<rparr>) j = settled db j" for j by (simp add: settled_def split: option.split)
  with assms show ?thesis by (simp add: mid_ok_def catalog_ok_def)
qed

lemma apply_escalation_good:
  assumes u: "flow_unique db" and mid: "mid_ok parse db" and t: "es_targets e \<noteq> []"
  shows "mid_ok parse (apply_escalation now e db) \<and> flow_le db (apply_escalation now e db) \<and>
    requests (apply_escalation now e db) = requests db"
proof -
  have cancel: "mid_ok parse (set_escalation e EscCanceled now db) \<and> flow_le db (set_escalation e EscCanceled now db) \<and>
      requests (set_escalation e EscCanceled now db) = requests db"
  proof -
    have "targets_ok db" using mid by (simp add: mid_ok_def)
    from targets_ok_escalations(2)[OF this, of e EscCanceled now] escalations_only[OF mid]
    have "mid_ok parse (set_escalation e EscCanceled now db)" unfolding set_escalation_def by blast
    moreover have "requests (set_escalation e EscCanceled now db) = requests db" by (simp add: set_escalation_def)
    ultimately show ?thesis by simp
  qed
  show ?thesis
  proof (cases "row_by fi_id (es_instance e) (instances db)")
    case None
    with cancel show ?thesis by (simp add: apply_escalation_def)
  next
    case (Some i)
    show ?thesis
    proof (cases "fi_status i \<noteq> Running \<or> fi_node i \<noteq> Some (es_node e) \<or> pending_at (fi_id i) (es_node e) db = []")
      case True
      with cancel Some show ?thesis by (auto simp: apply_escalation_def Let_def)
    next
      case False
      obtain v where v: "version_bound (versions db) i v" "at_rest (pending_of (es_instance e) db) i (tv_definition v)"
        by (rule mid_row[OF mid Some])
      obtain n where n: "runs_at db i n" "approval_at (tv_definition v) n" "fi_id i = es_instance e"
        using running_row[OF u Some _ v(2)] False by blast
      have en: "es_node e = n" using n(1) False by (simp add: runs_at_def)
      note rest = escalation_rest[OF n(1,2) en n(3)[symmetric] t, of now]
      let ?db' = "apply_escalation now e db"
      have d: "?db' = set_escalation e EscDone now (add_history (fi_id i) (Some n) EvEscalate None
          (EscalateDetail (map ft_assignee (pending_at (fi_id i) n db)) (es_targets e))
          (add_tasks (fi_id i) n (es_targets e) (cancel_pending now (pending_at (fi_id i) n db) db)))"
        using False by (simp add: apply_escalation_def Some Let_def en)
      have "settled ?db' (fi_id i)" unfolding d
        using settled_step[OF rest(1) rest(3) _ rest(4) v(1)] by simp
      moreover have "catalog_ok parse db" "settled db j" "targets_ok db" for j using mid by (simp_all add: mid_ok_def)
      ultimately have "mid_ok parse ?db'" unfolding d using framed_mid[OF rest(1)] rest(2) by blast
      moreover have "flow_le db ?db'" unfolding d by (intro flow_le_after flow_le_refl)
      moreover have "requests ?db' = requests db" unfolding d using rest(1) by (simp add: frame_def)
      ultimately show ?thesis by blast
    qed
  qed
qed

lemma process_one_good:
  assumes inv: "flow_inv parse db" and t: "es_targets e \<noteq> []"
  shows "goes_well parse db (snd (process_one now e db))"
proof (cases "flow_commit (apply_escalation now e db)")
  case (Inl err)
  let ?es = "upd_by es_id (es_id e) (escalation_failed err) (escalations db)"
  have u: "flow_unique db" and mid: "mid_ok parse db" and ans: "answered db" using inv by (simp_all add: flow_inv_def)
  have "map (\<lambda>e. (es_instance e, es_node e)) ?es = map (\<lambda>e. (es_instance e, es_node e)) (escalations db)"
    by (rule escalation_fail.upd_other_column) (simp add: escalation_failed_def)
  then have "flow_unique (db\<lparr>escalations := ?es\<rparr>)" using u by (simp add: flow_unique_def escalation_fail.keys_upd)
  moreover have "mid_ok parse (db\<lparr>escalations := ?es\<rparr>)"
    using escalations_only[OF mid targets_ok_escalations(3)] mid by (simp add: mid_ok_def)
  ultimately show ?thesis using ans by (simp add: process_one_def Inl goes_well_def flow_inv_def answered_def)
next
  case (Inr db1)
  have s: "snd (process_one now e db) = db1" by (simp only: process_one_def Inr sum.case snd_conv)
  from Inr show ?thesis unfolding s using apply_escalation_good[OF _ _ t, of db parse now] inv
    by (simp add: goes_well_def flow_inv_def answered_def)
qed

lemma goes_well_trans: "goes_well parse a b \<Longrightarrow> goes_well parse b c \<Longrightarrow> goes_well parse a c"
  by (auto simp: goes_well_def intro: flow_le_trans)

lemma process_claimed_good:
  assumes "flow_inv parse db" and "\<forall>e \<in> set es. es_targets e \<noteq> []"
  shows "goes_well parse db (snd (process_claimed now es db))"
  using assms
proof (induction es arbitrary: db)
  case Nil
  then show ?case by (simp add: goes_well_refl)
next
  case (Cons e es)
  have 1: "goes_well parse db (snd (process_one now e db))" using Cons.prems by (intro process_one_good) simp_all
  then have "goes_well parse (snd (process_one now e db)) (snd (process_claimed now es (snd (process_one now e db))))"
    using Cons.prems(2) by (intro Cons.IH) (simp_all add: goes_well_def)
  with 1 show ?case by (auto simp: Let_def split_beta intro: goes_well_trans)
qed

lemma process_due_good:
  assumes "flow_inv parse db"
  shows "goes_well parse db (snd (process_due_escalations now locked limit db))"
proof -
  have "targets_ok db" using assms by (simp add: flow_inv_def mid_ok_def)
  then have "\<forall>e \<in> set (due_escalations now locked limit db). es_targets e \<noteq> []"
    by (auto simp: due_escalations_def targets_ok_def dest!: in_set_takeD)
  with assms show ?thesis unfolding process_due_escalations_def by (rule process_claimed_good)
qed

lemma claimed_row_good:
  assumes inv: "flow_inv parse db"
  shows "goes_well parse db (if list_ex (same_escalation e) (escalations db) then snd (process_one now e db) else db)"
proof -
  have "es_targets e \<noteq> []" if "list_ex (same_escalation e) (escalations db)"
    using that inv by (auto simp: list_ex_iff same_escalation_def flow_inv_def mid_ok_def targets_ok_def)
  then show ?thesis using process_one_good[OF inv] goes_well_refl[OF inv] by simp
qed

section \<open>Every step\<close>

lemma template_change_good:
  assumes inv: "flow_inv parse db" and f: "\<And>db1. f db = Inr db1 \<Longrightarrow> goes_well parse db db1"
  shows "template_change key f db = Inr (a, db') \<Longrightarrow> goes_well parse db db'"
  using f by (auto simp: template_change_def bindR_Inr_iff)

lemma commit_or_keep_good:
  "flow_inv parse db \<Longrightarrow> (\<And>a db'. r = Inr (a, db') \<Longrightarrow> goes_well parse db db') \<Longrightarrow>
   goes_well parse db (snd (commit_or_keep r db))"
  by (rule commit_or_keep_cases) (simp_all add: goes_well_refl)

lemma template_endpoints_good:
  assumes inv: "flow_inv (fs_parse su) db"
  shows "post_template su key name d db = Inr (a, db') \<Longrightarrow> goes_well (fs_parse su) db db'"
    and "post_version su key d db = Inr (a, db') \<Longrightarrow> goes_well (fs_parse su) db db'"
    and "publish su now key n db = Inr (a, db') \<Longrightarrow> goes_well (fs_parse su) db db'"
    and "rollback key n db = Inr (a, db') \<Longrightarrow> goes_well (fs_parse su) db db'"
proof -
  show "post_template su key name d db = Inr (a, db') \<Longrightarrow> goes_well (fs_parse su) db db'"
    using template_change_good[OF inv create_template_good[OF inv]] by (simp add: post_template_def split: if_splits)
  show "post_version su key d db = Inr (a, db') \<Longrightarrow> goes_well (fs_parse su) db db'"
    unfolding post_version_def bindR_Inr_iff by (elim exE conjE) (rule template_change_good[OF inv post_version_good[OF inv]])
  show "publish su now key n db = Inr (a, db') \<Longrightarrow> goes_well (fs_parse su) db db'"
    unfolding publish_def by (rule template_change_good[OF inv publish_good[OF inv]])
  show "rollback key n db = Inr (a, db') \<Longrightarrow> goes_well (fs_parse su) db db'"
    using template_change_good[OF inv rollback_good[OF inv]] by (simp add: rollback_def split: if_splits)
qed

lemma instance_endpoints_good:
  assumes inv: "flow_inv (fs_parse su) db"
  shows "post_instance su now iid key submitter ctx rid db = Inr (a, db') \<Longrightarrow> goes_well (fs_parse su) db db'"
    and "post_decision su now dr iid tid rid ev actor dec comment db = Inr (a, db') \<Longrightarrow> goes_well (fs_parse su) db db'"
    and "post_withdraw su now iid rid actor db = Inr (a, db') \<Longrightarrow> goes_well (fs_parse su) db db'"
proof -
  show "post_instance su now iid key submitter ctx rid db = Inr (a, db') \<Longrightarrow> goes_well (fs_parse su) db db'"
    using idempotent_good[OF inv _ start_body_good] by (simp add: post_instance_def start_instance_def split: if_splits)
  show "post_decision su now dr iid tid rid ev actor dec comment db = Inr (a, db') \<Longrightarrow> goes_well (fs_parse su) db db'"
    using idempotent_good[OF inv _ decide_body_good]
    by (simp only: post_decision_def decide_task_def split: if_splits) blast+
  show "post_withdraw su now iid rid actor db = Inr (a, db') \<Longrightarrow> goes_well (fs_parse su) db db'"
    using idempotent_good[OF inv _ withdraw_body_good] by (simp add: post_withdraw_def withdraw_def split: if_splits)
qed

lemma flow_step_good:
  assumes inv: "flow_inv (fs_parse su) db"
  shows "goes_well (fs_parse su) db (flow_step su op db)"
  by (cases op; simp only: flow_step.simps)
    (rule commit_or_keep_good[OF inv], erule template_endpoints_good[OF inv] instance_endpoints_good[OF inv] |
      rule process_due_good[OF inv] | rule claimed_row_good[OF inv])+

interpretation flows: evolving_service "flow_step su" "flow_inv (fs_parse su)" flow_le for su
proof unfold_locales
  show "flow_inv (fs_parse su) db \<Longrightarrow> flow_inv (fs_parse su) (flow_step su op db)"
    "flow_inv (fs_parse su) db \<Longrightarrow> flow_le db (flow_step su op db)" for db op
    using flow_step_good[of su db op] by (simp_all add: goes_well_def)
qed (auto intro: flow_le_trans)

end
