(* ===== verification/Flow_Properties.thy ===== *)
theory Flow_Properties
  imports Flow_Invariants
begin

text \<open>
  What holds of the workflow engine after every sequence of requests and worker runs, from the
  empty database: where instances rest, that they keep the version they were started with, that
  decisions are final and that a repeated request is answered from its record.
\<close>

section \<open>Runs\<close>

lemma no_rows_inv: "flow_inv parse no_rows"
  by (simp add: flow_inv_def flow_unique_def mid_ok_def catalog_ok_def settled_def targets_ok_def answered_def
      no_rows_def pending_of_def)

lemma run_inv: "flow_inv (fs_parse su) (flow_run su ops no_rows)"
  unfolding flow_run_def by (rule flows.inv_run[OF no_rows_inv])

lemma run_from_inv: "flow_inv (fs_parse su) db \<Longrightarrow> flow_inv (fs_parse su) (flow_run su ops db)"
  unfolding flow_run_def by (rule flows.inv_run)

lemma run_le: "flow_inv (fs_parse su) db \<Longrightarrow> flow_le db (flow_run su ops db)"
  unfolding flow_run_def by (rule flows.le_run)

text \<open>A deployment and a run of it: the leave template is published and one instance is started.\<close>

definition demo_setup :: flow_setup where
  "demo_setup = \<lparr>fs_hash = (\<lambda>p. case p of StartParts k s c \<Rightarrow> k @ s | DecideParts i t v a d c \<Rightarrow> i @ a @ d | WithdrawParts i a \<Rightarrow> i @ a),
     fs_parse = sample_parser, fs_limit = 20\<rparr>"

definition demo_ops :: "flow_op list" where
  "demo_ops = [CreateTemplate ''leave'' ''Leave'' leave_demo, Publish 0 ''leave'' 1,
     Start 10 ''i1'' ''leave'' ''sam'' [(''amount'', JInt 20000)] ''r1'']"

definition demo_db :: flow where
  "demo_db = flow_run demo_setup demo_ops no_rows"

lemma demo_started:
  "map fi_id (instances demo_db) = [''i1'']" "map ft_assignee (tasks demo_db) = [''alice'', ''bob'']"
  by code_simp+

section \<open>Where instances rest\<close>

text \<open>C19: after any requests and worker runs, the rows are unique under their keys and every instance is bound to
  a published version of its template; a running instance is at an approval of that version, with
  at least one pending task there and no pending task elsewhere; a closed one has no pending task.\<close>

theorem flow_run_sound:
  assumes "db = flow_run su ops no_rows" and i: "i \<in> set (instances db)"
  shows "flow_unique db \<and>
    (\<exists>v \<in> set (versions db). tv_id v = fi_version_id i \<and> tv_template_id v = fi_template_id i \<and>
       tv_version v = fi_version_number i \<and> tv_status v = Published \<and>
       (if fi_status i = Running then
          fi_closed_at i = None \<and> (\<exists>n. fi_node i = Some n \<and> approval_at (tv_definition v) n \<and>
            pending_at (fi_id i) n db \<noteq> [] \<and> pending_at (fi_id i) n db = pending_of (fi_id i) db)
        else fi_closed_at i \<noteq> None \<and> pending_of (fi_id i) db = []))"
proof -
  have inv: "flow_inv (fs_parse su) db" unfolding assms(1) by (rule run_inv)
  then have u: "flow_unique db" and mid: "mid_ok (fs_parse su) db" by (simp_all add: flow_inv_def)
  have row: "row_by fi_id (fi_id i) (instances db) = Some i"
    using u i by (intro row_by_unique) (simp_all add: flow_unique_def)
  obtain v where v: "version_bound (versions db) i v" "at_rest (pending_of (fi_id i) db) i (tv_definition v)"
    by (rule mid_row[OF mid row])
  have "v \<in> set (versions db)" "tv_id v = fi_version_id i"
    using v(1) by (auto simp: version_bound_def dest: row_by_SomeD)
  moreover have "if fi_status i = Running then
      fi_closed_at i = None \<and> (\<exists>n. fi_node i = Some n \<and> approval_at (tv_definition v) n \<and>
        pending_at (fi_id i) n db \<noteq> [] \<and> pending_at (fi_id i) n db = pending_of (fi_id i) db)
    else fi_closed_at i \<noteq> None \<and> pending_of (fi_id i) db = []"
    using v(2) pending_at_eq unfolding at_rest_def by (cases "fi_status i = Running") (simp_all, metis)
  ultimately show ?thesis using u v(1) unfolding version_bound_def by blast
qed

theorem flow_run_sound_witness:
  "\<exists>i. instances demo_db = [i] \<and> fi_status i = Running \<and>
     (\<exists>n. fi_node i = Some n \<and> pending_at (fi_id i) n demo_db \<noteq> [])"
proof -
  obtain i where i: "instances demo_db = [i]" using demo_started(1) by (auto simp: map_eq_Cons_conv)
  have "map fi_status (instances demo_db) = [Running]" by code_simp
  then have "fi_status i = Running" by (simp add: i)
  with flow_run_sound[OF demo_db_def, of i] i show ?thesis by auto
qed

section \<open>Versions\<close>

lemma later_instance:
  assumes inv: "flow_inv (fs_parse su) db" and i: "row_by fi_id iid (instances db) = Some i"
  obtains i' where "row_by fi_id iid (instances (flow_run su ops db)) = Some i'" "instance_le i i'"
proof -
  let ?db = "flow_run su ops db"
  have "grows instance_le (instances db) (instances ?db)" using run_le[OF inv] by (simp add: flow_le_def)
  from grows_mem[OF this] obtain i' where i': "i' \<in> set (instances ?db)" "instance_le i i'" using row_by_SomeD[OF i] by blast
  have "flow_unique ?db" using run_from_inv[OF inv] by (simp add: flow_inv_def)
  then have "row_by fi_id (fi_id i') (instances ?db) = Some i'" using i'(1) by (intro row_by_unique) (simp_all add: flow_unique_def)
  moreover have "fi_id i' = iid" using i'(2) row_by_SomeD[OF i] by (simp add: instance_le_def)
  ultimately show thesis using that i'(2) by blast
qed

lemma later_version:
  assumes inv: "flow_inv (fs_parse su) db" and v: "row_by tv_id vid (versions db) = Some v"
  obtains v' where "row_by tv_id vid (versions (flow_run su ops db)) = Some v'" "version_le v v'"
proof -
  let ?db = "flow_run su ops db"
  have "grows version_le (versions db) (versions ?db)" using run_le[OF inv] by (simp add: flow_le_def)
  from grows_mem[OF this] obtain v' where v': "v' \<in> set (versions ?db)" "version_le v v'" using row_by_SomeD[OF v] by blast
  have "flow_unique ?db" using run_from_inv[OF inv] by (simp add: flow_inv_def)
  then have "row_by tv_id (tv_id v') (versions ?db) = Some v'" using v'(1) by (intro row_by_unique) (simp_all add: flow_unique_def)
  moreover have "tv_id v' = vid" using v'(2) row_by_SomeD[OF v] by (simp add: version_le_def)
  ultimately show thesis using that v'(2) by blast
qed

lemma instance_keeps_bound:
  assumes inv: "flow_inv (fs_parse su) db" and i: "row_by fi_id iid (instances db) = Some i"
  shows "\<exists>i' d. row_by fi_id iid (instances (flow_run su later db)) = Some i' \<and> instance_le i i' \<and>
    bound_definition i db = Inr d \<and> bound_definition i' (flow_run su later db) = Inr d"
proof -
  obtain i' where i': "row_by fi_id iid (instances (flow_run su later db)) = Some i'" "instance_le i i'"
    by (rule later_instance[OF inv i])
  obtain v where v: "version_bound (versions db) i v" using mid_row[OF _ i] inv by (auto simp: flow_inv_def)
  then have vr: "row_by tv_id (fi_version_id i) (versions db) = Some v" by (simp add: version_bound_def)
  obtain v' where v': "row_by tv_id (fi_version_id i) (versions (flow_run su later db)) = Some v'" "version_le v v'"
    by (rule later_version[OF inv vr])
  have "bound_definition i db = Inr (tv_definition v)" using vr by (simp add: bound_definition_def)
  moreover have "bound_definition i' (flow_run su later db) = Inr (tv_definition v)"
    using v' i'(2) by (simp add: bound_definition_def instance_le_def version_le_def)
  ultimately show ?thesis using i' by blast
qed

text \<open>An instance is bound to the published version it was started with for its whole life:
  after any later requests, publications, new versions and rollbacks of its template included, it
  has the same template, version, submitter and context, and the definition it runs on is the same.\<close>

theorem instance_keeps_its_version:
  assumes db: "db = flow_run su ops no_rows" and i: "row_by fi_id iid (instances db) = Some i"
  shows "\<exists>i' d. row_by fi_id iid (instances (flow_run su later db)) = Some i' \<and>
    fi_template_id i' = fi_template_id i \<and> fi_version_id i' = fi_version_id i \<and>
    fi_version_number i' = fi_version_number i \<and> fi_submitter i' = fi_submitter i \<and> fi_context i' = fi_context i \<and>
    bound_definition i db = Inr d \<and> bound_definition i' (flow_run su later db) = Inr d"
  using instance_keeps_bound[OF run_inv, of iid su ops i later] i unfolding db instance_le_def by blast

definition second_version :: jobj where
  "second_version = [(''start_node'', JStr ''s''), (''nodes'', JList
     [node_json ''s'' ''start'' [(''next'', JStr ''e'')], node_json ''e'' ''end'' []])]"

definition demo_later :: "flow_op list" where
  "demo_later = [AddVersion ''leave'' second_version, Publish 20 ''leave'' 2]"

theorem instance_keeps_its_version_witness:
  "\<exists>i i' d. row_by fi_id ''i1'' (instances demo_db) = Some i \<and>
     row_by fi_id ''i1'' (instances (flow_run demo_setup demo_later demo_db)) = Some i' \<and>
     bound_definition i demo_db = Inr d \<and> bound_definition i' (flow_run demo_setup demo_later demo_db) = Inr d"
proof -
  have "row_by fi_id ''i1'' (instances demo_db) \<noteq> None" using demo_started(1) by (auto simp: row_by_None_iff map_eq_Cons_conv)
  then obtain i where i: "row_by fi_id ''i1'' (instances demo_db) = Some i" by blast
  from instance_keeps_its_version[OF demo_db_def i, of demo_later] i show ?thesis by blast
qed

section \<open>Decisions are final\<close>

text \<open>C20: what was decided stays: whatever is requested later, the history only grows at its end, and closed
  instances, handled tasks, published versions and answered requests keep their rows unchanged.\<close>

theorem decided_stays:
  assumes db: "db = flow_run su ops no_rows" and later: "db' = flow_run su later db"
  shows "prefix (history db) (history db') \<and>
    (\<forall>i \<in> set (instances db). fi_status i \<in> CLOSED \<longrightarrow> i \<in> set (instances db')) \<and>
    (\<forall>t \<in> set (tasks db). ft_status t \<noteq> TaskPending \<longrightarrow> t \<in> set (tasks db')) \<and>
    (\<forall>v \<in> set (versions db). tv_status v = Published \<longrightarrow> v \<in> set (versions db')) \<and>
    (\<forall>r \<in> set (requests db). ir_response r \<noteq> None \<longrightarrow> r \<in> set (requests db'))"
proof -
  have "flow_inv (fs_parse su) db" unfolding db by (rule run_inv)
  then have le: "flow_le db db'" unfolding later by (rule run_le)
  note g = le[unfolded flow_le_def]
  have "i \<in> set (instances db')" if "i \<in> set (instances db)" "fi_status i \<in> CLOSED" for i
    using g that by (metis grows_mem instance_le_def)
  moreover have "t \<in> set (tasks db')" if "t \<in> set (tasks db)" "ft_status t \<noteq> TaskPending" for t
    using g that by (metis grows_mem task_le_def)
  moreover have "v \<in> set (versions db')" if "v \<in> set (versions db)" "tv_status v = Published" for v
    using g that by (metis grows_mem version_le_def)
  moreover have "r \<in> set (requests db')" if "r \<in> set (requests db)" "ir_response r \<noteq> None" for r
    using g that by (metis grows_mem request_le_def)
  ultimately show ?thesis using g by blast
qed

definition demo_closed :: flow where
  "demo_closed = flow_run demo_setup [Withdraw 30 ''i1'' ''r2'' ''sam''] demo_db"

theorem decided_stays_witness:
  "list_all (\<lambda>i. fi_status i = Withdrawn) (instances demo_closed) \<and>
   set (instances demo_closed) \<subseteq> set (instances (flow_run demo_setup demo_later demo_closed))"
proof -
  have st: "map fi_status (instances demo_closed) = [Withdrawn]" by code_simp
  have run: "demo_closed = flow_run demo_setup (demo_ops @ [Withdraw 30 ''i1'' ''r2'' ''sam'']) no_rows"
    by (simp add: demo_closed_def demo_db_def flow_run_def)
  from decided_stays[OF run refl, of demo_later] st show ?thesis
    by (auto simp: map_eq_Cons_conv CLOSED_def)
qed

end
