(* ===== verification/Flow_Replay.thy ===== *)
theory Flow_Replay
  imports Flow_Properties
begin

text \<open>
  Idempotent requests: a successful start, decision or withdrawal is recorded with the hash of its
  content and its answer; at any later time the same request gives the same answer and writes
  nothing, and another request under its id is refused. The interpretations \<open>start_idem\<close>,
  \<open>decide_idem\<close> and \<open>withdraw_idem\<close> show that the endpoints keep the contract of the prelude.
\<close>

section \<open>The record of a request\<close>

definition recorded :: "string \<Rightarrow> flow \<Rightarrow> (string \<times> payload) option" where
  "recorded rid db =
     (case row_by ir_request rid (requests db) of
        None \<Rightarrow> None | Some r \<Rightarrow> map_option (\<lambda>p. (ir_fingerprint r, p)) (ir_response r))"

text \<open>The answer of a request without the mark of a replay.\<close>

definition answer :: "(flow \<Rightarrow> flow_error + (payload \<times> bool) \<times> flow) \<Rightarrow> flow \<Rightarrow> (flow_error + payload) \<times> flow" where
  "answer f db = (case f db of Inl e \<Rightarrow> (Inl e, db) | Inr ((p, _), db') \<Rightarrow> (Inr p, db'))"

lemma recorded_replay:
  "recorded rid db = Some (fp, p) \<Longrightarrow> idempotent rid scope fp body db = Inr ((p, True), db)"
  by (auto simp: recorded_def idempotent_def acquire_def split: option.splits)

lemma recorded_conflict:
  "recorded rid db = Some (h, p) \<Longrightarrow> h \<noteq> fp \<Longrightarrow> idempotent rid scope fp body db = Inl (ConflictError ''fingerprint'')"
  by (auto simp: recorded_def idempotent_def acquire_def split: option.splits)

text \<open>A body that ends in \<open>finish\<close> and does not touch the requests on its way.\<close>

definition finishing :: "string \<Rightarrow> (flow \<Rightarrow> flow_error + payload \<times> flow) \<Rightarrow> bool" where
  "finishing rid body \<longleftrightarrow>
     (\<forall>db p db'. body db = Inr (p, db') \<longrightarrow> (\<exists>iid db2. finish rid iid db2 = Inr (p, db') \<and> requests db2 = requests db))"

lemma recorded_after:
  assumes b: "finishing rid body" and r: "idempotent rid scope fp body db = Inr ((p, replay), db')"
  shows "recorded rid db' = Some (fp, p)"
proof -
  obtain out db1 where a: "acquire rid scope fp db = Inr (out, db1)"
    and rest: "(case out of Some p \<Rightarrow> Inr ((p, True), db1) | None \<Rightarrow> bindR (body db1) (\<lambda>(p, db2). Inr ((p, False), db2))) =
      Inr ((p, replay), db')"
    using r by (auto simp: idempotent_def bindR_Inr_iff)
  from a show ?thesis
  proof (cases rule: acquire_cases)
    case (replay p' r)
    with rest show ?thesis by (simp add: recorded_def)
  next
    case fresh
    from rest fresh(1) have "body db1 = Inr (p, db')" by (auto simp: bindR_Inr_iff)
    then obtain iid db2 where f: "finish rid iid db2 = Inr (p, db')" and rq: "requests db2 = requests db1"
      using b unfolding finishing_def by blast
    have "requests db' = upd_by ir_request rid (set_response p) (requests db1)"
      using finish_Inr[OF f] by (simp add: store_result_def rq)
    then show ?thesis using fresh(2) by (simp add: recorded_def request_response.lookup_upd fresh(4) row_by_append set_response_def)
  qed
qed

lemma idempotent_contract:
  assumes "finishing rid body"
  shows "answer (idempotent rid scope fp body) db = (Inr p, db') \<Longrightarrow> recorded rid db' = Some (fp, p)"
    and "recorded rid db = Some (fp, p) \<Longrightarrow> answer (idempotent rid scope fp body) db = (Inr p, db)"
    and "recorded rid db = Some (h, p) \<Longrightarrow> h \<noteq> fp \<Longrightarrow> \<exists>e. answer (idempotent rid scope fp body) db = (Inl e, db)"
proof -
  show "recorded rid db' = Some (fp, p)" if "answer (idempotent rid scope fp body) db = (Inr p, db')"
  proof (cases "idempotent rid scope fp body db")
    case (Inr a)
    obtain q b d where a: "a = ((q, b), d)" by (cases a) auto
    with that Inr have "idempotent rid scope fp body db = Inr ((p, b), db')" by (simp add: answer_def)
    then show ?thesis by (rule recorded_after[OF assms])
  qed (use that in \<open>simp add: answer_def\<close>)
qed (simp_all add: answer_def recorded_replay recorded_conflict)

section \<open>The bodies\<close>

lemma requests_same [simp]:
  "requests (add_history iid n t a d db) = requests db" "requests (cancel_escalations now iid nid db) = requests db"
  "requests (cancel_pending now ts db) = requests db" "requests (new_escalation iid m due targets db) = requests db"
  "requests (upd_instance iid f db) = requests db" "requests (approved_state now iid m mode db) = requests db"
  by (simp_all add: add_history_def cancel_escalations_def cancel_pending_def new_escalation_def upd_instance_def
      approved_state_def Let_def split: option.split)

lemma advance_requests:
  assumes "advance parse now iid ctx tab limit from db = Inr db'"
  shows "requests db' = requests db"
proof -
  obtain m node hs where l: "landed parse now iid tab m node hs db db'" by (rule advance_landed[OF assms])
  let ?db1 = "upd_instance iid (set_node m) (db\<lparr>history := history db @ hs\<rparr>)"
  from l consider "schedule now iid m (jget ''timeout'' node) (add_tasks iid m (str_list (jget ''assignees'' node)) ?db1) = Inr db'"
    | "db' = add_history iid (Some m) EvComplete None NoDetail (upd_instance iid (close_instance Completed None now) ?db1)"
    unfolding landed_def Let_def by blast
  then show ?thesis
  proof cases
    case 1
    from schedule_shape[OF 1] show ?thesis by (elim disjE exE conjE) simp_all
  qed simp
qed

lemma decide_checked_requests:
  assumes "decide_checked parse limit now dr i t actor st comment db = Inr db'"
  shows "requests db' = requests db"
proof -
  have rej: "requests (handle_rejection now iid n mode actor comment dr db0) = requests db0" for iid n mode db0
    by (simp add: handle_rejection_def reject_node_def Let_def)
  have app: "requests db1 = requests db0" if "handle_approval parse limit now i n mode db0 = Inr db1" for n mode db0 db1
    using that by (auto simp: handle_approval_eq bindR_Inr_iff split: if_splits dest!: advance_requests)
  let ?db2 = "\<lambda>mode. add_history (fi_id i) (Some (ft_node t)) (if st = TaskApproved then EvTaskApprove else EvTaskReject)
      (Some actor) (TaskDetail (ft_id t) mode comment)
      (db\<lparr>tasks := upd_by ft_id (ft_id t) (decide_row st actor comment now) (tasks db)\<rparr>)"
  obtain mode where "db' = handle_rejection now (fi_id i) (ft_node t) mode actor comment dr (?db2 mode) \<or>
      handle_approval parse limit now i (ft_node t) mode (?db2 mode) = Inr db'"
    using assms by (auto simp: decide_checked_def Let_def bindR_Inr_iff split: option.splits if_splits)
  then show ?thesis using rej app by fastforce
qed

lemma finishing_bodies:
  "finishing rid (start_body parse limit now iid key submitter ctx rid)"
  "finishing rid (decide_body parse limit now dr iid tid ev actor dec comment rid)"
  "finishing rid (withdraw_body now iid actor rid)"
proof -
  show "finishing rid (start_body parse limit now iid key submitter ctx rid)"
    unfolding finishing_def
  proof (intro allI impI)
    fix db p db' assume "start_body parse limit now iid key submitter ctx rid db = Inr (p, db')"
    then obtain t v start db2 where
      adv: "advance parse now iid ctx (node_index (tv_definition v)) limit start (started iid t v submitter ctx rid start db) = Inr db2"
      and "finish rid iid db2 = Inr (p, db')" by (rule start_body_Inr)
    with advance_requests[OF adv] show "\<exists>iid db2. finish rid iid db2 = Inr (p, db') \<and> requests db2 = requests db"
      by (intro exI[of _ iid] exI[of _ db2]) (simp add: started_def)
  qed
  have "\<exists>iid db2. finish rid iid db2 = Inr (p, db') \<and> requests db2 = requests db"
    if "decide_body parse limit now dr iid tid ev actor dec comment rid db = Inr (p, db')" for db p db'
    using that
    by (auto simp: decide_body_def bindR_Inr_iff split: if_splits option.splits dest: decide_checked_requests)
  then show "finishing rid (decide_body parse limit now dr iid tid ev actor dec comment rid)" by (simp add: finishing_def)
  have "\<exists>iid db2. finish rid iid db2 = Inr (p, db') \<and> requests db2 = requests db"
    if "withdraw_body now iid actor rid db = Inr (p, db')" for db p db'
    using that unfolding withdraw_body_def bindR_Inr_iff by (elim exE conjE) (fastforce split: if_splits)
  then show "finishing rid (withdraw_body now iid actor rid)" by (simp add: finishing_def)
qed

interpretation start_idem: idempotent_request
  "answer (start_instance fp parse limit now iid key submitter ctx rid)" "recorded rid" "fp (StartParts key submitter ctx)"
  for fp parse limit now iid key submitter ctx rid
  unfolding start_instance_def by unfold_locales (rule idempotent_contract[OF finishing_bodies(1)], assumption+)+

interpretation decide_idem: idempotent_request
  "answer (decide_task fp parse limit now dr iid tid rid ev actor dec comment)" "recorded rid"
  "fp (DecideParts iid tid ev actor dec comment)"
  for fp parse limit now dr iid tid rid ev actor dec comment
  unfolding decide_task_def by unfold_locales (rule idempotent_contract[OF finishing_bodies(2)], assumption+)+

interpretation withdraw_idem: idempotent_request
  "answer (withdraw fp now iid rid actor)" "recorded rid" "fp (WithdrawParts iid actor)"
  for fp now iid rid actor
  unfolding withdraw_def by unfold_locales (rule idempotent_contract[OF finishing_bodies(3)], assumption+)+

section \<open>Replays at any later time\<close>

lemma recorded_later:
  assumes inv: "flow_inv (fs_parse su) db" and r: "recorded rid db = Some (h, p)"
  shows "recorded rid (flow_run su ops db) = Some (h, p)"
proof -
  let ?db = "flow_run su ops db"
  obtain x where x: "row_by ir_request rid (requests db) = Some x" "ir_fingerprint x = h" "ir_response x = Some p"
    using r by (auto simp: recorded_def split: option.splits)
  have "grows request_le (requests db) (requests ?db)" using run_le[OF inv] by (simp add: flow_le_def)
  then obtain y where "y \<in> set (requests ?db)" "request_le x y" using row_by_SomeD[OF x(1)] grows_mem by metis
  then have "x \<in> set (requests ?db)" using x(3) by (simp add: request_le_def)
  moreover have "flow_unique ?db" using run_from_inv[OF inv] by (simp add: flow_inv_def)
  ultimately have "row_by ir_request rid (requests ?db) = Some x"
    using row_by_SomeD[OF x(1)] by (intro row_by_unique) (simp_all add: flow_unique_def)
  with x show ?thesis by (simp add: recorded_def)
qed

text \<open>What a request records stays recorded.\<close>

lemma start_recorded:
  assumes inv: "flow_inv (fs_parse su) db" and r: "post_instance su now iid key submitter ctx rid db = Inr ((p, b), db1)"
  shows "recorded rid (flow_run su later db1) = Some (fs_hash su (StartParts key submitter ctx), p)"
proof -
  from r have "answer (start_instance (fs_hash su) (fs_parse su) (fs_limit su) now iid key submitter ctx rid) db = (Inr p, db1)"
    by (simp add: answer_def post_instance_def split: if_splits)
  then have "recorded rid db1 = Some (fs_hash su (StartParts key submitter ctx), p)" by (rule start_idem.recorded_after)
  moreover have "flow_inv (fs_parse su) db1" using instance_endpoints_good(1)[OF inv r] by (simp add: goes_well_def)
  ultimately show ?thesis by (rule recorded_later[rotated])
qed

lemma decision_recorded:
  assumes inv: "flow_inv (fs_parse su) db" and r: "post_decision su now dr iid tid rid ev actor dec comment db = Inr ((p, b), db1)"
  shows "recorded rid (flow_run su later db1) = Some (fs_hash su (DecideParts iid tid ev actor dec comment), p)"
proof -
  from r have "answer (decide_task (fs_hash su) (fs_parse su) (fs_limit su) now dr iid tid rid ev actor dec comment) db = (Inr p, db1)"
    by (simp add: answer_def post_decision_def split: if_splits)
  then have "recorded rid db1 = Some (fs_hash su (DecideParts iid tid ev actor dec comment), p)" by (rule decide_idem.recorded_after)
  moreover have "flow_inv (fs_parse su) db1" using instance_endpoints_good(2)[OF inv r] by (simp add: goes_well_def)
  ultimately show ?thesis by (rule recorded_later[rotated])
qed

lemma withdrawal_recorded:
  assumes inv: "flow_inv (fs_parse su) db" and r: "post_withdraw su now iid rid actor db = Inr ((p, b), db1)"
  shows "recorded rid (flow_run su later db1) = Some (fs_hash su (WithdrawParts iid actor), p)"
proof -
  from r have "answer (withdraw (fs_hash su) now iid rid actor) db = (Inr p, db1)"
    by (simp add: answer_def post_withdraw_def split: if_splits)
  then have "recorded rid db1 = Some (fs_hash su (WithdrawParts iid actor), p)" by (rule withdraw_idem.recorded_after)
  moreover have "flow_inv (fs_parse su) db1" using instance_endpoints_good(3)[OF inv r] by (simp add: goes_well_def)
  ultimately show ?thesis by (rule recorded_later[rotated])
qed

text \<open>C21: a start, decision or withdrawal that succeeded gives the same answer, marked as a replay, and
  writes nothing when it is repeated after any later requests; a decision with another content under
  its request id is refused as a conflict, unless the hashes of the two contents collide.\<close>

theorem repeated_request_replayed:
  assumes db: "db = flow_run su ops no_rows"
  shows "(post_instance su now iid key submitter ctx rid db = Inr ((p, b), db1) \<longrightarrow>
      post_instance su now' iid' key submitter ctx rid (flow_run su later db1) = Inr ((p, True), flow_run su later db1)) \<and>
    (post_decision su now dr iid tid rid ev actor dec comment db = Inr ((p, b), db1) \<longrightarrow>
      post_decision su now' dr iid tid rid ev actor dec comment (flow_run su later db1) = Inr ((p, True), flow_run su later db1) \<and>
      (fs_hash su (DecideParts iid' tid' ev' actor' dec' comment') \<noteq> fs_hash su (DecideParts iid tid ev actor dec comment) \<longrightarrow>
        (\<exists>e. post_decision su now' dr iid' tid' rid ev' actor' dec' comment' (flow_run su later db1) = Inl e \<and>
           e \<in> {RequestInvalid, ConflictError ''fingerprint''}))) \<and>
    (post_withdraw su now iid rid actor db = Inr ((p, b), db1) \<longrightarrow>
      post_withdraw su now' iid rid actor (flow_run su later db1) = Inr ((p, True), flow_run su later db1))"
proof (intro conjI impI)
  have inv: "flow_inv (fs_parse su) db" unfolding db by (rule run_inv)
  {
    assume r: "post_instance su now iid key submitter ctx rid db = Inr ((p, b), db1)"
    from recorded_replay[OF start_recorded[OF inv r]]
    show "post_instance su now' iid' key submitter ctx rid (flow_run su later db1) = Inr ((p, True), flow_run su later db1)"
      using r by (simp add: post_instance_def start_instance_def split: if_splits)
  next
    assume r: "post_decision su now dr iid tid rid ev actor dec comment db = Inr ((p, b), db1)"
    from recorded_replay[OF decision_recorded[OF inv r]]
    show "post_decision su now' dr iid tid rid ev actor dec comment (flow_run su later db1) = Inr ((p, True), flow_run su later db1)"
      using r by (simp add: post_decision_def decide_task_def split: if_splits)
    assume "fs_hash su (DecideParts iid' tid' ev' actor' dec' comment') \<noteq> fs_hash su (DecideParts iid tid ev actor dec comment)"
    from recorded_conflict[OF decision_recorded[OF inv r] this[symmetric]]
    show "\<exists>e. post_decision su now' dr iid' tid' rid ev' actor' dec' comment' (flow_run su later db1) = Inl e \<and>
        e \<in> {RequestInvalid, ConflictError ''fingerprint''}"
      by (simp add: post_decision_def decide_task_def)
  next
    assume r: "post_withdraw su now iid rid actor db = Inr ((p, b), db1)"
    from recorded_replay[OF withdrawal_recorded[OF inv r]]
    show "post_withdraw su now' iid rid actor (flow_run su later db1) = Inr ((p, True), flow_run su later db1)"
      using r by (simp add: post_withdraw_def withdraw_def split: if_splits)
  }
qed

text \<open>The first approver of the demo decides, and the same request arrives again after a withdrawal.\<close>

theorem repeated_request_replayed_witness:
  "\<exists>p db1. post_decision demo_setup 40 ''r'' ''i1'' 3 ''d1'' 1 ''alice'' ''approve'' None demo_db = Inr ((p, False), db1) \<and>
     (let db2 = flow_run demo_setup [Withdraw 50 ''i1'' ''r2'' ''sam''] db1 in
      post_decision demo_setup 60 ''r'' ''i1'' 3 ''d1'' 1 ''alice'' ''approve'' None db2 = Inr ((p, True), db2))"
proof -
  have "case post_decision demo_setup 40 ''r'' ''i1'' 3 ''d1'' 1 ''alice'' ''approve'' None demo_db of
      Inl e \<Rightarrow> False | Inr (a, db1) \<Rightarrow> \<not> snd a" by code_simp
  then obtain p db1 where "post_decision demo_setup 40 ''r'' ''i1'' 3 ''d1'' 1 ''alice'' ''approve'' None demo_db = Inr ((p, False), db1)"
    by (auto split: sum.splits prod.splits)
  with repeated_request_replayed[OF demo_db_def, where now = 40 and dr = "''r''" and iid = "''i1''" and tid = 3 and rid = "''d1''" and ev = 1
      and actor = "''alice''" and dec = "''approve''" and comment = None and p = p and b = False and ?db1.0 = db1
      and now' = 60 and later = "[Withdraw 50 ''i1'' ''r2'' ''sam'']"]
  show ?thesis by (auto simp: Let_def)
qed

end
