(* ===== verification/Flow_Semantics.thy ===== *)
theory Flow_Semantics
  imports Flow_Replay
begin

text \<open>
  What a decision does under the two modes of an approval, what an escalation does, and the
  abstract state machine of an instance that every request and worker run follows.
\<close>

section \<open>Advancing\<close>

lemma advance_lands:
  assumes adv: "advance parse now iid ctx (node_index d) limit n db = Inr db'" and wf: "wf_definition parse d"
    and n: "map_of (node_index d) n = Some nd" "jget ''type'' nd \<in> {JStr ''start'', JStr ''approval''}"
  obtains m node hs where "landed parse now iid (node_index d) m node hs db db'" "(n, m) \<in> (flow_rel (flow_table d))\<^sup>+"
proof -
  have nt: "(n, nd) \<in> set (flow_table d)" using index_iff[OF wf] n(1) by blast
  obtain s where s: "jget ''next'' nd = JStr s" "(n, s) \<in> flow_rel (flow_table d)" by (rule linear_next[OF wf nt n(2)])
  then have "activate parse now iid ctx (node_index d) limit s db = Inr db'" using adv n(1) by (simp add: advance_def)
  from activate_lands[OF this] obtain m node hs where "landed parse now iid (node_index d) m node hs db db'"
    "(s, m) \<in> (flow_rel (flow_table d))\<^sup>*" unfolding edge_step_index[OF wf] by blast
  with s(2) show thesis by (intro that) (auto intro: rtrancl_into_trancl2)
qed

lemma landed_result:
  assumes l: "landed parse now iid (node_index d) m node hs db db'" and i: "row_by fi_id iid (instances db) = Some i"
    "fi_status i = Running" and p: "pending_of iid db = []"
  shows "\<exists>i'. row_by fi_id iid (instances db') = Some i' \<and> fi_node i' = Some m \<and>
    (fi_status i' = Running \<and> approval_at d m \<or> fi_status i' = Completed \<and> pending_of iid db' = [])"
proof -
  let ?db1 = "upd_instance iid (set_node m) (db\<lparr>history := history db @ hs\<rparr>)"
  have r1: "row_by fi_id iid (instances ?db1) = Some (set_node m i)"
    using i(1) by (simp add: upd_instance_def instance_node.lookup_upd)
  have node: "map_of (node_index d) m = Some node" using l by (simp add: landed_def)
  from l consider
      (approval) "jget ''type'' node = JStr ''approval''"
        "schedule now iid m (jget ''timeout'' node) (add_tasks iid m (str_list (jget ''assignees'' node)) ?db1) = Inr db'"
    | (fin) "db' = add_history iid (Some m) EvComplete None NoDetail (upd_instance iid (close_instance Completed None now) ?db1)"
    unfolding landed_def Let_def by blast
  then show ?thesis
  proof cases
    case approval
    from schedule_shape[OF approval(2)] have "instances db' = instances ?db1" by (elim disjE exE conjE) simp_all
    then show ?thesis using r1 node approval(1) i(2)
      by (intro exI[of _ "set_node m i"]) (simp add: set_node_def approval_at_def)
  next
    case fin
    have "row_by fi_id iid (instances db') = Some (close_instance Completed None now (set_node m i))"
      using r1 by (simp add: fin upd_instance_def instance_close.lookup_upd)
    moreover have "pending_of iid db' = []" using p by (simp add: fin)
    ultimately show ?thesis by (simp add: close_instance_def set_node_def)
  qed
qed

section \<open>The two modes\<close>

lemma decide_checked_cases:
  assumes dc: "decide_checked parse limit now dr i t actor st comment db = Inr db'"
    and d: "bound_definition i db = Inr d" and node: "map_of (node_index d) (ft_node t) = Some node"
  defines "db2 \<equiv> add_history (fi_id i) (Some (ft_node t)) (if st = TaskApproved then EvTaskApprove else EvTaskReject)
      (Some actor) (TaskDetail (ft_id t) (str_of (jget ''mode'' node)) comment)
      (db\<lparr>tasks := upd_by ft_id (ft_id t) (decide_row st actor comment now) (tasks db)\<rparr>)"
  shows "if st = TaskRejected then db' = handle_rejection now (fi_id i) (ft_node t) (str_of (jget ''mode'' node)) actor comment dr db2
    else handle_approval parse limit now i (ft_node t) (str_of (jget ''mode'' node)) db2 = Inr db'"
  using dc d node by (auto simp: decide_checked_def bound_definition_def db2_def Let_def split: option.splits if_splits)

lemma rejection_result:
  fixes now :: int and mode actor dr :: string and comment :: "string option"
  assumes r: "runs_at db i n"
  defines "others \<equiv> pending_of (fi_id i) db" and "db' \<equiv> handle_rejection now (fi_id i) n mode actor comment dr db"
  shows "if mode = ''all'' \<or> others = []
    then row_by fi_id (fi_id i) (instances db') = Some (close_instance Rejected (Some (or_default comment dr)) now i) \<and>
      pending_of (fi_id i) db' = []
    else db' = db"
proof (cases "mode = ''all'' \<or> others = []")
  case True
  have p: "pending_at (fi_id i) n db = pending_of (fi_id i) db" using r by (simp add: runs_at_def pending_at_eq)
  let ?db1 = "if pending_at (fi_id i) n db \<noteq> [] then cancel_pending now (pending_at (fi_id i) n db) db else db"
  have d: "db' = reject_node now (fi_id i) n actor (or_default comment dr) mode ?db1"
    using True p by (simp add: db'_def handle_rejection_def Let_def others_def)
  have "pending_of (fi_id i) ?db1 = []" using cancel_here(2)[OF r, of now] unfolding p by simp
  moreover have "row_by fi_id (fi_id i) (instances ?db1) = Some i" using r by (simp add: runs_at_def)
  ultimately show ?thesis using True by (simp add: d reject_node_def upd_instance_def instance_close.lookup_upd)
next
  case False
  have "pending_at (fi_id i) n db = pending_of (fi_id i) db" using r by (simp add: runs_at_def pending_at_eq)
  with False show ?thesis by (simp add: db'_def handle_rejection_def Let_def others_def)
qed

lemma cancelled_row:
  assumes "runs_at db i n" and "x \<in> set (pending_of (fi_id i) db)"
  shows "\<exists>x' \<in> set (tasks (approved_state now (fi_id i) n mode db)). ft_id x' = ft_id x \<and> ft_status x' = TaskCanceled"
proof -
  have p: "pending_at (fi_id i) n db = pending_of (fi_id i) db" using assms(1) by (simp add: runs_at_def pending_at_eq)
  then have ne: "pending_at (fi_id i) n db \<noteq> []" using assms(2) by auto
  have "tasks (approved_state now (fi_id i) n mode db) =
      map (cancel_task now (map ft_id (pending_at (fi_id i) n db))) (tasks db)"
    using ne by (simp add: approved_state_def Let_def) (simp add: add_history_def cancel_escalations_def cancel_pending_def)
  moreover have "x \<in> set (tasks db)" "ft_status x = TaskPending" using assms(2) by (simp_all add: in_pending_of)
  moreover have "ft_id x \<in> set (map ft_id (pending_at (fi_id i) n db))" using assms(2) unfolding p by simp
  ultimately show ?thesis
    by (intro bexI[of _ "cancel_task now (map ft_id (pending_at (fi_id i) n db)) x"]) (simp_all add: cancel_task_def)
qed

lemma approval_result:
  assumes h: "handle_approval parse limit now i n mode db = Inr db'" and r: "runs_at db i n" and run: "running_rows (fi_id i) db"
    and a: "approval_at d n" and v: "bound_definition i db = Inr d" and wf: "wf_definition parse d"
  defines "others \<equiv> pending_of (fi_id i) db"
  shows "if mode \<noteq> ''any'' \<and> others \<noteq> [] then db' = db
    else \<exists>m i'. (n, m) \<in> (flow_rel (flow_table d))\<^sup>+ \<and> row_by fi_id (fi_id i) (instances db') = Some i' \<and> fi_node i' = Some m \<and>
      (fi_status i' = Running \<and> approval_at d m \<or> fi_status i' = Completed \<and> pending_of (fi_id i) db' = []) \<and>
      (\<forall>x \<in> set others. \<exists>x' \<in> set (tasks db'). ft_id x' = ft_id x \<and> ft_status x' = TaskCanceled)"
proof (cases "mode \<noteq> ''any'' \<and> others \<noteq> []")
  case True
  have "pending_at (fi_id i) n db = pending_of (fi_id i) db" using r by (simp add: runs_at_def pending_at_eq)
  with True h show ?thesis by (simp add: handle_approval_eq others_def)
next
  case False
  let ?db1 = "approved_state now (fi_id i) n mode db"
  have p: "pending_at (fi_id i) n db = others" using r by (simp add: runs_at_def pending_at_eq others_def)
  note s = approved_state_rest[OF r, of now mode]
  have "bound_definition i ?db1 = Inr d" using s(1) v by (simp add: bound_definition_def frame_def)
  with h False p have adv: "advance parse now (fi_id i) (fi_context i) (node_index d) limit n ?db1 = Inr db'"
    by (auto simp: handle_approval_eq)
  obtain nd where nd: "map_of (node_index d) n = Some nd" "jget ''type'' nd = JStr ''approval''"
    using a by (auto simp: approval_at_def split: option.splits)
  obtain m node hs where l: "landed parse now (fi_id i) (node_index d) m node hs ?db1 db'" "(n, m) \<in> (flow_rel (flow_table d))\<^sup>+"
    by (rule advance_lands[OF adv wf nd(1)]) (simp add: nd(2))
  have "flow_le ?db1 db'" by (rule landed_le[OF _ l(1)]) (simp add: run)
  then have g: "grows task_le (tasks ?db1) (tasks db')" by (simp add: flow_le_def)
  have canc: "\<exists>x' \<in> set (tasks db'). ft_id x' = ft_id x \<and> ft_status x' = TaskCanceled" if x: "x \<in> set others" for x
  proof -
    obtain y where y: "y \<in> set (tasks ?db1)" "ft_id y = ft_id x" "ft_status y = TaskCanceled"
      using cancelled_row[OF r, of x] x unfolding others_def by blast
    obtain z where "z \<in> set (tasks db')" "task_le y z" using grows_mem[OF g y(1)] by blast
    with y show ?thesis by (auto simp: task_le_def)
  qed
  have "fi_status i = Running" using r by (simp add: runs_at_def)
  from landed_result[OF l(1) s(4) this s(3)] l(2) canc show ?thesis unfolding if_not_P[OF False] by blast
qed

lemma fresh_idempotent:
  assumes "idempotent rid scope fp body db = Inr ((p, False), db')" and "flow_inv parse db"
  obtains rs where "body (db\<lparr>requests := rs\<rparr>) = Inr (p, db')" "flow_unique (db\<lparr>requests := rs\<rparr>)" "mid_ok parse (db\<lparr>requests := rs\<rparr>)"
proof -
  obtain out db1 where a: "acquire rid scope fp db = Inr (out, db1)"
    and rest: "(case out of Some p \<Rightarrow> Inr ((p, True), db1) | None \<Rightarrow> bindR (body db1) (\<lambda>(p, db2). Inr ((p, False), db2))) =
      Inr ((p, False), db')"
    using assms(1) by (auto simp: idempotent_def bindR_Inr_iff)
  from a show thesis
  proof (cases rule: acquire_cases)
    case fresh
    from rest fresh(1) have "body db1 = Inr (p, db')" by (auto simp: bindR_Inr_iff)
    with fresh(3,4) assms(2) show thesis by (intro that) (simp_all add: flow_inv_def)
  qed (use rest in simp)
qed

lemma payload_fields:
  assumes "instance_payload iid db = Inr p" and "row_by fi_id iid (instances db) = Some i"
  shows "py_status p = fi_status i" "py_node p = fi_node i" "py_reject_reason p = fi_reject_reason i"
    "py_pending p = map (\<lambda>t. (ft_id t, ft_node t, ft_assignee t)) (sort_key ft_id (pending_of iid db))"
  using assms by (auto simp: instance_payload_def)

lemma bound_requests [simp]: "bound_definition i (db\<lparr>requests := rs\<rparr>) = bound_definition i db"
  by (simp add: bound_definition_def)

text \<open>What a decision leaves of its instance, from the two ways in which it is handled.\<close>

lemma decision_outcome:
  assumes rh: "runs_at dbh i n" and n: "approval_at d n" "running_rows (fi_id i) dbh" and bd: "bound_definition i dbh = Inr d"
    and wf: "wf_definition ps d" and po: "pending_of (fi_id i) dbh = others" and run: "fi_status i = Running" "fi_node i = Some n"
    and branch: "if dec = ''reject'' then db2 = handle_rejection now (fi_id i) n mode actor comment dr dbh
      else handle_approval ps k now i n mode dbh = Inr db2"
    and pay: "instance_payload (fi_id i) db2 = Inr p"
  shows "if (if dec = ''reject'' then mode \<noteq> ''all'' else mode \<noteq> ''any'') \<and> others \<noteq> [] then
       py_status p = Running \<and> py_node p = fi_node i \<and>
       py_pending p = map (\<lambda>x. (ft_id x, ft_node x, ft_assignee x)) (sort_key ft_id others)
     else if dec = ''reject'' then
       py_status p = Rejected \<and> py_reject_reason p = Some (or_default comment dr) \<and> py_pending p = []
     else
       (\<exists>m. (n, m) \<in> (flow_rel (flow_table d))\<^sup>+ \<and> py_node p = Some m \<and>
          (py_status p = Running \<and> approval_at d m \<or> py_status p = Completed \<and> py_pending p = [])) \<and>
       (\<forall>x \<in> set others. \<exists>x' \<in> set (tasks db2). ft_id x' = ft_id x \<and> ft_status x' = TaskCanceled)"
proof -
  have rowh: "row_by fi_id (fi_id i) (instances dbh) = Some i" using rh by (simp add: runs_at_def)
  show ?thesis
  proof (cases "dec = ''reject''")
    case True
    then have h: "db2 = handle_rejection now (fi_id i) n mode actor comment dr dbh" using branch by simp
    note res = rejection_result[OF rh, of mode now actor comment dr, folded h, unfolded po]
    show ?thesis
    proof (cases "mode = ''all'' \<or> others = []")
      case fin: True
      with res payload_fields[OF pay] show ?thesis using True by (auto simp: close_instance_def)
    next
      case False
      with res have "db2 = dbh" by simp
      with payload_fields[OF pay] rowh po show ?thesis using True False run by simp
    qed
  next
    case False
    with branch have h: "handle_approval ps k now i n mode dbh = Inr db2" by simp
    note res = approval_result[OF h rh n(2) n(1) bd wf, unfolded po]
    show ?thesis
    proof (cases "mode \<noteq> ''any'' \<and> others \<noteq> []")
      case True
      with res have "db2 = dbh" by simp
      with payload_fields[OF pay] rowh po show ?thesis using True False run by simp
    next
      case fin: False
      from res[unfolded if_not_P[OF fin]] obtain m i' where m: "(n, m) \<in> (flow_rel (flow_table d))\<^sup>+"
        "row_by fi_id (fi_id i) (instances db2) = Some i'" "fi_node i' = Some m"
        "fi_status i' = Running \<and> approval_at d m \<or> fi_status i' = Completed \<and> pending_of (fi_id i) db2 = []"
        "\<forall>x \<in> set others. \<exists>x' \<in> set (tasks db2). ft_id x' = ft_id x \<and> ft_status x' = TaskCanceled" by blast
      have "py_node p = Some m" "py_status p = Running \<and> approval_at d m \<or> py_status p = Completed \<and> py_pending p = []"
        using payload_fields[OF pay m(2)] m(3,4) by auto
      moreover have "\<not> ((if dec = ''reject'' then mode \<noteq> ''all'' else mode \<noteq> ''any'') \<and> others \<noteq> [])" using False fin by simp
      ultimately show ?thesis using False m(1,5) by (simp only: if_False if_not_P) blast
    qed
  qed
qed

text \<open>C22: a decision on a pending task of a running instance, by its assignee. In mode all the first rejection
  rejects the instance and the node is finished by the last approval; in mode any the first approval
  finishes the node and only the rejection of the last task rejects the instance. Until then the
  instance stays and the other tasks stay pending; a finished node cancels them and the instance
  moves along the edges to a later approval or to the end.\<close>

theorem decision_semantics:
  assumes db: "db = flow_run su ops no_rows" and i: "row_by fi_id iid (instances db) = Some i"
    and t: "row_by ft_id tid (tasks db) = Some t" and d: "bound_definition i db = Inr d"
    and node: "map_of (node_index d) (ft_node t) = Some node" and mode: "str_of (jget ''mode'' node) = mode"
    and others: "others = filter (\<lambda>x. x \<noteq> t) (pending_of iid db)"
    and r: "post_decision su now dr iid tid rid ev actor dec comment db = Inr ((p, False), db')"
  shows "fi_status i = Running \<and> fi_node i = Some (ft_node t) \<and> t \<in> set (pending_of iid db) \<and> ft_assignee t = actor \<and>
    ev = fi_version_number i \<and>
    (if (if dec = ''reject'' then mode \<noteq> ''all'' else mode \<noteq> ''any'') \<and> others \<noteq> [] then
       py_status p = Running \<and> py_node p = fi_node i \<and>
       py_pending p = map (\<lambda>x. (ft_id x, ft_node x, ft_assignee x)) (sort_key ft_id others)
     else if dec = ''reject'' then
       py_status p = Rejected \<and> py_reject_reason p = Some (or_default comment dr) \<and> py_pending p = []
     else
       (\<exists>m. (ft_node t, m) \<in> (flow_rel (flow_table d))\<^sup>+ \<and> py_node p = Some m \<and>
          (py_status p = Running \<and> approval_at d m \<or> py_status p = Completed \<and> py_pending p = [])) \<and>
       (\<forall>x \<in> set others. \<exists>x' \<in> set (tasks db'). ft_id x' = ft_id x \<and> ft_status x' = TaskCanceled))"
proof -
  have inv: "flow_inv (fs_parse su) db" unfolding db by (rule run_inv)
  let ?st = "if dec = ''approve'' then TaskApproved else TaskRejected"
  have "idempotent rid ''task_action'' (fs_hash su (DecideParts iid tid ev actor dec comment))
      (decide_body (fs_parse su) (fs_limit su) now dr iid tid ev actor dec comment rid) db = Inr ((p, False), db')"
    using r by (simp add: post_decision_def decide_task_def split: if_splits)
  then obtain rs where body: "decide_body (fs_parse su) (fs_limit su) now dr iid tid ev actor dec comment rid (db\<lparr>requests := rs\<rparr>) = Inr (p, db')"
    and u: "flow_unique (db\<lparr>requests := rs\<rparr>)" and mid: "mid_ok (fs_parse su) (db\<lparr>requests := rs\<rparr>)"
    by (rule fresh_idempotent[OF _ inv])
  let ?db1 = "db\<lparr>requests := rs\<rparr>"
  from body i t obtain db2 where run: "fi_status i = Running" "fi_version_number i = ev"
    and ta: "ft_instance t = fi_id i" "ft_assignee t = actor" "ft_status t = TaskPending" and dec: "dec \<in> {''approve'', ''reject''}"
    and dc: "decide_checked (fs_parse su) (fs_limit su) now dr i t actor ?st comment ?db1 = Inr db2" and f: "finish rid iid db2 = Inr (p, db')"
    by (auto simp: decide_body_def lock_instance_def bindR_Inr_iff split: if_splits)
  have i1: "row_by fi_id iid (instances ?db1) = Some i" using i by simp
  obtain v where v: "version_bound (versions ?db1) i v" "at_rest (pending_of iid ?db1) i (tv_definition v)"
    "wf_definition (fs_parse su) (tv_definition v)" by (rule mid_row[OF mid i1])
  have dv: "d = tv_definition v" using d v(1) by (simp add: bound_definition_def version_bound_def)
  obtain n where n: "runs_at ?db1 i n" "approval_at d n" "running_rows iid ?db1" "fi_id i = iid"
    using running_row[OF u i1 run(1) v(2)] unfolding dv by blast
  have tm: "t \<in> set (pending_of (fi_id i) ?db1)" "ft_id t = tid" using row_by_SomeD[OF t] ta by (simp_all add: in_pending_of)
  have tn: "ft_node t = n" using n(1) tm(1) by (simp add: runs_at_def)
  have st: "?st \<noteq> TaskPending" by simp
  let ?dbt = "?db1\<lparr>tasks := upd_by ft_id (ft_id t) (decide_row ?st actor comment now) (tasks ?db1)\<rparr>"
  let ?dbh = "add_history (fi_id i) (Some (ft_node t)) (if ?st = TaskApproved then EvTaskApprove else EvTaskReject)
      (Some actor) (TaskDetail (ft_id t) mode comment) ?dbt"
  note dd = decided[OF n(1) tm(1) st, of actor comment now]
  have po: "pending_of (fi_id i) ?dbh = others" using dd(3) n(4) by (simp add: others)
  have rh: "runs_at ?dbh i n" using dd(2) by simp
  have bd: "bound_definition i ?dbh = Inr d" using d by (simp add: bound_definition_def) (simp add: add_history_def)
  have runh: "running_rows (fi_id i) ?dbh" using n(3,4) by simp
  have branch: "if ?st = TaskRejected then db2 = handle_rejection now (fi_id i) n mode actor comment dr ?dbh
      else handle_approval (fs_parse su) (fs_limit su) now i n mode ?dbh = Inr db2"
    using decide_checked_cases[OF dc _ node] d unfolding mode tn by simp
  have pay: "instance_payload (fi_id i) db2 = Inr p" and t2: "tasks db' = tasks db2"
    using finish_Inr[OF f] n(4) by (simp_all add: store_result_def)
  have base: "fi_status i = Running \<and> fi_node i = Some (ft_node t) \<and> t \<in> set (pending_of iid db) \<and> ft_assignee t = actor \<and>
      ev = fi_version_number i"
    using run ta tm n tn by (simp add: runs_at_def)
  have branch': "if dec = ''reject'' then db2 = handle_rejection now (fi_id i) n mode actor comment dr ?dbh
      else handle_approval (fs_parse su) (fs_limit su) now i n mode ?dbh = Inr db2"
    using branch dec by (auto split: if_splits)
  have nn: "fi_node i = Some n" using n(1) by (simp add: runs_at_def)
  note out = decision_outcome[OF rh n(2) runh bd v(3)[folded dv] po run(1) nn branch' pay]
  show ?thesis using base out unfolding t2 tn by (simp only: simp_thms)
qed

theorem decision_semantics_witness:
  "\<exists>p db'. post_decision demo_setup 40 ''r'' ''i1'' 3 ''d1'' 1 ''alice'' ''approve'' None demo_db = Inr ((p, False), db') \<and>
     py_status p = Running \<and> py_node p = Some ''dept_approval'' \<and> map fst (py_pending p) = [4]"
proof -
  have tasks: "map (\<lambda>t. (ft_id t, ft_node t)) (tasks demo_db) = [(3, ''dept_approval''), (4, ''dept_approval'')]"
    "pending_of ''i1'' demo_db = tasks demo_db" by code_simp+
  then obtain t t2 where t: "tasks demo_db = [t, t2]" "ft_id t = 3" "ft_node t = ''dept_approval''" "ft_id t2 = 4"
    by (auto simp: map_eq_Cons_conv)
  have inst: "map fi_id (instances demo_db) = [''i1'']" "map (\<lambda>i. bound_definition i demo_db) (instances demo_db) = [Inr leave_demo]"
    by code_simp+
  then obtain i where i: "instances demo_db = [i]" "fi_id i = ''i1''" "bound_definition i demo_db = Inr leave_demo"
    by (auto simp: map_eq_Cons_conv)
  have mode: "map_option (\<lambda>node. str_of (jget ''mode'' node)) (map_of (node_index leave_demo) ''dept_approval'') = Some ''all''" by code_simp
  then obtain node where node: "map_of (node_index leave_demo) ''dept_approval'' = Some node" "str_of (jget ''mode'' node) = ''all''"
    by auto
  have "case post_decision demo_setup 40 ''r'' ''i1'' 3 ''d1'' 1 ''alice'' ''approve'' None demo_db of
      Inl e \<Rightarrow> False | Inr (a, db1) \<Rightarrow> \<not> snd a" by code_simp
  then obtain p db' where r: "post_decision demo_setup 40 ''r'' ''i1'' 3 ''d1'' 1 ''alice'' ''approve'' None demo_db = Inr ((p, False), db')"
    by (auto split: sum.splits prod.splits)
  have others: "filter (\<lambda>x. x \<noteq> t) (pending_of ''i1'' demo_db) = [t2]" using t by (auto simp: tasks(2))
  have "row_by fi_id ''i1'' (instances demo_db) = Some i" "row_by ft_id 3 (tasks demo_db) = Some t" using i t by simp_all
  from decision_semantics[OF demo_db_def this i(3) _ node(2) others[symmetric] r] t(3,4) node(1) r
  show ?thesis by auto
qed

end
