(* ===== verification/Flow_Escalation.thy ===== *)
theory Flow_Escalation
  imports Flow_Semantics
begin

text \<open>
  Escalation of an overdue approval: its tasks pass to the targets, or it lapses; and how two
  workers of which one holds a stale claim escalate the same approval twice.
\<close>

section \<open>One claimed row\<close>

definition at_escalation :: "flow \<Rightarrow> escalation \<Rightarrow> bool" where
  "at_escalation db e \<longleftrightarrow>
     (case row_by fi_id (es_instance e) (instances db) of
        None \<Rightarrow> False | Some i \<Rightarrow> fi_status i = Running \<and> fi_node i = Some (es_node e))"

lemma lapsed:
  assumes "mid_ok parse db" and "\<not> at_escalation db e"
  shows "apply_escalation now e db = set_escalation e EscCanceled now db"
  using assms(2) by (auto simp: apply_escalation_def at_escalation_def split: option.splits)

lemma escalated:
  assumes u: "flow_unique db" and mid: "mid_ok parse db" and e: "at_escalation db e" "es_targets e \<noteq> []"
  obtains i n d where "apply_escalation now e db = set_escalation e EscDone now (add_history (fi_id i) (Some n) EvEscalate None
      (EscalateDetail (map ft_assignee (pending_at (fi_id i) n db)) (es_targets e))
      (add_tasks (fi_id i) n (es_targets e) (cancel_pending now (pending_at (fi_id i) n db) db)))"
    "runs_at db i n" "approval_at d n" "es_node e = n" "es_instance e = fi_id i"
proof -
  obtain i where i: "row_by fi_id (es_instance e) (instances db) = Some i" "fi_status i = Running" "fi_node i = Some (es_node e)"
    using e(1) by (auto simp: at_escalation_def split: option.splits)
  obtain v where v: "version_bound (versions db) i v" "at_rest (pending_of (es_instance e) db) i (tv_definition v)"
    by (rule mid_row[OF mid i(1)])
  obtain n where n: "runs_at db i n" "approval_at (tv_definition v) n" "fi_id i = es_instance e"
    using running_row[OF u i(1,2) v(2)] by blast
  have en: "es_node e = n" using n(1) i(3) by (simp add: runs_at_def)
  have "pending_at (fi_id i) n db \<noteq> []" using v(2) i(2) n(1,3) by (simp add: at_rest_def runs_at_def pending_at_eq)
  then have "apply_escalation now e db = set_escalation e EscDone now (add_history (fi_id i) (Some n) EvEscalate None
      (EscalateDetail (map ft_assignee (pending_at (fi_id i) n db)) (es_targets e))
      (add_tasks (fi_id i) n (es_targets e) (cancel_pending now (pending_at (fi_id i) n db) db)))"
    using i en by (simp add: apply_escalation_def Let_def)
  from that[OF this n(1,2) en n(3)[symmetric]] show thesis .
qed

lemma set_escalation_row:
  assumes "row_by es_id (es_id e) (escalations db) = Some e"
  shows "row_by es_id (es_id e) (escalations (set_escalation e st now db)) = Some (end_escalation st now e)"
  using assms by (simp add: set_escalation_def escalation_end.lookup_upd)

text \<open>The tasks that an escalation replaces are cancelled.\<close>

lemma replaced_canceled:
  assumes n: "runs_at db i n" "t \<in> set (pending_of (fi_id i) db)"
    and tasks: "tasks db' = tasks (cancel_pending now (pending_at (fi_id i) n db) db) @ new"
  shows "\<exists>t' \<in> set (tasks db'). ft_id t' = ft_id t \<and> ft_status t' = TaskCanceled"
proof -
  let ?ids = "map ft_id (pending_at (fi_id i) n db)"
  have "t \<in> set (pending_at (fi_id i) n db)" using n by (simp add: runs_at_def pending_at_eq)
  then have "t \<in> set (tasks db)" "ft_status t = TaskPending" "ft_id t \<in> set ?ids" by (auto simp: in_pending_at in_pending_of)
  then have "cancel_task now ?ids t \<in> set (tasks db')" "ft_id (cancel_task now ?ids t) = ft_id t"
    "ft_status (cancel_task now ?ids t) = TaskCanceled"
    by (simp_all add: tasks cancel_pending_def cancel_task_def)
  then show ?thesis by blast
qed

text \<open>C23: when the transaction of a due escalation commits, no instance changes, and either the instance is
  still running at the node, then exactly the targets hold its pending tasks, in their order, the former
  tasks are cancelled and the escalation is done; or it has moved on or is closed, then the
  escalation lapses and no task and no history changes.\<close>

theorem escalation_semantics:
  assumes db: "db = flow_run su ops no_rows" and e: "e \<in> set (escalations db)" and r: "process_one now e db = (True, db')"
  shows "instances db' = instances db \<and>
    (if at_escalation db e then
       row_by es_id (es_id e) (escalations db') = Some (end_escalation EscDone now e) \<and>
       map ft_assignee (pending_of (es_instance e) db') = es_targets e \<and>
       (\<forall>t \<in> set (pending_of (es_instance e) db'). ft_node t = es_node e) \<and>
       (\<forall>t \<in> set (pending_of (es_instance e) db). \<exists>t' \<in> set (tasks db'). ft_id t' = ft_id t \<and> ft_status t' = TaskCanceled)
     else
       row_by es_id (es_id e) (escalations db') = Some (end_escalation EscCanceled now e) \<and>
       tasks db' = tasks db \<and> history db' = history db)"
proof -
  have inv: "flow_inv (fs_parse su) db" unfolding db by (rule run_inv)
  then have u: "flow_unique db" and mid: "mid_ok (fs_parse su) db" by (simp_all add: flow_inv_def)
  have d: "db' = apply_escalation now e db" using r by (auto simp: process_one_def split: sum.splits)
  have row: "row_by es_id (es_id e) (escalations db) = Some e"
    using u e by (intro row_by_unique) (simp_all add: flow_unique_def)
  show ?thesis
  proof (cases "at_escalation db e")
    case False
    then show ?thesis using set_escalation_row[OF row]
      by (simp add: d lapsed[OF mid False]) (simp add: set_escalation_def)
  next
    case True
    have t: "es_targets e \<noteq> []" using mid e by (simp add: mid_ok_def targets_ok_def)
    obtain i n dd where ap: "apply_escalation now e db = set_escalation e EscDone now (add_history (fi_id i) (Some n) EvEscalate None
        (EscalateDetail (map ft_assignee (pending_at (fi_id i) n db)) (es_targets e))
        (add_tasks (fi_id i) n (es_targets e) (cancel_pending now (pending_at (fi_id i) n db) db)))"
      and n: "runs_at db i n" "approval_at dd n" "es_node e = n" "es_instance e = fi_id i"
      by (rule escalated[OF u mid True t])
    let ?db1 = "cancel_pending now (pending_at (fi_id i) n db) db"
    let ?db2 = "add_history (fi_id i) (Some n) EvEscalate None
        (EscalateDetail (map ft_assignee (pending_at (fi_id i) n db)) (es_targets e)) (add_tasks (fi_id i) n (es_targets e) ?db1)"
    obtain new where new: "pending_of (fi_id i) (add_tasks (fi_id i) n (es_targets e) ?db1) = pending_of (fi_id i) ?db1 @ new"
        "map ft_assignee new = es_targets e" "\<forall>t \<in> set new. ft_node t = n"
      using pending_of_add_tasks(2)[of "fi_id i" n "es_targets e" ?db1] by blast
    have p: "pending_of (fi_id i) db' = new" using new(1) cancel_here(2)[OF n(1), of now] by (simp add: d ap)
    have esc: "escalations ?db2 = escalations db" by (simp add: add_history_def cancel_pending_def)
    have "row_by es_id (es_id e) (escalations db') = Some (end_escalation EscDone now e)"
      unfolding d ap by (rule set_escalation_row) (simp add: esc row)
    moreover obtain more where "tasks (add_tasks (fi_id i) n (es_targets e) ?db1) = tasks ?db1 @ more" by (rule add_tasks_rows)
    then have "tasks db' = tasks ?db1 @ more" unfolding d ap by (simp add: set_escalation_def add_history_def)
    from replaced_canceled[OF n(1) _ this] have "\<forall>t \<in> set (pending_of (es_instance e) db). \<exists>t' \<in> set (tasks db'). ft_id t' = ft_id t \<and> ft_status t' = TaskCanceled"
      by (simp add: n(4))
    moreover have "instances db' = instances db" by (simp add: d ap)
    ultimately show ?thesis using True p new(2,3) n(3,4) by simp
  qed
qed

theorem escalation_semantics_witness:
  "\<exists>e db'. escalations demo_db = [e] \<and> process_one 200 e demo_db = (True, db') \<and>
     row_by es_id (es_id e) (escalations db') = Some (end_escalation EscDone 200 e) \<and>
     map ft_assignee (pending_of ''i1'' db') = [''frank'']"
proof -
  have e: "map (\<lambda>e. (es_instance e, es_targets e, at_escalation demo_db e)) (escalations demo_db) = [(''i1'', [''frank''], True)]"
    "map (\<lambda>e. fst (process_one 200 e demo_db)) (escalations demo_db) = [True]" by code_simp+
  then obtain e where es: "escalations demo_db = [e]" "es_instance e = ''i1''" "es_targets e = [''frank'']" "at_escalation demo_db e"
    "fst (process_one 200 e demo_db)" by (auto simp: map_eq_Cons_conv)
  then obtain db' where db': "process_one 200 e demo_db = (True, db')" by (cases "process_one 200 e demo_db") auto
  from escalation_semantics[OF demo_db_def _ db'] es db' show ?thesis by auto
qed

section \<open>A stale claim\<close>

text \<open>
  Worker A claims the escalations of two instances and commits the first, which releases its locks;
  worker B claims and finishes the second; then A applies its stale copy of the second: the tasks
  that B has just given out are cancelled and given out again.
\<close>

definition stale_base :: flow where
  "stale_base = flow_run demo_setup
     (demo_ops @ [Start 11 ''i2'' ''leave'' ''tom'' [(''amount'', JInt 1)] ''r3'']) no_rows"

definition stale_run :: flow where
  "stale_run = flow_run demo_setup
     [EscalateRow 200 (escalations stale_base ! 0), Escalate 200 {} 10, EscalateRow 201 (escalations stale_base ! 1)] stale_base"

lemma stale_claim_escalates_twice:
  "map fi_id (instances stale_base) = [''i1'', ''i2''] \<and>
   length (filter (\<lambda>h. he_instance h = ''i2'' \<and> he_type h = EvEscalate) (history stale_run)) = 2 \<and>
   length (filter (\<lambda>h. he_instance h = ''i1'' \<and> he_type h = EvEscalate) (history stale_run)) = 1"
  by code_simp

end
