(* ===== verification/Flow_Phases.thy ===== *)
theory Flow_Phases
  imports Flow_Escalation
begin

text \<open>
  The contract of the engine as an abstract state machine: an instance is at an approval of its
  definition until it moves along the edges to a later approval, completes at an end, is rejected
  or is withdrawn. Every request and every worker transaction refines it.
\<close>

section \<open>The abstract machine\<close>

datatype phase = Active "string option" | Finished instance_status

definition phase_of :: "flow_instance \<Rightarrow> phase" where
  "phase_of i = (if fi_status i = Running then Active (fi_node i) else Finished (fi_status i))"

inductive phase_step :: "jobj \<Rightarrow> phase \<Rightarrow> phase \<Rightarrow> bool" for d where
  move: "(n, m) \<in> (flow_rel (flow_table d))\<^sup>+ \<Longrightarrow> approval_at d m \<Longrightarrow> phase_step d (Active (Some n)) (Active (Some m))"
| complete: "(n, m) \<in> (flow_rel (flow_table d))\<^sup>+ \<Longrightarrow> phase_step d (Active (Some n)) (Finished Completed)"
| reject: "approval_at d n \<Longrightarrow> phase_step d (Active (Some n)) (Finished Rejected)"
| withdraw: "phase_step d (Active n) (Finished Withdrawn)"

inductive_cases phase_step_Finished [elim!]: "phase_step d (Finished st) p"

inductive_simps phase_step_Active: "phase_step d (Active n) p"

lemma phase_of_close [simp]: "st \<noteq> Running \<Longrightarrow> phase_of (close_instance st r now i) = Finished st"
  by (simp add: phase_of_def close_instance_def)

section \<open>Refinement\<close>

definition refines_step :: "flow \<Rightarrow> flow \<Rightarrow> bool" where
  "refines_step db db' \<longleftrightarrow>
     (\<forall>iid i d. row_by fi_id iid (instances db) = Some i \<longrightarrow> bound_definition i db = Inr d \<longrightarrow>
        (\<exists>i'. row_by fi_id iid (instances db') = Some i' \<and> (phase_step d)\<^sup>=\<^sup>= (phase_of i) (phase_of i')))"

lemma refines_same: "instances db' = instances db \<Longrightarrow> refines_step db db'"
  by (simp add: refines_step_def)

lemma refines_one:
  assumes "\<And>j. j \<noteq> iid \<Longrightarrow> row_by fi_id j (instances db') = row_by fi_id j (instances db)"
    and "\<And>i d. row_by fi_id iid (instances db) = Some i \<Longrightarrow> bound_definition i db = Inr d \<Longrightarrow>
      \<exists>i'. row_by fi_id iid (instances db') = Some i' \<and> (phase_step d)\<^sup>=\<^sup>= (phase_of i) (phase_of i')"
  shows "refines_step db db'"
  unfolding refines_step_def
proof (intro allI impI)
  fix j i d assume i: "row_by fi_id j (instances db) = Some i" "bound_definition i db = Inr d"
  show "\<exists>i'. row_by fi_id j (instances db') = Some i' \<and> (phase_step d)\<^sup>=\<^sup>= (phase_of i) (phase_of i')"
    using i assms by (cases "j = iid") auto
qed

lemma finish_instances: "finish rid iid db = Inr (p, db') \<Longrightarrow> instances db' = instances db"
  using finish_Inr by (fastforce simp: store_result_def)

lemma start_refines:
  assumes "flow_unique db" and "mid_ok parse db" and "start_body parse limit now iid key submitter ctx rid db = Inr (p, db')"
  shows "refines_step db db'"
proof -
  obtain db2 where f: "finish rid iid db2 = Inr (p, db')" and fresh: "iid \<notin> fi_id ` set (instances db)"
    and same: "\<And>j. j \<noteq> iid \<Longrightarrow> row_by fi_id j (instances db2) = row_by fi_id j (instances db)"
    by (rule start_body_parts[OF assms]) blast
  have "row_by fi_id iid (instances db) = None" using fresh by (simp add: row_by_None_iff)
  with same show ?thesis by (intro refines_one[of iid]) (simp_all add: finish_instances[OF f])
qed

lemma withdraw_refines:
  assumes "flow_unique db" and "mid_ok parse db" and b: "withdraw_body now iid actor rid db = Inr (p, db')"
  shows "refines_step db db'"
proof -
  from b obtain i where i: "row_by fi_id iid (instances db) = Some i" "fi_status i \<notin> CLOSED"
    and f: "finish rid iid (add_history (fi_id i) (fi_node i) EvWithdraw (Some actor) NoDetail
      (upd_instance (fi_id i) (close_instance Withdrawn None now)
        (cancel_escalations now (fi_id i) (fi_node i) (cancel_pending now (pending_of (fi_id i) db) db)))) = Inr (p, db')"
    by (auto simp: withdraw_body_def lock_instance_def bindR_Inr_iff split: if_splits)
  have id: "fi_id i = iid" using row_by_SomeD[OF i(1)] by simp
  have run: "fi_status i = Running" using i(2) by (cases "fi_status i") (simp_all add: CLOSED_def)
  have rows: "instances db' = upd_by fi_id iid (close_instance Withdrawn None now) (instances db)"
    using finish_instances[OF f] by (simp add: upd_instance_def id)
  show ?thesis
  proof (rule refines_one[of iid])
    fix j d assume "row_by fi_id iid (instances db) = Some j"
    then have "j = i" using i(1) by simp
    then show "\<exists>i'. row_by fi_id iid (instances db') = Some i' \<and> (phase_step d)\<^sup>=\<^sup>= (phase_of j) (phase_of i')"
      using i(1) run by (auto simp: rows instance_close.lookup_upd phase_of_def[of i] intro: phase_step.withdraw)
  qed (simp add: rows instance_close.lookup_upd)
qed

lemma decide_refines:
  assumes u: "flow_unique db" and mid: "mid_ok parse db"
    and b: "decide_body parse limit now dr iid tid ev actor dec comment rid db = Inr (p, db')"
  shows "refines_step db db'"
proof -
  let ?st = "if dec = ''approve'' then TaskApproved else TaskRejected"
  from b obtain i t db2 where i: "row_by fi_id iid (instances db) = Some i" "fi_status i = Running"
    and t: "row_by ft_id tid (tasks db) = Some t" "ft_instance t = fi_id i" "ft_status t = TaskPending"
    and dc: "decide_checked parse limit now dr i t actor ?st comment db = Inr db2" and f: "finish rid iid db2 = Inr (p, db')"
    by (auto simp: decide_body_def lock_instance_def bindR_Inr_iff split: if_splits option.splits)
  obtain v where v: "version_bound (versions db) i v" "at_rest (pending_of iid db) i (tv_definition v)"
    "wf_definition parse (tv_definition v)" by (rule mid_row[OF mid i(1)])
  obtain n where n: "runs_at db i n" "approval_at (tv_definition v) n" "running_rows iid db" "fi_id i = iid"
    by (rule running_row[OF u i v(2)])
  have tm: "t \<in> set (pending_of (fi_id i) db)" using row_by_SomeD[OF t(1)] t by (simp add: in_pending_of)
  have tn: "ft_node t = n" using n(1) tm by (simp add: runs_at_def)
  have vr: "row_by tv_id (fi_version_id i) (versions db) = Some v" using v(1) by (simp add: version_bound_def)
  have st: "?st \<noteq> TaskPending" by simp
  note rest = decide_checked_rest[OF dc n(1) tm st n(2) vr refl v(3)]
  have bd: "bound_definition i db = Inr (tv_definition v)" using vr by (simp add: bound_definition_def)
  obtain node where node: "map_of (node_index (tv_definition v)) n = Some node"
    using n(2) by (auto simp: approval_at_def split: option.splits)
  define mode where "mode = str_of (jget ''mode'' node)"
  let ?dbh = "add_history (fi_id i) (Some n) (if ?st = TaskApproved then EvTaskApprove else EvTaskReject)
      (Some actor) (TaskDetail (ft_id t) mode comment)
      (db\<lparr>tasks := upd_by ft_id (ft_id t) (decide_row ?st actor comment now) (tasks db)\<rparr>)"
  have rh: "runs_at ?dbh i n" using decided(2)[OF n(1) tm st] by simp
  have rowh: "row_by fi_id (fi_id i) (instances ?dbh) = Some i" using rh by (simp add: runs_at_def)
  have bdh: "bound_definition i ?dbh = Inr (tv_definition v)" using bd by (simp add: bound_definition_def) (simp add: add_history_def)
  have runh: "running_rows (fi_id i) ?dbh" using n(3,4) by simp
  have pi: "phase_of i = Active (Some n)" using n(1) by (simp add: phase_of_def runs_at_def)
  have branch: "if ?st = TaskRejected then db2 = handle_rejection now (fi_id i) n mode actor comment dr ?dbh
      else handle_approval parse limit now i n mode ?dbh = Inr db2"
    using decide_checked_cases[OF dc bd] node unfolding tn mode_def by blast
  have step: "\<exists>i'. row_by fi_id (fi_id i) (instances db2) = Some i' \<and> (phase_step (tv_definition v))\<^sup>=\<^sup>= (phase_of i) (phase_of i')"
  proof (cases "?st = TaskRejected")
    case True
    with branch have h: "db2 = handle_rejection now (fi_id i) n mode actor comment dr ?dbh" by simp
    show ?thesis
      using rejection_result[OF rh, of mode now actor comment dr, folded h] rowh n(2) pi
      by (auto intro: phase_step.reject split: if_splits)
  next
    case False
    with branch have h: "handle_approval parse limit now i n mode ?dbh = Inr db2" by simp
    show ?thesis
    proof (cases "mode \<noteq> ''any'' \<and> pending_of (fi_id i) ?dbh \<noteq> []")
      case True
      with approval_result[OF h rh runh n(2) bdh v(3)] have "db2 = ?dbh" by simp
      with rowh show ?thesis by auto
    next
      case fin: False
      from approval_result[OF h rh runh n(2) bdh v(3), unfolded if_not_P[OF fin]] obtain m i' where
        "(n, m) \<in> (flow_rel (flow_table (tv_definition v)))\<^sup>+" "row_by fi_id (fi_id i) (instances db2) = Some i'" "fi_node i' = Some m"
        "fi_status i' = Running \<and> approval_at (tv_definition v) m \<or> fi_status i' = Completed" by blast
      then show ?thesis by (auto simp: pi phase_of_def[of i'] intro: phase_step.move phase_step.complete)
    qed
  qed
  show ?thesis
  proof (rule refines_one[of iid])
    show "row_by fi_id j (instances db') = row_by fi_id j (instances db)" if "j \<noteq> iid" for j
      using rest(1) that n(4) by (simp add: finish_instances[OF f] frame_def)
    fix j d assume "row_by fi_id iid (instances db) = Some j" "bound_definition j db = Inr d"
    then have "j = i" "d = tv_definition v" using i(1) bd by simp_all
    with step show "\<exists>i'. row_by fi_id iid (instances db') = Some i' \<and> (phase_step d)\<^sup>=\<^sup>= (phase_of j) (phase_of i')"
      by (simp add: finish_instances[OF f] n(4))
  qed
qed

section \<open>Every step\<close>

lemma refines_commit: "(\<And>a db'. r = Inr (a, db') \<Longrightarrow> refines_step db db') \<Longrightarrow> refines_step db (snd (commit_or_keep r db))"
  by (rule commit_or_keep_cases) (simp_all add: refines_same)

lemma template_operations_instances:
  "create_template parse limit key name d db = Inr db' \<Longrightarrow> instances db' = instances db"
  "add_version parse limit tid d db = Inr db' \<Longrightarrow> instances db' = instances db"
  "publish_version parse limit now key n db = Inr db' \<Longrightarrow> instances db' = instances db"
  "rollback_template key n db = Inr db' \<Longrightarrow> instances db' = instances db"
  by (auto simp: create_template_def add_version_def publish_version_def rollback_template_def bindR_Inr_iff split: if_splits)

lemma template_change_instances:
  "template_change key f db = Inr (a, db') \<Longrightarrow> (\<And>db1. f db = Inr db1 \<Longrightarrow> instances db1 = instances db) \<Longrightarrow> instances db' = instances db"
  by (auto simp: template_change_def bindR_Inr_iff)

lemma template_endpoints_refine:
  "post_template su key name d db = Inr (a, db') \<Longrightarrow> refines_step db db'"
  "post_version su key d db = Inr (a, db') \<Longrightarrow> refines_step db db'"
  "publish su now key n db = Inr (a, db') \<Longrightarrow> refines_step db db'"
  "rollback key n db = Inr (a, db') \<Longrightarrow> refines_step db db'"
proof -
  show "post_template su key name d db = Inr (a, db') \<Longrightarrow> refines_step db db'"
    by (rule refines_same) (auto simp: post_template_def split: if_splits elim!: template_change_instances template_operations_instances)
  show "post_version su key d db = Inr (a, db') \<Longrightarrow> refines_step db db'"
    by (rule refines_same) (auto simp: post_version_def bindR_Inr_iff elim!: template_change_instances template_operations_instances)
  show "publish su now key n db = Inr (a, db') \<Longrightarrow> refines_step db db'"
    by (rule refines_same) (auto simp: publish_def elim!: template_change_instances template_operations_instances)
  show "rollback key n db = Inr (a, db') \<Longrightarrow> refines_step db db'"
    by (rule refines_same) (auto simp: rollback_def split: if_splits elim!: template_change_instances template_operations_instances)
qed

lemma idempotent_refines:
  assumes inv: "flow_inv parse db" and r: "idempotent rid scope fp body db = Inr ((p, b), db')"
    and body: "\<And>db1 p db'. flow_unique db1 \<Longrightarrow> mid_ok parse db1 \<Longrightarrow> body db1 = Inr (p, db') \<Longrightarrow> refines_step db1 db'"
  shows "refines_step db db'"
proof (cases b)
  case True
  with r have "db' = db"
    by (auto simp: idempotent_def acquire_def bindR_Inr_iff split: option.splits if_splits)
  then show ?thesis by (simp add: refines_same)
next
  case False
  with r obtain rs where "body (db\<lparr>requests := rs\<rparr>) = Inr (p, db')" "flow_unique (db\<lparr>requests := rs\<rparr>)"
    "mid_ok parse (db\<lparr>requests := rs\<rparr>)" using fresh_idempotent[OF _ inv] by metis
  then have "refines_step (db\<lparr>requests := rs\<rparr>) db'" using body by blast
  then show ?thesis by (simp add: refines_step_def)
qed

lemma instance_endpoints_refine:
  assumes inv: "flow_inv (fs_parse su) db"
  shows "post_instance su now iid key submitter ctx rid db = Inr (a, db') \<Longrightarrow> refines_step db db'"
    and "post_decision su now dr iid tid rid ev actor dec comment db = Inr (a, db') \<Longrightarrow> refines_step db db'"
    and "post_withdraw su now iid rid actor db = Inr (a, db') \<Longrightarrow> refines_step db db'"
proof -
  show "post_instance su now iid key submitter ctx rid db = Inr (a, db') \<Longrightarrow> refines_step db db'"
    using idempotent_refines[OF inv _ start_refines] by (cases a) (simp add: post_instance_def start_instance_def split: if_splits)
  show "post_decision su now dr iid tid rid ev actor dec comment db = Inr (a, db') \<Longrightarrow> refines_step db db'"
    using idempotent_refines[OF inv _ decide_refines]
    by (cases a) (simp only: post_decision_def decide_task_def split: if_splits, blast+)
  show "post_withdraw su now iid rid actor db = Inr (a, db') \<Longrightarrow> refines_step db db'"
    using idempotent_refines[OF inv _ withdraw_refines] by (cases a) (simp add: post_withdraw_def withdraw_def split: if_splits)
qed

lemma process_one_instances [simp]: "instances (snd (process_one now e db)) = instances db"
proof -
  have "instances (apply_escalation now e db) = instances db"
    by (simp add: apply_escalation_def Let_def split: option.split)
  then show ?thesis by (auto simp: process_one_def split: sum.split)
qed

lemma process_claimed_instances: "instances (snd (process_claimed now es db)) = instances db"
  by (induction es arbitrary: db) (simp_all add: Let_def split_beta)

lemma flow_step_refines: "flow_inv (fs_parse su) db \<Longrightarrow> refines_step db (flow_step su op db)"
  by (cases op; simp only: flow_step.simps)
    (rule refines_commit, erule template_endpoints_refine instance_endpoints_refine[rotated], assumption?
      | rule refines_same, simp add: process_due_escalations_def process_claimed_instances)+

text \<open>C24: the engine refines the abstract state machine: in a reachable database, whatever request or worker
  transaction comes next, the instance stays in its phase or takes one step of the machine of the
  definition it is bound to; hence after any further requests its phase is reached by such steps.\<close>

theorem engine_refines_phases:
  assumes db: "db = flow_run su ops no_rows" and i: "row_by fi_id iid (instances db) = Some i"
  shows "\<exists>d. bound_definition i db = Inr d \<and>
    (\<exists>i'. row_by fi_id iid (instances (flow_step su op db)) = Some i' \<and> (phase_step d)\<^sup>=\<^sup>= (phase_of i) (phase_of i')) \<and>
    (\<exists>i'. row_by fi_id iid (instances (flow_run su later db)) = Some i' \<and> (phase_step d)\<^sup>*\<^sup>* (phase_of i) (phase_of i'))"
proof -
  have inv: "flow_inv (fs_parse su) db" unfolding db by (rule run_inv)
  obtain d where d: "bound_definition i db = Inr d" using instance_keeps_bound[OF inv i] by blast
  have "\<exists>i'. row_by fi_id iid (instances (flow_run su later db)) = Some i' \<and> (phase_step d)\<^sup>*\<^sup>* (phase_of i) (phase_of i')"
    using inv i d
  proof (induction later arbitrary: db i)
    case Nil
    then show ?case by (simp add: flow_run_def)
  next
    case (Cons op later)
    let ?db1 = "flow_step su op db"
    obtain i1 where i1: "row_by fi_id iid (instances ?db1) = Some i1" "(phase_step d)\<^sup>=\<^sup>= (phase_of i) (phase_of i1)"
      using flow_step_refines[OF Cons.prems(1)] Cons.prems(2,3) unfolding refines_step_def by blast
    have run: "flow_run su [op] db = ?db1" by (simp add: flow_run_def)
    have d1: "bound_definition i1 ?db1 = Inr d"
      using instance_keeps_bound[OF Cons.prems(1,2), of "[op]"] i1(1) Cons.prems(3) unfolding run by auto
    have inv1: "flow_inv (fs_parse su) ?db1" using run_from_inv[OF Cons.prems(1), of "[op]"] unfolding run .
    from Cons.IH[OF inv1 i1(1) d1] i1(2) show ?case by (auto simp: flow_run_def intro: converse_rtranclp_into_rtranclp)
  qed
  with d flow_step_refines[OF inv, of op] i show ?thesis unfolding refines_step_def by blast
qed

theorem engine_refines_phases_witness:
  "\<exists>i i' d. row_by fi_id ''i1'' (instances demo_db) = Some i \<and> phase_of i = Active (Some ''dept_approval'') \<and>
     row_by fi_id ''i1'' (instances (flow_step demo_setup (Decide 40 ''r'' ''i1'' 3 ''d1'' 1 ''alice'' ''reject'' None) demo_db)) = Some i' \<and>
     bound_definition i demo_db = Inr d \<and> (phase_step d)\<^sup>=\<^sup>= (phase_of i) (phase_of i') \<and> phase_of i' = Finished Rejected"
proof -
  let ?op = "Decide 40 ''r'' ''i1'' 3 ''d1'' 1 ''alice'' ''reject'' None"
  have p: "map_option phase_of (row_by fi_id ''i1'' (instances demo_db)) = Some (Active (Some ''dept_approval''))"
    "map_option phase_of (row_by fi_id ''i1'' (instances (flow_step demo_setup ?op demo_db))) = Some (Finished Rejected)"
    by code_simp+
  then obtain i where i: "row_by fi_id ''i1'' (instances demo_db) = Some i" "phase_of i = Active (Some ''dept_approval'')" by auto
  from engine_refines_phases[OF demo_db_def i(1), of ?op "[]"] obtain d i' where "bound_definition i demo_db = Inr d"
    "row_by fi_id ''i1'' (instances (flow_step demo_setup ?op demo_db)) = Some i'" "(phase_step d)\<^sup>=\<^sup>= (phase_of i) (phase_of i')"
    by blast
  with i p(2) show ?thesis by (intro exI[of _ i] exI[of _ i'] exI[of _ d]) (simp del: flow_step.simps)
qed

section \<open>A start node that is not the start\<close>

text \<open>A start node that is an approval is passed over.\<close>

lemma start_passes_approval:
  assumes u: "flow_unique db" and mid: "mid_ok (fs_parse su) db" and wf: "wf_definition (fs_parse su) (tv_definition v)"
    and t: "get_template key db = Inr t" and v: "published_version t db = Inr v"
    and s: "jget ''start_node'' (tv_definition v) = JStr s" "map_of (node_index (tv_definition v)) s = Some node"
    and ap: "jget ''type'' node = JStr ''approval''"
    and b: "start_body (fs_parse su) (fs_limit su) now iid key submitter ctx rid db = Inr (p, db')"
  shows "(\<exists>m. py_node p = Some m \<and> m \<noteq> s \<and> (s, m) \<in> (flow_rel (flow_table (tv_definition v)))\<^sup>+) \<and> pending_at iid s db' = []"
proof -
  obtain db2 where mid2: "mid_ok (fs_parse su) db2" and fresh: "iid \<notin> fi_id ` set (instances db)"
    and f: "finish rid iid db2 = Inr (p, db')" by (rule start_body_parts[OF u mid b]) blast
  from b obtain db3 where adv: "advance (fs_parse su) now iid ctx (node_index (tv_definition v)) (fs_limit su) s
      (started iid t v submitter ctx rid s db) = Inr db3" and f3: "finish rid iid db3 = Inr (p, db')"
    by (rule start_body_Inr) (use t v s in auto)
  let ?i = "new_instance iid t v submitter ctx rid s" and ?db1 = "started iid t v submitter ctx rid s db"
  have inst: "instances ?db1 = instances db @ [?i]" by (simp add: started_def)
  have row: "row_by fi_id iid (instances ?db1) = Some ?i"
    using fresh by (simp add: inst row_by_append row_by_None_iff[THEN iffD2] new_instance_def)
  have "settled db iid" using mid by (simp add: mid_ok_def)
  then have p0: "pending_of iid ?db1 = []" using fresh by (simp add: started_def settled_def row_by_None_iff[THEN iffD2])
  obtain m mnode hs where l: "landed (fs_parse su) now iid (node_index (tv_definition v)) m mnode hs ?db1 db3"
    and path: "(s, m) \<in> (flow_rel (flow_table (tv_definition v)))\<^sup>+"
    by (rule advance_lands[OF adv wf s(2)]) (simp add: ap)
  obtain i' where i': "row_by fi_id iid (instances db3) = Some i'" "fi_node i' = Some m"
    "fi_status i' = Running \<and> approval_at (tv_definition v) m \<or> fi_status i' = Completed \<and> pending_of iid db3 = []"
    using landed_result[OF l row _ p0] by (auto simp: new_instance_def)
  have pay: "instance_payload iid db3 = Inr p" and t3: "tasks db' = tasks db3" using finish_Inr[OF f3] by (simp_all add: store_result_def)
  have ne: "m \<noteq> s" using path wf_definitionD(3)[OF wf] by (auto simp: acyclic_def)
  have r: "at_rest (pending_of iid db3) i' (tv_definition v)"
    using landed_rest(3)[OF l wf row _ _ p0] i'(1) by (auto simp: new_instance_def)
  then have "\<forall>x \<in> set (pending_of iid db3). ft_node x \<noteq> s" using ne i'(2) by (auto simp: at_rest_def split: if_splits)
  then have "pending_at iid s db3 = []" by (auto simp: in_pending_of pending_at_def filter_empty_conv)
  then have "pending_at iid s db' = []" by (simp add: pending_at_def t3)
  with payload_fields(2)[OF pay i'(1)] i'(2) ne path show ?thesis
    by (intro conjI exI[of _ m]) simp_all
qed

text \<open>C25: the validation does not ask that \<open>start_node\<close> names the start node. When it names a condition or an
  end, every start of the published template fails with an uncaught KeyError; when it names an
  approval, every start that succeeds goes past it: the instance is at a later node, and that
  approval has no pending task.\<close>

theorem misplaced_start_node:
  assumes db: "db = flow_run su ops no_rows" and t: "get_template key db = Inr t" and v: "published_version t db = Inr v"
    and s: "jget ''start_node'' (tv_definition v) = JStr s" "map_of (node_index (tv_definition v)) s = Some node"
    and misplaced: "jget ''type'' node \<noteq> JStr ''start''"
  shows "if jget ''type'' node = JStr ''approval'' then
      (\<forall>p db'. start_body (fs_parse su) (fs_limit su) now iid key submitter ctx rid db = Inr (p, db') \<longrightarrow>
        (\<exists>m. py_node p = Some m \<and> m \<noteq> s \<and> (s, m) \<in> (flow_rel (flow_table (tv_definition v)))\<^sup>+) \<and> pending_at iid s db' = [])
    else start_body (fs_parse su) (fs_limit su) now iid key submitter ctx rid db = Inl (PyError ''KeyError'')"
proof -
  have inv: "flow_inv (fs_parse su) db" unfolding db by (rule run_inv)
  then have u: "flow_unique db" and mid: "mid_ok (fs_parse su) db" by (simp_all add: flow_inv_def)
  then have wf: "wf_definition (fs_parse su) (tv_definition v)" using published_version_row(4)[OF t v] by (simp add: mid_ok_def)
  have nt: "(s, node) \<in> set (flow_table (tv_definition v))" using index_iff[OF wf] s(2) by blast
  show ?thesis
  proof (cases "jget ''type'' node = JStr ''approval''")
    case False
    then have "\<not> has_key ''next'' node"
      using wf_definitionD(2)[OF wf nt] misplaced by (auto simp: wf_node_def wf_condition_def)
    then have "jget ''next'' node = JNull" by (auto simp: jget_def has_key_def split: option.splits dest: map_of_SomeD)
    with False show ?thesis by (simp add: start_body_def t v s advance_def)
  next
    case True
    then show ?thesis using start_passes_approval[OF u mid wf t v s] by simp
  qed
qed

definition misplaced_demo :: jobj where
  "misplaced_demo = [(''start_node'', JStr ''c''), (''nodes'', JList
     [node_json ''c'' ''condition'' [(''branches'', JList
        [JObj [(''when'', JStr ''amount >= 10000''), (''next'', JStr ''s'')]]), (''default'', JStr ''e'')],
      node_json ''s'' ''start'' [(''next'', JStr ''e'')], node_json ''e'' ''end'' []])]"

definition misplaced_db :: flow where
  "misplaced_db = flow_run demo_setup [CreateTemplate ''m'' ''Misplaced'' misplaced_demo, Publish 0 ''m'' 1] no_rows"

theorem misplaced_start_node_witness:
  "\<exists>t v. get_template ''m'' misplaced_db = Inr t \<and> published_version t misplaced_db = Inr v \<and>
     start_body sample_parser 20 5 ''i'' ''m'' ''sam'' [] ''r'' misplaced_db = Inl (PyError ''KeyError'')"
proof -
  have "case get_template ''m'' misplaced_db of Inl e \<Rightarrow> False | Inr t \<Rightarrow>
      (case published_version t misplaced_db of Inl e \<Rightarrow> False | Inr v \<Rightarrow> tv_definition v = misplaced_demo)" by code_simp
  then obtain t v where tv: "get_template ''m'' misplaced_db = Inr t" "published_version t misplaced_db = Inr v"
    "tv_definition v = misplaced_demo" by (auto split: sum.splits)
  have s: "jget ''start_node'' misplaced_demo = JStr ''c''" by code_simp
  have "map_option (jget ''type'') (map_of (node_index misplaced_demo) ''c'') = Some (JStr ''condition'')" by code_simp
  then obtain node where node: "map_of (node_index misplaced_demo) ''c'' = Some node" "jget ''type'' node = JStr ''condition''" by auto
  have su: "fs_parse demo_setup = sample_parser" "fs_limit demo_setup = 20" by (simp_all add: demo_setup_def)
  from misplaced_start_node[OF misplaced_db_def tv(1,2), unfolded tv(3), OF s node(1), where now = 5 and iid = "''i''"
      and submitter = "''sam''" and ctx = "[]" and rid = "''r''"] node(2) tv(1,2)
  show ?thesis unfolding su by simp
qed

end
