(* ===== verification/Learn_Model.thy ===== *)
theory Learn_Model
  imports Prelude Py_Text
begin

text \<open>
  The tables of the training service (\<open>text4/a/app/models.py\<close>), their constraints, the errors, the
  clock and the users. Times are microseconds since 1970 without an upper bound; ids come from one
  increasing sequence; the columns \<open>created_at\<close> and \<open>updated_at\<close> are left out.
\<close>

section \<open>Errors\<close>

text \<open>\<open>AppError\<close> carries the status and the code of the answer. \<open>Crash\<close> is an exception that nothing
  catches, \<open>Integrity\<close> a violated constraint, \<open>BadRequest\<close> a body that pydantic refuses.\<close>

datatype app_error = AppError int string | Crash string | Integrity | BadRequest

definition not_found :: app_error where "not_found = AppError 404 ''NOT_FOUND''"
definition conflict :: "string \<Rightarrow> app_error" where "conflict code = AppError 409 code"
definition unprocessable :: "string \<Rightarrow> app_error" where "unprocessable code = AppError 422 code"
definition forbidden :: app_error where "forbidden = AppError 403 ''FORBIDDEN''"

section \<open>Tables\<close>

datatype user_role = Manager | Learner
datatype version_status = Draft | Published
datatype enrollment_status = Enrolled | Confirmed | Waitlisted | Cancelled | Expired
datatype result_status = Passed | Failed
datatype certificate_status = Valid | Revoked

record user =
  us_id :: int
  us_email :: string
  us_name :: string
  us_role :: user_role

record program =
  pr_id :: int
  pr_title :: string
  pr_description :: string
  pr_created_by :: int
  pr_current :: "int option"

record program_version =
  pv_id :: int
  pv_program :: int
  pv_version :: int
  pv_status :: version_status
  pv_hash :: string
  pv_published_at :: "int option"

record step =
  st_id :: int
  st_version :: int
  st_order :: int
  st_title :: string
  st_description :: string
  st_criteria :: string

record step_dependency =
  sd_version :: int
  sd_step :: int
  sd_pre :: int

record course =
  co_id :: int
  co_version :: int
  co_capacity :: int
  co_deadline :: int

record enrollment =
  en_id :: int
  en_learner :: int
  en_version :: int
  en_course :: int
  en_status :: enrollment_status
  en_seat :: "int option"
  en_position :: "int option"
  en_expires :: "int option"
  en_confirmed_at :: "int option"
  en_cancelled_at :: "int option"

record step_result =
  sr_id :: int
  sr_enrollment :: int
  sr_step :: int
  sr_status :: result_status
  sr_submission :: string
  sr_fingerprint :: "string option"
  sr_attempts :: int
  sr_passed_at :: "int option"
  sr_corrected_by :: "int option"
  sr_reason :: "string option"
  sr_corrected_at :: "int option"

record certificate =
  ce_id :: int
  ce_enrollment :: int
  ce_version :: int
  ce_serial :: string
  ce_learner_name :: string
  ce_title :: string
  ce_number :: int
  ce_hash :: string
  ce_status :: certificate_status
  ce_issued_at :: int
  ce_revoked_at :: "int option"
  ce_revoke_reason :: "string option"

record learn =
  users :: "user list"
  programs :: "program list"
  versions :: "program_version list"
  steps :: "step list"
  dependencies :: "step_dependency list"
  courses :: "course list"
  enrollments :: "enrollment list"
  results :: "step_result list"
  certificates :: "certificate list"
  virtual_now :: "int option"
  next_id :: int

section \<open>Constraints\<close>

definition seat_keys :: "enrollment list \<Rightarrow> (int \<times> int option) list" where
  "seat_keys es = map (\<lambda>e. (en_version e, en_seat e)) (filter (\<lambda>e. en_seat e \<noteq> None) es)"

definition learn_unique :: "learn \<Rightarrow> bool" where
  "learn_unique db \<longleftrightarrow>
     distinct (map us_id (users db)) \<and> distinct (map us_email (users db)) \<and>
     distinct (map pr_id (programs db)) \<and>
     distinct (map pv_id (versions db)) \<and> distinct (map (\<lambda>v. (pv_program v, pv_version v)) (versions db)) \<and>
     distinct (map st_id (steps db)) \<and> distinct (map (\<lambda>s. (st_version s, st_order s)) (steps db)) \<and>
     distinct (map (\<lambda>d. (sd_step d, sd_pre d)) (dependencies db)) \<and>
     distinct (map co_id (courses db)) \<and> distinct (map co_version (courses db)) \<and>
     distinct (map en_id (enrollments db)) \<and> distinct (map (\<lambda>e. (en_learner e, en_version e)) (enrollments db)) \<and>
     distinct (seat_keys (enrollments db)) \<and>
     distinct (map sr_id (results db)) \<and> distinct (map (\<lambda>r. (sr_enrollment r, sr_step r)) (results db)) \<and>
     distinct (map ce_serial (certificates db)) \<and> distinct (map ce_enrollment (certificates db))"

definition learn_checks :: "learn \<Rightarrow> bool" where
  "learn_checks db \<longleftrightarrow>
     list_all (\<lambda>s. 1 \<le> st_order s \<and> st_order s \<le> 50) (steps db) \<and>
     list_all (\<lambda>d. sd_step d \<noteq> sd_pre d) (dependencies db) \<and>
     list_all (\<lambda>c. 0 < co_capacity c) (courses db)"

definition learn_commit :: "learn \<Rightarrow> app_error + learn" where
  "learn_commit db = (if learn_unique db \<and> learn_checks db then Inr db else Inl Integrity)"

lemma learn_commit_Inr [simp]: "learn_commit db = Inr db' \<longleftrightarrow> db' = db \<and> learn_unique db \<and> learn_checks db"
  by (auto simp: learn_commit_def)

section \<open>The deployment\<close>

text \<open>The parts of a version's content and of a certificate that are hashed.\<close>

datatype step_content = StepContent int string string string "int list"

datatype certificate_parts = CertificateParts string int string int int string int string int

text \<open>SHA-256 and the two digests over canonical JSON are parameters, with the settings.\<close>

record learn_setup =
  ls_sha :: "string \<Rightarrow> string"
  ls_content_hash :: "step_content list \<Rightarrow> string"
  ls_certificate_hash :: "certificate_parts \<Rightarrow> string"
  ls_hold_hours :: int
  ls_clock_control :: bool

section \<open>The clock\<close>

definition utcnow :: "int \<Rightarrow> learn \<Rightarrow> int" where
  "utcnow real db = (case virtual_now db of Some t \<Rightarrow> t | None \<Rightarrow> real)"

definition set_clock :: "int \<Rightarrow> learn \<Rightarrow> learn" where
  "set_clock t db = db\<lparr>virtual_now := Some t\<rparr>"

definition advance_clock :: "int \<Rightarrow> int \<Rightarrow> learn \<Rightarrow> learn" where
  "advance_clock real delta db = set_clock (utcnow real db + delta) db"

definition reset_clock :: "learn \<Rightarrow> learn" where
  "reset_clock db = db\<lparr>virtual_now := None\<rparr>"

section \<open>Users\<close>

definition current_user :: "int option \<Rightarrow> learn \<Rightarrow> app_error + user" where
  "current_user uid db =
     (case uid of
        None \<Rightarrow> Inl (AppError 401 ''UNAUTHENTICATED'')
      | Some i \<Rightarrow> someR (row_by us_id i (users db)) (AppError 401 ''UNKNOWN_USER''))"

definition current_manager :: "int option \<Rightarrow> learn \<Rightarrow> app_error + user" where
  "current_manager uid db = bindR (current_user uid db) (\<lambda>u. if us_role u \<noteq> Manager then Inl forbidden else Inr u)"

definition current_learner :: "int option \<Rightarrow> learn \<Rightarrow> app_error + user" where
  "current_learner uid db = bindR (current_user uid db) (\<lambda>u. if us_role u \<noteq> Learner then Inl forbidden else Inr u)"

text \<open>The validator of an email: stripped, in lower case, with a local part and a domain with a dot.\<close>

definition email_of :: "string \<Rightarrow> app_error + string" where
  "email_of raw =
     (let v = map to_lower (strip raw);
          local = takeWhile (\<lambda>c. c \<noteq> CHR ''@'') v;
          domain = tl (dropWhile (\<lambda>c. c \<noteq> CHR ''@'') v)
      in if local = [] \<or> domain = [] \<or> CHR ''.'' \<notin> set domain then Inl BadRequest else Inr v)"

definition create_user :: "string \<Rightarrow> string \<Rightarrow> user_role \<Rightarrow> learn \<Rightarrow> app_error + learn" where
  "create_user raw name role db =
     bindR (email_of raw) (\<lambda>email.
     if row_by us_email email (users db) \<noteq> None then Inl (conflict ''USER_EXISTS'')
     else learn_commit (db\<lparr>users := users db @ [\<lparr>us_id = next_id db, us_email = email, us_name = name, us_role = role\<rparr>],
                           next_id := next_id db + 1\<rparr>))"

end
