(* ===== verification/Learn_Graph.thy ===== *)
theory Learn_Graph
  imports Learn_Model
begin

text \<open>
  The dependency graph of the steps of a version (\<open>text4/a/app/services/graph.py\<close>): references,
  self references and Kahn's topological sort; and what it accepts, in closed form.
\<close>

section \<open>Step definitions\<close>

record step_in =
  si_title :: string
  si_description :: string
  si_criteria :: string
  si_prereqs :: "int list"

definition MAX_STEPS :: nat where
  "MAX_STEPS = 50"

text \<open>The checks of one step; \<open>i\<close> is its 1-based position among \<open>n\<close>.\<close>

fun check_prereqs :: "int \<Rightarrow> int \<Rightarrow> int list \<Rightarrow> app_error + unit" where
  "check_prereqs n i [] = Inr ()"
| "check_prereqs n i (pre # pres) =
     (if \<not> (1 \<le> pre \<and> pre \<le> n) then Inl (unprocessable ''PREREQUISITE_UNKNOWN'')
      else if pre = i then Inl (unprocessable ''PREREQUISITE_SELF'')
      else check_prereqs n i pres)"

fun check_steps :: "int \<Rightarrow> int \<Rightarrow> step_in list \<Rightarrow> app_error + unit" where
  "check_steps n i [] = Inr ()"
| "check_steps n i (s # ss) =
     (if strip (si_title s) = [] then Inl (unprocessable ''STEP_TITLE_EMPTY'')
      else bindR (check_prereqs n i (si_prereqs s)) (\<lambda>_. check_steps n (i + 1) ss))"

section \<open>Topological sort\<close>

text \<open>Every node with its set of prerequisites, as a list without duplicates.\<close>

type_synonym graph = "(int \<times> int list) list"

definition edges_of :: "step_in list \<Rightarrow> graph" where
  "edges_of ss = map (\<lambda>(i, s). (int i, remdups (si_prereqs s))) (enumerate 1 ss)"

definition dependents :: "graph \<Rightarrow> int \<Rightarrow> int list" where
  "dependents g p = map fst (filter (\<lambda>(n, pres). p \<in> set pres) g)"

text \<open>The inner loop: the indegrees of the dependents drop, those that reach 0 join the queue.\<close>

fun relax :: "int list \<Rightarrow> (int \<Rightarrow> int) \<Rightarrow> int list \<Rightarrow> (int \<Rightarrow> int) \<times> int list" where
  "relax [] deg queue = (deg, queue)"
| "relax (d # ds) deg queue =
     (let deg' = deg(d := deg d - 1)
      in relax ds deg' (if deg' d = 0 then queue @ [d] else queue))"

text \<open>The queue loop, with fuel for the nodes it may still take; it returns the nodes taken.\<close>

fun kahn :: "graph \<Rightarrow> nat \<Rightarrow> (int \<Rightarrow> int) \<Rightarrow> int list \<Rightarrow> int list \<Rightarrow> int list option" where
  "kahn g fuel deg [] seen = Some seen"
| "kahn g 0 deg (n # queue) seen = None"
| "kahn g (Suc fuel) deg (n # queue) seen =
     (let (deg', queue') = relax (dependents g n) deg queue
      in kahn g fuel deg' queue' (seen @ [n]))"

definition indegree :: "graph \<Rightarrow> int \<Rightarrow> int" where
  "indegree g n = (case map_of g n of None \<Rightarrow> 0 | Some pres \<Rightarrow> int (length pres))"

definition sorted_nodes :: "graph \<Rightarrow> int list option" where
  "sorted_nodes g = kahn g (length g) (indegree g) (filter (\<lambda>n. indegree g n = 0) (map fst g)) []"

definition ensure_acyclic :: "graph \<Rightarrow> app_error + unit" where
  "ensure_acyclic g =
     (if map_option length (sorted_nodes g) = Some (length g) then Inr () else Inl (unprocessable ''STEPS_CYCLIC''))"

definition validate_steps :: "step_in list \<Rightarrow> app_error + unit" where
  "validate_steps ss =
     (if ss = [] then Inl (unprocessable ''STEPS_EMPTY'')
      else if length ss > MAX_STEPS then Inl (unprocessable ''STEPS_TOO_MANY'')
      else bindR (check_steps (int (length ss)) 1 ss) (\<lambda>_. ensure_acyclic (edges_of ss)))"

definition content_of :: "step_in list \<Rightarrow> step_content list" where
  "content_of ss =
     map (\<lambda>(i, s). StepContent (int i) (si_title s) (si_description s) (si_criteria s) (sort (si_prereqs s))) (enumerate 1 ss)"

definition content_hash_for :: "learn_setup \<Rightarrow> step_in list \<Rightarrow> string" where
  "content_hash_for su ss = ls_content_hash su (content_of ss)"

end
