(* ===== verification/Learn_Graph_Facts.thy ===== *)
theory Learn_Graph_Facts
  imports Learn_Graph
begin

text \<open>
  Kahn's sort takes exactly the nodes that no cycle precedes, within as many turns as there are
  nodes; hence the check of a version's steps accepts exactly the acyclic step lists.
\<close>

section \<open>Graphs\<close>

definition prereqs :: "graph \<Rightarrow> int \<Rightarrow> int set" where
  "prereqs g n = (case map_of g n of None \<Rightarrow> {} | Some pres \<Rightarrow> set pres)"

definition prereq_rel :: "graph \<Rightarrow> (int \<times> int) set" where
  "prereq_rel g = {(p, n). p \<in> prereqs g n}"

definition good_graph :: "graph \<Rightarrow> bool" where
  "good_graph g \<longleftrightarrow> distinct (map fst g) \<and> (\<forall>(n, pres) \<in> set g. distinct pres \<and> set pres \<subseteq> fst ` set g)"

lemma prereqs_row: "good_graph g \<Longrightarrow> (n, pres) \<in> set g \<Longrightarrow> prereqs g n = set pres"
  by (simp add: prereqs_def good_graph_def)

lemma prereqs_nodes: "good_graph g \<Longrightarrow> prereqs g n \<subseteq> fst ` set g"
  using map_of_SomeD[of g n] by (cases "map_of g n") (auto simp: prereqs_def good_graph_def)

lemma prereqs_outside: "n \<notin> fst ` set g \<Longrightarrow> prereqs g n = {}"
  by (simp add: prereqs_def map_of_eq_None_iff[THEN iffD2])

lemma finite_prereqs [simp]: "finite (prereqs g n)"
  by (simp add: prereqs_def split: option.split)

lemma indegree_card: "good_graph g \<Longrightarrow> indegree g n = int (card (prereqs g n))"
  using map_of_SomeD[of g n] by (cases "map_of g n") (auto simp: indegree_def prereqs_def good_graph_def distinct_card)

lemma set_dependents: "good_graph g \<Longrightarrow> set (dependents g p) = {n \<in> fst ` set g. p \<in> prereqs g n}"
  by (force simp: dependents_def prereqs_row)

lemma distinct_dependents: "good_graph g \<Longrightarrow> distinct (dependents g p)"
  by (simp add: good_graph_def dependents_def distinct_map_filter)

lemma finite_prereq_rel: "good_graph g \<Longrightarrow> finite (prereq_rel g)"
proof (rule finite_subset)
  assume "good_graph g"
  then show "prereq_rel g \<subseteq> fst ` set g \<times> fst ` set g"
    using prereqs_nodes prereqs_outside by (fastforce simp: prereq_rel_def)
qed simp

section \<open>The loop\<close>

lemma relax_eq:
  "distinct ds \<Longrightarrow> relax ds deg queue =
     (\<lambda>n. if n \<in> set ds then deg n - 1 else deg n, queue @ filter (\<lambda>d. deg d = 1) ds)"
proof (induction ds arbitrary: deg queue)
  case (Cons d ds)
  have "filter (\<lambda>x. (deg(d := deg d - 1)) x = 1) ds = filter (\<lambda>x. deg x = 1) ds"
    using Cons.prems by (intro filter_cong) auto
  with Cons show ?case by (auto simp: Let_def fun_eq_iff)
qed simp

definition kahn_inv :: "graph \<Rightarrow> (int \<Rightarrow> int) \<Rightarrow> int list \<Rightarrow> int list \<Rightarrow> bool" where
  "kahn_inv g deg queue seen \<longleftrightarrow> distinct (queue @ seen) \<and>
     set (queue @ seen) = {n \<in> fst ` set g. prereqs g n \<subseteq> set seen} \<and>
     (\<forall>n. deg n = int (card (prereqs g n - set seen))) \<and> set (queue @ seen) \<subseteq> Wellfounded.acc (prereq_rel g)"

lemma kahn_inv_step:
  assumes g: "good_graph g" and inv: "kahn_inv g deg (n # queue) seen"
  shows "kahn_inv g (fst (relax (dependents g n) deg queue)) (snd (relax (dependents g n) deg queue)) (seen @ [n])"
proof -
  let ?D = "dependents g n" and ?N = "fst ` set g" and ?seen = "seen @ [n]"
  note r = relax_eq[OF distinct_dependents[OF g], of n deg queue]
  note D = set_dependents[OF g, of n]
  note i = inv[unfolded kahn_inv_def append_Cons]
  have d: "distinct (n # queue @ seen)" using i by blast
  have q: "set (n # queue @ seen) = {m \<in> ?N. prereqs g m \<subseteq> set seen}" using i by blast
  have deg: "deg m = int (card (prereqs g m - set seen))" for m using i by blast
  have acc: "set (n # queue @ seen) \<subseteq> Wellfounded.acc (prereq_rel g)" using i by blast
  have deg': "(if m \<in> set ?D then deg m - 1 else deg m) = int (card (prereqs g m - set ?seen))" for m
  proof (cases "n \<in> prereqs g m")
    case True
    then have "m \<in> set ?D" using D prereqs_outside by blast
    moreover have "card (prereqs g m - set seen) = Suc (card (prereqs g m - set seen - {n}))"
      using True d by (intro card.remove) auto
    moreover have "prereqs g m - set seen - {n} = prereqs g m - set ?seen" by auto
    ultimately show ?thesis using deg by simp
  next
    case False
    then have "m \<notin> set ?D" "prereqs g m - set ?seen = prereqs g m - set seen" using D by auto
    then show ?thesis using deg by simp
  qed
  have one: "deg m = 1 \<longleftrightarrow> prereqs g m \<subseteq> set ?seen" if "m \<in> set ?D" for m
  proof -
    have "deg m - 1 = int (card (prereqs g m - set ?seen))" using deg'[of m] that by (simp only: if_True)
    then have "deg m = 1 \<longleftrightarrow> card (prereqs g m - set ?seen) = 0" by linarith
    then show ?thesis by (simp only: card_0_eq[OF finite_Diff[OF finite_prereqs]] Diff_eq_empty_iff)
  qed
  have new: "set (filter (\<lambda>m. deg m = 1) ?D) = {m \<in> ?N. n \<in> prereqs g m \<and> prereqs g m \<subseteq> set ?seen}"
    using one D by auto
  have fresh: "m \<notin> set (n # queue @ seen)" if "n \<in> prereqs g m" for m
    using that d q by auto
  have all: "set ((queue @ filter (\<lambda>m. deg m = 1) ?D) @ ?seen) = {m \<in> ?N. prereqs g m \<subseteq> set ?seen}"
    using q new by auto
  moreover have "distinct ((queue @ filter (\<lambda>m. deg m = 1) ?D) @ ?seen)"
    using d fresh distinct_dependents[OF g, of n] new by auto
  moreover have "m \<in> Wellfounded.acc (prereq_rel g)" if "m \<in> set (filter (\<lambda>m. deg m = 1) ?D)" for m
  proof (rule accI)
    fix p assume "(p, m) \<in> prereq_rel g"
    with that new show "p \<in> Wellfounded.acc (prereq_rel g)" using acc by (auto simp: prereq_rel_def)
  qed
  then have "set ((queue @ filter (\<lambda>m. deg m = 1) ?D) @ ?seen) \<subseteq> Wellfounded.acc (prereq_rel g)" using acc by auto
  ultimately show ?thesis unfolding kahn_inv_def r fst_conv snd_conv using deg' by blast
qed

lemma kahn_room:
  assumes "kahn_inv g deg queue seen"
  shows "length queue + length seen \<le> length g"
proof -
  note i = assms[unfolded kahn_inv_def]
  have "distinct (queue @ seen)" using i by blast
  then have "length queue + length seen = card (set (queue @ seen))" by (metis distinct_card length_append)
  also have "\<dots> \<le> card (fst ` set g)" using i by (intro card_mono) auto
  also have "\<dots> \<le> length g" using card_length[of "map fst g"] by simp
  finally show ?thesis .
qed

lemma kahn_result:
  assumes g: "good_graph g"
  shows "kahn_inv g deg queue seen \<Longrightarrow> length g \<le> fuel + length seen \<Longrightarrow>
    \<exists>res deg'. kahn g fuel deg queue seen = Some res \<and> kahn_inv g deg' [] res"
proof (induction fuel arbitrary: deg queue seen)
  case 0
  from 0(2) kahn_room[OF 0(1)] have "length queue = 0" by linarith
  then have "queue = []" by (rule length_0_conv[THEN iffD1])
  with 0 show ?case by auto
next
  case (Suc fuel)
  show ?case
  proof (cases queue)
    case Nil
    with Suc.prems show ?thesis by auto
  next
    case (Cons n rest)
    obtain deg' queue' where r: "relax (dependents g n) deg rest = (deg', queue')" by force
    then have "kahn_inv g deg' queue' (seen @ [n])" using kahn_inv_step[OF g, of deg n rest seen] Suc.prems(1) Cons by simp
    from Suc.IH[OF this] Suc.prems(2) r show ?thesis by (simp add: Cons)
  qed
qed

lemma kahn_start:
  assumes "good_graph g"
  shows "kahn_inv g (indegree g) (filter (\<lambda>n. indegree g n = 0) (map fst g)) []"
proof -
  have e: "indegree g n = 0 \<longleftrightarrow> prereqs g n = {}" for n by (simp add: indegree_card[OF assms])
  have "n \<in> Wellfounded.acc (prereq_rel g)" if "prereqs g n = {}" for n
    by (rule accI) (use that in \<open>simp add: prereq_rel_def\<close>)
  then show ?thesis using assms unfolding kahn_inv_def good_graph_def
    by (auto simp: e indegree_card[OF assms])
qed

text \<open>The sort takes as many nodes as there are if and only if there is no cycle.\<close>

lemma ensure_acyclic_iff:
  assumes g: "good_graph g"
  shows "ensure_acyclic g = Inr () \<longleftrightarrow> acyclic (prereq_rel g)"
proof -
  let ?N = "fst ` set g"
  obtain res deg' where k: "sorted_nodes g = Some res" and inv: "kahn_inv g deg' [] res"
    using kahn_result[OF g kahn_start[OF g], of "length g"] unfolding sorted_nodes_def by auto
  note i = inv[unfolded kahn_inv_def append_Nil]
  have res: "set res = {n \<in> ?N. prereqs g n \<subseteq> set res}" using i by blast
  have acc: "set res \<subseteq> Wellfounded.acc (prereq_rel g)" using i by blast
  have "length res = card (set res)" using i by (metis distinct_card)
  moreover have "length g = card ?N" using g by (simp add: good_graph_def distinct_card[of "map fst g", simplified, symmetric])
  moreover have sub: "set res \<subseteq> ?N" using res by blast
  ultimately have len: "length res = length g \<longleftrightarrow> set res = ?N" 
    using card_subset_eq[of ?N "set res"] by auto
  have "set res = ?N \<longleftrightarrow> acyclic (prereq_rel g)"
  proof
    assume all: "set res = ?N"
    have "n \<in> Wellfounded.acc (prereq_rel g)" for n
    proof (cases "n \<in> ?N")
      case True
      with all acc show ?thesis by blast
    next
      case False
      then have "prereqs g n = {}" by (rule prereqs_outside)
      then show ?thesis by - (rule accI, simp add: prereq_rel_def)
    qed
    then have "wf (prereq_rel g)" by - (rule acc_wfI, blast)
    then show "acyclic (prereq_rel g)" by (rule wf_acyclic)
  next
    assume "acyclic (prereq_rel g)"
    then have wf: "wf (prereq_rel g)" by (rule finite_acyclic_wf[OF finite_prereq_rel[OF g]])
    show "set res = ?N"
    proof (rule ccontr)
      assume "set res \<noteq> ?N"
      then have "?N - set res \<noteq> {}" using sub by blast
      then obtain n where n: "n \<in> ?N - set res" "\<And>p. (p, n) \<in> prereq_rel g \<Longrightarrow> p \<notin> ?N - set res"
        using wfE_min'[OF wf, of "?N - set res"] by blast
      then have "prereqs g n \<subseteq> set res" using prereqs_nodes[OF g, of n] by (auto simp: prereq_rel_def)
      then show False using n(1) res by blast
    qed
  qed
  then show ?thesis by (simp add: ensure_acyclic_def k len)
qed

section \<open>Steps\<close>

definition wf_steps :: "step_in list \<Rightarrow> bool" where
  "wf_steps ss \<longleftrightarrow> ss \<noteq> [] \<and> length ss \<le> 50 \<and>
     (\<forall>i < length ss. strip (si_title (ss ! i)) \<noteq> [] \<and>
        (\<forall>p \<in> set (si_prereqs (ss ! i)). 1 \<le> p \<and> p \<le> int (length ss) \<and> p \<noteq> int i + 1))"

text \<open>The relation between the positions of a prerequisite and of the step that names it.\<close>

definition requires :: "step_in list \<Rightarrow> (int \<times> int) set" where
  "requires ss = {(p, int i + 1) |p i. i < length ss \<and> p \<in> set (si_prereqs (ss ! i))}"

lemma check_prereqs_iff:
  "check_prereqs n i pres = Inr () \<longleftrightarrow> (\<forall>p \<in> set pres. 1 \<le> p \<and> p \<le> n \<and> p \<noteq> i)"
  by (induction n i pres rule: check_prereqs.induct) auto

lemma check_steps_iff:
  "check_steps n i ss = Inr () \<longleftrightarrow>
     (\<forall>k < length ss. strip (si_title (ss ! k)) \<noteq> [] \<and> (\<forall>p \<in> set (si_prereqs (ss ! k)). 1 \<le> p \<and> p \<le> n \<and> p \<noteq> i + int k))"
proof (induction n i ss rule: check_steps.induct)
  case (2 n i s ss)
  then show ?case
    by (auto simp: bindR_Inr_iff check_prereqs_iff All_less_Suc2 algebra_simps)
qed simp

lemma edges_of_nth: "k < length ss \<Longrightarrow> edges_of ss ! k = (int k + 1, remdups (si_prereqs (ss ! k)))"
  by (simp add: edges_of_def nth_enumerate_eq)

lemma edges_of_keys: "map fst (edges_of ss) = map (\<lambda>k. int k + 1) [0..<length ss]"
  by (rule nth_equalityI) (auto simp: edges_of_def nth_enumerate_eq)

lemma edges_of_rel:
  assumes "wf_steps ss"
  shows "good_graph (edges_of ss)" and "prereq_rel (edges_of ss) = requires ss"
proof -
  have len: "length (edges_of ss) = length ss" by (simp add: edges_of_def)
  have nodes: "fst ` set (edges_of ss) = {1..int (length ss)}"
  proof -
    have "fst ` set (edges_of ss) = (\<lambda>k. int k + 1) ` {0..<length ss}" using arg_cong[OF edges_of_keys[of ss], of set] by simp
    also have "\<dots> = {1..int (length ss)}"
    proof (intro equalityI subsetI)
      fix x assume "x \<in> {1..int (length ss)}"
      then show "x \<in> (\<lambda>k. int k + 1) ` {0..<length ss}" by (intro image_eqI[of _ _ "nat (x - 1)"]) auto
    qed auto
    finally show ?thesis .
  qed
  have row: "(n, pres) \<in> set (edges_of ss) \<longleftrightarrow> (\<exists>k < length ss. n = int k + 1 \<and> pres = remdups (si_prereqs (ss ! k)))" for n pres
    by (auto simp: in_set_conv_nth len edges_of_nth)
  show g: "good_graph (edges_of ss)"
    unfolding good_graph_def
  proof (intro conjI ballI)
    show "distinct (map fst (edges_of ss))" by (simp add: edges_of_keys distinct_map inj_on_def)
    fix en assume "en \<in> set (edges_of ss)"
    moreover obtain n pres where en: "en = (n, pres)" by (rule prod.exhaust)
    ultimately obtain k where "k < length ss" "en = (int k + 1, remdups (si_prereqs (ss ! k)))" using row by blast
    then show "case en of (n, pres) \<Rightarrow> distinct pres \<and> set pres \<subseteq> fst ` set (edges_of ss)"
      using assms unfolding nodes by (simp add: wf_steps_def subset_iff)
  qed
  have "p \<in> prereqs (edges_of ss) n \<longleftrightarrow> (\<exists>k < length ss. n = int k + 1 \<and> p \<in> set (si_prereqs (ss ! k)))" for p n
  proof (cases "map_of (edges_of ss) n")
    case None
    then have "n \<notin> {1..int (length ss)}" unfolding nodes[symmetric] by (simp add: map_of_eq_None_iff)
    then show ?thesis using None by (auto simp: prereqs_def)
  next
    case (Some pres)
    from map_of_SomeD[OF this] show ?thesis using Some by (auto simp: row prereqs_def)
  qed
  then show "prereq_rel (edges_of ss) = requires ss" by (auto simp: prereq_rel_def requires_def)
qed

text \<open>C26: the steps of a version are accepted if and only if there are 1 to 50 of them, every title has a
  visible character, every prerequisite names another step, and no chain of prerequisites is a cycle.\<close>

theorem validate_steps_iff: "validate_steps ss = Inr () \<longleftrightarrow> wf_steps ss \<and> acyclic (requires ss)"
proof -
  have "ss \<noteq> [] \<and> length ss \<le> 50 \<and> check_steps (int (length ss)) 1 ss = Inr () \<longleftrightarrow> wf_steps ss"
    by (auto simp: check_steps_iff wf_steps_def algebra_simps)
  moreover have "wf_steps ss \<Longrightarrow> ensure_acyclic (edges_of ss) = Inr () \<longleftrightarrow> acyclic (requires ss)"
    using ensure_acyclic_iff[OF edges_of_rel(1)] edges_of_rel(2) by simp
  ultimately show ?thesis by (auto simp: validate_steps_def MAX_STEPS_def bindR_Inr_iff)
qed

end
