(* ===== verification/Learn_Programs.thy ===== *)
theory Learn_Programs
  imports Learn_Graph
begin

text \<open>
  Programs and their immutable versions (\<open>text4/a/app/services/programs.py\<close>).
\<close>

section \<open>Programs\<close>

definition create_program :: "user \<Rightarrow> string \<Rightarrow> string \<Rightarrow> learn \<Rightarrow> app_error + learn" where
  "create_program manager title description db =
     learn_commit (db\<lparr>programs := programs db @
         [\<lparr>pr_id = next_id db, pr_title = title, pr_description = description, pr_created_by = us_id manager, pr_current = None\<rparr>],
       next_id := next_id db + 1\<rparr>)"

definition get_program :: "int \<Rightarrow> learn \<Rightarrow> app_error + program" where
  "get_program pid db = someR (row_by pr_id pid (programs db)) not_found"

definition get_version :: "int \<Rightarrow> learn \<Rightarrow> app_error + program_version" where
  "get_version vid db = someR (row_by pv_id vid (versions db)) not_found"

definition list_versions :: "int \<Rightarrow> learn \<Rightarrow> app_error + program_version list" where
  "list_versions pid db =
     bindR (get_program pid db) (\<lambda>_. Inr (sort_key pv_version (filter (\<lambda>v. pv_program v = pid) (versions db))))"

section \<open>Versions\<close>

definition next_number :: "int \<Rightarrow> learn \<Rightarrow> int" where
  "next_number pid db =
     (case map pv_version (filter (\<lambda>v. pv_program v = pid) (versions db)) of [] \<Rightarrow> 0 | v # vs \<Rightarrow> fold max vs v) + 1"

definition new_steps :: "int \<Rightarrow> int \<Rightarrow> step_in list \<Rightarrow> step list" where
  "new_steps vid base ss =
     map (\<lambda>(i, s). \<lparr>st_id = base + int i, st_version = vid, st_order = int i, st_title = si_title s,
                     st_description = si_description s, st_criteria = si_criteria s\<rparr>) (enumerate 1 ss)"

definition new_dependencies :: "int \<Rightarrow> int \<Rightarrow> step_in list \<Rightarrow> step_dependency list" where
  "new_dependencies vid base ss =
     concat (map (\<lambda>(i, s). map (\<lambda>p. \<lparr>sd_version = vid, sd_step = base + int i, sd_pre = base + p\<rparr>) (remdups (si_prereqs s)))
                 (enumerate 1 ss))"

definition create_version :: "learn_setup \<Rightarrow> int \<Rightarrow> step_in list \<Rightarrow> learn \<Rightarrow> app_error + learn" where
  "create_version su pid ss db =
     bindR (get_program pid db) (\<lambda>p.
     bindR (validate_steps ss) (\<lambda>_.
       let vid = next_id db;
           v = \<lparr>pv_id = vid, pv_program = pr_id p, pv_version = next_number pid db, pv_status = Draft,
                pv_hash = content_hash_for su ss, pv_published_at = None\<rparr>
       in learn_commit (db\<lparr>versions := versions db @ [v],
                           steps := steps db @ new_steps vid vid ss,
                           dependencies := dependencies db @ new_dependencies vid vid ss,
                           next_id := vid + 1 + int (length ss)\<rparr>)))"

text \<open>Publication checks the graph of the stored rows again.\<close>

definition version_steps :: "int \<Rightarrow> learn \<Rightarrow> step list" where
  "version_steps vid db = sort_key st_order (filter (\<lambda>s. st_version s = vid) (steps db))"

definition version_dependencies :: "int \<Rightarrow> learn \<Rightarrow> step_dependency list" where
  "version_dependencies vid db = filter (\<lambda>d. sd_version d = vid) (dependencies db)"

definition stored_orders :: "step list \<Rightarrow> step_dependency list \<Rightarrow> step \<Rightarrow> int list" where
  "stored_orders ss ds s =
     remdups (List.map_filter (\<lambda>d. if sd_step d = st_id s then map_option st_order (row_by st_id (sd_pre d) ss) else None) ds)"

definition stored_edges :: "int \<Rightarrow> learn \<Rightarrow> app_error + graph" where
  "stored_edges vid db =
     (let ss = version_steps vid db; ds = version_dependencies vid db
      in if list_all (\<lambda>d. row_by st_id (sd_step d) ss \<noteq> None \<and> row_by st_id (sd_pre d) ss \<noteq> None) ds
         then Inr (map (\<lambda>s. (st_order s, stored_orders ss ds s)) ss)
         else Inl (unprocessable ''PREREQUISITE_UNKNOWN''))"

definition ensure_acyclic_rows :: "graph \<Rightarrow> nat \<Rightarrow> app_error + unit" where
  "ensure_acyclic_rows g n =
     (if map_option length (sorted_nodes g) = Some n then Inr () else Inl (unprocessable ''STEPS_CYCLIC''))"

definition publish_version :: "int \<Rightarrow> int \<Rightarrow> learn \<Rightarrow> app_error + learn" where
  "publish_version now vid db =
     bindR (get_version vid db) (\<lambda>v.
     if pv_status v = Published then Inl (conflict ''VERSION_ALREADY_PUBLISHED'')
     else bindR (stored_edges vid db) (\<lambda>g.
          bindR (ensure_acyclic_rows g (length (version_steps vid db))) (\<lambda>_.
          if row_by pr_id (pv_program v) (programs db) = None then Inl (Crash ''AttributeError'')
          else learn_commit (db\<lparr>
            versions := upd_by pv_id vid (\<lambda>v. v\<lparr>pv_status := Published, pv_published_at := Some now\<rparr>) (versions db),
            programs := upd_by pr_id (pv_program v) (\<lambda>p. p\<lparr>pr_current := Some vid\<rparr>) (programs db)\<rparr>))))"

definition rollback_pointer :: "int \<Rightarrow> int \<Rightarrow> learn \<Rightarrow> app_error + learn" where
  "rollback_pointer pid vid db =
     bindR (get_program pid db) (\<lambda>p.
     bindR (get_version vid db) (\<lambda>v.
     if pv_program v \<noteq> pr_id p then Inl (unprocessable ''VERSION_PROGRAM_MISMATCH'')
     else if pv_status v \<noteq> Published then Inl (unprocessable ''VERSION_NOT_PUBLISHED'')
     else learn_commit (db\<lparr>programs := upd_by pr_id pid (\<lambda>p. p\<lparr>pr_current := Some vid\<rparr>) (programs db)\<rparr>)))"

text \<open>The prerequisite positions of a version's steps, as its view lists them.\<close>

definition prereq_orders :: "int \<Rightarrow> learn \<Rightarrow> step \<Rightarrow> int list" where
  "prereq_orders vid db s = sort (stored_orders (version_steps vid db) (version_dependencies vid db) s)"

definition version_view :: "program_version \<Rightarrow> learn \<Rightarrow> program_version \<times> (step \<times> int list) list" where
  "version_view v db = (v, map (\<lambda>s. (s, prereq_orders (pv_id v) db s)) (version_steps (pv_id v) db))"

end
