(* ===== verification/Learn_Seats.thy ===== *)
theory Learn_Seats
  imports Learn_Programs
begin

text \<open>
  Courses, seats with their holds and the waitlist (\<open>text4/a/app/services/enrollments.py\<close>). The
  seat functions change the enrollment table only, so they work on it.
\<close>

section \<open>Courses\<close>

definition create_course :: "int \<Rightarrow> int \<Rightarrow> int \<Rightarrow> learn \<Rightarrow> app_error + learn" where
  "create_course vid capacity deadline db =
     bindR (someR (row_by pv_id vid (versions db)) not_found) (\<lambda>v.
     if pv_status v \<noteq> Published then Inl (unprocessable ''VERSION_NOT_PUBLISHED'')
     else if row_by co_version vid (courses db) \<noteq> None then Inl (conflict ''COURSE_EXISTS'')
     else learn_commit (db\<lparr>courses := courses db @
              [\<lparr>co_id = next_id db, co_version = vid, co_capacity = capacity, co_deadline = deadline\<rparr>],
            next_id := next_id db + 1\<rparr>))"

definition lock_course :: "int \<Rightarrow> learn \<Rightarrow> app_error + course" where
  "lock_course cid db = someR (row_by co_id cid (courses db)) not_found"

section \<open>Seats\<close>

definition held :: "enrollment \<Rightarrow> bool" where
  "held e \<longleftrightarrow> en_status e = Enrolled \<or> en_status e = Confirmed"

definition in_course :: "int \<Rightarrow> enrollment list \<Rightarrow> enrollment list" where
  "in_course cid es = filter (\<lambda>e. en_course e = cid) es"

definition count_seats_taken :: "int \<Rightarrow> enrollment list \<Rightarrow> int" where
  "count_seats_taken cid es = int (length (filter held (in_course cid es)))"

definition free_seat_number :: "course \<Rightarrow> enrollment list \<Rightarrow> app_error + int" where
  "free_seat_number c es =
     (let taken = map en_seat (filter held (in_course (co_id c) es))
      in someR (find (\<lambda>n. Some n \<notin> set taken) [1..co_capacity c]) (Crash ''RuntimeError''))"

definition seat_row :: "int \<Rightarrow> int \<Rightarrow> enrollment \<Rightarrow> enrollment" where
  "seat_row n until e = e\<lparr>en_status := Enrolled, en_seat := Some n, en_position := None, en_expires := Some until\<rparr>"

section \<open>The waitlist\<close>

definition waits :: "int \<Rightarrow> enrollment \<Rightarrow> bool" where
  "waits cid e \<longleftrightarrow> en_course e = cid \<and> en_status e = Waitlisted"

definition position :: "enrollment \<Rightarrow> int" where
  "position e = (case en_position e of None \<Rightarrow> 0 | Some p \<Rightarrow> p)"

text \<open>The queue in the order of the positions, rows without one last.\<close>

definition waitlist :: "int \<Rightarrow> enrollment list \<Rightarrow> enrollment list" where
  "waitlist cid es =
     (let ws = filter (waits cid) es
      in sort_key position (filter (\<lambda>e. en_position e \<noteq> None) ws) @ filter (\<lambda>e. en_position e = None) ws)"

definition next_waitlist_position :: "int \<Rightarrow> enrollment list \<Rightarrow> int" where
  "next_waitlist_position cid es =
     (case List.map_filter en_position (filter (waits cid) es) of [] \<Rightarrow> 0 | p # ps \<Rightarrow> fold max ps p) + 1"

definition compact_waitlist :: "int \<Rightarrow> enrollment list \<Rightarrow> enrollment list" where
  "compact_waitlist cid es =
     fold (\<lambda>(p, e). upd_by en_id (en_id e) (\<lambda>r. r\<lparr>en_position := Some (int p)\<rparr>)) (enumerate 1 (waitlist cid es)) es"

section \<open>Promotion and expiry\<close>

definition hold_until :: "learn_setup \<Rightarrow> int \<Rightarrow> int" where
  "hold_until su now = now + ls_hold_hours su * 3600 * 1000000"

definition eligible :: "enrollment \<Rightarrow> bool" where
  "eligible e \<longleftrightarrow> en_status e = Waitlisted"

text \<open>The loop, with the promotions it may still make; it returns how many it made.\<close>

fun promote :: "learn_setup \<Rightarrow> course \<Rightarrow> int \<Rightarrow> nat \<Rightarrow> enrollment list \<Rightarrow> app_error + nat \<times> enrollment list" where
  "promote su c now 0 es = Inr (0, es)"
| "promote su c now (Suc seats) es =
     (case waitlist (co_id c) es of
        [] \<Rightarrow> Inr (0, es)
      | e # _ \<Rightarrow>
          if \<not> eligible e then Inr (0, es)
          else if count_seats_taken (co_id c) es \<ge> co_capacity c then Inr (0, es)
          else bindR (free_seat_number c es) (\<lambda>n.
               bindR (promote su c now seats (upd_by en_id (en_id e) (seat_row n (hold_until su now)) es)) (\<lambda>(k, es').
               Inr (Suc k, es'))))"

definition promote_waitlisters :: "learn_setup \<Rightarrow> course \<Rightarrow> int \<Rightarrow> nat \<Rightarrow> enrollment list \<Rightarrow> app_error + enrollment list" where
  "promote_waitlisters su c now seats es =
     bindR (promote su c now seats es) (\<lambda>(k, es'). Inr (if k \<noteq> 0 then compact_waitlist (co_id c) es' else es'))"

definition due :: "int \<Rightarrow> int \<Rightarrow> enrollment \<Rightarrow> bool" where
  "due cid now e \<longleftrightarrow> en_course e = cid \<and> en_status e = Enrolled \<and> (case en_expires e of None \<Rightarrow> False | Some t \<Rightarrow> t \<le> now)"

definition expire_row :: "enrollment \<Rightarrow> enrollment" where
  "expire_row e = e\<lparr>en_status := Expired, en_seat := None, en_expires := None, en_position := None\<rparr>"

definition expire_and_promote :: "learn_setup \<Rightarrow> course \<Rightarrow> int \<Rightarrow> enrollment list \<Rightarrow> app_error + nat \<times> enrollment list" where
  "expire_and_promote su c now es =
     (let ds = sort_key (\<lambda>e. the (en_expires e)) (filter (due (co_id c) now) es);
          es' = fold (\<lambda>e. upd_by en_id (en_id e) expire_row) ds es
      in if ds = [] then Inr (0, es)
         else bindR (promote_waitlisters su c now (length ds) es') (\<lambda>es''. Inr (length ds, es'')))"

end
