(* ===== verification/Learn_Enroll.thy ===== *)
theory Learn_Enroll
  imports Learn_Seats
begin

text \<open>
  Sign-up, confirmation, cancellation and the expiry sweep
  (\<open>text4/a/app/services/enrollments.py\<close>). An error rolls the whole request back.
\<close>

section \<open>Sign-up\<close>

definition active :: "enrollment \<Rightarrow> bool" where
  "active e \<longleftrightarrow> en_status e = Enrolled \<or> en_status e = Confirmed \<or> en_status e = Waitlisted"

definition new_enrollment :: "int \<Rightarrow> int \<Rightarrow> course \<Rightarrow> enrollment" where
  "new_enrollment eid lid c =
     \<lparr>en_id = eid, en_learner = lid, en_version = co_version c, en_course = co_id c, en_status = Waitlisted,
      en_seat = None, en_position = None, en_expires = None, en_confirmed_at = None, en_cancelled_at = None\<rparr>"

text \<open>The assignments of a sign-up: a free seat with a hold, or the end of the queue.\<close>

definition signed_row :: "learn_setup \<Rightarrow> int \<Rightarrow> course \<Rightarrow> enrollment list \<Rightarrow> enrollment \<Rightarrow> app_error + enrollment" where
  "signed_row su now c es e =
     (if count_seats_taken (co_id c) es < co_capacity c
      then bindR (free_seat_number c es) (\<lambda>n.
           Inr ((seat_row n (hold_until su now) e)\<lparr>en_confirmed_at := None, en_cancelled_at := None\<rparr>))
      else Inr (e\<lparr>en_status := Waitlisted, en_seat := None, en_expires := None,
                  en_position := Some (next_waitlist_position (co_id c) es), en_confirmed_at := None, en_cancelled_at := None\<rparr>))"

definition enroll :: "learn_setup \<Rightarrow> int \<Rightarrow> int \<Rightarrow> int \<Rightarrow> learn \<Rightarrow> app_error + enrollment \<times> learn" where
  "enroll su now lid cid db =
     bindR (lock_course cid db) (\<lambda>c.
     bindR (expire_and_promote su c now (enrollments db)) (\<lambda>(_, es).
       case row_by (\<lambda>e. (en_learner e, en_version e)) (lid, co_version c) es of
         Some e \<Rightarrow>
           if active e then bindR (learn_commit (db\<lparr>enrollments := es\<rparr>)) (\<lambda>db'. Inr (e, db'))
           else if now > co_deadline c then Inl (unprocessable ''ENROLLMENT_CLOSED'')
           else bindR (signed_row su now c es e) (\<lambda>e'.
                bindR (learn_commit (db\<lparr>enrollments := upd_by en_id (en_id e) (\<lambda>_. e') es\<rparr>)) (\<lambda>db'. Inr (e', db')))
       | None \<Rightarrow>
           if now > co_deadline c then Inl (unprocessable ''ENROLLMENT_CLOSED'')
           else bindR (signed_row su now c es (new_enrollment (next_id db) lid c)) (\<lambda>e'.
                bindR (learn_commit (db\<lparr>enrollments := es @ [e'], next_id := next_id db + 1\<rparr>)) (\<lambda>db'. Inr (e', db')))))"

section \<open>Confirmation and cancellation\<close>

definition get_owned_enrollment :: "int \<Rightarrow> int \<Rightarrow> learn \<Rightarrow> app_error + enrollment" where
  "get_owned_enrollment lid eid db =
     bindR (someR (row_by en_id eid (enrollments db)) not_found) (\<lambda>e.
     if en_learner e \<noteq> lid then Inl (AppError 403 ''NOT_OWN_ENROLLMENT'') else Inr e)"

definition confirm_row :: "int \<Rightarrow> enrollment \<Rightarrow> enrollment" where
  "confirm_row now e = e\<lparr>en_status := Confirmed, en_confirmed_at := Some now, en_expires := None\<rparr>"

definition confirm :: "learn_setup \<Rightarrow> int \<Rightarrow> int \<Rightarrow> int \<Rightarrow> learn \<Rightarrow> app_error + enrollment \<times> learn" where
  "confirm su now lid eid db =
     bindR (get_owned_enrollment lid eid db) (\<lambda>e0.
     bindR (lock_course (en_course e0) db) (\<lambda>c.
     bindR (expire_and_promote su c now (enrollments db)) (\<lambda>(_, es).
     bindR (someR (row_by en_id eid es) (Crash ''InvalidRequestError'')) (\<lambda>e.
       if en_status e = Confirmed then bindR (learn_commit (db\<lparr>enrollments := es\<rparr>)) (\<lambda>db'. Inr (e, db'))
       else if en_status e \<noteq> Enrolled then Inl (conflict ''SEAT_NOT_HELD'')
       else bindR (learn_commit (db\<lparr>enrollments := upd_by en_id eid (confirm_row now) es\<rparr>)) (\<lambda>db'.
            Inr (confirm_row now e, db'))))))"

definition cancel_row :: "int \<Rightarrow> enrollment \<Rightarrow> enrollment" where
  "cancel_row now e =
     e\<lparr>en_status := Cancelled, en_cancelled_at := Some now, en_seat := None, en_expires := None, en_position := None\<rparr>"

definition revoke_row :: "int \<Rightarrow> string \<Rightarrow> certificate \<Rightarrow> certificate" where
  "revoke_row now reason ce = ce\<lparr>ce_status := Revoked, ce_revoked_at := Some now, ce_revoke_reason := Some reason\<rparr>"

definition revoke_valid :: "int \<Rightarrow> int \<Rightarrow> string \<Rightarrow> certificate list \<Rightarrow> certificate list" where
  "revoke_valid eid now reason ces =
     (case find (\<lambda>ce. ce_enrollment ce = eid \<and> ce_status ce = Valid) ces of
        None \<Rightarrow> ces
      | Some ce \<Rightarrow> upd_by ce_id (ce_id ce) (revoke_row now reason) ces)"

definition cancel :: "learn_setup \<Rightarrow> int \<Rightarrow> int \<Rightarrow> int \<Rightarrow> learn \<Rightarrow> app_error + enrollment \<times> learn" where
  "cancel su now lid eid db =
     bindR (get_owned_enrollment lid eid db) (\<lambda>e.
     bindR (lock_course (en_course e) db) (\<lambda>c.
       if en_status e = Cancelled \<or> en_status e = Expired then Inl (conflict ''ENROLLMENT_TERMINAL'')
       else
         let es = upd_by en_id eid (cancel_row now) (enrollments db);
             ces = revoke_valid eid now ''invalidated automatically: enrollment cancelled'' (certificates db)
         in bindR (if held e then promote_waitlisters su c now 1 es else Inr (compact_waitlist (co_id c) es)) (\<lambda>es'.
            bindR (learn_commit (db\<lparr>enrollments := es', certificates := ces\<rparr>)) (\<lambda>db'.
            Inr (cancel_row now e, db')))))"

section \<open>The sweep\<close>

definition sweep :: "learn_setup \<Rightarrow> int \<Rightarrow> nat \<times> enrollment list \<Rightarrow> course \<Rightarrow> app_error + nat \<times> enrollment list" where
  "sweep su now acc c =
     (case acc of (m, es) \<Rightarrow> bindR (expire_and_promote su c now es) (\<lambda>(n, es'). Inr (m + n, es')))"

definition expire_due_seats :: "learn_setup \<Rightarrow> int \<Rightarrow> int option \<Rightarrow> learn \<Rightarrow> app_error + nat \<times> learn" where
  "expire_due_seats su now cid db =
     bindR (case cid of Some i \<Rightarrow> bindR (lock_course i db) (\<lambda>c. Inr [c])
                      | None \<Rightarrow> Inr (sort_key co_id (courses db))) (\<lambda>cs.
     bindR (foldR (sweep su now) (0, enrollments db) cs) (\<lambda>(n, es).
     bindR (learn_commit (db\<lparr>enrollments := es\<rparr>)) (\<lambda>db'. Inr (n, db'))))"

definition course_view :: "course \<Rightarrow> learn \<Rightarrow> course \<times> int \<times> int" where
  "course_view c db =
     (c, count_seats_taken (co_id c) (enrollments db), int (length (filter (waits (co_id c)) (enrollments db))))"

end
