(* ===== verification/Learn_Progress.thy ===== *)
theory Learn_Progress
  imports Learn_Enroll
begin

text \<open>
  Submissions, corrections, completion and certificates
  (\<open>text4/a/app/services/progress.py\<close>).
\<close>

section \<open>Loading\<close>

definition steps_of :: "int \<Rightarrow> learn \<Rightarrow> step list" where
  "steps_of vid db = filter (\<lambda>s. st_version s = vid) (steps db)"

definition prereq_ids :: "int \<Rightarrow> int \<Rightarrow> learn \<Rightarrow> int list" where
  "prereq_ids vid sid db =
     remdups (map sd_pre (filter (\<lambda>d. sd_version d = vid \<and> sd_step d = sid) (dependencies db)))"

definition load_steps :: "int \<Rightarrow> learn \<Rightarrow> app_error + step list" where
  "load_steps vid db = bindR (get_version vid db) (\<lambda>_. Inr (steps_of vid db))"

definition lock_enrollment :: "int \<Rightarrow> learn \<Rightarrow> app_error + enrollment" where
  "lock_enrollment eid db = someR (row_by en_id eid (enrollments db)) not_found"

definition fingerprint :: "learn_setup \<Rightarrow> string \<Rightarrow> bool \<Rightarrow> string" where
  "fingerprint su content claimed = ls_sha su ((if claimed then ''True'' else ''False'') @ ''|'' @ content)"

definition result_of :: "int \<Rightarrow> int \<Rightarrow> learn \<Rightarrow> step_result option" where
  "result_of eid sid db = row_by (\<lambda>r. (sr_enrollment r, sr_step r)) (eid, sid) (results db)"

definition is_passed :: "int \<Rightarrow> int \<Rightarrow> learn \<Rightarrow> bool" where
  "is_passed eid sid db \<longleftrightarrow>
     list_ex (\<lambda>r. sr_enrollment r = eid \<and> sr_step r = sid \<and> sr_status r = Passed) (results db)"

section \<open>Completion\<close>

definition complete :: "enrollment \<Rightarrow> step list \<Rightarrow> learn \<Rightarrow> bool" where
  "complete e ss db \<longleftrightarrow>
     set (map st_id ss) \<subseteq> set (map sr_step (filter (\<lambda>r. sr_enrollment r = en_id e \<and> sr_status r = Passed) (results db)))"

definition to_upper :: "char \<Rightarrow> char" where
  "to_upper c = (if 97 \<le> (of_char c :: nat) \<and> (of_char c :: nat) \<le> 122 then char_of (of_char c - 32 :: nat) else c)"

definition generate_serial :: "learn_setup \<Rightarrow> enrollment \<Rightarrow> program_version \<Rightarrow> string" where
  "generate_serial su e v =
     ''SP-'' @ map to_upper (take 24 (ls_sha su (''SP|v'' @ dec_text (pv_id v) @ ''|e'' @ dec_text (en_id e))))"

definition build_certificate :: "learn_setup \<Rightarrow> int \<Rightarrow> enrollment \<Rightarrow> learn \<Rightarrow> app_error + certificate" where
  "build_certificate su now e db =
     bindR (someR (row_by pv_id (en_version e) (versions db)) (Crash ''AttributeError'')) (\<lambda>v.
     bindR (someR (row_by us_id (en_learner e) (users db)) (Crash ''AttributeError'')) (\<lambda>u.
     bindR (someR (row_by pr_id (pv_program v) (programs db)) (Crash ''AttributeError'')) (\<lambda>p.
       let serial = generate_serial su e v
       in Inr \<lparr>ce_id = next_id db, ce_enrollment = en_id e, ce_version = pv_id v, ce_serial = serial,
               ce_learner_name = us_name u, ce_title = pr_title p, ce_number = pv_version v,
               ce_hash = ls_certificate_hash su
                 (CertificateParts serial (pr_id p) (pr_title p) (pv_id v) (pv_version v) (pv_hash v) (us_id u) (us_name u) now),
               ce_status = Valid, ce_issued_at = now, ce_revoked_at = None, ce_revoke_reason = None\<rparr>)))"

definition restore_row :: "certificate \<Rightarrow> certificate" where
  "restore_row ce = ce\<lparr>ce_status := Valid, ce_revoked_at := None, ce_revoke_reason := None\<rparr>"

definition reconcile_completion :: "learn_setup \<Rightarrow> int \<Rightarrow> enrollment \<Rightarrow> step list \<Rightarrow> learn \<Rightarrow> app_error + learn" where
  "reconcile_completion su now e ss db =
     (case row_by ce_enrollment (en_id e) (certificates db) of
        None \<Rightarrow>
          if complete e ss db
          then bindR (build_certificate su now e db) (\<lambda>ce.
               Inr (db\<lparr>certificates := certificates db @ [ce], next_id := next_id db + 1\<rparr>))
          else Inr db
      | Some ce \<Rightarrow>
          if complete e ss db
          then Inr (if ce_status ce = Revoked
                    then db\<lparr>certificates := upd_by ce_enrollment (en_id e) restore_row (certificates db)\<rparr> else db)
          else Inr (if ce_status ce = Valid
                    then db\<lparr>certificates := upd_by ce_enrollment (en_id e)
                           (revoke_row now ''invalidated automatically: a required step no longer passes'') (certificates db)\<rparr>
                    else db))"

section \<open>Results\<close>

definition new_result :: "int \<Rightarrow> int \<Rightarrow> int \<Rightarrow> step_result" where
  "new_result rid eid sid =
     \<lparr>sr_id = rid, sr_enrollment = eid, sr_step = sid, sr_status = Failed, sr_submission = '''', sr_fingerprint = None,
      sr_attempts = 0, sr_passed_at = None, sr_corrected_by = None, sr_reason = None, sr_corrected_at = None\<rparr>"

text \<open>The row of a result, added when there is none, with assignments \<open>f\<close>.\<close>

definition put_result :: "int \<Rightarrow> int \<Rightarrow> (step_result \<Rightarrow> step_result) \<Rightarrow> learn \<Rightarrow> learn" where
  "put_result eid sid f db =
     (case result_of eid sid db of
        Some r \<Rightarrow> db\<lparr>results := upd_by (\<lambda>r. (sr_enrollment r, sr_step r)) (eid, sid) f (results db)\<rparr>
      | None \<Rightarrow> db\<lparr>results := results db @ [f (new_result (next_id db) eid sid)], next_id := next_id db + 1\<rparr>)"

definition submitted_row :: "int \<Rightarrow> string \<Rightarrow> bool \<Rightarrow> string \<Rightarrow> step_result \<Rightarrow> step_result" where
  "submitted_row now content claimed fp r =
     (let r' = r\<lparr>sr_attempts := sr_attempts r + 1, sr_submission := content, sr_fingerprint := Some fp\<rparr>
      in if claimed \<and> sr_corrected_by r = None \<and> sr_status r \<noteq> Passed
         then r'\<lparr>sr_status := Passed, sr_passed_at := Some now\<rparr> else r')"

text \<open>The end of a submission or correction: the row is stored, the certificate follows, all is committed.\<close>

definition store_result ::
  "learn_setup \<Rightarrow> int \<Rightarrow> enrollment \<Rightarrow> step list \<Rightarrow> int \<Rightarrow> (step_result \<Rightarrow> step_result) \<Rightarrow> learn \<Rightarrow> app_error + step_result \<times> learn" where
  "store_result su now e ss sid f db =
     bindR (reconcile_completion su now e ss (put_result (en_id e) sid f db)) (\<lambda>db'.
     bindR (learn_commit db') (\<lambda>db''.
     bindR (someR (result_of (en_id e) sid db'') (Crash ''InvalidRequestError'')) (\<lambda>r. Inr (r, db''))))"

definition missing_steps :: "int \<Rightarrow> int \<Rightarrow> int \<Rightarrow> learn \<Rightarrow> int list" where
  "missing_steps eid vid sid db = filter (\<lambda>pid. \<not> is_passed eid pid db) (prereq_ids vid sid db)"

definition submit_result ::
  "learn_setup \<Rightarrow> int \<Rightarrow> int \<Rightarrow> int \<Rightarrow> int \<Rightarrow> string \<Rightarrow> bool \<Rightarrow> learn \<Rightarrow> app_error + step_result \<times> learn" where
  "submit_result su now lid eid order content claimed db =
     bindR (lock_enrollment eid db) (\<lambda>e.
     if en_learner e \<noteq> lid then Inl forbidden
     else if en_status e \<noteq> Confirmed then Inl (unprocessable ''SEAT_NOT_CONFIRMED'')
     else bindR (load_steps (en_version e) db) (\<lambda>ss.
          bindR (someR (row_by st_order order ss) not_found) (\<lambda>s.
          let missing = missing_steps eid (en_version e) (st_id s) db;
              fp = fingerprint su content claimed;
              record_it = store_result su now e ss (st_id s) (submitted_row now content claimed fp) db
          in if missing \<noteq> [] then
               Inl (if list_all (\<lambda>pid. row_by st_id pid ss \<noteq> None) missing then unprocessable ''PREREQUISITES_NOT_PASSED''
                    else Crash ''KeyError'')
             else case result_of eid (st_id s) db of
               None \<Rightarrow> record_it
             | Some r \<Rightarrow> if sr_fingerprint r = Some fp then bindR (learn_commit db) (\<lambda>db'. Inr (r, db')) else record_it)))"

definition corrected_row :: "int \<Rightarrow> int \<Rightarrow> result_status \<Rightarrow> string \<Rightarrow> step_result \<Rightarrow> step_result" where
  "corrected_row now mid status reason r =
     r\<lparr>sr_status := status, sr_corrected_by := Some mid, sr_reason := Some reason, sr_corrected_at := Some now,
       sr_fingerprint := None,
       sr_passed_at := (if status = Passed then (if sr_passed_at r = None then Some now else sr_passed_at r) else None)\<rparr>"

definition correct_result ::
  "learn_setup \<Rightarrow> int \<Rightarrow> user \<Rightarrow> int \<Rightarrow> int \<Rightarrow> result_status \<Rightarrow> string \<Rightarrow> learn \<Rightarrow> app_error + step_result \<times> learn" where
  "correct_result su now manager eid order status reason db =
     (if us_role manager \<noteq> Manager then Inl forbidden
      else bindR (lock_enrollment eid db) (\<lambda>e.
           if en_status e \<noteq> Confirmed then Inl (unprocessable ''SEAT_NOT_CONFIRMED'')
           else bindR (load_steps (en_version e) db) (\<lambda>ss.
                bindR (someR (row_by st_order order ss) not_found) (\<lambda>s.
                store_result su now e ss (st_id s) (corrected_row now (us_id manager) status reason) db))))"

section \<open>Reads\<close>

text \<open>One line of the progress: the step, its status, its attempts and its passing time.\<close>

definition progress_line :: "int \<Rightarrow> learn \<Rightarrow> step \<Rightarrow> step \<times> result_status \<times> step_result option" where
  "progress_line eid db s =
     (let r = result_of eid (st_id s) db in (s, (case r of Some r \<Rightarrow> sr_status r | None \<Rightarrow> Failed), r))"

definition may_view :: "user \<Rightarrow> int \<Rightarrow> learn \<Rightarrow> app_error + enrollment" where
  "may_view u eid db =
     bindR (someR (row_by en_id eid (enrollments db)) not_found) (\<lambda>e.
     if en_learner e \<noteq> us_id u \<and> us_role u \<noteq> Manager then Inl forbidden else Inr e)"

definition get_progress ::
  "user \<Rightarrow> int \<Rightarrow> learn \<Rightarrow> app_error + enrollment \<times> (step \<times> result_status \<times> step_result option) list \<times> nat \<times> certificate option" where
  "get_progress u eid db =
     bindR (may_view u eid db) (\<lambda>e.
     bindR (load_steps (en_version e) db) (\<lambda>ss.
       let lines = map (progress_line eid db) (sort_key st_order ss)
       in Inr (e, lines, length (filter (\<lambda>(s, status, r). status = Passed) lines),
               row_by ce_enrollment eid (sort_key ce_id (certificates db)))))"

definition get_certificate :: "user \<Rightarrow> int \<Rightarrow> learn \<Rightarrow> app_error + certificate" where
  "get_certificate u eid db =
     bindR (may_view u eid db) (\<lambda>_. someR (row_by ce_enrollment eid (certificates db)) not_found)"

end
