(* ===== verification/Learn_Api.thy ===== *)
theory Learn_Api
  imports Learn_Progress
begin

text \<open>
  The endpoints (\<open>text4/a/app/routers\<close>, \<open>deps.py\<close>, \<open>schemas.py\<close>): the role of the caller is
  checked first, then the body, then the service runs at the service's time. \<open>learn_step\<close> is one
  request, an error leaving the database as it was.
\<close>

section \<open>Bodies\<close>

definition length_ok :: "nat \<Rightarrow> nat \<Rightarrow> string \<Rightarrow> bool" where
  "length_ok low high s \<longleftrightarrow> low \<le> length s \<and> length s \<le> high"

definition bodyR :: "bool \<Rightarrow> app_error + unit" where
  "bodyR ok = guardR ok BadRequest"

definition step_in_ok :: "step_in \<Rightarrow> bool" where
  "step_in_ok s \<longleftrightarrow> length_ok 1 255 (si_title s) \<and> si_criteria s \<noteq> []"

definition version_create_ok :: "step_in list \<Rightarrow> bool" where
  "version_create_ok ss \<longleftrightarrow> 1 \<le> length ss \<and> length ss \<le> 50 \<and> list_all step_in_ok ss"

definition program_create_ok :: "string \<Rightarrow> bool" where
  "program_create_ok title \<longleftrightarrow> length_ok 1 255 title"

definition course_create_ok :: "int \<Rightarrow> bool" where
  "course_create_ok capacity \<longleftrightarrow> 0 < capacity \<and> capacity \<le> 100000"

definition submission_ok :: "string \<Rightarrow> bool" where
  "submission_ok content \<longleftrightarrow> length_ok 0 10000 content"

definition correction_ok :: "string \<Rightarrow> bool" where
  "correction_ok reason \<longleftrightarrow> length_ok 1 2000 reason"

definition clock_delta :: "int \<Rightarrow> int \<Rightarrow> int \<Rightarrow> int" where
  "clock_delta minutes hours days = ((days * 24 + hours) * 60 + minutes) * 60 * 1000000"

section \<open>Endpoints\<close>

definition post_program :: "int option \<Rightarrow> string \<Rightarrow> string \<Rightarrow> learn \<Rightarrow> app_error + learn" where
  "post_program uid title description db =
     bindR (current_manager uid db) (\<lambda>m.
     bindR (bodyR (program_create_ok title)) (\<lambda>_. create_program m title description db))"

definition post_steps :: "learn_setup \<Rightarrow> int option \<Rightarrow> int \<Rightarrow> step_in list \<Rightarrow> learn \<Rightarrow> app_error + learn" where
  "post_steps su uid pid ss db =
     bindR (current_manager uid db) (\<lambda>_.
     bindR (bodyR (version_create_ok ss)) (\<lambda>_. create_version su pid ss db))"

definition post_publish :: "int \<Rightarrow> int option \<Rightarrow> int \<Rightarrow> learn \<Rightarrow> app_error + learn" where
  "post_publish real uid vid db = bindR (current_manager uid db) (\<lambda>_. publish_version (utcnow real db) vid db)"

definition put_current_version :: "int option \<Rightarrow> int \<Rightarrow> int \<Rightarrow> learn \<Rightarrow> app_error + learn" where
  "put_current_version uid pid vid db = bindR (current_manager uid db) (\<lambda>_. rollback_pointer pid vid db)"

definition post_course :: "int option \<Rightarrow> int \<Rightarrow> int \<Rightarrow> int \<Rightarrow> learn \<Rightarrow> app_error + learn" where
  "post_course uid vid capacity deadline db =
     bindR (current_manager uid db) (\<lambda>_.
     bindR (bodyR (course_create_ok capacity)) (\<lambda>_. create_course vid capacity deadline db))"

definition post_enroll :: "learn_setup \<Rightarrow> int \<Rightarrow> int option \<Rightarrow> int \<Rightarrow> learn \<Rightarrow> app_error + enrollment \<times> learn" where
  "post_enroll su real uid cid db =
     bindR (current_learner uid db) (\<lambda>u. enroll su (utcnow real db) (us_id u) cid db)"

definition post_confirm :: "learn_setup \<Rightarrow> int \<Rightarrow> int option \<Rightarrow> int \<Rightarrow> learn \<Rightarrow> app_error + enrollment \<times> learn" where
  "post_confirm su real uid eid db =
     bindR (current_learner uid db) (\<lambda>u. confirm su (utcnow real db) (us_id u) eid db)"

definition post_cancel :: "learn_setup \<Rightarrow> int \<Rightarrow> int option \<Rightarrow> int \<Rightarrow> learn \<Rightarrow> app_error + enrollment \<times> learn" where
  "post_cancel su real uid eid db =
     bindR (current_learner uid db) (\<lambda>u. cancel su (utcnow real db) (us_id u) eid db)"

definition get_enrollment :: "int option \<Rightarrow> int \<Rightarrow> learn \<Rightarrow> app_error + enrollment" where
  "get_enrollment uid eid db = bindR (current_learner uid db) (\<lambda>u. get_owned_enrollment (us_id u) eid db)"

definition expire_holds :: "learn_setup \<Rightarrow> int \<Rightarrow> int option \<Rightarrow> int \<Rightarrow> learn \<Rightarrow> app_error + nat \<times> learn" where
  "expire_holds su real uid cid db =
     bindR (current_manager uid db) (\<lambda>_. expire_due_seats su (utcnow real db) (Some cid) db)"

definition post_submission ::
  "learn_setup \<Rightarrow> int \<Rightarrow> int option \<Rightarrow> int \<Rightarrow> int \<Rightarrow> string \<Rightarrow> bool \<Rightarrow> learn \<Rightarrow> app_error + step_result \<times> learn" where
  "post_submission su real uid eid order content claimed db =
     bindR (current_learner uid db) (\<lambda>u.
     bindR (bodyR (submission_ok content)) (\<lambda>_.
       submit_result su (utcnow real db) (us_id u) eid order content claimed db))"

definition post_correction ::
  "learn_setup \<Rightarrow> int \<Rightarrow> int option \<Rightarrow> int \<Rightarrow> int \<Rightarrow> result_status \<Rightarrow> string \<Rightarrow> learn \<Rightarrow> app_error + step_result \<times> learn" where
  "post_correction su real uid eid order status reason db =
     bindR (current_manager uid db) (\<lambda>m.
     bindR (bodyR (correction_ok reason)) (\<lambda>_.
       correct_result su (utcnow real db) m eid order status reason db))"

definition clock_endpoint :: "learn_setup \<Rightarrow> int option \<Rightarrow> (learn \<Rightarrow> learn) \<Rightarrow> learn \<Rightarrow> app_error + learn" where
  "clock_endpoint su uid f db =
     bindR (current_manager uid db) (\<lambda>_. if \<not> ls_clock_control su then Inl forbidden else learn_commit (f db))"

definition error_status :: "app_error \<Rightarrow> int" where
  "error_status err = (case err of AppError status code \<Rightarrow> status | BadRequest \<Rightarrow> 422 | _ \<Rightarrow> 500)"

section \<open>Requests\<close>

datatype learn_op =
    PostUser string string user_role
  | PostProgram "int option" string string
  | PostSteps "int option" int "step_in list"
  | PostPublish "int option" int
  | PutCurrent "int option" int int
  | PostCourse "int option" int int int
  | PostEnroll "int option" int
  | PostConfirm "int option" int
  | PostCancel "int option" int
  | ExpireHolds "int option" int
  | SweepAll
  | PostSubmission "int option" int int string bool
  | PostCorrection "int option" int int result_status string
  | SetClock "int option" int
  | AdvanceClock "int option" int int int
  | ResetClock "int option"

definition only_db :: "app_error + 'a \<times> learn \<Rightarrow> app_error + learn" where
  "only_db r = bindR r (\<lambda>(_, db). Inr db)"

definition learn_request :: "learn_setup \<Rightarrow> int \<Rightarrow> learn_op \<Rightarrow> learn \<Rightarrow> app_error + learn" where
  "learn_request su real op db =
     (case op of
        PostUser email name role \<Rightarrow> create_user email name role db
      | PostProgram uid title description \<Rightarrow> post_program uid title description db
      | PostSteps uid pid ss \<Rightarrow> post_steps su uid pid ss db
      | PostPublish uid vid \<Rightarrow> post_publish real uid vid db
      | PutCurrent uid pid vid \<Rightarrow> put_current_version uid pid vid db
      | PostCourse uid vid capacity deadline \<Rightarrow> post_course uid vid capacity deadline db
      | PostEnroll uid cid \<Rightarrow> only_db (post_enroll su real uid cid db)
      | PostConfirm uid eid \<Rightarrow> only_db (post_confirm su real uid eid db)
      | PostCancel uid eid \<Rightarrow> only_db (post_cancel su real uid eid db)
      | ExpireHolds uid cid \<Rightarrow> only_db (expire_holds su real uid cid db)
      | SweepAll \<Rightarrow> only_db (expire_due_seats su (utcnow real db) None db)
      | PostSubmission uid eid order content claimed \<Rightarrow> only_db (post_submission su real uid eid order content claimed db)
      | PostCorrection uid eid order status reason \<Rightarrow> only_db (post_correction su real uid eid order status reason db)
      | SetClock uid t \<Rightarrow> clock_endpoint su uid (set_clock t) db
      | AdvanceClock uid minutes hours days \<Rightarrow> clock_endpoint su uid (advance_clock real (clock_delta minutes hours days)) db
      | ResetClock uid \<Rightarrow> clock_endpoint su uid reset_clock db)"

definition learn_step :: "learn_setup \<Rightarrow> int \<times> learn_op \<Rightarrow> learn \<Rightarrow> learn" where
  "learn_step su rop db = (case rop of (real, op) \<Rightarrow> case learn_request su real op db of Inl _ \<Rightarrow> db | Inr db' \<Rightarrow> db')"

definition learn_run :: "learn_setup \<Rightarrow> (int \<times> learn_op) list \<Rightarrow> learn \<Rightarrow> learn" where
  "learn_run su ops db = fold (learn_step su) ops db"

definition learn_empty :: learn where
  "learn_empty = \<lparr>users = [], programs = [], versions = [], steps = [], dependencies = [], courses = [], enrollments = [],
     results = [], certificates = [], virtual_now = None, next_id = 1\<rparr>"

end
