(* ===== verification/Learn_Queue.thy ===== *)
theory Learn_Queue
  imports Learn_Api
begin

text \<open>
  Facts about seats and the waitlist: the queue of a course under row updates, the number of seats
  taken, and what promotion and compaction do to both.
\<close>

section \<open>The queue\<close>

text \<open>\<open>queued cid es ws\<close>: the rows that wait are \<open>ws\<close>, with increasing positions.\<close>

definition queued :: "int \<Rightarrow> enrollment list \<Rightarrow> enrollment list \<Rightarrow> bool" where
  "queued cid es ws \<longleftrightarrow> set ws = {e \<in> set es. waits cid e} \<and> sorted_wrt (<) (map position ws) \<and>
     list_all (\<lambda>e. en_position e \<noteq> None) ws"

lemma queued_distinct: "queued cid es ws \<Longrightarrow> distinct (map position ws)"
  by (simp add: queued_def strict_sorted_iff)

lemma queued_waitlist:
  assumes "distinct es" and q: "queued cid es ws"
  shows "waitlist cid es = ws"
proof -
  let ?W = "filter (waits cid) es"
  have s: "set ws = set ?W" using q by (simp add: queued_def)
  have p: "\<forall>e \<in> set ?W. en_position e \<noteq> None" using q s by (simp add: queued_def list_all_iff)
  have d: "distinct (map position ws)" by (rule queued_distinct[OF q])
  have "sort_key position ?W = ws"
  proof (rule map_sorted_distinct_set_unique[of position])
    show "inj_on position (set (sort_key position ?W) \<union> set ws)" using d s by (simp add: distinct_map)
    show "sorted (map position (sort_key position ?W))" by simp
    show "sorted (map position ws)" using q by (simp add: queued_def strict_sorted_iff)
    have "inj_on position (set ?W)" using d by (simp add: distinct_map s)
    then show "distinct (map position (sort_key position ?W))" using \<open>distinct es\<close> by (simp add: distinct_map)
  qed (simp_all add: d s)
  moreover have "filter (\<lambda>e. en_position e \<noteq> None) ?W = ?W" by (rule filter_True) (rule p)
  moreover have "filter (\<lambda>e. en_position e = None) ?W = []" by (rule filter_False) (use p in blast)
  ultimately show ?thesis unfolding waitlist_def by (simp add: Let_def)
qed

text \<open>Positions \<open>1, 2, \<dots>\<close>: what holds between requests.\<close>

definition compact :: "int \<Rightarrow> enrollment list \<Rightarrow> enrollment list \<Rightarrow> bool" where
  "compact cid es ws \<longleftrightarrow> set ws = {e \<in> set es. waits cid e} \<and> map en_position ws = map Some [1..int (length ws)]"

lemma compact_queued:
  assumes "compact cid es ws"
  shows "queued cid es ws"
proof -
  have m: "map en_position ws = map Some [1..int (length ws)]" using assms by (simp add: compact_def)
  then have "map (case_option 0 (\<lambda>p. p)) (map en_position ws) = [1..int (length ws)]" by (simp add: o_def)
  then have "map position ws = [1..int (length ws)]" by (simp add: position_def[abs_def] o_def)
  moreover have "list_all (\<lambda>p. p \<noteq> None) (map en_position ws)" unfolding m by (simp add: list_all_iff)
  ultimately show ?thesis using assms by (simp add: queued_def compact_def list_all_iff)
qed

section \<open>Row updates\<close>

lemma set_upd_by:
  assumes "distinct (map key es)" and "e \<in> set es"
  shows "set (upd_by key (key e) f es) = insert (f e) (set es - {e})"
proof -
  have inj: "inj_on key (set es)" using assms(1) by (simp add: distinct_map)
  have "set (upd_by key (key e) f es) = (\<lambda>r. if r = e then f e else r) ` set es"
    unfolding upd_by_def set_map by (rule image_cong) (simp_all add: inj_on_eq_iff[OF inj _ assms(2)])
  then show ?thesis using assms(2) by auto
qed

lemma queued_leave:
  assumes q: "queued cid es ws" and d: "distinct (map en_id es)" "e \<in> set es" and f: "\<not> waits cid (f e)"
  shows "queued cid (upd_by en_id (en_id e) f es) (removeAll e ws)"
proof -
  have "sorted_wrt (<) (map position (filter (\<lambda>x. e \<noteq> x) ws))"
    using q by (simp add: queued_def sorted_wrt_map sorted_wrt_filter)
  moreover have "removeAll e ws = filter (\<lambda>x. e \<noteq> x) ws" by (simp add: removeAll_filter_not_eq)
  ultimately show ?thesis using q f by (auto simp: queued_def set_upd_by[OF d] list_all_iff)
qed

lemma queued_join:
  assumes q: "queued cid es ws" and e: "waits cid e" "en_position e \<noteq> None" "\<forall>w \<in> set ws. position w < position e"
    and s: "{x \<in> set es'. waits cid x} = insert e {x \<in> set es. waits cid x}"
  shows "queued cid es' (ws @ [e])"
  using assms by (auto simp: queued_def sorted_wrt_append)

lemma queued_frame:
  "queued cid es ws \<Longrightarrow> {x \<in> set es'. waits cid x} = {x \<in> set es. waits cid x} \<Longrightarrow> queued cid es' ws"
  by (simp add: queued_def)

text \<open>How a seat operation on one course may change a row.\<close>

definition row_moved :: "int \<Rightarrow> enrollment \<Rightarrow> enrollment \<Rightarrow> bool" where
  "row_moved cid e e' \<longleftrightarrow> e' = e \<or>
     (en_course e = cid \<and> en_course e' = cid \<and> en_id e' = en_id e \<and> en_learner e' = en_learner e \<and>
      en_version e' = en_version e \<and> en_status e \<noteq> Confirmed \<and> en_status e' \<noteq> Confirmed)"

definition moved :: "int \<Rightarrow> enrollment list \<Rightarrow> enrollment list \<Rightarrow> bool" where
  "moved cid es es' \<longleftrightarrow> list_all2 (row_moved cid) es es'"

lemma moved_refl [simp]: "moved cid es es"
  unfolding moved_def by (rule list_all2_refl) (simp add: row_moved_def)

lemma moved_trans: "moved cid a b \<Longrightarrow> moved cid b c \<Longrightarrow> moved cid a c"
  unfolding moved_def by (rule list_all2_trans[of "row_moved cid" "row_moved cid"]) (auto simp: row_moved_def)

lemma moved_upd:
  assumes "distinct (map en_id es)" "e \<in> set es" "row_moved cid e (f e)"
  shows "moved cid es (upd_by en_id (en_id e) f es)"
  unfolding moved_def upd_by_def
proof (rule list_all2_all_nthI)
  fix i assume i: "i < length es"
  show "row_moved cid (es ! i) (map (\<lambda>r. if en_id r = en_id e then f r else r) es ! i)"
  proof (cases "en_id (es ! i) = en_id e")
    case True
    then have "es ! i = e" using assms(1,2) i nth_mem[OF i] by (auto simp: distinct_map inj_on_def)
    then show ?thesis using i assms(3) by simp
  next
    case False
    then show ?thesis using i by (simp add: row_moved_def)
  qed
qed simp

lemma moved_map:
  assumes "moved cid es es'" and "\<And>e e'. row_moved cid e e' \<Longrightarrow> g e' = g e"
  shows "map g es' = map g es"
  using assms(1) unfolding moved_def by (induction rule: list_all2_induct) (simp_all add: assms(2))

lemma moved_ids: "moved cid es es' \<Longrightarrow> map en_id es' = map en_id es"
  by (rule moved_map) (auto simp: row_moved_def)

lemma moved_other_course:
  assumes "moved cid es es'" "cid' \<noteq> cid"
  shows "in_course cid' es' = in_course cid' es"
  using assms(1) unfolding moved_def
  by (induction rule: list_all2_induct) (use assms(2) in \<open>auto simp: in_course_def row_moved_def\<close>)

end
