(* ===== verification/Learn_Promotion.thy ===== *)
theory Learn_Promotion
  imports Learn_Queue
begin

text \<open>
  Compaction and promotion: the queue keeps its order, its head gets the free seats, and no seat
  number is given twice.
\<close>

section \<open>Compaction\<close>

definition at_position :: "nat \<Rightarrow> enrollment \<Rightarrow> enrollment" where
  "at_position p r = r\<lparr>en_position := Some (int p)\<rparr>"

lemma at_position_simps [simp]:
  "en_id (at_position p r) = en_id r" "en_course (at_position p r) = en_course r" "en_status (at_position p r) = en_status r"
  "en_learner (at_position p r) = en_learner r" "en_version (at_position p r) = en_version r" "en_seat (at_position p r) = en_seat r"
  "en_expires (at_position p r) = en_expires r" "en_position (at_position p r) = Some (int p)"
  by (simp_all add: at_position_def)

lemma fold_positions:
  "distinct (map (\<lambda>(p, e). en_id e) pes) \<Longrightarrow>
   fold (\<lambda>(p, e). upd_by en_id (en_id e) (at_position p)) pes es =
   map (\<lambda>r. case map_of (map (\<lambda>(p, e). (en_id e, p)) pes) (en_id r) of None \<Rightarrow> r | Some p \<Rightarrow> at_position p r) es"
proof (induction pes arbitrary: es)
  case (Cons pe pes)
  obtain p e where pe: "pe = (p, e)" by (rule prod.exhaust)
  have "en_id e \<notin> fst ` set (map (\<lambda>(p, e). (en_id e, p)) pes)" using Cons.prems by (force simp: pe)
  then have "map_of (map (\<lambda>(p, e). (en_id e, p)) pes) (en_id e) = None" by (simp add: map_of_eq_None_iff del: map_of_map)
  with Cons show ?case by (simp add: pe upd_by_def cong: map_cong)
qed simp

lemma waits_at_position [simp]: "waits cid (at_position p e) \<longleftrightarrow> waits cid e"
  by (simp add: waits_def)

lemma compact_waitlist_eq:
  assumes d: "distinct (map en_id es)" and q: "queued cid es ws"
  shows "compact_waitlist cid es =
    map (\<lambda>r. case map_of (map (\<lambda>(p, e). (en_id e, p)) (enumerate 1 ws)) (en_id r) of None \<Rightarrow> r | Some p \<Rightarrow> at_position p r) es"
proof -
  have ws: "waitlist cid es = ws" by (rule queued_waitlist[OF _ q]) (use d in \<open>simp add: distinct_map\<close>)
  have "set ws \<subseteq> set es" using q by (auto simp: queued_def)
  then have "distinct (map en_id ws)" using d queued_distinct[OF q] by (auto simp: distinct_map intro: inj_on_subset)
  moreover have "map (\<lambda>(p, e). en_id e) (enumerate 1 ws) = map en_id (map snd (enumerate 1 ws))"
    by (simp only: map_map o_def case_prod_unfold)
  ultimately show ?thesis unfolding compact_waitlist_def ws
    using fold_positions[of "enumerate 1 ws" es] by (simp add: at_position_def[abs_def] del: map_of_map)
qed

text \<open>The queue after compaction: the same rows in the same order, at the positions \<open>1, 2, \<dots>\<close>.\<close>

definition renumbered :: "enrollment list \<Rightarrow> enrollment list" where
  "renumbered ws = map (\<lambda>(p, e). at_position p e) (enumerate 1 ws)"

lemma length_renumbered [simp]: "length (renumbered ws) = length ws"
  by (simp add: renumbered_def)

lemma renumbered_nth: "i < length ws \<Longrightarrow> renumbered ws ! i = at_position (Suc i) (ws ! i)"
  by (simp add: renumbered_def nth_enumerate_eq)

lemma ids_renumbered [simp]: "map en_id (renumbered ws) = map en_id ws"
  by (rule nth_equalityI) (simp_all add: renumbered_nth)

lemma positions_renumbered: "map en_position (renumbered ws) = map Some [1..int (length ws)]"
  by (rule nth_equalityI) (simp_all add: renumbered_nth)

lemma compact_waitlist_ok:
  assumes d: "distinct (map en_id es)" and q: "queued cid es ws"
  shows "compact cid (compact_waitlist cid es) (renumbered ws)" and "moved cid es (compact_waitlist cid es)"
    and "{e \<in> set (compact_waitlist cid es). \<not> waits cid e} = {e \<in> set es. \<not> waits cid e}"
proof -
  let ?pos = "map_of (map (\<lambda>(p, e). (en_id e, p)) (enumerate 1 ws))"
  let ?f = "\<lambda>r. case ?pos (en_id r) of None \<Rightarrow> r | Some p \<Rightarrow> at_position p r"
  have eq: "compact_waitlist cid es = map ?f es" by (rule compact_waitlist_eq[OF d q])
  have ws: "set ws = {e \<in> set es. waits cid e}" using q by (simp add: queued_def)
  have inj: "inj_on en_id (set es)" using d by (simp add: distinct_map)
  have dw: "distinct (map en_id ws)" using d ws queued_distinct[OF q] by (auto simp: distinct_map intro: inj_on_subset)
  have keys: "map fst (map (\<lambda>(p, e). (en_id e, p)) (enumerate 1 ws)) = map en_id (map snd (enumerate 1 ws))"
    by (simp only: map_map o_def case_prod_unfold fst_conv)
  have on: "?f (ws ! i) = renumbered ws ! i" if i: "i < length ws" for i
  proof -
    have "(en_id (ws ! i), Suc i) \<in> set (map (\<lambda>(p, e). (en_id e, p)) (enumerate 1 ws))"
      using i nth_mem[of i "map (\<lambda>(p, e). (en_id e, p)) (enumerate 1 ws)"] by (simp add: nth_enumerate_eq)
    then have "?pos (en_id (ws ! i)) = Some (Suc i)"
      by (rule map_of_is_SomeI[rotated]) (simp only: keys map_snd_enumerate dw)
    then show ?thesis using i by (simp add: renumbered_nth)
  qed
  have off: "?f r = r" if "r \<in> set es" "\<not> waits cid r" for r
  proof -
    have "en_id r \<notin> set (map en_id ws)" using that inj ws by (auto dest: inj_onD)
    then have "?pos (en_id r) = None" using keys by (simp only: map_of_eq_None_iff set_map[symmetric] map_snd_enumerate not_False_eq_True)
    then show ?thesis by simp
  qed
  have keep: "waits cid (?f r) \<longleftrightarrow> waits cid r" for r by (simp split: option.split)
  have "renumbered ws = map ?f ws"
    by (rule nth_equalityI) (simp_all only: length_renumbered length_map on[symmetric] nth_map)
  then have "set (renumbered ws) = ?f ` set ws" by (simp only: set_map)
  also have "\<dots> = {e \<in> set (map ?f es). waits cid e}" unfolding ws using keep by auto
  finally show "compact cid (compact_waitlist cid es) (renumbered ws)"
    unfolding compact_def eq by (simp add: positions_renumbered)
  show "{e \<in> set (compact_waitlist cid es). \<not> waits cid e} = {e \<in> set es. \<not> waits cid e}"
    unfolding eq using keep off by force
  show "moved cid es (compact_waitlist cid es)"
    unfolding eq moved_def list.rel_map
  proof (rule list.rel_refl_strong)
    fix r assume "r \<in> set es"
    then show "row_moved cid r (?f r)"
      using off by (cases "waits cid r") (auto simp: row_moved_def waits_def split: option.split)
  qed
qed

section \<open>Seats\<close>

lemma count_upd:
  assumes "distinct (map en_id es)" "e \<in> set es" "en_course (f e) = en_course e"
  shows "count_seats_taken cid (upd_by en_id (en_id e) f es) =
    count_seats_taken cid es + (if en_course e = cid then of_bool (held (f e)) - of_bool (held e) else 0)"
  using assms
proof (induction es)
  case (Cons x es)
  show ?case
  proof (cases "x = e")
    case True
    with Cons.prems have "upd_by en_id (en_id e) f es = es" by (intro upd_by_absent) auto
    with True Cons.prems(3) show ?thesis by (simp add: count_seats_taken_def in_course_def)
  next
    case False
    with Cons.prems have "en_id x \<noteq> en_id e" "e \<in> set es" by auto
    with Cons show ?thesis by (simp add: count_seats_taken_def in_course_def split: if_splits)
  qed
qed simp

lemma count_append:
  "count_seats_taken cid (es @ [e]) = count_seats_taken cid es + of_bool (en_course e = cid \<and> held e)"
  by (simp add: count_seats_taken_def in_course_def)

lemma count_same_map:
  assumes "map (\<lambda>e. (en_course e, held e)) es' = map (\<lambda>e. (en_course e, held e)) es"
  shows "count_seats_taken cid es' = count_seats_taken cid es"
proof -
  have e: "count_seats_taken cid es = int (length (filter (\<lambda>(c, h). c = cid \<and> h) (map (\<lambda>e. (en_course e, held e)) es)))" for es
    by (simp add: count_seats_taken_def in_course_def filter_map o_def conj_commute)
  show ?thesis unfolding e assms ..
qed

lemma count_renumbered: "count_seats_taken cid (compact_waitlist cid' es) = count_seats_taken cid es"
proof -
  have "map (\<lambda>e. (en_course e, held e)) (fold (\<lambda>(p, e). upd_by en_id (en_id e) (\<lambda>r. r\<lparr>en_position := Some (int p)\<rparr>)) pes es) =
      map (\<lambda>e. (en_course e, held e)) es" for pes :: "(nat \<times> enrollment) list" and es
    by (induction pes arbitrary: es) (auto simp: upd_by_def held_def)
  then show ?thesis unfolding compact_waitlist_def by (rule count_same_map)
qed

text \<open>Below the capacity there is a free seat number.\<close>

lemma free_seat_found:
  assumes "count_seats_taken (co_id c) es < co_capacity c"
  shows "\<exists>n. free_seat_number c es = Inr n \<and> 1 \<le> n \<and> n \<le> co_capacity c \<and>
    (\<forall>e \<in> set es. en_course e = co_id c \<and> held e \<longrightarrow> en_seat e \<noteq> Some n)"
proof -
  let ?T = "map en_seat (filter held (in_course (co_id c) es))"
  have "\<exists>n. find (\<lambda>n. Some n \<notin> set ?T) [1..co_capacity c] = Some n"
  proof (rule ccontr)
    assume "\<not> ?thesis"
    then have "find (\<lambda>n. Some n \<notin> set ?T) [1..co_capacity c] = None" by simp
    then have "Some ` {1..co_capacity c} \<subseteq> set ?T" by (auto simp: find_None_iff)
    then have "card (Some ` {1..co_capacity c}) \<le> length ?T"
      using card_mono[of "set ?T"] card_length[of ?T] by (meson List.finite_set order_trans)
    moreover have "card (Some ` {1..co_capacity c}) = nat (co_capacity c)" by (simp add: card_image)
    ultimately show False using assms by (simp add: count_seats_taken_def)
  qed
  then obtain n where n: "find (\<lambda>n. Some n \<notin> set ?T) [1..co_capacity c] = Some n" ..
  from find_Some_iff[THEN iffD1, OF n] have "n \<in> set [1..co_capacity c]" "Some n \<notin> set ?T" by (metis nth_mem)+
  then show ?thesis using n by (intro exI[of _ n]) (auto simp: free_seat_number_def in_course_def image_iff)
qed

text \<open>The rows of a course between requests, apart from the numbering of the queue.\<close>

definition seat_row_ok :: "course \<Rightarrow> enrollment \<Rightarrow> bool" where
  "seat_row_ok c e \<longleftrightarrow> en_version e = co_version c \<and> (held e \<longleftrightarrow> en_seat e \<noteq> None) \<and>
     (\<forall>n. en_seat e = Some n \<longrightarrow> 1 \<le> n \<and> n \<le> co_capacity c) \<and> (en_status e = Waitlisted \<longleftrightarrow> en_position e \<noteq> None) \<and>
     (en_status e = Enrolled \<longleftrightarrow> en_expires e \<noteq> None)"

definition seat_rows_ok :: "course \<Rightarrow> enrollment list \<Rightarrow> bool" where
  "seat_rows_ok c es \<longleftrightarrow> (\<forall>e \<in> set es. en_course e = co_id c \<longrightarrow> seat_row_ok c e) \<and>
     inj_on en_seat {e \<in> set es. en_course e = co_id c \<and> held e}"

text \<open>So many seats are taken as there are numbers in use, hence no more than the capacity.\<close>

lemma taken_bound:
  assumes "seat_rows_ok c es" and "0 \<le> co_capacity c" and "distinct es"
  shows "count_seats_taken (co_id c) es \<le> co_capacity c"
proof -
  let ?T = "map en_seat (filter held (in_course (co_id c) es))"
  have "set ?T \<subseteq> Some ` {1..co_capacity c}"
    using assms(1) by (fastforce simp: seat_rows_ok_def seat_row_ok_def in_course_def)
  then have "card (set ?T) \<le> card (Some ` {1..co_capacity c})" by (intro card_mono) auto
  moreover have "card (set ?T) = length ?T" using assms(1,3)
    by (intro distinct_card) (simp add: seat_rows_ok_def distinct_map in_course_def conj_commute)
  moreover have "card (Some ` {1..co_capacity c}) = nat (co_capacity c)" by (simp add: card_image)
  ultimately show ?thesis using assms(2) by (simp add: count_seats_taken_def)
qed

lemma inj_on_join: "inj_on g A \<Longrightarrow> (\<And>x. x \<in> A \<Longrightarrow> x \<noteq> e \<Longrightarrow> g x \<noteq> g e) \<Longrightarrow> inj_on g (insert e A)"
  by (fastforce simp: inj_on_insert)

lemma held_not_waits: "held e \<Longrightarrow> \<not> waits cid e"
  by (auto simp: held_def waits_def)

lemma seats_upd:
  assumes ok: "seat_rows_ok c es" and d: "distinct (map en_id es)" "e \<in> set es"
    and row: "en_course (f e) = co_id c \<Longrightarrow> seat_row_ok c (f e)"
    and free: "\<And>x. x \<in> set es \<Longrightarrow> x \<noteq> e \<Longrightarrow> en_course x = co_id c \<Longrightarrow> held x \<Longrightarrow> held (f e) \<Longrightarrow>
      en_course (f e) = co_id c \<Longrightarrow> en_seat x \<noteq> en_seat (f e)"
  shows "seat_rows_ok c (upd_by en_id (en_id e) f es)"
proof -
  let ?H = "{x \<in> set es. en_course x = co_id c \<and> held x}"
  have "inj_on en_seat (?H - {e})" using ok unfolding seat_rows_ok_def by (blast intro: inj_on_subset)
  note base = this
  have joined: "inj_on en_seat (insert (f e) (?H - {e}))" if "held (f e) \<and> en_course (f e) = co_id c"
    by (rule inj_on_join[OF base]) (use free that in auto)
  have "inj_on en_seat {x \<in> insert (f e) (set es - {e}). en_course x = co_id c \<and> held x}"
  proof (cases "held (f e) \<and> en_course (f e) = co_id c")
    case True
    show ?thesis by (rule inj_on_subset[OF joined[OF True]]) blast
  next
    case False
    show ?thesis by (rule inj_on_subset[OF base]) (use False in auto)
  qed
  then show ?thesis using ok row unfolding seat_rows_ok_def set_upd_by[OF d] by blast
qed

lemma seats_append:
  assumes ok: "seat_rows_ok c es" and row: "en_course e = co_id c \<Longrightarrow> seat_row_ok c e"
    and free: "\<And>x. x \<in> set es \<Longrightarrow> en_course x = co_id c \<Longrightarrow> held x \<Longrightarrow> held e \<Longrightarrow> en_seat x \<noteq> en_seat e"
  shows "seat_rows_ok c (es @ [e])"
proof -
  let ?H = "{x \<in> set es. en_course x = co_id c \<and> held x}"
  have H: "inj_on en_seat ?H" using ok unfolding seat_rows_ok_def by blast
  have joined: "inj_on en_seat (insert e ?H)" if "held e"
    by (rule inj_on_join[OF H]) (use free that in auto)
  have "inj_on en_seat {x \<in> set (es @ [e]). en_course x = co_id c \<and> held x}"
  proof (cases "held e")
    case True
    show ?thesis by (rule inj_on_subset[OF joined[OF True]]) auto
  next
    case False
    show ?thesis by (rule inj_on_subset[OF H]) (use False in auto)
  qed
  then show ?thesis using ok row unfolding seat_rows_ok_def by auto
qed

lemma seats_renumbered:
  assumes ok: "seat_rows_ok c es" and d: "distinct (map en_id es)" and q: "queued (co_id c) es ws"
  shows "seat_rows_ok c (compact_waitlist (co_id c) es)"
proof -
  note cw = compact_waitlist_ok[OF d q]
  let ?es = "compact_waitlist (co_id c) es"
  have w: "{e \<in> set ?es. waits (co_id c) e} = set (renumbered ws)" using cw(1) by (simp add: compact_def)
  have "{x \<in> set ?es. en_course x = co_id c \<and> held x} = {x \<in> set es. en_course x = co_id c \<and> held x}"
    using cw(3) held_not_waits by blast
  moreover have "seat_row_ok c e" if e: "e \<in> set ?es" "en_course e = co_id c" for e
  proof (cases "waits (co_id c) e")
    case True
    then have "e \<in> set (renumbered ws)" using w e(1) by blast
    then obtain i where i: "i < length ws" "e = at_position (Suc i) (ws ! i)"
      unfolding in_set_conv_nth by (auto simp: renumbered_nth)
    then have "ws ! i \<in> set es" "waits (co_id c) (ws ! i)" using q nth_mem[of i ws] by (auto simp: queued_def)
    then have "seat_row_ok c (ws ! i)" "en_status (ws ! i) = Waitlisted"
      using ok by (auto simp: seat_rows_ok_def waits_def)
    then show ?thesis unfolding i(2) by (simp add: seat_row_ok_def held_def)
  next
    case False
    then have "e \<in> set es" using cw(3) e(1) by blast
    then show ?thesis using ok e(2) by (simp add: seat_rows_ok_def)
  qed
  ultimately show ?thesis using ok by (simp add: seat_rows_ok_def)
qed

section \<open>Promotion\<close>

lemma seat_row_simps [simp]:
  "en_id (seat_row n t e) = en_id e" "en_course (seat_row n t e) = en_course e" "en_version (seat_row n t e) = en_version e"
  "en_learner (seat_row n t e) = en_learner e" "en_status (seat_row n t e) = Enrolled" "en_seat (seat_row n t e) = Some n"
  "en_position (seat_row n t e) = None" "en_expires (seat_row n t e) = Some t"
  by (simp_all add: seat_row_def)

lemma seat_row_held [simp]: "held (seat_row n t e)" "\<not> waits cid (seat_row n t e)"
  by (simp_all add: held_def waits_def)

lemma promote_ok:
  fixes su c now es ws
  defines "cid \<equiv> co_id c" and "cap \<equiv> co_capacity c" and "t \<equiv> hold_until su now"
  assumes "distinct (map en_id es)" "queued cid es ws" "seat_rows_ok c es" "count_seats_taken cid es + int k \<le> cap"
  shows "\<exists>es'. promote su c now k es = Inr (min k (length ws), es') \<and> queued cid es' (drop k ws) \<and> seat_rows_ok c es' \<and>
    moved cid es es' \<and> count_seats_taken cid es' = count_seats_taken cid es + int (min k (length ws)) \<and>
    (\<forall>e \<in> set (take k ws). \<exists>n. seat_row n t e \<in> set es') \<and> {x \<in> set es. \<not> waits cid x} \<subseteq> set es'"
  using assms(4-7)
proof (induction k arbitrary: es ws)
  case 0
  then show ?case by simp
next
  case (Suc k)
  note d = Suc.prems(1) and q = Suc.prems(2) and ok = Suc.prems(3) and room = Suc.prems(4)
  have ws: "waitlist (co_id c) es = ws" using queued_waitlist[OF _ q] d by (simp add: distinct_map cid_def)
  show ?case
  proof (cases ws)
    case Nil
    with ws q ok show ?thesis by simp
  next
    case (Cons e rest)
    have "e \<in> {x \<in> set es. waits cid x}" using q unfolding queued_def Cons by auto
    then have e: "e \<in> set es" "en_course e = cid" "en_status e = Waitlisted" "\<not> held e" "waits cid e"
      by (simp_all add: waits_def held_def)
    have lt: "count_seats_taken cid es < cap" using room by simp
    from free_seat_found[of c es] lt obtain n where n: "free_seat_number c es = Inr n" "1 \<le> n" "n \<le> cap"
      and free: "\<forall>x \<in> set es. en_course x = cid \<and> held x \<longrightarrow> en_seat x \<noteq> Some n" by (auto simp: cid_def cap_def)
    let ?es = "upd_by en_id (en_id e) (seat_row n t) es"
    have d': "distinct (map en_id ?es)" using moved_ids[OF moved_upd[OF d e(1)], of cid "seat_row n t"] d e
      by (simp add: row_moved_def)
    have rest: "removeAll e ws = rest" using queued_distinct[OF q] by (auto simp: Cons intro!: removeAll_id)
    have q': "queued cid ?es rest" using queued_leave[OF q d e(1), of "seat_row n t"] rest by simp
    have ok': "seat_rows_ok c ?es"
    proof (rule seats_upd[OF ok d e(1)])
      have "seat_row_ok c e" using ok e by (simp add: seat_rows_ok_def cid_def)
      then show "seat_row_ok c (seat_row n t e)" using n by (simp add: seat_row_ok_def cap_def)
    qed (use free in \<open>auto simp: cid_def\<close>)
    have count: "count_seats_taken cid ?es = count_seats_taken cid es + 1"
      using count_upd[OF d e(1), of "seat_row n t" cid] e by simp
    have m: "moved cid es ?es" by (rule moved_upd[OF d e(1)]) (use e in \<open>simp add: row_moved_def\<close>)
    from Suc.IH[OF d' q' ok'] room count obtain es' where
      r: "promote su c now k ?es = Inr (min k (length rest), es')" "queued cid es' (drop k rest)" "seat_rows_ok c es'"
        "moved cid ?es es'" "count_seats_taken cid es' = count_seats_taken cid ?es + int (min k (length rest))"
        "\<forall>x \<in> set (take k rest). \<exists>n. seat_row n t x \<in> set es'" "{x \<in> set ?es. \<not> waits cid x} \<subseteq> set es'" by auto
    have "promote su c now (Suc k) es = Inr (Suc (min k (length rest)), es')"
      using ws lt n(1) r(1) e(3) by (simp add: Cons eligible_def cid_def cap_def t_def)
    moreover have "seat_row n t e \<in> set es'" and "{x \<in> set es. \<not> waits cid x} \<subseteq> set es'"
      using r(7) e(5) unfolding set_upd_by[OF d e(1)] by auto
    moreover have "moved cid es es'" by (rule moved_trans[OF m r(4)])
    ultimately show ?thesis using r count by (auto simp: Cons)
  qed
qed

lemma promote_waitlisters_ok:
  fixes su c now
  defines "cid \<equiv> co_id c" and "cap \<equiv> co_capacity c" and "t \<equiv> hold_until su now"
  assumes d: "distinct (map en_id es)" and q: "queued cid es ws" and ok: "seat_rows_ok c es"
    and room: "count_seats_taken cid es + int k \<le> cap" and k: "0 < k"
  shows "\<exists>es' ws'. promote_waitlisters su c now k es = Inr es' \<and> compact cid es' ws' \<and> map en_id ws' = drop k (map en_id ws) \<and>
    seat_rows_ok c es' \<and> moved cid es es' \<and> count_seats_taken cid es' = count_seats_taken cid es + int (min k (length ws)) \<and>
    (\<forall>e \<in> set (take k ws). \<exists>n. seat_row n t e \<in> set es') \<and> {x \<in> set es. \<not> waits cid x} \<subseteq> set es'"
proof -
  obtain es1 where p: "promote su c now k es = Inr (min k (length ws), es1)" "queued cid es1 (drop k ws)" "seat_rows_ok c es1"
      "moved cid es es1" "count_seats_taken cid es1 = count_seats_taken cid es + int (min k (length ws))"
      "\<forall>e \<in> set (take k ws). \<exists>n. seat_row n t e \<in> set es1" "{x \<in> set es. \<not> waits cid x} \<subseteq> set es1"
    using promote_ok[OF d q[unfolded cid_def] ok room[unfolded cid_def cap_def], of su now]
    unfolding cid_def t_def by auto
  show ?thesis
  proof (cases "ws = []")
    case True
    then have "promote_waitlisters su c now k es = Inr es1" using p(1) by (simp add: promote_waitlisters_def)
    moreover have "compact cid es1 []" using p(2) True by (simp add: queued_def compact_def)
    ultimately show ?thesis using p True by (intro exI[of _ es1] exI[of _ "[]"]) simp
  next
    case False
    let ?es = "compact_waitlist cid es1"
    have d1: "distinct (map en_id es1)" using d moved_ids[OF p(4)] by simp
    note cw = compact_waitlist_ok[OF d1 p(2)]
    have "promote_waitlisters su c now k es = Inr ?es"
      using p(1) False k by (simp add: promote_waitlisters_def cid_def min_def)
    moreover have "seat_rows_ok c ?es" using seats_renumbered[OF p(3) d1] p(2) by (simp add: cid_def)
    moreover have "moved cid es ?es" by (rule moved_trans[OF p(4) cw(2)])
    moreover have kept: "x \<in> set ?es" if "x \<in> set es1" "\<not> waits cid x" for x using cw(3) that by blast
    moreover have "\<forall>e \<in> set (take k ws). \<exists>n. seat_row n t e \<in> set ?es"
      using p(6) kept seat_row_held(2) by blast
    moreover have "{x \<in> set es. \<not> waits cid x} \<subseteq> set ?es" using p(7) kept by blast
    moreover have "map en_id (renumbered (drop k ws)) = drop k (map en_id ws)" by (simp add: drop_map)
    ultimately show ?thesis using p(5) cw(1)
      by (intro exI[of _ ?es] exI[of _ "renumbered (drop k ws)"]) (simp add: count_renumbered)
  qed
qed

section \<open>Expiry\<close>

lemma expire_row_simps [simp]:
  "en_id (expire_row e) = en_id e" "en_course (expire_row e) = en_course e" "en_version (expire_row e) = en_version e"
  "en_learner (expire_row e) = en_learner e" "en_status (expire_row e) = Expired" "\<not> held (expire_row e)" "\<not> waits cid (expire_row e)"
  by (simp_all add: expire_row_def held_def waits_def)

lemma seat_row_ok_closed:
  "seat_row_ok c e \<Longrightarrow> seat_row_ok c (expire_row e)" "seat_row_ok c e \<Longrightarrow> seat_row_ok c (cancel_row now e)"
  by (simp_all add: seat_row_ok_def expire_row_def cancel_row_def held_def)

lemma expire_rows_ok:
  fixes c now
  defines "cid \<equiv> co_id c"
  assumes "distinct (map en_id es)" "queued cid es ws" "seat_rows_ok c es" "distinct ds" "set ds \<subseteq> {e \<in> set es. due cid now e}"
  shows "let es' = fold (\<lambda>e. upd_by en_id (en_id e) expire_row) ds es in
    queued cid es' ws \<and> seat_rows_ok c es' \<and> moved cid es es' \<and> count_seats_taken cid es' = count_seats_taken cid es - int (length ds)"
  using assms(2-6)
proof (induction ds arbitrary: es)
  case (Cons e ds)
  note d = Cons.prems(1) and q = Cons.prems(2) and ok = Cons.prems(3)
  have e: "e \<in> set es" "en_course e = cid" "en_status e = Enrolled" using Cons.prems(5) by (auto simp: due_def)
  then have h: "held e" "\<not> waits cid e" by (simp_all add: held_def waits_def)
  let ?es = "upd_by en_id (en_id e) expire_row es"
  have m: "moved cid es ?es" by (rule moved_upd[OF d e(1)]) (use e in \<open>simp add: row_moved_def\<close>)
  have d': "distinct (map en_id ?es)" using d moved_ids[OF m] by simp
  have "e \<notin> set ws" using q h by (simp add: queued_def)
  then have q': "queued cid ?es ws" using queued_leave[OF q d e(1), of expire_row] by simp
  have "seat_row_ok c e" using ok e by (simp add: seat_rows_ok_def cid_def)
  then have ok': "seat_rows_ok c ?es" by (intro seats_upd[OF ok d e(1)]) (auto intro: seat_row_ok_closed)
  have count: "count_seats_taken cid ?es = count_seats_taken cid es - 1"
    using count_upd[OF d e(1), of expire_row cid] e h by simp
  have "set ds \<subseteq> {x \<in> set ?es. due cid now x}" using Cons.prems(4,5) unfolding set_upd_by[OF d e(1)] by auto
  from Cons.IH[OF d' q' ok' _ this] Cons.prems(4) count show ?case
    using moved_trans[OF m] by (simp add: Let_def)
qed simp

definition course_ok :: "course \<Rightarrow> enrollment list \<Rightarrow> bool" where
  "course_ok c es \<longleftrightarrow> seat_rows_ok c es \<and>
     (\<exists>ws. compact (co_id c) es ws \<and> (ws \<noteq> [] \<longrightarrow> count_seats_taken (co_id c) es = co_capacity c))"

text \<open>Expiry frees the lapsed seats and the head of the queue takes them, in order.\<close>

lemma expire_and_promote_ok:
  fixes su c now
  defines "cid \<equiv> co_id c" and "cap \<equiv> co_capacity c" and "t \<equiv> hold_until su now"
  assumes d: "distinct (map en_id es)" and w: "compact cid es ws" and full: "ws \<noteq> [] \<longrightarrow> count_seats_taken cid es = cap"
    and ok: "seat_rows_ok c es" and cap: "0 \<le> cap"
  shows "\<exists>n es' ws'. expire_and_promote su c now es = Inr (n, es') \<and> n = length (filter (due cid now) es) \<and>
    compact cid es' ws' \<and> map en_id ws' = drop n (map en_id ws) \<and> (ws' \<noteq> [] \<longrightarrow> count_seats_taken cid es' = cap) \<and>
    seat_rows_ok c es' \<and> moved cid es es' \<and> (\<forall>e \<in> set (take n ws). \<exists>s. seat_row s t e \<in> set es')"
proof -
  let ?ds = "sort_key (\<lambda>e. the (en_expires e)) (filter (due cid now) es)"
  let ?n = "length (filter (due cid now) es)"
  let ?es = "fold (\<lambda>e. upd_by en_id (en_id e) expire_row) ?ds es"
  have dd: "distinct ?ds" using d by (simp add: distinct_map)
  have q: "queued cid es ws" by (rule compact_queued[OF w])
  have bound: "count_seats_taken cid es \<le> cap"
    using taken_bound[OF ok] cap d by (simp add: cid_def cap_def distinct_map)
  show ?thesis
  proof (cases "?n = 0")
    case True
    then have "filter (due (co_id c) now) es = []" by (simp add: cid_def)
    then have "expire_and_promote su c now es = Inr (0, es)" by (simp add: expire_and_promote_def)
    then show ?thesis using True w full ok by (intro exI[of _ 0] exI[of _ es] exI[of _ ws]) simp
  next
    case False
    have x: "queued cid ?es ws" "seat_rows_ok c ?es" "moved cid es ?es" "count_seats_taken cid ?es = count_seats_taken cid es - int ?n"
      using expire_rows_ok[of es c ws ?ds now] d q ok dd unfolding cid_def Let_def by (simp_all add: subset_iff)
    have d': "distinct (map en_id ?es)" using d moved_ids[OF x(3)] by simp
    obtain es' ws' where p: "promote_waitlisters su c now ?n ?es = Inr es'" "compact cid es' ws'" "map en_id ws' = drop ?n (map en_id ws)"
        "seat_rows_ok c es'" "moved cid ?es es'" "count_seats_taken cid es' = count_seats_taken cid ?es + int (min ?n (length ws))"
        "\<forall>e \<in> set (take ?n ws). \<exists>s. seat_row s t e \<in> set es'"
      using promote_waitlisters_ok[of ?es c ws ?n su now, folded cid_def cap_def t_def, OF d' x(1,2)] x(4) bound False by auto
    have run: "expire_and_promote su c now es = Inr (?n, es')"
    proof -
      have "length ?ds \<noteq> 0" using False by simp
      then have "?ds \<noteq> []" by blast
      then show ?thesis using p(1) unfolding expire_and_promote_def Let_def cid_def by simp
    qed
    have "count_seats_taken cid es' = cap" if "ws' \<noteq> []"
    proof -
      have "length ws' = length ws - ?n" using arg_cong[OF p(3), of length] by simp
      with that have "?n < length ws" by (cases ws') auto
      moreover have "count_seats_taken cid es = cap" using full that p(3) by auto
      ultimately show ?thesis using p(6) x(4) by simp
    qed
    then show ?thesis using run p moved_trans[OF x(3) p(5)]
      by (intro exI[of _ ?n] exI[of _ es'] exI[of _ ws']) simp
  qed
qed

end
