(* ===== verification/Learn_Seating.thy ===== *)
theory Learn_Seating
  imports Learn_Promotion
begin

text \<open>
  Every seat operation keeps a course in order: sign-up, confirmation, cancellation and expiry.
\<close>

section \<open>Sign-up\<close>

lemma course_ok_cong:
  assumes "in_course (co_id c) es' = in_course (co_id c) es"
  shows "course_ok c es' \<longleftrightarrow> course_ok c es"
proof -
  have s: "{e \<in> set es. en_course e = co_id c \<and> P e} = {e \<in> set (in_course (co_id c) es). P e}" for P es
    by (auto simp: in_course_def)
  have b: "(\<forall>e \<in> set es. en_course e = co_id c \<longrightarrow> P e) \<longleftrightarrow> (\<forall>e \<in> set (in_course (co_id c) es). P e)" for P es
    by (auto simp: in_course_def)
  show ?thesis unfolding course_ok_def seat_rows_ok_def compact_def waits_def count_seats_taken_def s b assms by (rule refl)
qed

lemma next_position:
  assumes "compact cid es ws"
  shows "next_waitlist_position cid es = int (length ws) + 1"
proof -
  let ?ps = "List.map_filter en_position (filter (waits cid) es)"
  have "set ?ps = {p. Some p \<in> en_position ` set ws}"
  proof -
    have "set ?ps = {p. \<exists>e \<in> {e \<in> set es. waits cid e}. en_position e = Some p}"
      by (force simp: List.map_filter_def)
    also have "\<dots> = {p. \<exists>e \<in> set ws. en_position e = Some p}" using assms by (simp add: compact_def)
    also have "\<dots> = {p. Some p \<in> en_position ` set ws}" unfolding image_iff by (rule Collect_cong) (metis)
    finally show ?thesis .
  qed
  also have "en_position ` set ws = Some ` {1..int (length ws)}"
  proof -
    have "map en_position ws = map Some [1..int (length ws)]" using assms by (simp add: compact_def)
    from arg_cong[OF this, of set] show ?thesis by simp
  qed
  finally have ps: "set ?ps = {1..int (length ws)}" by auto
  show ?thesis
  proof (cases ?ps)
    case Nil
    then have "{1..int (length ws)} = {}" using ps by simp
    then have "ws = []" by (cases ws) auto
    then show ?thesis using Nil by (simp add: next_waitlist_position_def)
  next
    case (Cons p rest)
    then have "p \<in> {1..int (length ws)}" unfolding ps[symmetric] by simp
    then have "1 \<le> int (length ws)" by simp
    moreover have "fold max rest p = Max {1..int (length ws)}"
      using Max.set_eq_fold[of p rest] ps by (simp add: Cons)
    ultimately have "fold max rest p = int (length ws)" by (simp add: Max_eq_iff)
    then show ?thesis by (simp add: next_waitlist_position_def Cons)
  qed
qed

text \<open>What a sign-up writes: a seat nobody holds, or the last position of a full course.\<close>

lemma signed_row_ok:
  assumes w: "compact (co_id c) es ws" and r: "signed_row su now c es e = Inr e'"
    and e: "en_course e = co_id c" "en_version e = co_version c"
  shows "en_id e' = en_id e" "en_course e' = co_id c" "en_learner e' = en_learner e" "en_version e' = co_version c" "seat_row_ok c e'"
    "en_status e' \<noteq> Confirmed"
    "(held e' \<and> \<not> waits (co_id c) e' \<and> count_seats_taken (co_id c) es < co_capacity c \<and>
       (\<forall>x \<in> set es. en_course x = co_id c \<and> held x \<longrightarrow> en_seat x \<noteq> en_seat e')) \<or>
     (\<not> held e' \<and> waits (co_id c) e' \<and> co_capacity c \<le> count_seats_taken (co_id c) es \<and> en_position e' = Some (int (length ws) + 1))"
proof -
  have "(\<exists>n. free_seat_number c es = Inr n \<and> e' = (seat_row n (hold_until su now) e)\<lparr>en_confirmed_at := None, en_cancelled_at := None\<rparr> \<and>
       count_seats_taken (co_id c) es < co_capacity c) \<or>
     (e' = e\<lparr>en_status := Waitlisted, en_seat := None, en_expires := None,
        en_position := Some (int (length ws) + 1), en_confirmed_at := None, en_cancelled_at := None\<rparr> \<and>
       co_capacity c \<le> count_seats_taken (co_id c) es)"
    using r unfolding signed_row_def by (auto simp: next_position[OF w] bindR_Inr_iff split: if_splits)
  then consider (seat) n where "free_seat_number c es = Inr n" "count_seats_taken (co_id c) es < co_capacity c"
      "e' = (seat_row n (hold_until su now) e)\<lparr>en_confirmed_at := None, en_cancelled_at := None\<rparr>"
    | (wait) "co_capacity c \<le> count_seats_taken (co_id c) es"
      "e' = e\<lparr>en_status := Waitlisted, en_seat := None, en_expires := None,
        en_position := Some (int (length ws) + 1), en_confirmed_at := None, en_cancelled_at := None\<rparr>" by blast
  then have "en_id e' = en_id e \<and> en_course e' = co_id c \<and> en_learner e' = en_learner e \<and> en_version e' = co_version c \<and>
    seat_row_ok c e' \<and> en_status e' \<noteq> Confirmed \<and>
    ((held e' \<and> \<not> waits (co_id c) e' \<and> count_seats_taken (co_id c) es < co_capacity c \<and>
       (\<forall>x \<in> set es. en_course x = co_id c \<and> held x \<longrightarrow> en_seat x \<noteq> en_seat e')) \<or>
     (\<not> held e' \<and> waits (co_id c) e' \<and> co_capacity c \<le> count_seats_taken (co_id c) es \<and> en_position e' = Some (int (length ws) + 1)))"
  proof cases
    case seat
    from free_seat_found[OF seat(2)] seat(1) have "1 \<le> n" "n \<le> co_capacity c"
      "\<forall>x \<in> set es. en_course x = co_id c \<and> held x \<longrightarrow> en_seat x \<noteq> Some n" by auto
    then show ?thesis using e seat(2) unfolding seat(3)
      by (simp add: seat_row_ok_def held_def waits_def seat_row_def)
  next
    case wait
    then show ?thesis using e by (simp add: seat_row_ok_def held_def waits_def)
  qed
  then show "en_id e' = en_id e" "en_course e' = co_id c" "en_learner e' = en_learner e" "en_version e' = co_version c" "seat_row_ok c e'"
    "en_status e' \<noteq> Confirmed"
    "(held e' \<and> \<not> waits (co_id c) e' \<and> count_seats_taken (co_id c) es < co_capacity c \<and>
       (\<forall>x \<in> set es. en_course x = co_id c \<and> held x \<longrightarrow> en_seat x \<noteq> en_seat e')) \<or>
     (\<not> held e' \<and> waits (co_id c) e' \<and> co_capacity c \<le> count_seats_taken (co_id c) es \<and> en_position e' = Some (int (length ws) + 1))"
    by blast+
qed

lemma sorted_positions:
  assumes "compact cid es ws" "w \<in> set ws"
  shows "position w < int (length ws) + 1"
proof -
  have m: "map en_position ws = map Some [1..int (length ws)]" using assms(1) by (simp add: compact_def)
  have "en_position w \<in> Some ` {1..int (length ws)}" using arg_cong[OF m, of set] assms(2) by auto
  then show ?thesis by (auto simp: position_def)
qed

lemma compact_join:
  assumes w: "compact cid es ws" and e: "waits cid e" "en_position e = Some (int (length ws) + 1)"
    and s: "{x \<in> set es'. waits cid x} = insert e {x \<in> set es. waits cid x}"
  shows "compact cid es' (ws @ [e])"
  using assms by (simp add: compact_def) (simp add: upto_rec2)

text \<open>The row may be an old one that held and awaited nothing, or a new one.\<close>

lemma sign_up_keeps_course:
  assumes w: "compact (co_id c) es ws" "ws \<noteq> [] \<longrightarrow> count_seats_taken (co_id c) es = co_capacity c" "seat_rows_ok c es"
    and bound: "count_seats_taken (co_id c) es \<le> co_capacity c"
    and r: "signed_row su now c es e = Inr e'" and e: "en_course e = co_id c" "en_version e = co_version c"
    and es': "(es' = upd_by en_id (en_id e) (\<lambda>_. e') es \<and> distinct (map en_id es) \<and> e \<in> set es \<and> \<not> held e \<and> \<not> waits (co_id c) e) \<or>
      es' = es @ [e']"
  shows "course_ok c es'"
proof -
  note so = signed_row_ok[OF w(1) r e]
  have q: "{x \<in> set es'. waits (co_id c) x} = (if waits (co_id c) e' then insert e' else id) {x \<in> set es. waits (co_id c) x}"
    using es' by (auto simp: set_upd_by)
  have count: "count_seats_taken (co_id c) es' = count_seats_taken (co_id c) es + of_bool (held e')"
    using es' so(2) e(1) by (auto simp: count_upd count_append)
  have rows: "seat_rows_ok c es'"
    using es'
  proof (elim disjE conjE)
    assume u: "es' = upd_by en_id (en_id e) (\<lambda>_. e') es" "distinct (map en_id es)" "e \<in> set es"
    show ?thesis unfolding u(1) by (rule seats_upd[OF w(3) u(2,3)]) (use so(5,7) in auto)
  next
    assume u: "es' = es @ [e']"
    show ?thesis unfolding u by (rule seats_append[OF w(3)]) (use so(5,7) in auto)
  qed
  from so(7) show ?thesis
  proof (elim disjE conjE)
    assume h: "held e'" "\<not> waits (co_id c) e'" "count_seats_taken (co_id c) es < co_capacity c"
    then have "ws = []" using w(2) by auto
    then have "compact (co_id c) es' []" using w(1) q h(2) by (simp add: compact_def)
    then show ?thesis using rows by (auto simp: course_ok_def)
  next
    assume h: "\<not> held e'" "waits (co_id c) e'" "co_capacity c \<le> count_seats_taken (co_id c) es"
      "en_position e' = Some (int (length ws) + 1)"
    have "compact (co_id c) es' (ws @ [e'])" by (rule compact_join[OF w(1) h(2,4)]) (use q h(2) in simp)
    moreover have "count_seats_taken (co_id c) es' = co_capacity c" using count h(1,3) bound by simp
    ultimately show ?thesis using rows by (auto simp: course_ok_def)
  qed
qed

section \<open>Confirmation and cancellation\<close>

lemma course_ok_frame_upd:
  assumes ok: "course_ok c es" and d: "distinct (map en_id es)" "e \<in> set es" and f: "en_course (f e) = en_course e"
    "held (f e) = held e" "en_seat (f e) = en_seat e" "\<not> waits (co_id c) e" "\<not> waits (co_id c) (f e)"
    and row: "en_course e = co_id c \<Longrightarrow> seat_row_ok c (f e)"
  shows "course_ok c (upd_by en_id (en_id e) f es)"
proof -
  have rows: "seat_rows_ok c es" using ok by (simp add: course_ok_def)
  then have inj: "inj_on en_seat {x \<in> set es. en_course x = co_id c \<and> held x}" by (simp add: seat_rows_ok_def)
  have "seat_rows_ok c (upd_by en_id (en_id e) f es)"
  proof (rule seats_upd[OF rows d])
    fix x assume x: "x \<in> set es" "x \<noteq> e" "en_course x = co_id c" "held x" "held (f e)" "en_course (f e) = co_id c"
    then show "en_seat x \<noteq> en_seat (f e)" using inj_onD[OF inj, of x e] d(2) f(1-3) by auto
  qed (use row f in auto)
  moreover have "{x \<in> set (upd_by en_id (en_id e) f es). waits (co_id c) x} = {x \<in> set es. waits (co_id c) x}"
    using f by (auto simp: set_upd_by[OF d])
  moreover have "count_seats_taken (co_id c) (upd_by en_id (en_id e) f es) = count_seats_taken (co_id c) es"
    using count_upd[OF d, of f "co_id c"] f by simp
  ultimately show ?thesis using ok by (simp add: course_ok_def compact_def)
qed

lemma cancel_row_simps [simp]:
  "en_id (cancel_row now e) = en_id e" "en_course (cancel_row now e) = en_course e" "en_version (cancel_row now e) = en_version e"
  "en_learner (cancel_row now e) = en_learner e" "en_status (cancel_row now e) = Cancelled" "\<not> held (cancel_row now e)"
  "\<not> waits cid (cancel_row now e)"
  by (simp_all add: cancel_row_def held_def waits_def)

lemma cancel_keeps_course:
  assumes ok: "course_ok c es" and d: "distinct (map en_id es)" "e \<in> set es" and cap: "0 \<le> co_capacity c"
    and e: "en_course e = co_id c"
  shows "\<exists>es'. (if held e then promote_waitlisters su c now 1 (upd_by en_id (en_id e) (cancel_row now) es)
                 else Inr (compact_waitlist (co_id c) (upd_by en_id (en_id e) (cancel_row now) es))) = Inr es' \<and>
    course_ok c es' \<and> moved (co_id c) (upd_by en_id (en_id e) (cancel_row now) es) es'"
proof -
  let ?es = "upd_by en_id (en_id e) (cancel_row now) es" and ?cid = "co_id c"
  obtain ws where w: "compact ?cid es ws" "ws \<noteq> [] \<Longrightarrow> count_seats_taken ?cid es = co_capacity c" and rows: "seat_rows_ok c es"
    using ok by (auto simp: course_ok_def)
  have q: "queued ?cid ?es (removeAll e ws)" by (rule queued_leave[OF compact_queued[OF w(1)] d]) simp
  have row: "seat_row_ok c e" using rows d(2) e by (simp add: seat_rows_ok_def)
  have rows': "seat_rows_ok c ?es" by (rule seats_upd[OF rows d]) (simp_all add: seat_row_ok_closed(2)[OF row])
  have d': "distinct (map en_id ?es)" using d(1) by (simp add: row_update.keys_upd[OF row_update.intro])
  have count: "count_seats_taken ?cid ?es = count_seats_taken ?cid es - of_bool (held e)"
    using count_upd[OF d, of "cancel_row now" ?cid] e by simp
  have bound: "count_seats_taken ?cid es \<le> co_capacity c" by (rule taken_bound[OF rows cap]) (use d in \<open>simp add: distinct_map\<close>)
  show ?thesis
  proof (cases "held e")
    case True
    have "e \<notin> set ws" using w(1) held_not_waits[OF True] by (simp add: compact_def)
    then have q': "queued ?cid ?es ws" using q by simp
    have room: "count_seats_taken ?cid ?es + int 1 \<le> co_capacity c" using count bound True by simp
    from promote_waitlisters_ok[OF d' q' rows' room, of su now] obtain es' ws' where
      p: "promote_waitlisters su c now 1 ?es = Inr es'" "compact ?cid es' ws'" "map en_id ws' = drop 1 (map en_id ws)"
        "seat_rows_ok c es'" "moved ?cid ?es es'" "count_seats_taken ?cid es' = count_seats_taken ?cid ?es + int (min 1 (length ws))" by auto
    have "count_seats_taken ?cid es' = co_capacity c" if "ws' \<noteq> []"
    proof -
      have "ws \<noteq> []" using that p(3) by auto
      then show ?thesis using w(2) p(6) count True by (cases ws) (simp_all add: min_def)
    qed
    then show ?thesis using p True by (auto simp: course_ok_def)
  next
    case False
    note cw = compact_waitlist_ok[OF d' q]
    have "count_seats_taken ?cid (compact_waitlist ?cid ?es) = co_capacity c" if "renumbered (removeAll e ws) \<noteq> []"
    proof -
      have "ws \<noteq> []" using that by (auto simp: renumbered_def)
      then show ?thesis using w(2) count False by (simp add: count_renumbered)
    qed
    then have "course_ok c (compact_waitlist ?cid ?es)"
      using cw(1) seats_renumbered[OF rows' d' q] unfolding course_ok_def by blast
    then show ?thesis using cw(2) False by simp
  qed
qed

end
