(* ===== verification/Learn_Invariants.thy ===== *)
theory Learn_Invariants
  imports Learn_Seating
begin

text \<open>
  The invariant of the training service: every course is in order, and a valid certificate belongs
  to a confirmed enrollment that has passed all steps of its version. Every request keeps it.
\<close>

section \<open>The invariant\<close>

definition seats_inv :: "learn \<Rightarrow> bool" where
  "seats_inv db \<longleftrightarrow>
     (\<forall>e \<in> set (enrollments db). en_id e < next_id db \<and> en_course e \<in> co_id ` set (courses db)) \<and>
     (\<forall>c \<in> set (courses db). co_id c < next_id db \<and> co_version c < next_id db \<and> course_ok c (enrollments db)) \<and>
     (\<forall>v \<in> set (versions db). pv_id v < next_id db)"

definition cert_backed :: "learn \<Rightarrow> certificate \<Rightarrow> enrollment \<Rightarrow> bool" where
  "cert_backed db ce e \<longleftrightarrow> en_id e = ce_enrollment ce \<and> en_version e = ce_version ce \<and>
     (ce_status ce = Valid \<longrightarrow> en_status e = Confirmed \<and> complete e (steps_of (en_version e) db) db)"

definition cert_inv :: "learn \<Rightarrow> bool" where
  "cert_inv db \<longleftrightarrow> (\<forall>ce \<in> set (certificates db). \<exists>e \<in> set (enrollments db). cert_backed db ce e)"

definition learn_inv :: "learn \<Rightarrow> bool" where
  "learn_inv db \<longleftrightarrow> learn_unique db \<and> learn_checks db \<and> seats_inv db \<and> cert_inv db"

lemma learn_uniqueD:
  assumes "learn_unique db"
  shows "distinct (map co_id (courses db))" "distinct (map en_id (enrollments db))" "distinct (map co_version (courses db))"
    "distinct (map ce_enrollment (certificates db))" "distinct (map (\<lambda>e. (en_learner e, en_version e)) (enrollments db))"
    "distinct (map (\<lambda>r. (sr_enrollment r, sr_step r)) (results db))"
  using assms unfolding learn_unique_def by blast+

lemma capacity_pos: "learn_checks db \<Longrightarrow> c \<in> set (courses db) \<Longrightarrow> 0 < co_capacity c"
  by (simp add: learn_checks_def list_all_iff)

section \<open>Rows that certificates rest on\<close>

definition row_kept :: "enrollment \<Rightarrow> enrollment \<Rightarrow> bool" where
  "row_kept e e' \<longleftrightarrow> e' = e \<or> (en_id e' = en_id e \<and> en_version e' = en_version e \<and> en_status e \<noteq> Confirmed)"

definition kept :: "enrollment list \<Rightarrow> enrollment list \<Rightarrow> bool" where
  "kept es es' \<longleftrightarrow> (\<forall>e \<in> set es. \<exists>e' \<in> set es'. row_kept e e')"

lemma kept_refl [simp]: "kept es es"
  by (auto simp: kept_def row_kept_def)

lemma kept_trans:
  assumes "kept a b" "kept b c"
  shows "kept a c"
  unfolding kept_def
proof
  fix e assume "e \<in> set a"
  with assms(1) obtain e' where e': "e' \<in> set b" "row_kept e e'" by (auto simp: kept_def)
  with assms(2) obtain e'' where "e'' \<in> set c" "row_kept e' e''" by (auto simp: kept_def)
  moreover from this(2) e'(2) have "row_kept e e''" by (auto simp: row_kept_def)
  ultimately show "\<exists>e' \<in> set c. row_kept e e'" by blast
qed

lemma moved_kept: "moved cid es es' \<Longrightarrow> kept es es'"
  unfolding moved_def by (induction rule: list_all2_induct) (auto simp: kept_def row_moved_def row_kept_def)

lemma kept_upd: "(\<And>e. e \<in> set es \<Longrightarrow> key e = k \<Longrightarrow> row_kept e (f e)) \<Longrightarrow> kept es (upd_by key k f es)"
proof -
  assume a: "\<And>e. e \<in> set es \<Longrightarrow> key e = k \<Longrightarrow> row_kept e (f e)"
  have "(if key e = k then f e else e) \<in> set (upd_by key k f es) \<and> row_kept e (if key e = k then f e else e)" if "e \<in> set es" for e
    using that a by (simp add: upd_by_def row_kept_def)
  then show ?thesis unfolding kept_def by blast
qed

lemma kept_append [simp]: "kept es (es @ xs)"
  by (auto simp: kept_def row_kept_def)

lemma cert_backed_kept:
  assumes b: "cert_backed db ce e" and k: "row_kept e e'" and r: "results db' = results db"
    and s: "steps_of (en_version e) db' = steps_of (en_version e) db"
  shows "cert_backed db' ce e'"
proof (cases "e' = e")
  case True
  have "complete e (steps_of (en_version e) db') db' = complete e (steps_of (en_version e) db) db"
    by (simp add: s complete_def r)
  with b show ?thesis unfolding True cert_backed_def by metis
next
  case False
  then show ?thesis using b k by (simp add: cert_backed_def row_kept_def)
qed

lemma cert_inv_kept:
  assumes inv: "cert_inv db" and k: "kept (enrollments db) (enrollments db')"
    and r: "results db' = results db" "certificates db' = certificates db"
    and s: "\<And>e. e \<in> set (enrollments db) \<Longrightarrow> steps_of (en_version e) db' = steps_of (en_version e) db"
  shows "cert_inv db'"
  unfolding cert_inv_def r
proof
  fix ce assume "ce \<in> set (certificates db)"
  with inv obtain e where e: "e \<in> set (enrollments db)" "cert_backed db ce e" by (auto simp: cert_inv_def)
  from k e(1) obtain e' where e': "e' \<in> set (enrollments db')" "row_kept e e'" by (auto simp: kept_def)
  from cert_backed_kept[OF e(2) e'(2) r(1) s[OF e(1)]] e'(1)
  show "\<exists>e \<in> set (enrollments db'). cert_backed db' ce e" by blast
qed

section \<open>Requests that leave seats and results alone\<close>

lemma inv_frame:
  assumes inv: "learn_inv db" and com: "learn_unique db'" "learn_checks db'"
    and same: "enrollments db' = enrollments db" "courses db' = courses db" "results db' = results db" "certificates db' = certificates db"
    and ids: "next_id db \<le> next_id db'" "\<And>v. v \<in> set (versions db') \<Longrightarrow> pv_id v < next_id db'"
    and s: "\<And>v. v < next_id db \<Longrightarrow> steps_of v db' = steps_of v db"
  shows "learn_inv db'"
proof -
  have si: "seats_inv db" and ci: "cert_inv db" using inv by (simp_all add: learn_inv_def)
  have "seats_inv db'" using si ids unfolding seats_inv_def same by fastforce
  moreover have "en_version e < next_id db" if "e \<in> set (enrollments db)" for e
  proof -
    from si that obtain c where "c \<in> set (courses db)" "en_course e = co_id c" by (auto simp: seats_inv_def)
    with si that show ?thesis by (auto simp: seats_inv_def course_ok_def seat_rows_ok_def seat_row_ok_def)
  qed
  then have "cert_inv db'" using cert_inv_kept[OF ci, of db'] s same by simp
  ultimately show ?thesis using com by (simp add: learn_inv_def)
qed

lemma inv_versions: "learn_inv db \<Longrightarrow> v \<in> set (versions db) \<Longrightarrow> pv_id v < next_id db"
  by (simp add: learn_inv_def seats_inv_def)

lemma learn_commit_next: "learn_commit db = Inr db' \<Longrightarrow> learn_unique db' \<and> learn_checks db' \<and> db' = db"
  by auto

lemma create_user_inv: "learn_inv db \<Longrightarrow> create_user raw name role db = Inr db' \<Longrightarrow> learn_inv db'"
  by (auto simp: create_user_def bindR_Inr_iff steps_of_def split: if_splits intro!: inv_frame[of db] dest: inv_versions)

lemma create_program_inv: "learn_inv db \<Longrightarrow> create_program m title description db = Inr db' \<Longrightarrow> learn_inv db'"
  by (auto simp: create_program_def steps_of_def intro!: inv_frame[of db] dest: inv_versions)

lemma create_version_inv:
  assumes inv: "learn_inv db" and r: "create_version su pid ss db = Inr db'"
  shows "learn_inv db'"
proof -
  from r obtain v where com: "learn_unique db'" "learn_checks db'"
    and db': "db' = db\<lparr>versions := versions db @ [v], steps := steps db @ new_steps (next_id db) (next_id db) ss,
      dependencies := dependencies db @ new_dependencies (next_id db) (next_id db) ss, next_id := next_id db + 1 + int (length ss)\<rparr>"
    and v: "pv_id v = next_id db"
    by (auto simp: create_version_def bindR_Inr_iff Let_def)
  show ?thesis
  proof (rule inv_frame[OF inv com])
    fix w assume "w \<in> set (versions db')"
    then show "pv_id w < next_id db'" using inv_versions[OF inv, of w] v by (auto simp: db')
  next
    fix w assume "w < next_id db"
    then show "steps_of w db' = steps_of w db" by (auto simp: db' steps_of_def new_steps_def filter_empty_conv)
  qed (simp_all add: db')
qed

lemma publish_version_inv:
  assumes inv: "learn_inv db" and r: "publish_version now vid db = Inr db'"
  shows "learn_inv db'"
proof -
  from r obtain pid where com: "learn_unique db'" "learn_checks db'"
    and db': "db' = db\<lparr>versions := upd_by pv_id vid (\<lambda>v. v\<lparr>pv_status := Published, pv_published_at := Some now\<rparr>) (versions db),
            programs := upd_by pr_id pid (\<lambda>p. p\<lparr>pr_current := Some vid\<rparr>) (programs db)\<rparr>"
    by (auto simp: publish_version_def bindR_Inr_iff split: if_splits)
  show ?thesis
  proof (rule inv_frame[OF inv com])
    fix w assume "w \<in> set (versions db')"
    then show "pv_id w < next_id db'" using inv_versions[OF inv] by (auto simp: db' upd_by_def split: if_splits)
  qed (simp_all add: db' steps_of_def)
qed

lemma rollback_pointer_inv: "learn_inv db \<Longrightarrow> rollback_pointer pid vid db = Inr db' \<Longrightarrow> learn_inv db'"
  by (auto simp: rollback_pointer_def bindR_Inr_iff steps_of_def split: if_splits intro!: inv_frame[of db] dest: inv_versions)

end
