(* ===== verification/Learn_Requests.thy ===== *)
theory Learn_Requests
  imports Learn_Invariants
begin

text \<open>
  The requests that change seats, results and certificates keep the invariant.
\<close>

section \<open>Seats\<close>

definition seated :: "course list \<Rightarrow> int \<Rightarrow> enrollment list \<Rightarrow> bool" where
  "seated cs n es \<longleftrightarrow> distinct (map en_id es) \<and> (\<forall>e \<in> set es. en_id e < n \<and> en_course e \<in> co_id ` set cs) \<and>
     (\<forall>c \<in> set cs. course_ok c es)"

lemma seated_change:
  assumes s: "seated cs n es" and c: "c \<in> set cs" "distinct (map co_id cs)"
    and others: "\<And>cid. cid \<noteq> co_id c \<Longrightarrow> in_course cid es' = in_course cid es" and ok: "course_ok c es'"
    and rows: "distinct (map en_id es')" "\<And>e. e \<in> set es' \<Longrightarrow> en_id e < n' \<and> en_course e \<in> co_id ` set cs"
  shows "seated cs n' es'"
proof -
  have "course_ok c' es'" if c': "c' \<in> set cs" for c'
  proof (cases "c' = c")
    case False
    then have "co_id c' \<noteq> co_id c" using c c' by (auto simp: distinct_map inj_on_def)
    then have "in_course (co_id c') es' = in_course (co_id c') es" by (rule others)
    then have "course_ok c' es' \<longleftrightarrow> course_ok c' es" by (rule course_ok_cong)
    then show ?thesis using s c' by (simp add: seated_def)
  qed (use ok in simp)
  with rows show ?thesis by (simp add: seated_def)
qed

lemma seated_moved:
  assumes s: "seated cs n es" and c: "c \<in> set cs" "distinct (map co_id cs)" and m: "moved (co_id c) es es'" and ok: "course_ok c es'"
  shows "seated cs n es'"
proof (rule seated_change[OF s c _ ok])
  have ids: "map en_id es' = map en_id es" by (rule moved_ids[OF m])
  have "map en_course es' = map en_course es" by (rule moved_map[OF m]) (auto simp: row_moved_def)
  then have "en_id ` set es' = en_id ` set es" "en_course ` set es' = en_course ` set es"
    using ids by (metis set_map)+
  then show "\<And>e. e \<in> set es' \<Longrightarrow> en_id e < n \<and> en_course e \<in> co_id ` set cs"
    using s unfolding seated_def by (metis (no_types, lifting) image_iff)
  show "distinct (map en_id es')" using s by (simp add: ids seated_def)
qed (rule moved_other_course[OF m])

lemma expire_seated:
  assumes s: "seated cs n es" and c: "c \<in> set cs" "distinct (map co_id cs)" "0 < co_capacity c"
  shows "\<exists>m es'. expire_and_promote su c now es = Inr (m, es') \<and> seated cs n es' \<and> moved (co_id c) es es'"
proof -
  have d: "distinct (map en_id es)" and ok: "course_ok c es" using s c by (auto simp: seated_def)
  from ok obtain ws where w: "compact (co_id c) es ws" "ws \<noteq> [] \<longrightarrow> count_seats_taken (co_id c) es = co_capacity c" "seat_rows_ok c es"
    by (auto simp: course_ok_def)
  from expire_and_promote_ok[OF d w, of su now] c(3) obtain m es' ws' where
    r: "expire_and_promote su c now es = Inr (m, es')" "moved (co_id c) es es'"
      "compact (co_id c) es' ws'" "ws' \<noteq> [] \<longrightarrow> count_seats_taken (co_id c) es' = co_capacity c" "seat_rows_ok c es'" by auto
  then have "course_ok c es'" by (auto simp: course_ok_def)
  then show ?thesis using r seated_moved[OF s c(1,2)] by blast
qed

text \<open>The invariant from its parts.\<close>

lemma inv_seated: "learn_inv db \<Longrightarrow> seated (courses db) (next_id db) (enrollments db)"
  by (simp add: learn_inv_def seats_inv_def seated_def learn_uniqueD(2))

lemma inv_courses: "learn_inv db \<Longrightarrow> distinct (map co_id (courses db))"
  by (simp add: learn_inv_def learn_uniqueD(1))

lemma inv_capacity: "learn_inv db \<Longrightarrow> c \<in> set (courses db) \<Longrightarrow> 0 < co_capacity c"
  using capacity_pos by (auto simp: learn_inv_def)

lemma seats_request_inv:
  assumes inv: "learn_inv db" and com: "learn_unique db'" "learn_checks db'"
    and s: "seated (courses db) (next_id db') (enrollments db')" and n: "next_id db \<le> next_id db'"
    and same: "courses db' = courses db" "versions db' = versions db" and cert: "cert_inv db'"
  shows "learn_inv db'"
proof -
  have "seats_inv db'" using inv s n unfolding learn_inv_def seats_inv_def seated_def same by fastforce
  with com cert show ?thesis by (simp add: learn_inv_def)
qed

lemma inv_cert: "learn_inv db \<Longrightarrow> cert_inv db"
  by (simp add: learn_inv_def)

lemma lock_courseD: "lock_course cid db = Inr c \<Longrightarrow> c \<in> set (courses db) \<and> co_id c = cid"
  by (auto simp: lock_course_def dest: row_by_SomeD)

lemma seats_only_inv:
  assumes inv: "learn_inv db" and com: "learn_commit (db\<lparr>enrollments := es', next_id := n\<rparr>) = Inr db'"
    and s: "seated (courses db) n es'" and n: "next_id db \<le> n" and k: "kept (enrollments db) es'"
  shows "learn_inv db'"
proof -
  have db': "db' = db\<lparr>enrollments := es', next_id := n\<rparr>" "learn_unique db'" "learn_checks db'" using com by auto
  have "cert_inv db'" using cert_inv_kept[OF inv_cert[OF inv], of db'] k by (simp add: db'(1) steps_of_def)
  then show ?thesis by (intro seats_request_inv[OF inv db'(2,3)]) (simp_all add: db'(1) s n)
qed

lemma seats_commit_inv:
  assumes "learn_inv db" "learn_commit (db\<lparr>enrollments := es'\<rparr>) = Inr db'" "seated (courses db) (next_id db) es'" "kept (enrollments db) es'"
  shows "learn_inv db'"
  using seats_only_inv[where n = "next_id db" and db = db] assms by simp

lemma create_course_inv:
  assumes inv: "learn_inv db" and r: "create_course vid capacity deadline db = Inr db'"
  shows "learn_inv db'"
proof -
  from r obtain v where v: "row_by pv_id vid (versions db) = Some v"
    and com: "learn_unique db'" "learn_checks db'"
    and db': "db' = db\<lparr>courses := courses db @ [\<lparr>co_id = next_id db, co_version = vid, co_capacity = capacity, co_deadline = deadline\<rparr>],
            next_id := next_id db + 1\<rparr>"
    by (auto simp: create_course_def bindR_Inr_iff split: if_splits)
  from row_by_SomeD[OF v] have vid: "vid < next_id db" using inv_versions[OF inv] by auto
  have si: "seats_inv db" using inv by (simp add: learn_inv_def)
  have "in_course (next_id db) (enrollments db) = []"
    using si by (fastforce simp: seats_inv_def in_course_def filter_empty_conv)
  then have "course_ok \<lparr>co_id = next_id db, co_version = vid, co_capacity = capacity, co_deadline = deadline\<rparr> (enrollments db) \<longleftrightarrow>
      course_ok \<lparr>co_id = next_id db, co_version = vid, co_capacity = capacity, co_deadline = deadline\<rparr> []"
    by (intro course_ok_cong) (simp add: in_course_def)
  also have "course_ok \<lparr>co_id = next_id db, co_version = vid, co_capacity = capacity, co_deadline = deadline\<rparr> []"
    by (auto simp: course_ok_def seat_rows_ok_def compact_def intro!: exI[of _ "[]"])
  finally have "seats_inv db'" using si vid by (fastforce simp: db' seats_inv_def)
  moreover have "cert_inv db'" using cert_inv_kept[OF inv_cert[OF inv], of db'] by (simp add: db' steps_of_def)
  ultimately show ?thesis using com by (simp add: learn_inv_def)
qed
section \<open>Sign-up\<close>

lemma expire_db:
  assumes inv: "learn_inv db" and c: "lock_course cid db = Inr c" and r: "expire_and_promote su c now (enrollments db) = Inr (m, es)"
  shows "seated (courses db) (next_id db) es" "moved cid (enrollments db) es" "c \<in> set (courses db)" "co_id c = cid"
    "kept (enrollments db) es"
proof -
  from lock_courseD[OF c] show cc: "c \<in> set (courses db)" "co_id c = cid" by simp_all
  from expire_seated[OF inv_seated[OF inv] cc(1) inv_courses[OF inv] inv_capacity[OF inv cc(1)], of su now] r
  show "seated (courses db) (next_id db) es" "moved cid (enrollments db) es" by (auto simp: cc(2))
  then show "kept (enrollments db) es" by (intro moved_kept)
qed

lemma course_parts:
  assumes s: "seated cs n es" and c: "c \<in> set cs" "0 < co_capacity c"
  shows "\<exists>ws. compact (co_id c) es ws \<and> (ws \<noteq> [] \<longrightarrow> count_seats_taken (co_id c) es = co_capacity c) \<and> seat_rows_ok c es \<and>
    count_seats_taken (co_id c) es \<le> co_capacity c"
proof -
  have ok: "course_ok c es" "distinct es" using s c by (auto simp: seated_def distinct_map)
  then have "seat_rows_ok c es" by (simp add: course_ok_def)
  from taken_bound[OF this _ ok(2)] c ok(1) show ?thesis by (auto simp: course_ok_def)
qed

lemma in_course_upd:
  assumes "distinct (map en_id es)" "e \<in> set es" "en_course e \<noteq> cid" "en_course (f e) \<noteq> cid"
  shows "in_course cid (upd_by en_id (en_id e) f es) = in_course cid es"
  using assms
proof (induction es)
  case (Cons x es)
  show ?case
  proof (cases "x = e")
    case True
    with Cons.prems have "upd_by en_id (en_id e) f es = es" by (intro upd_by_absent) auto
    with True Cons.prems show ?thesis by (simp add: in_course_def)
  next
    case False
    with Cons.prems have "en_id x \<noteq> en_id e" "e \<in> set es" by auto
    with Cons show ?thesis by (simp add: in_course_def)
  qed
qed simp

lemma seated_upd:
  assumes s: "seated cs n es" and c: "c \<in> set cs" "distinct (map co_id cs)"
    and e: "e \<in> set es" "en_course e = co_id c" "en_course (f e) = co_id c" "en_id (f e) = en_id e"
    and ok: "course_ok c (upd_by en_id (en_id e) f es)"
  shows "seated cs n (upd_by en_id (en_id e) f es)"
proof (rule seated_change[OF s c _ ok])
  have d: "distinct (map en_id es)" using s by (simp add: seated_def)
  show "in_course cid (upd_by en_id (en_id e) f es) = in_course cid es" if "cid \<noteq> co_id c" for cid
    using in_course_upd[OF d e(1)] e that by simp
  have "map en_id (upd_by en_id (en_id e) f es) = map en_id es" using e(1,4) d
    by (auto simp: upd_by_def distinct_map inj_on_def)
  then show "distinct (map en_id (upd_by en_id (en_id e) f es))" using d by simp
  show "en_id x < n \<and> en_course x \<in> co_id ` set cs" if "x \<in> set (upd_by en_id (en_id e) f es)" for x
    using that s e c(1) by (auto simp: set_upd_by[OF d e(1)] seated_def)
qed

lemma inactive_row: "\<not> active e \<Longrightarrow> \<not> held e \<and> \<not> waits cid e \<and> en_status e \<noteq> Confirmed"
  by (auto simp: active_def held_def waits_def)

lemma course_of_version:
  assumes inv: "learn_inv db" and s: "seated (courses db) n es" and e: "e \<in> set es" and c: "c \<in> set (courses db)" "en_version e = co_version c"
  shows "en_course e = co_id c"
proof -
  have "\<exists>c' \<in> set (courses db). en_course e = co_id c' \<and> course_ok c' es" using s e by (auto simp: seated_def)
  then obtain c' where c': "c' \<in> set (courses db)" "en_course e = co_id c'" "course_ok c' es" by blast
  then have "co_version c' = co_version c" using e c(2) by (auto simp: course_ok_def seat_rows_ok_def seat_row_ok_def)
  moreover have "inj_on co_version (set (courses db))" using inv learn_uniqueD(3)[of db] by (simp add: learn_inv_def distinct_map)
  ultimately show ?thesis using c' c(1) by (auto dest: inj_onD)
qed

lemma sign_up_old:
  assumes inv: "learn_inv db" and c: "lock_course cid db = Inr c" and x: "expire_and_promote su c now (enrollments db) = Inr (m, es)"
    and e: "e \<in> set es" "en_version e = co_version c" "\<not> active e" and r: "signed_row su now c es e = Inr e'"
  shows "seated (courses db) (next_id db) (upd_by en_id (en_id e) (\<lambda>_. e') es)"
    and "moved cid (enrollments db) (upd_by en_id (en_id e) (\<lambda>_. e') es)"
proof -
  note ex = expire_db[OF inv c x] and out = inactive_row[OF e(3)]
  from course_parts[OF ex(1,3) inv_capacity[OF inv ex(3)]] obtain ws where
    w: "compact (co_id c) es ws" "ws \<noteq> [] \<longrightarrow> count_seats_taken (co_id c) es = co_capacity c" "seat_rows_ok c es"
      "count_seats_taken (co_id c) es \<le> co_capacity c" by blast
  have ec: "en_course e = co_id c" by (rule course_of_version[OF inv ex(1) e(1) ex(3) e(2)])
  note so = signed_row_ok[OF w(1) r ec e(2)]
  have d: "distinct (map en_id es)" using ex(1) by (simp add: seated_def)
  have "course_ok c (upd_by en_id (en_id e) (\<lambda>_. e') es)"
    by (rule sign_up_keeps_course[OF w r ec e(2)]) (use d e(1) out in simp)
  then show "seated (courses db) (next_id db) (upd_by en_id (en_id e) (\<lambda>_. e') es)"
    by (intro seated_upd[OF ex(1,3) inv_courses[OF inv] e(1) ec]) (simp_all add: so(1,2))
  have "moved cid es (upd_by en_id (en_id e) (\<lambda>_. e') es)"
    by (rule moved_upd[OF d e(1)]) (use so(1-4,6) ec e(2) out ex(4) in \<open>simp add: row_moved_def\<close>)
  then show "moved cid (enrollments db) (upd_by en_id (en_id e) (\<lambda>_. e') es)" by (rule moved_trans[OF ex(2)])
qed

lemma sign_up_new:
  assumes inv: "learn_inv db" and c: "lock_course cid db = Inr c" and x: "expire_and_promote su c now (enrollments db) = Inr (m, es)"
    and r: "signed_row su now c es (new_enrollment (next_id db) lid c) = Inr e'"
  shows "seated (courses db) (next_id db + 1) (es @ [e'])" and "en_learner e' = lid" and "en_version e' = co_version c"
proof -
  let ?e = "new_enrollment (next_id db) lid c"
  note ex = expire_db[OF inv c x]
  from course_parts[OF ex(1,3) inv_capacity[OF inv ex(3)]] obtain ws where
    w: "compact (co_id c) es ws" "ws \<noteq> [] \<longrightarrow> count_seats_taken (co_id c) es = co_capacity c" "seat_rows_ok c es"
      "count_seats_taken (co_id c) es \<le> co_capacity c" by blast
  have e: "en_course ?e = co_id c" "en_version ?e = co_version c" "en_id ?e = next_id db" "en_learner ?e = lid"
    by (simp_all add: new_enrollment_def)
  note so = signed_row_ok[OF w(1) r e(1,2)]
  show "en_learner e' = lid" "en_version e' = co_version c" using so(3,4) e(4) by simp_all
  have fresh: "\<forall>x \<in> set es. en_id x < next_id db" using ex(1) by (simp add: seated_def)
  have ok: "course_ok c (es @ [e'])" by (rule sign_up_keeps_course[OF w r e(1,2)]) simp
  show "seated (courses db) (next_id db + 1) (es @ [e'])"
  proof (rule seated_change[OF ex(1,3) inv_courses[OF inv] _ ok])
    show "distinct (map en_id (es @ [e']))" using ex(1) fresh so(1) e(3) by (auto simp: seated_def)
    show "in_course i (es @ [e']) = in_course i es" if "i \<noteq> co_id c" for i using so(2) that by (simp add: in_course_def)
    show "en_id x < next_id db + 1 \<and> en_course x \<in> co_id ` set (courses db)" if "x \<in> set (es @ [e'])" for x
      using that ex(1,3) fresh so(1,2) e(3) by (fastforce simp: seated_def)
  qed
qed

lemma enroll_inv:
  assumes inv: "learn_inv db" and r: "enroll su now lid cid db = Inr (e', db')"
  shows "learn_inv db'"
proof -
  from r obtain c m es where c: "lock_course cid db = Inr c" and x: "expire_and_promote su c now (enrollments db) = Inr (m, es)"
    by (auto simp: enroll_def bindR_Inr_iff)
  note ex = expire_db[OF inv c x]
  let ?same = "row_by (\<lambda>e. (en_learner e, en_version e)) (lid, co_version c) es"
  consider (again) "learn_commit (db\<lparr>enrollments := es\<rparr>) = Inr db'"
    | (old) e where "?same = Some e" "\<not> active e" "signed_row su now c es e = Inr e'"
        "learn_commit (db\<lparr>enrollments := upd_by en_id (en_id e) (\<lambda>_. e') es\<rparr>) = Inr db'"
    | (new) "signed_row su now c es (new_enrollment (next_id db) lid c) = Inr e'"
        "learn_commit (db\<lparr>enrollments := es @ [e'], next_id := next_id db + 1\<rparr>) = Inr db'"
    using r by (auto simp: enroll_def c x bindR_Inr_iff simp del: learn_commit_Inr split: option.splits if_splits)
  then show ?thesis
  proof cases
    case again
    then show ?thesis by (rule seats_commit_inv[OF inv _ ex(1,5)])
  next
    case old
    from row_by_SomeD[OF old(1)] have e: "e \<in> set es" "en_version e = co_version c" by auto
    note so = sign_up_old[OF inv c x e old(2,3)]
    show ?thesis by (rule seats_commit_inv[OF inv old(4) so(1) moved_kept[OF so(2)]])
  next
    case new
    show ?thesis
      by (rule seats_only_inv[OF inv new(2) sign_up_new(1)[OF inv c x new(1)]]) (simp_all add: kept_trans[OF ex(5) kept_append])
  qed
qed

section \<open>Confirmation, cancellation, expiry\<close>

lemma get_ownedD: "get_owned_enrollment lid eid db = Inr e \<Longrightarrow> e \<in> set (enrollments db) \<and> en_id e = eid \<and> en_learner e = lid"
  by (auto simp: get_owned_enrollment_def bindR_Inr_iff split: if_splits dest: row_by_SomeD)

lemma confirm_row_simps [simp]:
  "en_id (confirm_row now e) = en_id e" "en_course (confirm_row now e) = en_course e" "en_version (confirm_row now e) = en_version e"
  "en_seat (confirm_row now e) = en_seat e" "held (confirm_row now e)" "\<not> waits cid (confirm_row now e)"
  by (simp_all add: confirm_row_def held_def waits_def)

lemma confirm_inv:
  assumes inv: "learn_inv db" and r: "confirm su now lid eid db = Inr (e', db')"
  shows "learn_inv db'"
proof -
  from r obtain e0 c m es e where o: "get_owned_enrollment lid eid db = Inr e0" and c: "lock_course (en_course e0) db = Inr c"
    and x: "expire_and_promote su c now (enrollments db) = Inr (m, es)" and e: "row_by en_id eid es = Some e"
    and out: "(en_status e = Confirmed \<and> learn_commit (db\<lparr>enrollments := es\<rparr>) = Inr db') \<or>
      (en_status e = Enrolled \<and> learn_commit (db\<lparr>enrollments := upd_by en_id eid (confirm_row now) es\<rparr>) = Inr db')"
    by (auto simp: confirm_def bindR_Inr_iff simp del: learn_commit_Inr split: if_splits)
  note ex = expire_db[OF inv c x] and get = get_ownedD[OF o]
  from row_by_SomeD[OF e] have me: "e \<in> set es" "en_id e = eid" by simp_all
  from out show ?thesis
  proof (elim disjE conjE)
    assume "learn_commit (db\<lparr>enrollments := es\<rparr>) = Inr db'"
    then show ?thesis by (rule seats_commit_inv[OF inv _ ex(1,5)])
  next
    assume st: "en_status e = Enrolled" and com: "learn_commit (db\<lparr>enrollments := upd_by en_id eid (confirm_row now) es\<rparr>) = Inr db'"
    have d: "distinct (map en_id es)" and ok: "course_ok c es" using ex(1,3) by (auto simp: seated_def)
    have "map (\<lambda>e. (en_id e, en_course e)) es = map (\<lambda>e. (en_id e, en_course e)) (enrollments db)"
      by (rule moved_map[OF ex(2)]) (auto simp: row_moved_def)
    then have "(\<lambda>e. (en_id e, en_course e)) ` set es = (\<lambda>e. (en_id e, en_course e)) ` set (enrollments db)" by (metis set_map)
    then obtain x where x: "x \<in> set (enrollments db)" "en_id x = en_id e" "en_course x = en_course e" using me(1) by force
    have inj: "inj_on en_id (set (enrollments db))" using inv_seated[OF inv] by (simp add: seated_def distinct_map)
    have "x = e0" by (rule inj_onD[OF inj]) (use x get me(2) in simp_all)
    then have ec: "en_course e = co_id c" using x(3) ex(4) by simp
    have h: "held e" "\<not> waits (co_id c) e" using st by (simp_all add: held_def waits_def)
    have "seat_row_ok c e" using ok me(1) ec by (simp add: course_ok_def seat_rows_ok_def)
    then have row: "seat_row_ok c (confirm_row now e)" using st by (auto simp: seat_row_ok_def confirm_row_def held_def)
    have "course_ok c (upd_by en_id (en_id e) (confirm_row now) es)"
      by (rule course_ok_frame_upd[OF ok d me(1)]) (simp_all add: h row)
    then have "seated (courses db) (next_id db) (upd_by en_id (en_id e) (confirm_row now) es)"
      by (intro seated_upd[OF ex(1,3) inv_courses[OF inv] me(1) ec]) (simp_all add: ec)
    moreover have "kept es (upd_by en_id (en_id e) (confirm_row now) es)"
    proof (rule kept_upd)
      fix y assume "y \<in> set es" "en_id y = en_id e"
      then have "y = e" using d me(1) by (auto simp: distinct_map dest: inj_onD)
      then show "row_kept y (confirm_row now y)" using st by (simp add: row_kept_def)
    qed
    ultimately show ?thesis using com me(2) by (intro seats_commit_inv[OF inv]) (auto intro: kept_trans[OF ex(5)])
  qed
qed

lemma revoke_valid_set:
  assumes "distinct (map ce_enrollment ces)" "ce \<in> set (revoke_valid eid now reason ces)"
  shows "\<exists>ce0 \<in> set ces. ce_enrollment ce = ce_enrollment ce0 \<and> ce_version ce = ce_version ce0 \<and>
    (ce = ce0 \<or> ce_status ce = Revoked) \<and> (ce_enrollment ce = eid \<longrightarrow> ce_status ce = Revoked)"
proof (cases "find (\<lambda>ce. ce_enrollment ce = eid \<and> ce_status ce = Valid) ces")
  case None
  then have "\<forall>x \<in> set ces. ce_enrollment x = eid \<longrightarrow> ce_status x \<noteq> Valid" by (auto simp: find_None_iff)
  then show ?thesis using assms(2) None certificate_status.exhaust[of "ce_status ce"] by (auto simp: revoke_valid_def)
next
  case (Some x)
  then have x: "x \<in> set ces" "ce_enrollment x = eid" by (auto simp: find_Some_iff)
  from assms(2) Some obtain y where y: "y \<in> set ces" "ce = (if ce_id y = ce_id x then revoke_row now reason y else y)"
    by (auto simp: revoke_valid_def upd_by_def)
  have "ce_enrollment y = eid \<Longrightarrow> y = x" using x y(1) assms(1) by (auto simp: distinct_map dest: inj_onD)
  then show ?thesis using y by (intro bexI[of _ y]) (auto simp: revoke_row_def)
qed

lemma cancel_certs:
  assumes ci: "cert_inv db" and du: "distinct (map ce_enrollment (certificates db))"
    and k: "kept (upd_by en_id eid (cancel_row now) (enrollments db)) (enrollments db')"
    and r: "results db' = results db" "steps db' = steps db"
    and ces: "certificates db' = revoke_valid eid now reason (certificates db)"
  shows "cert_inv db'"
  unfolding cert_inv_def
proof
  fix ce assume "ce \<in> set (certificates db')"
  with revoke_valid_set[OF du] ces obtain ce0 where ce0: "ce0 \<in> set (certificates db)"
    "ce_enrollment ce = ce_enrollment ce0" "ce_version ce = ce_version ce0" "ce = ce0 \<or> ce_status ce = Revoked"
    "ce_enrollment ce = eid \<longrightarrow> ce_status ce = Revoked" by metis
  from ci ce0(1) obtain b where b: "b \<in> set (enrollments db)" "cert_backed db ce0 b" by (auto simp: cert_inv_def)
  let ?b = "if en_id b = eid then cancel_row now b else b"
  have "?b \<in> set (upd_by en_id eid (cancel_row now) (enrollments db))" using b(1) by (simp add: upd_by_def)
  with k obtain e where e: "e \<in> set (enrollments db')" "row_kept ?b e" unfolding kept_def by blast
  have "cert_backed db' ce e"
  proof (cases "ce_status ce = Revoked")
    case True
    then show ?thesis using b(2) ce0 e(2) by (auto simp: cert_backed_def row_kept_def split: if_splits)
  next
    case False
    then have "ce = ce0" "en_id b \<noteq> eid" using ce0 b(2) by (auto simp: cert_backed_def)
    then show ?thesis using cert_backed_kept[OF b(2) _ r(1), of e] e(2) r(2) by (simp add: steps_of_def)
  qed
  with e(1) show "\<exists>e \<in> set (enrollments db'). cert_backed db' ce e" by blast
qed

lemma cancel_inv:
  assumes inv: "learn_inv db" and r: "cancel su now lid eid db = Inr (e', db')"
  shows "learn_inv db'"
proof -
  from r obtain e c es' where o: "get_owned_enrollment lid eid db = Inr e" and c: "lock_course (en_course e) db = Inr c"
    and p: "(if held e then promote_waitlisters su c now 1 (upd_by en_id eid (cancel_row now) (enrollments db))
       else Inr (compact_waitlist (co_id c) (upd_by en_id eid (cancel_row now) (enrollments db)))) = Inr es'"
    and com: "learn_unique db'" "learn_checks db'"
    and db': "db' = db\<lparr>enrollments := es', certificates := revoke_valid eid now ''invalidated automatically: enrollment cancelled'' (certificates db)\<rparr>"
    by (auto simp: cancel_def bindR_Inr_iff Let_def split: if_splits)
  let ?es = "upd_by en_id eid (cancel_row now) (enrollments db)"
  note get = get_ownedD[OF o] and lc = lock_courseD[OF c]
  have s: "seated (courses db) (next_id db) (enrollments db)" by (rule inv_seated[OF inv])
  then have d: "distinct (map en_id (enrollments db))" and ok: "course_ok c (enrollments db)" using lc by (auto simp: seated_def)
  have me: "e \<in> set (enrollments db)" "en_id e = eid" "en_course e = co_id c" using get lc by simp_all
  have cap: "0 \<le> co_capacity c" using inv_capacity[OF inv] lc by force
  from cancel_keeps_course[OF ok d me(1) cap me(3), of su now, unfolded me(2)] obtain es2 where
    k: "(if held e then promote_waitlisters su c now 1 ?es else Inr (compact_waitlist (co_id c) ?es)) = Inr es2"
      "course_ok c es2" "moved (co_id c) ?es es2" by blast
  have "es2 = es'" using trans[OF k(1)[symmetric] p] by simp
  with k have ok': "course_ok c es'" and m: "moved (co_id c) ?es es'" by simp_all
  have mid: "in_course i es' = in_course i (enrollments db)" if "i \<noteq> co_id c" for i
    using moved_other_course[OF m that] in_course_upd[OF d me(1), of i "cancel_row now"] me(2,3) that by simp
  have "map en_course es' = map en_course ?es" by (rule moved_map[OF m]) (auto simp: row_moved_def)
  then have cols: "map en_id es' = map en_id (enrollments db)" "map en_course es' = map en_course (enrollments db)"
    using moved_ids[OF m] by (auto simp: upd_by_def)
  then have "en_id ` set es' = en_id ` set (enrollments db)" "en_course ` set es' = en_course ` set (enrollments db)"
    by (metis set_map)+
  then have "\<And>x. x \<in> set es' \<Longrightarrow> en_id x < next_id db \<and> en_course x \<in> co_id ` set (courses db)"
    using s unfolding seated_def by (metis (no_types, lifting) image_iff)
  then have "seated (courses db) (next_id db) es'"
    using lc inv_courses[OF inv] mid ok' d cols(1) by (intro seated_change[OF s]) auto
  moreover have "cert_inv db'"
    using inv_cert[OF inv] moved_kept[OF m] inv learn_uniqueD(4)[of db]
    by (intro cancel_certs[of db eid now db']) (simp_all add: db' learn_inv_def)
  ultimately show ?thesis by (intro seats_request_inv[OF inv com]) (simp_all add: db')
qed

lemma expire_due_inv:
  assumes inv: "learn_inv db" and r: "expire_due_seats su now cid db = Inr (n, db')"
  shows "learn_inv db'"
proof -
  from r obtain cs es where l: "(case cid of Some i \<Rightarrow> bindR (lock_course i db) (\<lambda>c. Inr [c]) | None \<Rightarrow> Inr (sort_key co_id (courses db))) = Inr cs"
    and f: "foldR (sweep su now) (0, enrollments db) cs = Inr (n, es)" and com: "learn_commit (db\<lparr>enrollments := es\<rparr>) = Inr db'"
    unfolding expire_due_seats_def bindR_Inr_iff by (auto simp: bindR_Inr_iff simp del: learn_commit_Inr)
  from l have cs: "set cs \<subseteq> set (courses db)" by (auto simp: bindR_Inr_iff split: option.splits dest: lock_courseD)
  have "case (n, es) of (n, es) \<Rightarrow> seated (courses db) (next_id db) es \<and> kept (enrollments db) es"
  proof (rule foldR_invariant[OF f])
    fix acc c acc' assume c: "c \<in> set cs" and a: "case acc of (n, es) \<Rightarrow> seated (courses db) (next_id db) es \<and> kept (enrollments db) es"
      and st: "sweep su now acc c = Inr acc'"
    obtain k es where acc: "acc = (k, es)" by (rule prod.exhaust)
    then have s: "seated (courses db) (next_id db) es" "kept (enrollments db) es" using a by simp_all
    have cc: "c \<in> set (courses db)" using c cs by blast
    from expire_seated[OF s(1) cc inv_courses[OF inv] inv_capacity[OF inv cc], of su now] obtain m es' where
      "expire_and_promote su c now es = Inr (m, es')" "seated (courses db) (next_id db) es'" "moved (co_id c) es es'" by blast
    then show "case acc' of (n, es) \<Rightarrow> seated (courses db) (next_id db) es \<and> kept (enrollments db) es"
      using st kept_trans[OF s(2) moved_kept] by (auto simp: sweep_def acc)
  qed (simp add: inv_seated[OF inv])
  then show ?thesis by (intro seats_commit_inv[OF inv com]) simp_all
qed

section \<open>Results and certificates\<close>

lemma put_result_frame [simp]:
  "enrollments (put_result eid sid f db) = enrollments db" "courses (put_result eid sid f db) = courses db"
  "versions (put_result eid sid f db) = versions db" "steps (put_result eid sid f db) = steps db"
  "certificates (put_result eid sid f db) = certificates db" "users (put_result eid sid f db) = users db"
  "programs (put_result eid sid f db) = programs db" "next_id db \<le> next_id (put_result eid sid f db)"
  by (simp_all add: put_result_def split: option.split)

text \<open>An assignment to a result keeps the enrollment and the step it is about.\<close>

definition keeps_key :: "(step_result \<Rightarrow> step_result) \<Rightarrow> bool" where
  "keeps_key f \<longleftrightarrow> (\<forall>r. sr_enrollment (f r) = sr_enrollment r \<and> sr_step (f r) = sr_step r)"

lemma keeps_key_rows: "keeps_key (submitted_row now content claimed fp)" "keeps_key (corrected_row now mid status reason)"
  by (simp_all add: keeps_key_def submitted_row_def corrected_row_def Let_def)

lemma put_result_other:
  assumes "keeps_key f" "i \<noteq> eid"
  shows "filter (\<lambda>r. sr_enrollment r = i \<and> P r) (results (put_result eid sid f db)) = filter (\<lambda>r. sr_enrollment r = i \<and> P r) (results db)"
proof -
  have "filter (\<lambda>r. sr_enrollment r = i \<and> P r) (upd_by (\<lambda>r. (sr_enrollment r, sr_step r)) (eid, sid) f rs) =
      filter (\<lambda>r. sr_enrollment r = i \<and> P r) rs" for rs
    by (induction rs) (use assms in \<open>auto simp: keeps_key_def\<close>)
  then show ?thesis using assms by (simp add: put_result_def new_result_def keeps_key_def split: option.split)
qed

lemma reconcile_frame:
  assumes "reconcile_completion su now e ss db = Inr db'"
  shows "enrollments db' = enrollments db" "courses db' = courses db" "versions db' = versions db" "steps db' = steps db"
    "results db' = results db" "next_id db \<le> next_id db'"
  using assms by (auto simp: reconcile_completion_def bindR_Inr_iff split: option.splits if_splits)

lemma build_certificateD:
  assumes "build_certificate su now e db = Inr ce"
  shows "ce_enrollment ce = en_id e" "ce_version ce = en_version e"
  using assms by (auto simp: build_certificate_def bindR_Inr_iff Let_def dest: row_by_SomeD)

text \<open>Afterwards the certificate of the enrollment is valid only if all steps are passed.\<close>

lemma reconcile_certs:
  assumes r: "reconcile_completion su now e ss db = Inr db'" and ce: "ce \<in> set (certificates db')"
  shows "(ce \<in> set (certificates db) \<and> ce_enrollment ce \<noteq> en_id e) \<or>
    (ce_enrollment ce = en_id e \<and> (ce_status ce = Valid \<longrightarrow> complete e ss db) \<and>
     (ce_version ce = en_version e \<or> (\<exists>ce0 \<in> set (certificates db). ce_enrollment ce0 = en_id e \<and> ce_version ce0 = ce_version ce))) \<or>
    \<not> distinct (map ce_enrollment (certificates db))"
proof (cases "row_by ce_enrollment (en_id e) (certificates db)")
  case None
  then have "x \<in> set (certificates db) \<Longrightarrow> ce_enrollment x \<noteq> en_id e" for x
    unfolding row_by_None_iff by (metis image_eqI)
  with r ce None show ?thesis
    by (auto simp: reconcile_completion_def bindR_Inr_iff build_certificateD split: if_splits)
next
  case (Some old)
  note o = row_by_SomeD[OF Some]
  have only: "x = old" if "distinct (map ce_enrollment (certificates db))" "x \<in> set (certificates db)" "ce_enrollment x = en_id e" for x
    using inj_onD[of ce_enrollment "set (certificates db)" x old] that o by (simp add: distinct_map)
  have id: "certificates db = upd_by ce_enrollment (en_id e) (\<lambda>x. x) (certificates db)" by (simp add: upd_by_def)
  obtain f where f: "certificates db' = upd_by ce_enrollment (en_id e) f (certificates db)"
      "\<And>x. ce_enrollment (f x) = ce_enrollment x" "\<And>x. ce_version (f x) = ce_version x"
      "ce_status (f old) = Valid \<Longrightarrow> complete e ss db"
  proof (cases "complete e ss db")
    case True
    show ?thesis
    proof (cases "ce_status old = Revoked")
      case True
      with r Some \<open>complete e ss db\<close> show ?thesis
        by (intro that[of restore_row]) (auto simp: reconcile_completion_def restore_row_def)
    next
      case False
      with r Some True id show ?thesis by (intro that[of "\<lambda>x. x"]) (simp_all add: reconcile_completion_def)
    qed
  next
    case nc: False
    show ?thesis
    proof (cases "ce_status old = Valid")
      case True
      with r Some nc show ?thesis
        by (intro that[of "revoke_row now ''invalidated automatically: a required step no longer passes''"])
          (auto simp: reconcile_completion_def revoke_row_def)
    next
      case False
      with r Some nc id show ?thesis by (intro that[of "\<lambda>x. x"]) (simp_all add: reconcile_completion_def)
    qed
  qed
  from set_upd_byD[OF ce[unfolded f(1)]] show ?thesis
  proof (elim disjE conjE bexE)
    fix x assume x: "x \<in> set (certificates db)" "ce_enrollment x = en_id e" "ce = f x"
    then show ?thesis using only[of x] f by auto
  qed simp
qed

lemma store_result_inv:
  assumes inv: "learn_inv db" and e: "e \<in> set (enrollments db)" "en_status e = Confirmed" and f: "keeps_key f"
    and r: "store_result su now e (steps_of (en_version e) db) sid f db = Inr (res, db')"
  shows "learn_inv db'"
proof -
  let ?db1 = "put_result (en_id e) sid f db" and ?ss = "steps_of (en_version e) db"
  from r have rc: "reconcile_completion su now e ?ss ?db1 = Inr db'" and com: "learn_unique db'" "learn_checks db'"
    by (auto simp: store_result_def bindR_Inr_iff)
  note fr = reconcile_frame[OF rc]
  have d: "distinct (map ce_enrollment (certificates db))" and ids: "inj_on en_id (set (enrollments db))"
    using inv learn_uniqueD(2,4)[of db] by (simp_all add: learn_inv_def distinct_map)
  have n: "next_id db \<le> next_id db'" using put_result_frame(8)[of db "en_id e" sid f] fr(6) by linarith
  have steps: "steps_of v db' = steps_of v db" for v by (simp add: steps_of_def fr)
  have others: "complete x ss db' = complete x ss db" if "en_id x \<noteq> en_id e" for x ss
    unfolding complete_def fr(5) put_result_other[OF f that] ..
  have "\<exists>x \<in> set (enrollments db). cert_backed db' ce x" if "ce \<in> set (certificates db')" for ce
  proof -
    from inv_cert[OF inv] have backed: "\<exists>x \<in> set (enrollments db). cert_backed db c x" if "c \<in> set (certificates db)" for c
      using that by (simp add: cert_inv_def)
    from reconcile_certs[OF rc that] d consider (other) "ce \<in> set (certificates db)" "ce_enrollment ce \<noteq> en_id e"
      | (own) "ce_enrollment ce = en_id e" "ce_status ce = Valid \<longrightarrow> complete e ?ss ?db1"
        "ce_version ce = en_version e \<or> (\<exists>ce0 \<in> set (certificates db). ce_enrollment ce0 = en_id e \<and> ce_version ce0 = ce_version ce)"
      by auto
    then show ?thesis
    proof cases
      case other
      from backed[OF other(1)] obtain x where x: "x \<in> set (enrollments db)" "cert_backed db ce x" by blast
      then have ne: "en_id x \<noteq> en_id e" using other(2) by (simp add: cert_backed_def)
      have "cert_backed db' ce x" using x(2) unfolding cert_backed_def others[OF ne] steps by blast
      then show ?thesis using x(1) by blast
    next
      case own
      have "en_version e = ce_version ce" using own(3)
      proof (elim disjE bexE conjE)
        fix c assume c: "c \<in> set (certificates db)" "ce_enrollment c = en_id e" "ce_version c = ce_version ce"
        from backed[OF c(1)] obtain x where "x \<in> set (enrollments db)" "en_id x = en_id e" "en_version x = ce_version ce"
          using c by (auto simp: cert_backed_def)
        then show ?thesis using inj_onD[OF ids _ _ e(1)] by metis
      qed simp
      moreover have "complete e ss db' = complete e ss ?db1" for ss by (simp add: complete_def fr)
      ultimately have "cert_backed db' ce e" using own e(2) by (simp add: cert_backed_def steps)
      then show ?thesis using e(1) by blast
    qed
  qed
  then have "cert_inv db'" by (simp add: cert_inv_def fr)
  moreover have "seated (courses db) (next_id db') (enrollments db')"
    using inv_seated[OF inv] n unfolding seated_def by (fastforce simp: fr)
  ultimately show ?thesis by (intro seats_request_inv[OF inv com]) (simp_all add: fr n)
qed

lemma load_stepsD: "load_steps vid db = Inr ss \<Longrightarrow> ss = steps_of vid db"
  by (auto simp: load_steps_def bindR_Inr_iff)

lemma submit_result_inv:
  assumes inv: "learn_inv db" and r: "submit_result su now lid eid order content claimed db = Inr (res, db')"
  shows "learn_inv db'"
proof -
  from r obtain e ss sid where e: "row_by en_id eid (enrollments db) = Some e" "en_status e = Confirmed"
    and ss: "load_steps (en_version e) db = Inr ss"
    and out: "db' = db \<or> store_result su now e ss sid (submitted_row now content claimed (fingerprint su content claimed)) db = Inr (res, db')"
    by (auto simp: submit_result_def lock_enrollment_def bindR_Inr_iff Let_def split: if_splits option.splits)
  from row_by_SomeD[OF e(1)] have "e \<in> set (enrollments db)" by simp
  with out show ?thesis using inv store_result_inv[OF inv _ e(2) keeps_key_rows(1)] load_stepsD[OF ss] by metis
qed

lemma correct_result_inv:
  assumes inv: "learn_inv db" and r: "correct_result su now m eid order status reason db = Inr (res, db')"
  shows "learn_inv db'"
proof -
  from r obtain e ss sid where e: "row_by en_id eid (enrollments db) = Some e" "en_status e = Confirmed"
    and ss: "load_steps (en_version e) db = Inr ss"
    and out: "store_result su now e ss sid (corrected_row now (us_id m) status reason) db = Inr (res, db')"
    by (auto simp: correct_result_def lock_enrollment_def bindR_Inr_iff Let_def split: if_splits)
  from row_by_SomeD[OF e(1)] have "e \<in> set (enrollments db)" by simp
  with out show ?thesis using store_result_inv[OF inv _ e(2) keeps_key_rows(2)] load_stepsD[OF ss] by metis
qed

section \<open>No constraint is violated\<close>

lemma seat_keys_distinct:
  assumes s: "seated cs n es" and v: "distinct (map co_version cs)"
  shows "distinct (seat_keys es)"
proof -
  have "inj_on (\<lambda>e. (en_version e, en_seat e)) (set (filter (\<lambda>e. en_seat e \<noteq> None) es))"
  proof (rule inj_onI)
    fix x y assume xy: "x \<in> set (filter (\<lambda>e. en_seat e \<noteq> None) es)" "y \<in> set (filter (\<lambda>e. en_seat e \<noteq> None) es)"
      "(en_version x, en_seat x) = (en_version y, en_seat y)"
    have row: "\<exists>c \<in> set cs. en_course e = co_id c \<and> course_ok c es \<and> seat_row_ok c e" if "e \<in> set es" for e
      using s that by (fastforce simp: seated_def course_ok_def seat_rows_ok_def)
    from row[of x] xy obtain c where c: "c \<in> set cs" "en_course x = co_id c" "course_ok c es" "seat_row_ok c x" by auto
    from row[of y] xy obtain c' where c': "c' \<in> set cs" "en_course y = co_id c'" "seat_row_ok c' y" by auto
    have "co_version c = co_version c'" using c(4) c'(3) xy(3) by (simp add: seat_row_ok_def)
    then have "c = c'" using v c(1) c'(1) by (auto simp: distinct_map dest: inj_onD)
    moreover have "held x" "held y" using c(4) c'(3) xy(1,2) by (simp_all add: seat_row_ok_def)
    moreover have inj: "inj_on en_seat {e \<in> set es. en_course e = co_id c \<and> held e}" using c(3) by (simp add: course_ok_def seat_rows_ok_def)
    ultimately show "x = y" using inj_onD[OF inj, of x y] xy c(2) c'(2) by simp
  qed
  moreover have "distinct es" using s by (simp add: seated_def distinct_map)
  ultimately show ?thesis by (simp add: seat_keys_def distinct_map)
qed

lemma seats_commit_succeeds:
  assumes inv: "learn_inv db" and s: "seated (courses db) n es"
    and l: "distinct (map (\<lambda>e. (en_learner e, en_version e)) es)"
  shows "learn_commit (db\<lparr>enrollments := es\<rparr>) = Inr (db\<lparr>enrollments := es\<rparr>)"
    and "learn_commit (db\<lparr>enrollments := es, next_id := n\<rparr>) = Inr (db\<lparr>enrollments := es, next_id := n\<rparr>)"
proof -
  have u: "learn_unique db" "learn_checks db" using inv by (simp_all add: learn_inv_def)
  have "distinct (seat_keys es)" by (rule seat_keys_distinct[OF s learn_uniqueD(3)[OF u(1)]])
  then have "learn_unique (db\<lparr>enrollments := es\<rparr>)" "learn_checks (db\<lparr>enrollments := es\<rparr>)"
    using u s l by (simp_all add: learn_unique_def learn_checks_def seated_def)
  then show "learn_commit (db\<lparr>enrollments := es\<rparr>) = Inr (db\<lparr>enrollments := es\<rparr>)"
    "learn_commit (db\<lparr>enrollments := es, next_id := n\<rparr>) = Inr (db\<lparr>enrollments := es, next_id := n\<rparr>)"
    by (simp_all add: learn_unique_def learn_checks_def)
qed

lemma moved_learners: "moved cid es es' \<Longrightarrow> map (\<lambda>e. (en_learner e, en_version e)) es' = map (\<lambda>e. (en_learner e, en_version e)) es"
  by (rule moved_map) (auto simp: row_moved_def)

lemma inv_learners: "learn_inv db \<Longrightarrow> distinct (map (\<lambda>e. (en_learner e, en_version e)) (enrollments db))"
  by (simp add: learn_inv_def learn_uniqueD(5))

end
