(* ===== verification/Learn_History.thy ===== *)
theory Learn_History
  imports Learn_Requests
begin

text \<open>
  What no request of the training service ever takes back: the content of versions, their
  publication, the identity of enrollments and of certificates.
\<close>

definition cert_identity :: "certificate \<Rightarrow> int \<times> int \<times> int \<times> string \<times> string \<times> string \<times> int \<times> string \<times> int" where
  "cert_identity ce = (ce_id ce, ce_enrollment ce, ce_version ce, ce_serial ce, ce_learner_name ce, ce_title ce, ce_number ce, ce_hash ce, ce_issued_at ce)"

definition enr_identity :: "enrollment \<Rightarrow> int \<times> int \<times> int \<times> int" where
  "enr_identity e = (en_id e, en_learner e, en_version e, en_course e)"

definition version_kept :: "learn \<Rightarrow> learn \<Rightarrow> program_version \<Rightarrow> bool" where
  "version_kept a b v \<longleftrightarrow> steps_of (pv_id v) b = steps_of (pv_id v) a \<and>
     version_dependencies (pv_id v) b = version_dependencies (pv_id v) a \<and>
     (\<exists>v' \<in> set (versions b). pv_id v' = pv_id v \<and> pv_program v' = pv_program v \<and> pv_version v' = pv_version v \<and>
        pv_hash v' = pv_hash v \<and> (pv_status v = Published \<longrightarrow> v' = v))"

definition learn_le :: "learn \<Rightarrow> learn \<Rightarrow> bool" where
  "learn_le a b \<longleftrightarrow> (\<forall>v \<in> set (versions a). version_kept a b v) \<and>
     (\<exists>xs. map cert_identity (certificates b) = map cert_identity (certificates a) @ xs) \<and>
     (\<exists>xs. map enr_identity (enrollments b) = map enr_identity (enrollments a) @ xs)"

lemma learn_le_refl: "learn_le a a"
  by (auto simp: learn_le_def version_kept_def)

lemma version_kept_trans: "version_kept a b v \<Longrightarrow> (\<And>w. w \<in> set (versions b) \<Longrightarrow> version_kept b c w) \<Longrightarrow> version_kept a c v"
  unfolding version_kept_def by metis

lemma learn_le_trans: "learn_le a b \<Longrightarrow> learn_le b c \<Longrightarrow> learn_le a c"
  unfolding learn_le_def using version_kept_trans by (metis append.assoc)

section \<open>Rows\<close>

lemma le_rows:
  assumes "versions b = versions a" "steps b = steps a" "dependencies b = dependencies a"
    and "map cert_identity (certificates b) = map cert_identity (certificates a) @ xs"
    and "map enr_identity (enrollments b) = map enr_identity (enrollments a) @ ys"
  shows "learn_le a b"
  using assms by (auto simp: learn_le_def version_kept_def steps_of_def version_dependencies_def)

lemma le_same:
  assumes "versions b = versions a" "steps b = steps a" "dependencies b = dependencies a" "certificates b = certificates a"
    "enrollments b = enrollments a"
  shows "learn_le a b"
  using le_rows[OF assms(1-3), of "[]" "[]"] assms(4,5) by simp

lemma moved_identity: "moved cid es es' \<Longrightarrow> map enr_identity es' = map enr_identity es"
  by (rule moved_map) (auto simp: row_moved_def enr_identity_def)

lemma upd_identity: "(\<And>e. g (f e) = g e) \<Longrightarrow> map g (upd_by key k f es) = map g es"
  by (simp add: upd_by_def o_def if_distrib cong: if_cong)

lemma revoke_identity: "map cert_identity (revoke_valid eid now reason ces) = map cert_identity ces"
  unfolding revoke_valid_def by (auto simp: revoke_row_def cert_identity_def intro!: upd_identity split: option.split)

section \<open>Requests\<close>

lemma create_version_le:
  assumes inv: "learn_inv db" and r: "create_version su pid ss db = Inr db'"
  shows "learn_le db db'"
proof -
  from r obtain v where db': "db' = db\<lparr>versions := versions db @ [v], steps := steps db @ new_steps (next_id db) (next_id db) ss,
      dependencies := dependencies db @ new_dependencies (next_id db) (next_id db) ss, next_id := next_id db + 1 + int (length ss)\<rparr>"
    by (auto simp: create_version_def bindR_Inr_iff Let_def)
  have "version_kept db db' w" if "w \<in> set (versions db)" for w
  proof -
    have "pv_id w < next_id db" by (rule inv_versions[OF inv that])
    then show ?thesis using that
      by (auto simp: db' version_kept_def steps_of_def version_dependencies_def new_steps_def new_dependencies_def filter_empty_conv)
  qed
  then show ?thesis by (simp add: learn_le_def db')
qed

lemma publish_version_le:
  assumes inv: "learn_inv db" and r: "publish_version now vid db = Inr db'"
  shows "learn_le db db'"
proof -
  let ?f = "\<lambda>v. v\<lparr>pv_status := Published, pv_published_at := Some now\<rparr>"
  from r obtain v where v: "row_by pv_id vid (versions db) = Some v" "pv_status v \<noteq> Published"
    and db': "versions db' = upd_by pv_id vid ?f (versions db)" "steps db' = steps db" "dependencies db' = dependencies db"
      "certificates db' = certificates db" "enrollments db' = enrollments db"
    by (auto simp: publish_version_def get_version_def bindR_Inr_iff split: if_splits)
  have "version_kept db db' w" if w: "w \<in> set (versions db)" for w
  proof -
    have d: "inj_on pv_id (set (versions db))" using inv by (simp add: learn_inv_def learn_unique_def distinct_map)
    have "pv_id w = vid \<Longrightarrow> w = v" using row_by_SomeD[OF v(1)] w inj_onD[OF d, of w v] by simp
    then have "pv_status w = Published \<Longrightarrow> pv_id w \<noteq> vid" using v(2) by auto
    moreover have "(if pv_id w = vid then ?f w else w) \<in> set (versions db')" using w by (simp add: db' upd_by_def)
    ultimately show ?thesis unfolding version_kept_def steps_of_def version_dependencies_def db'(2,3)
      by (intro conjI bexI[of _ "if pv_id w = vid then ?f w else w"]) auto
  qed
  then show ?thesis by (simp add: learn_le_def db')
qed

lemma enroll_le:
  assumes inv: "learn_inv db" and r: "enroll su now lid cid db = Inr (e', db')"
  shows "learn_le db db'"
proof -
  from r obtain c m es where c: "lock_course cid db = Inr c" and x: "expire_and_promote su c now (enrollments db) = Inr (m, es)"
    by (auto simp: enroll_def bindR_Inr_iff)
  have same: "map enr_identity es = map enr_identity (enrollments db)" by (rule moved_identity[OF expire_db(2)[OF inv c x]])
  have sr: "enr_identity y' = enr_identity y" if "signed_row su now c es y = Inr y'" for y y'
    using that by (auto simp: signed_row_def bindR_Inr_iff enr_identity_def split: if_splits)
  have "versions db' = versions db" "steps db' = steps db" "dependencies db' = dependencies db" "certificates db' = certificates db"
    using r by (auto simp: enroll_def c x bindR_Inr_iff split: option.splits if_splits)
  moreover have "\<exists>ys. map enr_identity (enrollments db') = map enr_identity es @ ys"
  proof -
    have "enrollments db' = es \<or> (\<exists>y. y \<in> set es \<and> distinct (map en_id es) \<and> enr_identity e' = enr_identity y \<and>
        enrollments db' = upd_by en_id (en_id y) (\<lambda>_. e') es) \<or> enrollments db' = es @ [e']"
      using r expire_db(1)[OF inv c x] by (auto simp: enroll_def c x bindR_Inr_iff seated_def sr dest!: row_by_SomeD split: option.splits if_splits)
    moreover have "map enr_identity (upd_by en_id (en_id y) (\<lambda>_. e') es) = map enr_identity es"
      if "y \<in> set es" "distinct (map en_id es)" "enr_identity e' = enr_identity y" for y
      using that by (auto simp: upd_by_def distinct_map dest: inj_onD)
    ultimately show ?thesis by auto
  qed
  ultimately show ?thesis using le_rows[of db' db "[]"] same by auto
qed

lemma confirm_le:
  assumes inv: "learn_inv db" and r: "confirm su now lid eid db = Inr (e', db')"
  shows "learn_le db db'"
proof -
  from r obtain e0 where o: "get_owned_enrollment lid eid db = Inr e0" by (auto simp: confirm_def bindR_Inr_iff)
  with r obtain c m es where c: "lock_course (en_course e0) db = Inr c" and x: "expire_and_promote su c now (enrollments db) = Inr (m, es)"
    by (auto simp: confirm_def bindR_Inr_iff)
  have out: "enrollments db' = es \<or> enrollments db' = upd_by en_id eid (confirm_row now) es"
    using r by (auto simp: confirm_def bindR_Inr_iff o c x split: if_splits)
  have frame: "versions db' = versions db" "steps db' = steps db" "dependencies db' = dependencies db" "certificates db' = certificates db"
    using r by (auto simp: confirm_def bindR_Inr_iff split: if_splits)
  have "map enr_identity es = map enr_identity (enrollments db)" by (rule moved_identity[OF expire_db(2)[OF inv c x]])
  moreover have "map enr_identity (upd_by en_id eid (confirm_row now) es) = map enr_identity es"
    by (rule upd_identity) (simp add: enr_identity_def confirm_row_def)
  ultimately have "map enr_identity (enrollments db') = map enr_identity (enrollments db)" using out by auto
  then show ?thesis by (intro le_rows[of db' db "[]" "[]"]) (simp_all add: frame)
qed

lemma foldR_sweep_identity:
  assumes "foldR (sweep su now) (0, enrollments db) cs = Inr (n, es)" and inv: "learn_inv db" and cs: "set cs \<subseteq> set (courses db)"
  shows "map enr_identity es = map enr_identity (enrollments db)"
proof -
  have "case (n, es) of (n, es) \<Rightarrow> seated (courses db) (next_id db) es \<and> map enr_identity es = map enr_identity (enrollments db)"
  proof (rule foldR_invariant[OF assms(1)])
    fix acc c acc' assume c: "c \<in> set cs" and st: "sweep su now acc c = Inr acc'"
      and a: "case acc of (n, es) \<Rightarrow> seated (courses db) (next_id db) es \<and> map enr_identity es = map enr_identity (enrollments db)"
    obtain k es where acc: "acc = (k, es)" by (rule prod.exhaust)
    have cc: "c \<in> set (courses db)" using c cs by blast
    from expire_seated[OF _ cc inv_courses[OF inv] inv_capacity[OF inv cc], of "next_id db" es su now] a acc obtain m es' where
      "expire_and_promote su c now es = Inr (m, es')" "seated (courses db) (next_id db) es'" "moved (co_id c) es es'" by auto
    then show "case acc' of (n, es) \<Rightarrow> seated (courses db) (next_id db) es \<and> map enr_identity es = map enr_identity (enrollments db)"
      using st a moved_identity by (auto simp: sweep_def acc)
  qed (simp add: inv_seated[OF inv])
  then show ?thesis by simp
qed

lemma expire_due_le:
  assumes inv: "learn_inv db" and r: "expire_due_seats su now cid db = Inr (n, db')"
  shows "learn_le db db'"
proof -
  from r obtain cs es where l: "(case cid of Some i \<Rightarrow> bindR (lock_course i db) (\<lambda>c. Inr [c]) | None \<Rightarrow> Inr (sort_key co_id (courses db))) = Inr cs"
    and f: "foldR (sweep su now) (0, enrollments db) cs = Inr (n, es)" and db': "db' = db\<lparr>enrollments := es\<rparr>"
    unfolding expire_due_seats_def bindR_Inr_iff by (auto simp: bindR_Inr_iff)
  from l have "set cs \<subseteq> set (courses db)" by (auto simp: bindR_Inr_iff split: option.splits dest: lock_courseD)
  from foldR_sweep_identity[OF f inv this] show ?thesis by (intro le_rows[of db' db "[]" "[]"]) (simp_all add: db')
qed

lemma cancel_le:
  assumes inv: "learn_inv db" and r: "cancel su now lid eid db = Inr (e', db')"
  shows "learn_le db db'"
proof -
  from r obtain e c es' where o: "get_owned_enrollment lid eid db = Inr e" and c: "lock_course (en_course e) db = Inr c"
    and p: "(if held e then promote_waitlisters su c now 1 (upd_by en_id eid (cancel_row now) (enrollments db))
       else Inr (compact_waitlist (co_id c) (upd_by en_id eid (cancel_row now) (enrollments db)))) = Inr es'"
    and db': "db' = db\<lparr>enrollments := es', certificates := revoke_valid eid now ''invalidated automatically: enrollment cancelled'' (certificates db)\<rparr>"
    by (auto simp: cancel_def bindR_Inr_iff Let_def split: if_splits)
  note get = get_ownedD[OF o] and lc = lock_courseD[OF c]
  have ok: "course_ok c (enrollments db)" "distinct (map en_id (enrollments db))" "0 \<le> co_capacity c"
    using inv_seated[OF inv] lc inv_capacity[OF inv, of c] by (auto simp: seated_def)
  from cancel_keeps_course[OF ok(1,2) _ ok(3), of e su now] get lc obtain es2 where
    k: "(if held e then promote_waitlisters su c now 1 (upd_by en_id eid (cancel_row now) (enrollments db))
       else Inr (compact_waitlist (co_id c) (upd_by en_id eid (cancel_row now) (enrollments db)))) = Inr es2"
      "moved (co_id c) (upd_by en_id eid (cancel_row now) (enrollments db)) es2" by auto
  have "es2 = es'" using trans[OF k(1)[symmetric] p] by simp
  then have "map enr_identity es' = map enr_identity (upd_by en_id eid (cancel_row now) (enrollments db))"
    using moved_identity[OF k(2)] by simp
  also have "\<dots> = map enr_identity (enrollments db)" by (rule upd_identity) (simp add: enr_identity_def)
  finally show ?thesis by (intro le_rows[of db' db "[]" "[]"]) (simp_all add: db' revoke_identity)
qed

lemma store_result_le:
  assumes r: "store_result su now e ss sid f db = Inr (res, db')"
  shows "learn_le db db'"
proof -
  let ?db1 = "put_result (en_id e) sid f db"
  have dep: "dependencies ?db1 = dependencies db" by (simp add: put_result_def split: option.split)
  from r have rc: "reconcile_completion su now e ss ?db1 = Inr db'" by (auto simp: store_result_def bindR_Inr_iff)
  then have "dependencies db' = dependencies ?db1"
    by (auto simp: reconcile_completion_def bindR_Inr_iff split: option.splits if_splits)
  moreover have "\<exists>xs. map cert_identity (certificates db') = map cert_identity (certificates ?db1) @ xs"
    using rc by (auto simp: reconcile_completion_def bindR_Inr_iff restore_row_def revoke_row_def cert_identity_def upd_identity
        split: option.splits if_splits)
  ultimately show ?thesis using reconcile_frame[OF rc] dep
    by (auto intro: le_rows[of db' db _ "[]"])
qed

lemma submit_result_le: "submit_result su now lid eid order content claimed db = Inr (res, db') \<Longrightarrow> learn_le db db'"
  by (auto simp: submit_result_def bindR_Inr_iff Let_def learn_le_refl split: if_splits option.splits dest: store_result_le)

lemma correct_result_le: "correct_result su now m eid order status reason db = Inr (res, db') \<Longrightarrow> learn_le db db'"
  by (auto simp: correct_result_def bindR_Inr_iff split: if_splits dest: store_result_le)

lemma plain_requests_le:
  "create_user raw name role db = Inr db' \<Longrightarrow> learn_le db db'"
  "create_program m title description db = Inr db' \<Longrightarrow> learn_le db db'"
  "rollback_pointer pid vid db = Inr db' \<Longrightarrow> learn_le db db'"
  "create_course vid capacity deadline db = Inr db' \<Longrightarrow> learn_le db db'"
  by (auto simp: create_user_def create_program_def rollback_pointer_def create_course_def bindR_Inr_iff split: if_splits intro!: le_same)

end
