(* ===== verification/Learn_Properties.thy ===== *)
theory Learn_Properties
  imports Learn_History
begin

text \<open>
  The properties of the training service over arbitrary sequences of requests, and of its
  operations on every database such a sequence reaches.
\<close>

section \<open>Requests keep the invariant\<close>

lemma clock_inv:
  assumes inv: "learn_inv db" and r: "clock_endpoint su uid f db = Inr db'" and f: "\<exists>t. f db = db\<lparr>virtual_now := t\<rparr>"
  shows "learn_inv db'"
proof -
  from r f obtain t where com: "learn_unique db'" "learn_checks db'" and db': "db' = db\<lparr>virtual_now := t\<rparr>"
    by (auto simp: clock_endpoint_def bindR_Inr_iff split: if_splits)
  show ?thesis by (rule inv_frame[OF inv com]) (use inv_versions[OF inv] in \<open>simp_all add: db' steps_of_def\<close>)
qed

lemmas learn_invs = create_user_inv create_program_inv create_version_inv publish_version_inv rollback_pointer_inv
  create_course_inv enroll_inv confirm_inv cancel_inv expire_due_inv submit_result_inv correct_result_inv

lemmas learn_endpoints = post_program_def post_steps_def post_publish_def put_current_version_def post_course_def post_enroll_def
  post_confirm_def post_cancel_def expire_holds_def post_submission_def post_correction_def only_db_def

lemma learn_request_inv:
  assumes inv: "learn_inv db" and r: "learn_request su real op db = Inr db'"
  shows "learn_inv db'"
proof (cases op)
  case (SetClock uid t)
  with r show ?thesis by (intro clock_inv[OF inv]) (auto simp: learn_request_def set_clock_def)
next
  case (AdvanceClock uid minutes hours days)
  with r show ?thesis by (intro clock_inv[OF inv]) (auto simp: learn_request_def advance_clock_def set_clock_def)
next
  case (ResetClock uid)
  with r show ?thesis by (intro clock_inv[OF inv]) (auto simp: learn_request_def reset_clock_def)
qed (use r in \<open>auto simp: learn_request_def learn_endpoints bindR_Inr_iff intro: learn_invs[OF inv]\<close>)

lemma learn_empty_inv: "learn_inv learn_empty"
  by (simp add: learn_inv_def learn_empty_def learn_unique_def learn_checks_def seats_inv_def cert_inv_def seat_keys_def)

lemma learn_request_le:
  assumes inv: "learn_inv db" and r: "learn_request su real op db = Inr db'"
  shows "learn_le db db'"
proof (cases op)
  case (SetClock uid t)
  with r show ?thesis by (auto simp: learn_request_def clock_endpoint_def bindR_Inr_iff set_clock_def split: if_splits intro!: le_same)
next
  case (AdvanceClock uid minutes hours days)
  with r show ?thesis
    by (auto simp: learn_request_def clock_endpoint_def bindR_Inr_iff advance_clock_def set_clock_def split: if_splits intro!: le_same)
next
  case (ResetClock uid)
  with r show ?thesis by (auto simp: learn_request_def clock_endpoint_def bindR_Inr_iff reset_clock_def split: if_splits intro!: le_same)
qed (use r in \<open>auto simp: learn_request_def learn_endpoints bindR_Inr_iff
      intro: plain_requests_le create_version_le[OF inv] publish_version_le[OF inv] enroll_le[OF inv] confirm_le[OF inv]
        cancel_le[OF inv] expire_due_le[OF inv] submit_result_le correct_result_le\<close>)

interpretation training: evolving_service "learn_step su" learn_inv learn_le
proof unfold_locales
  show "learn_inv (learn_step su op db)" if "learn_inv db" for op db
    using that by (auto simp: learn_step_def intro: learn_request_inv split: sum.split prod.split)
  show "learn_le db (learn_step su op db)" if "learn_inv db" for op db
    using that by (auto simp: learn_step_def intro: learn_request_le learn_le_refl split: sum.split prod.split)
qed (auto intro: learn_le_refl learn_le_trans)

lemma reachable_inv: "learn_inv (learn_run su ops learn_empty)"
  unfolding learn_run_def by (rule training.inv_run[OF learn_empty_inv])

section \<open>A small deployment\<close>

definition training_setup :: learn_setup where
  "training_setup = \<lparr>ls_sha = (\<lambda>s. s), ls_content_hash = (\<lambda>_. ''h''), ls_certificate_hash = (\<lambda>_. ''c''), ls_hold_hours = 48,
     ls_clock_control = True\<rparr>"

definition course_ops :: "(int \<times> learn_op) list" where
  "course_ops =
     [(0, PostUser ''m@x.y'' ''M'' Manager), (0, PostUser ''a@x.y'' ''A'' Learner), (0, PostUser ''b@x.y'' ''B'' Learner),
      (0, PostProgram (Some 1) ''P'' ''''),
      (0, PostSteps (Some 1) 4 [\<lparr>si_title = ''s'', si_description = '''', si_criteria = ''c'', si_prereqs = []\<rparr>]),
      (0, PostPublish (Some 1) 5), (0, PostCourse (Some 1) 5 1 1000), (0, PostEnroll (Some 2) 7), (0, PostEnroll (Some 3) 7)]"

definition course_db :: learn where
  "course_db = learn_run training_setup course_ops learn_empty"

lemma course_db_rows:
  "map (\<lambda>e. (en_id e, en_status e, en_seat e, en_position e)) (enrollments course_db) =
    [(8, Enrolled, Some 1, None), (9, Waitlisted, None, Some 1)]"
  by code_simp

section \<open>Sign-up\<close>

lemma signed_row_total: "\<exists>e'. signed_row su now c es e = Inr e'"
  using free_seat_found[of c es] by (auto simp: signed_row_def bindR_Inr_iff)

lemma signed_columns:
  "signed_row su now c es e = Inr e' \<Longrightarrow>
     active e' \<and> en_learner e' = en_learner e \<and> en_version e' = en_version e \<and> en_course e' = en_course e \<and> en_id e' = en_id e"
  by (auto simp: signed_row_def bindR_Inr_iff active_def split: if_splits)

lemma enroll_result:
  assumes inv: "learn_inv db" and c: "lock_course cid db = Inr c" and r: "enroll su now lid cid db = Inr (e, db')"
  shows "e \<in> set (enrollments db') \<and> en_learner e = lid \<and> en_version e = co_version c \<and> active e \<and> courses db' = courses db"
proof -
  let ?same = "row_by (\<lambda>e. (en_learner e, en_version e)) (lid, co_version c)"
  from r c obtain m es where x: "expire_and_promote su c now (enrollments db) = Inr (m, es)" by (auto simp: enroll_def bindR_Inr_iff)
  consider (again) "?same es = Some e" "active e" "db' = db\<lparr>enrollments := es\<rparr>"
    | (old) e0 where "?same es = Some e0" "signed_row su now c es e0 = Inr e" "db' = db\<lparr>enrollments := upd_by en_id (en_id e0) (\<lambda>_. e) es\<rparr>"
    | (new) "signed_row su now c es (new_enrollment (next_id db) lid c) = Inr e"
        "db' = db\<lparr>enrollments := es @ [e], next_id := next_id db + 1\<rparr>"
    using r by (auto simp: enroll_def c x bindR_Inr_iff split: option.splits if_splits)
  then show ?thesis
  proof cases
    case again
    then show ?thesis using row_by_SomeD[OF again(1)] by auto
  next
    case old
    then show ?thesis using row_by_SomeD[OF old(1)] signed_columns[OF old(2)] by (auto simp: upd_by_def image_iff)
  next
    case new
    then show ?thesis using signed_columns[OF new(1)] by (simp add: new_enrollment_def)
  qed
qed

lemma enroll_total:
  assumes inv: "learn_inv db" and c: "lock_course cid db = Inr c" and open_: "now \<le> co_deadline c"
  shows "\<exists>e db'. enroll su now lid cid db = Inr (e, db')"
proof -
  let ?same = "row_by (\<lambda>e. (en_learner e, en_version e)) (lid, co_version c)"
  from lock_courseD[OF c] have cc: "c \<in> set (courses db)" by simp
  from expire_seated[OF inv_seated[OF inv] cc inv_courses[OF inv] inv_capacity[OF inv cc], of su now] obtain m es
    where x: "expire_and_promote su c now (enrollments db) = Inr (m, es)" by blast
  note ex = expire_db[OF inv c x]
  have l: "distinct (map (\<lambda>e. (en_learner e, en_version e)) es)" using moved_learners[OF ex(2)] inv_learners[OF inv] by simp
  show ?thesis
  proof (cases "?same es")
    case None
    obtain e' where e': "signed_row su now c es (new_enrollment (next_id db) lid c) = Inr e'" using signed_row_total by blast
    note so = sign_up_new[OF inv c x e']
    have "distinct (map (\<lambda>e. (en_learner e, en_version e)) (es @ [e']))"
      using l None so(2,3) by (simp add: row_by_None_iff)
    from seats_commit_succeeds(2)[OF inv so(1) this] show ?thesis
      using None open_ e' by (simp add: enroll_def c x del: learn_commit_Inr)
  next
    case (Some e)
    from row_by_SomeD[OF Some] have e: "e \<in> set es" "en_version e = co_version c" by auto
    show ?thesis
    proof (cases "active e")
      case True
      from seats_commit_succeeds(1)[OF inv ex(1) l] show ?thesis using Some True by (simp add: enroll_def c x del: learn_commit_Inr)
    next
      case False
      obtain e' where e': "signed_row su now c es e = Inr e'" using signed_row_total by blast
      note so = sign_up_old[OF inv c x e False e']
      have "distinct (map (\<lambda>e. (en_learner e, en_version e)) (upd_by en_id (en_id e) (\<lambda>_. e') es))"
        using moved_learners[OF so(2)] inv_learners[OF inv] by simp
      from seats_commit_succeeds(1)[OF inv so(1) this] show ?thesis
        using Some False open_ e' by (simp add: enroll_def c x del: learn_commit_Inr)
    qed
  qed
qed

text \<open>C28: on every reachable database, a sign-up no later than the deadline succeeds: the learner has a
  seat, or a place in the queue of a full course. Repeating it, at any time at which no hold of the
  course has lapsed, even after the deadline, answers the same enrollment and changes nothing.\<close>

theorem sign_up_succeeds:
  assumes "db = learn_run su ops learn_empty" and "row_by co_id cid (courses db) = Some c" and "now \<le> co_deadline c"
  shows "\<exists>e db'. enroll su now lid cid db = Inr (e, db') \<and> e \<in> set (enrollments db') \<and> en_learner e = lid \<and> en_course e = cid \<and>
    (held e \<or> en_status e = Waitlisted \<and> count_seats_taken cid (enrollments db') = co_capacity c) \<and>
    (\<forall>later. filter (due cid later) (enrollments db') = [] \<longrightarrow> enroll su later lid cid db' = Inr (e, db'))"
proof -
  have inv: "learn_inv db" unfolding assms(1) by (rule reachable_inv)
  have c: "lock_course cid db = Inr c" using assms(2) by (simp add: lock_course_def)
  from enroll_total[OF inv c assms(3)] obtain e db' where r: "enroll su now lid cid db = Inr (e, db')" by blast
  note inv' = enroll_inv[OF inv r] and res = enroll_result[OF inv c r] and cc = lock_courseD[OF c]
  have c': "lock_course cid db' = Inr c" using c res by (simp add: lock_course_def)
  have ec: "en_course e = cid" using course_of_version[OF inv' inv_seated[OF inv'], of e c] res cc by simp
  have again: "enroll su later lid cid db' = Inr (e, db')" if "filter (due cid later) (enrollments db') = []" for later
  proof -
    have "expire_and_promote su c later (enrollments db') = Inr (0, enrollments db')" using that cc by (simp add: expire_and_promote_def)
    moreover have "row_by (\<lambda>e. (en_learner e, en_version e)) (lid, co_version c) (enrollments db') = Some e"
      using res inv_learners[OF inv'] by (intro row_by_unique) simp_all
    ultimately show ?thesis using res inv' by (simp add: enroll_def c' learn_inv_def learn_commit_def)
  qed
  have "held e \<or> en_status e = Waitlisted \<and> count_seats_taken cid (enrollments db') = co_capacity c"
  proof (cases "held e")
    case False
    then have w: "waits cid e" using res ec by (auto simp: active_def held_def waits_def)
    from course_parts[OF inv_seated[OF inv'], of c] res cc inv_capacity[OF inv'] obtain ws where
      "compact cid (enrollments db') ws" "ws \<noteq> [] \<longrightarrow> count_seats_taken cid (enrollments db') = co_capacity c" by auto
    moreover from this(1) res w have "ws \<noteq> []" by (auto simp: compact_def)
    ultimately show ?thesis using w by (simp add: waits_def)
  qed simp
  then show ?thesis using r res ec again by blast
qed

lemma sign_up_succeeds_witness:
  "\<exists>e db'. enroll training_setup 5 3 7 course_db = Inr (e, db') \<and> e \<in> set (enrollments db') \<and> en_learner e = 3 \<and> en_course e = 7"
proof -
  have "row_by co_id 7 (courses course_db) = Some \<lparr>co_id = 7, co_version = 5, co_capacity = 1, co_deadline = 1000\<rparr>" by code_simp
  from sign_up_succeeds[OF course_db_def this, of 5 3] show ?thesis by auto
qed

section \<open>Seats\<close>

text \<open>C27: after any requests, a course has no more seats taken than its capacity, its seat numbers are
  different and between 1 and the capacity, the queue is numbered 1, 2, 3 and so on without gaps, and
  nobody waits while a seat is free.\<close>

theorem training_seats_sound:
  assumes "db = learn_run su ops learn_empty" and "c \<in> set (courses db)"
  shows "count_seats_taken (co_id c) (enrollments db) \<le> co_capacity c \<and>
    distinct (map en_seat (filter held (in_course (co_id c) (enrollments db)))) \<and>
    set (map en_seat (filter held (in_course (co_id c) (enrollments db)))) \<subseteq> Some ` {1..co_capacity c} \<and>
    map en_position (waitlist (co_id c) (enrollments db)) = map Some [1..int (length (waitlist (co_id c) (enrollments db)))] \<and>
    (waitlist (co_id c) (enrollments db) = [] \<or> count_seats_taken (co_id c) (enrollments db) = co_capacity c)"
proof -
  have inv: "learn_inv db" unfolding assms(1) by (rule reachable_inv)
  note s = inv_seated[OF inv]
  from course_parts[OF s assms(2) inv_capacity[OF inv assms(2)]] obtain ws where
    w: "compact (co_id c) (enrollments db) ws" "ws \<noteq> [] \<longrightarrow> count_seats_taken (co_id c) (enrollments db) = co_capacity c"
      "seat_rows_ok c (enrollments db)" "count_seats_taken (co_id c) (enrollments db) \<le> co_capacity c" by blast
  have d: "distinct (enrollments db)" using s by (simp add: seated_def distinct_map)
  have "waitlist (co_id c) (enrollments db) = ws" by (rule queued_waitlist[OF d compact_queued[OF w(1)]])
  moreover have "distinct (map en_seat (filter held (in_course (co_id c) (enrollments db))))"
    using w(3) d by (simp add: seat_rows_ok_def distinct_map in_course_def conj_commute)
  moreover have "set (map en_seat (filter held (in_course (co_id c) (enrollments db)))) \<subseteq> Some ` {1..co_capacity c}"
    using w(3) by (fastforce simp: seat_rows_ok_def seat_row_ok_def in_course_def)
  ultimately show ?thesis using w by (auto simp: compact_def)
qed

lemma training_seats_sound_witness:
  "count_seats_taken 7 (enrollments course_db) \<le> 1 \<and> map en_position (waitlist 7 (enrollments course_db)) = [Some 1]"
proof -
  let ?c = "\<lparr>co_id = 7, co_version = 5, co_capacity = 1, co_deadline = 1000\<rparr>"
  have c: "?c \<in> set (courses course_db)" by code_simp
  have l: "length (waitlist 7 (enrollments course_db)) = 1" by code_simp
  from training_seats_sound[OF course_db_def c] show ?thesis by (simp add: l)
qed



section \<open>Certificates\<close>

text \<open>C30: after any requests, a valid certificate belongs to a confirmed enrollment whose learner has passed
  every step of the version it names, and an enrollment has at most one certificate.\<close>

theorem valid_certificate_earned:
  assumes "db = learn_run su ops learn_empty" and "ce \<in> set (certificates db)" and "ce_status ce = Valid"
  shows "\<exists>e \<in> set (enrollments db). en_id e = ce_enrollment ce \<and> en_version e = ce_version ce \<and> en_status e = Confirmed \<and>
      list_all (\<lambda>s. is_passed (en_id e) (st_id s) db) (steps_of (ce_version ce) db) \<and>
      length (filter (\<lambda>c. ce_enrollment c = en_id e) (certificates db)) = 1"
proof -
  have inv: "learn_inv db" unfolding assms(1) by (rule reachable_inv)
  from inv_cert[OF inv] assms(2) obtain e where e: "e \<in> set (enrollments db)" "cert_backed db ce e" by (auto simp: cert_inv_def)
  have c: "complete e (steps_of (ce_version ce) db) db" using e(2) assms(3) unfolding cert_backed_def by metis
  have "is_passed (en_id e) (st_id s) db" if "s \<in> set (steps_of (ce_version ce) db)" for s
    using c that by (fastforce simp: complete_def is_passed_def list_ex_iff)
  moreover have "length (filter (\<lambda>c. ce_enrollment c = en_id e) (certificates db)) = 1"
  proof -
    have d: "distinct (map ce_enrollment (certificates db))" using inv learn_uniqueD(4)[of db] by (simp add: learn_inv_def)
    have "length (filter (\<lambda>x. key x = k) rows) = 1" if "distinct (map key rows)" "r \<in> set rows" "key r = k"
      for key :: "certificate \<Rightarrow> int" and k rows r
      using that by (induction rows) (auto simp: filter_empty_conv rev_image_eqI)
    then show ?thesis using d assms(2) e(2) by (simp add: cert_backed_def)
  qed
  ultimately show ?thesis using e assms(3) by (auto simp: cert_backed_def list_all_iff)
qed

definition certified_ops :: "(int \<times> learn_op) list" where
  "certified_ops = course_ops @ [(1, PostConfirm (Some 2) 8), (2, PostSubmission (Some 2) 8 1 ''work'' True)]"

definition certified_db :: learn where
  "certified_db = learn_run training_setup certified_ops learn_empty"

lemma valid_certificate_earned_witness:
  "\<exists>ce \<in> set (certificates certified_db). ce_status ce = Valid \<and>
     (\<exists>e \<in> set (enrollments certified_db). en_id e = ce_enrollment ce \<and> en_status e = Confirmed)"
proof -
  have "list_ex (\<lambda>ce. ce_status ce = Valid) (certificates certified_db)" by code_simp
  then obtain ce where ce: "ce \<in> set (certificates certified_db)" "ce_status ce = Valid" by (auto simp: list_ex_iff)
  from valid_certificate_earned[OF certified_db_def ce] ce show ?thesis by blast
qed

text \<open>No request takes these back: the steps, the prerequisites and the digest of a version; that it is
  published, and when; the learner, version and course of an enrollment; and the serial, the content and
  the issue time of a certificate.\<close>

theorem issued_stays:
  assumes "db = learn_run su ops learn_empty" and "db' = learn_run su later_ops db"
  shows "list_all (version_kept db db') (versions db) \<and>
    (\<exists>xs. map cert_identity (certificates db') = map cert_identity (certificates db) @ xs) \<and>
    (\<exists>xs. map enr_identity (enrollments db') = map enr_identity (enrollments db) @ xs)"
proof -
  have "learn_inv db" unfolding assms(1) by (rule reachable_inv)
  then have "learn_le db db'" unfolding assms(2) learn_run_def by (rule training.le_run)
  then show ?thesis by (simp add: learn_le_def list_all_iff)
qed

definition cancelled_ops :: "(int \<times> learn_op) list" where
  "cancelled_ops = [(3, PostCancel (Some 2) 8), (4, PostCancel (Some 3) 9), (5, PostEnroll (Some 2) 7), (6, PostConfirm (Some 2) 8)]"

definition cancelled_db :: learn where
  "cancelled_db = learn_run training_setup cancelled_ops certified_db"

lemma issued_stays_witness:
  "\<exists>xs. map cert_identity (certificates cancelled_db) = map cert_identity (certificates certified_db) @ xs"
  using issued_stays[OF certified_db_def cancelled_db_def] by blast

text \<open>When a submission repeats the last counted one: the check of the code, on the whole request.\<close>

definition repeats :: "learn_setup \<Rightarrow> int \<Rightarrow> int \<Rightarrow> int \<Rightarrow> string \<Rightarrow> bool \<Rightarrow> learn \<Rightarrow> bool" where
  "repeats su lid eid order content claimed db \<longleftrightarrow>
     (case row_by en_id eid (enrollments db) of
        None \<Rightarrow> False
      | Some e \<Rightarrow> en_learner e = lid \<and> en_status e = Confirmed \<and> row_by pv_id (en_version e) (versions db) \<noteq> None \<and>
          (case row_by st_order order (steps_of (en_version e) db) of
             None \<Rightarrow> False
           | Some s \<Rightarrow> missing_steps eid (en_version e) (st_id s) db = [] \<and>
               map_option sr_fingerprint (result_of eid (st_id s) db) = Some (Some (fingerprint su content claimed))))"

lemma repeats_no_change:
  assumes inv: "learn_inv db" and r: "repeats su lid eid order content claimed db"
  shows "\<exists>r. submit_result su now lid eid order content claimed db = Inr (r, db)"
proof -
  from r obtain e s v r where f: "row_by en_id eid (enrollments db) = Some e" "en_learner e = lid" "en_status e = Confirmed"
      "row_by pv_id (en_version e) (versions db) = Some v" "row_by st_order order (steps_of (en_version e) db) = Some s"
      "missing_steps eid (en_version e) (st_id s) db = []" "result_of eid (st_id s) db = Some r"
      "sr_fingerprint r = Some (fingerprint su content claimed)"
    by (auto simp: repeats_def split: option.splits)
  have "learn_commit db = Inr db" using inv by (simp add: learn_inv_def)
  with f show ?thesis
    by (simp add: submit_result_def lock_enrollment_def load_steps_def get_version_def Let_def del: learn_commit_Inr)
qed

text \<open>A learner who cancels and signs up again keeps the passed steps, but the certificate stays revoked,
  and handing in the same work again, at any time, changes nothing.\<close>

theorem certificate_stays_revoked:
  "map (\<lambda>e. (en_id e, en_status e, complete e (steps_of 5 cancelled_db) cancelled_db)) (enrollments cancelled_db) =
     [(8, Confirmed, True), (9, Cancelled, False)] \<and>
   map (\<lambda>ce. (ce_enrollment ce, ce_status ce)) (certificates cancelled_db) = [(8, Revoked)] \<and>
   (\<exists>r. submit_result training_setup now 2 8 1 ''work'' True cancelled_db = Inr (r, cancelled_db))"
proof -
  have "map (\<lambda>e. (en_id e, en_status e, complete e (steps_of 5 cancelled_db) cancelled_db)) (enrollments cancelled_db) =
     [(8, Confirmed, True), (9, Cancelled, False)]" by code_simp
  moreover have "map (\<lambda>ce. (ce_enrollment ce, ce_status ce)) (certificates cancelled_db) = [(8, Revoked)]" by code_simp
  moreover have "repeats training_setup 2 8 1 ''work'' True cancelled_db" by code_simp
  moreover have "learn_inv cancelled_db"
    unfolding cancelled_db_def certified_db_def learn_run_def by (intro training.inv_run learn_empty_inv)
  ultimately show ?thesis using repeats_no_change by blast
qed

end
