(* ===== verification/Consent_Model.thy ===== *)
theory Consent_Model
  imports Prelude Py_Text
begin

text \<open>
  The tables of the consent service (\<open>text6/a/app/models.py\<close>), their constraints, its errors and the
  caller of a request. Times are instants in microseconds, ids come from one increasing sequence,
  and JSON texts are the data they encode. The triggers that make events and policy versions
  immutable need no counterpart: no operation updates or deletes them.
\<close>

section \<open>Errors\<close>

text \<open>\<open>VaultError\<close> carries the status and the code of the answer. \<open>VaultCrash\<close> is an exception that nothing
  catches, \<open>VaultIntegrity\<close> a violated constraint, \<open>BadBody\<close> a body that pydantic refuses.\<close>

datatype vault_error = VaultError int string | VaultCrash string | VaultIntegrity | BadBody

definition vault_not_found :: vault_error where "vault_not_found = VaultError 404 ''not_found''"
definition vault_conflict :: "string \<Rightarrow> vault_error" where "vault_conflict code = VaultError 409 code"
definition vault_unprocessable :: "string \<Rightarrow> vault_error" where "vault_unprocessable code = VaultError 422 code"
definition vault_gone :: "string \<Rightarrow> vault_error" where "vault_gone code = VaultError 410 code"
definition vault_forbidden :: vault_error where "vault_forbidden = VaultError 403 ''forbidden''"
definition vault_unauthorized :: vault_error where "vault_unauthorized = VaultError 401 ''unauthorized''"

section \<open>Tables\<close>

datatype vault_role = Admin | Auditor
datatype consent_status = Granted | Withdrawn
datatype consent_action = Grant | Withdrawal

record organization =
  og_id :: int
  og_name :: string

record api_key =
  ak_id :: int
  ak_org :: int
  ak_hash :: string
  ak_role :: vault_role
  ak_active :: bool

record subject =
  sb_id :: int
  sb_org :: int
  sb_ref :: string
  sb_pseudonym :: string

record export_copy =
  xc_id :: int
  xc_org :: int
  xc_subject :: int
  xc_label :: string

record purpose =
  pu_id :: int
  pu_org :: int
  pu_key :: string
  pu_description :: string

record consent_policy =
  po_id :: int
  po_org :: int
  po_purpose :: int

record policy_version =
  vn_id :: int
  vn_policy :: int
  vn_org :: int
  vn_version :: int
  vn_body :: string
  vn_published_at :: int

record consent_state =
  cs_id :: int
  cs_org :: int
  cs_subject :: int
  cs_purpose :: int
  cs_status :: consent_status
  cs_version :: int
  cs_policy_version :: "int option"
  cs_granted_event :: "int option"
  cs_granted_sequence :: "int option"
  cs_granted_at :: "int option"
  cs_expires_at :: "int option"
  cs_withdrawn_event :: "int option"
  cs_withdrawn_sequence :: "int option"
  cs_withdrawn_at :: "int option"
  cs_updated_at :: int

record consent_event =
  ev_id :: int
  ev_org :: int
  ev_pseudonym :: string
  ev_purpose :: string
  ev_type :: consent_action
  ev_sequence :: int
  ev_policy_version :: "int option"
  ev_expires_at :: "int option"
  ev_occurred_at :: int

text \<open>The view of a state: what a write answers and stores, and what a verification answers.\<close>

record grant_view =
  gv_event :: "int option"
  gv_sequence :: "int option"
  gv_policy_version :: "int option"
  gv_granted_at :: "int option"
  gv_expires_at :: "int option"

record withdrawal_view =
  wv_event :: "int option"
  wv_sequence :: "int option"
  wv_withdrawn_at :: "int option"

datatype basis =
    WriteBasis int consent_action "int option" "int option" string
  | StateBasis "int option" "int option" "int option" "int option" "int option" "int option"

record consent_view =
  cv_valid :: bool
  cv_status :: string
  cv_reason :: string
  cv_org :: int
  cv_subject_ref :: string
  cv_purpose_key :: string
  cv_state_version :: "int option"
  cv_grant :: "grant_view option"
  cv_withdrawal :: "withdrawal_view option"
  cv_basis :: "basis option"

text \<open>A stored response is \<open>None\<close> for the empty object that erasure leaves.\<close>

record idempotency =
  ik_id :: int
  ik_org :: int
  ik_subject :: "int option"
  ik_event :: string
  ik_fingerprint :: string
  ik_response :: "consent_view option"
  ik_erased :: bool
  ik_consent_event :: "int option"

datatype audit_value = AText string | AInt int | ABool bool

record audit_log =
  al_id :: int
  al_org :: int
  al_actor :: string
  al_role :: vault_role
  al_action :: string
  al_detail :: "(string \<times> audit_value) list"
  al_occurred_at :: int

record vault =
  organizations :: "organization list"
  api_keys :: "api_key list"
  subjects :: "subject list"
  export_copies :: "export_copy list"
  purposes :: "purpose list"
  policies :: "consent_policy list"
  policy_versions :: "policy_version list"
  states :: "consent_state list"
  events :: "consent_event list"
  idempotencies :: "idempotency list"
  audits :: "audit_log list"
  next_row :: int

section \<open>Constraints\<close>

definition vault_unique :: "vault \<Rightarrow> bool" where
  "vault_unique db \<longleftrightarrow>
     distinct (map og_id (organizations db)) \<and> distinct (map og_name (organizations db)) \<and>
     distinct (map ak_hash (api_keys db)) \<and>
     distinct (map sb_id (subjects db)) \<and> distinct (map (\<lambda>s. (sb_org s, sb_ref s)) (subjects db)) \<and>
     distinct (map (\<lambda>s. (sb_org s, sb_pseudonym s)) (subjects db)) \<and>
     distinct (map pu_id (purposes db)) \<and> distinct (map (\<lambda>p. (pu_org p, pu_key p)) (purposes db)) \<and>
     distinct (map po_id (policies db)) \<and> distinct (map (\<lambda>p. (po_org p, po_purpose p)) (policies db)) \<and>
     distinct (map (\<lambda>v. (vn_policy v, vn_version v)) (policy_versions db)) \<and>
     distinct (map cs_id (states db)) \<and> distinct (map (\<lambda>s. (cs_subject s, cs_purpose s)) (states db)) \<and>
     distinct (map (\<lambda>e. (ev_org e, ev_pseudonym e, ev_purpose e, ev_sequence e)) (events db)) \<and>
     distinct (map (\<lambda>i. (ik_org i, ik_event i)) (idempotencies db))"

definition vault_commit :: "vault \<Rightarrow> vault_error + vault" where
  "vault_commit db = (if vault_unique db then Inr db else Inl VaultIntegrity)"

lemma vault_commit_Inr [simp]: "vault_commit db = Inr db' \<longleftrightarrow> db' = db \<and> vault_unique db"
  by (auto simp: vault_commit_def)

section \<open>The deployment and the caller\<close>

text \<open>What the fingerprint of a write covers.\<close>

record write_payload =
  wp_action :: consent_action
  wp_subject_ref :: string
  wp_purpose_key :: string
  wp_expected :: int
  wp_policy_version :: "int option"
  wp_expires_at :: "int option"

text \<open>SHA-256 and the digest of a payload in canonical JSON are parameters, with the settings.\<close>

record vault_setup =
  vs_sha :: "string \<Rightarrow> string"
  vs_fingerprint :: "write_payload \<Rightarrow> string"
  vs_prod :: bool
  vs_management_key :: string
  vs_auditor_key :: "string option"

record principal =
  pc_org :: int
  pc_role :: vault_role
  pc_key :: int

definition int_text :: "int \<Rightarrow> string" where
  "int_text n = (if n < 0 then CHR ''-'' # dec_text (- n) else dec_text n)"

definition subject_pseudonym :: "vault_setup \<Rightarrow> int \<Rightarrow> string \<Rightarrow> string" where
  "subject_pseudonym su oid ref = vs_sha su (''subject:'' @ int_text oid @ '':'' @ ref)"

definition api_key_hash :: "vault_setup \<Rightarrow> string \<Rightarrow> string" where
  "api_key_hash su raw = vs_sha su (''apikey:'' @ raw)"

definition audit :: "vault_setup \<Rightarrow> principal \<Rightarrow> int \<Rightarrow> string \<Rightarrow> (string \<times> audit_value) list \<Rightarrow> vault \<Rightarrow> vault" where
  "audit su p now action detail db =
     db\<lparr>audits := audits db @ [\<lparr>al_id = next_row db, al_org = pc_org p, al_actor = vs_sha su (''key:'' @ int_text (pc_key p)),
           al_role = pc_role p, al_action = action, al_detail = detail, al_occurred_at = now\<rparr>],
        next_row := next_row db + 1\<rparr>"

end
