(* ===== verification/Consent_Write.thy ===== *)
theory Consent_Write
  imports Consent_Model
begin

text \<open>
  Purposes, policy versions and the write of a grant or withdrawal, alone and in a batch
  (\<open>text6/a/app/services.py\<close>). Every write holds the lock of its organization until its commit, so
  requests are serial; an error rolls the whole request back.
\<close>

section \<open>Lookups\<close>

definition get_purpose :: "int \<Rightarrow> string \<Rightarrow> vault \<Rightarrow> vault_error + purpose" where
  "get_purpose oid key db = someR (row_by (\<lambda>p. (pu_org p, pu_key p)) (oid, key) (purposes db)) vault_not_found"

definition find_subject :: "int \<Rightarrow> string \<Rightarrow> vault \<Rightarrow> subject option" where
  "find_subject oid ref db = row_by (\<lambda>s. (sb_org s, sb_ref s)) (oid, ref) (subjects db)"

text \<open>A new subject's pseudonym is salted with a fresh random text.\<close>

definition get_or_create_subject :: "vault_setup \<Rightarrow> int \<Rightarrow> string \<Rightarrow> string \<Rightarrow> vault \<Rightarrow> subject \<times> vault" where
  "get_or_create_subject su oid ref salt db =
     (case find_subject oid ref db of
        Some s \<Rightarrow> (s, db)
      | None \<Rightarrow>
          let s = \<lparr>sb_id = next_row db, sb_org = oid, sb_ref = ref, sb_pseudonym = subject_pseudonym su oid (ref @ ''#'' @ salt)\<rparr>
          in (s, db\<lparr>subjects := subjects db @ [s], next_row := next_row db + 1\<rparr>))"

definition find_state :: "int \<Rightarrow> int \<Rightarrow> vault \<Rightarrow> consent_state option" where
  "find_state sid pid db = row_by (\<lambda>s. (cs_subject s, cs_purpose s)) (sid, pid) (states db)"

definition expired :: "int \<Rightarrow> consent_state \<Rightarrow> bool" where
  "expired now s \<longleftrightarrow> cs_status s = Granted \<and> (case cs_expires_at s of None \<Rightarrow> False | Some t \<Rightarrow> t \<le> now)"

definition state_view :: "consent_state option \<Rightarrow> int \<Rightarrow> string \<Rightarrow> string \<Rightarrow> int \<Rightarrow> consent_view" where
  "state_view st oid ref key now =
     (case st of
        None \<Rightarrow> \<lparr>cv_valid = False, cv_status = ''no_record'', cv_reason = ''no_record'', cv_org = oid, cv_subject_ref = ref,
                 cv_purpose_key = key, cv_state_version = None, cv_grant = None, cv_withdrawal = None, cv_basis = None\<rparr>
      | Some s \<Rightarrow>
          let (status, reason, valid) =
            (if cs_status s = Granted \<and> \<not> expired now s then (''granted'', ''active_grant'', True)
             else if expired now s then (''granted'', ''expired'', False)
             else (''withdrawn'', ''withdrawn'', False))
          in \<lparr>cv_valid = valid, cv_status = status, cv_reason = reason, cv_org = oid, cv_subject_ref = ref, cv_purpose_key = key,
              cv_state_version = Some (cs_version s),
              cv_grant = Some \<lparr>gv_event = cs_granted_event s, gv_sequence = cs_granted_sequence s,
                gv_policy_version = cs_policy_version s, gv_granted_at = cs_granted_at s, gv_expires_at = cs_expires_at s\<rparr>,
              cv_withdrawal = (if cs_withdrawn_at s \<noteq> None
                then Some \<lparr>wv_event = cs_withdrawn_event s, wv_sequence = cs_withdrawn_sequence s, wv_withdrawn_at = cs_withdrawn_at s\<rparr>
                else None),
              cv_basis = None\<rparr>)"

section \<open>Purposes and policies\<close>

definition create_purpose :: "vault_setup \<Rightarrow> principal \<Rightarrow> int \<Rightarrow> string \<Rightarrow> string \<Rightarrow> vault \<Rightarrow> vault_error + purpose \<times> vault" where
  "create_purpose su p now key description db =
     (if pc_role p \<noteq> Admin then Inl vault_forbidden
      else let r = \<lparr>pu_id = next_row db, pu_org = pc_org p, pu_key = key, pu_description = description\<rparr>;
               db1 = db\<lparr>purposes := purposes db @ [r], next_row := next_row db + 1\<rparr>
      in if \<not> vault_unique db1 then Inl (vault_conflict ''conflict'')
         else bindR (vault_commit (audit su p now ''purpose.create'' [(''purpose_key'', AText key), (''purpose_id'', AInt (pu_id r))] db1))
                (\<lambda>db'. Inr (r, db')))"

text \<open>\<open>rank\<close> is the collation of texts.\<close>

definition list_purposes :: "(string \<Rightarrow> int) \<Rightarrow> principal \<Rightarrow> vault \<Rightarrow> purpose list" where
  "list_purposes rank p db = sort_key (\<lambda>r. rank (pu_key r)) (filter (\<lambda>r. pu_org r = pc_org p) (purposes db))"

definition find_policy :: "int \<Rightarrow> int \<Rightarrow> vault \<Rightarrow> consent_policy option" where
  "find_policy oid pid db = row_by (\<lambda>r. (po_org r, po_purpose r)) (oid, pid) (policies db)"

definition last_version :: "int \<Rightarrow> vault \<Rightarrow> int" where
  "last_version pol db =
     (case map vn_version (filter (\<lambda>v. vn_policy v = pol) (policy_versions db)) of [] \<Rightarrow> 0 | v # vs \<Rightarrow> fold max vs v)"

definition publish_policy_version ::
  "vault_setup \<Rightarrow> principal \<Rightarrow> int \<Rightarrow> string \<Rightarrow> string \<Rightarrow> vault \<Rightarrow> vault_error + policy_version \<times> vault" where
  "publish_policy_version su p now key body db =
     (if pc_role p \<noteq> Admin then Inl vault_forbidden
      else bindR (get_purpose (pc_org p) key db) (\<lambda>pu.
        let (pol, db1) = (case find_policy (pc_org p) (pu_id pu) db of
              Some r \<Rightarrow> (po_id r, db)
            | None \<Rightarrow> (next_row db, db\<lparr>policies := policies db @ [\<lparr>po_id = next_row db, po_org = pc_org p, po_purpose = pu_id pu\<rparr>],
                                      next_row := next_row db + 1\<rparr>));
            v = \<lparr>vn_id = next_row db1, vn_policy = pol, vn_org = pc_org p, vn_version = last_version pol db1 + 1, vn_body = body,
                 vn_published_at = now\<rparr>;
            db2 = db1\<lparr>policy_versions := policy_versions db1 @ [v], next_row := next_row db1 + 1\<rparr>
        in bindR (vault_commit (audit su p now ''policy.publish''
             [(''purpose_key'', AText key), (''policy_id'', AInt pol), (''version'', AInt (vn_version v))] db2)) (\<lambda>db'. Inr (v, db'))))"

definition list_policy_versions :: "principal \<Rightarrow> string \<Rightarrow> vault \<Rightarrow> vault_error + policy_version list" where
  "list_policy_versions p key db =
     bindR (get_purpose (pc_org p) key db) (\<lambda>pu.
       Inr (sort_key vn_version (filter (\<lambda>v. list_ex (\<lambda>r. po_id r = vn_policy v \<and> po_org r = pc_org p \<and> po_purpose r = pu_id pu)
                                               (policies db)) (policy_versions db))))"

section \<open>The write of an event\<close>

definition resolve_policy_version :: "int \<Rightarrow> purpose \<Rightarrow> int \<Rightarrow> vault \<Rightarrow> vault_error + policy_version" where
  "resolve_policy_version oid pu no db =
     (case find_policy oid (pu_id pu) db of
        None \<Rightarrow> Inl (vault_unprocessable ''unknown_policy_version'')
      | Some pol \<Rightarrow> someR (row_by (\<lambda>v. (vn_policy v, vn_version v)) (po_id pol, no) (policy_versions db))
                       (vault_unprocessable ''unknown_policy_version''))"

text \<open>A write, with the clock at that moment and the salt for a new subject.\<close>

record write_request =
  wr_event_id :: string
  wr_payload :: write_payload
  wr_now :: int
  wr_salt :: string

text \<open>The checks of the action; a grant yields the policy version it is bound to.\<close>

definition check_action :: "principal \<Rightarrow> int \<Rightarrow> purpose \<Rightarrow> write_payload \<Rightarrow> consent_state option \<Rightarrow> vault \<Rightarrow>
    vault_error + policy_version option" where
  "check_action p now pu w st db =
     (case wp_action w of
        Grant \<Rightarrow>
          (case wp_policy_version w of
             None \<Rightarrow> Inl (VaultCrash ''AssertionError'')
           | Some no \<Rightarrow>
               if (case wp_expires_at w of None \<Rightarrow> False | Some t \<Rightarrow> t \<le> now) then Inl (vault_unprocessable ''already_expired'')
               else bindR (resolve_policy_version (pc_org p) pu no db) (\<lambda>v. Inr (Some v)))
      | Withdrawal \<Rightarrow>
          (case st of
             None \<Rightarrow> Inl (vault_conflict ''no_consent'')
           | Some s \<Rightarrow> if cs_status s = Withdrawn then Inl (vault_conflict ''already_withdrawn'') else Inr None))"

definition stream :: "int \<Rightarrow> string \<Rightarrow> string \<Rightarrow> vault \<Rightarrow> consent_event list" where
  "stream oid pseudonym key db = filter (\<lambda>e. ev_org e = oid \<and> ev_pseudonym e = pseudonym \<and> ev_purpose e = key) (events db)"

definition next_sequence :: "int \<Rightarrow> string \<Rightarrow> string \<Rightarrow> vault \<Rightarrow> int" where
  "next_sequence oid pseudonym key db =
     (case map ev_sequence (stream oid pseudonym key db) of [] \<Rightarrow> 0 | n # ns \<Rightarrow> fold max ns n) + 1"

definition blank_state :: "int \<Rightarrow> int \<Rightarrow> int \<Rightarrow> int \<Rightarrow> int \<Rightarrow> consent_state" where
  "blank_state rid oid sid pid now =
     \<lparr>cs_id = rid, cs_org = oid, cs_subject = sid, cs_purpose = pid, cs_status = Withdrawn, cs_version = 0, cs_policy_version = None,
      cs_granted_event = None, cs_granted_sequence = None, cs_granted_at = None, cs_expires_at = None,
      cs_withdrawn_event = None, cs_withdrawn_sequence = None, cs_withdrawn_at = None, cs_updated_at = now\<rparr>"

definition write_state :: "int \<Rightarrow> write_payload \<Rightarrow> policy_version option \<Rightarrow> consent_event \<Rightarrow> consent_state \<Rightarrow> consent_state" where
  "write_state now w pv e s =
     (let s' = (case wp_action w of
          Grant \<Rightarrow> s\<lparr>cs_status := Granted, cs_policy_version := map_option vn_id pv, cs_granted_event := Some (ev_id e),
                     cs_granted_sequence := Some (ev_sequence e), cs_granted_at := Some now, cs_expires_at := wp_expires_at w,
                     cs_withdrawn_event := None, cs_withdrawn_sequence := None, cs_withdrawn_at := None\<rparr>
        | Withdrawal \<Rightarrow> s\<lparr>cs_status := Withdrawn, cs_withdrawn_event := Some (ev_id e),
                          cs_withdrawn_sequence := Some (ev_sequence e), cs_withdrawn_at := Some now\<rparr>)
      in s'\<lparr>cs_version := cs_version s + 1, cs_updated_at := now\<rparr>)"

definition put_state :: "int \<Rightarrow> int \<Rightarrow> int \<Rightarrow> int \<Rightarrow> (consent_state \<Rightarrow> consent_state) \<Rightarrow> vault \<Rightarrow> consent_state \<times> vault" where
  "put_state oid sid pid now f db =
     (case find_state sid pid db of
        Some s \<Rightarrow> (f s, db\<lparr>states := upd_by (\<lambda>s. (cs_subject s, cs_purpose s)) (sid, pid) f (states db)\<rparr>)
      | None \<Rightarrow> let s = f (blank_state (next_row db) oid sid pid now)
                in (s, db\<lparr>states := states db @ [s], next_row := next_row db + 1\<rparr>))"

text \<open>Event, state, idempotency row and audit entry of an accepted write.\<close>

definition record_event ::
  "vault_setup \<Rightarrow> principal \<Rightarrow> write_request \<Rightarrow> purpose \<Rightarrow> subject \<Rightarrow> policy_version option \<Rightarrow> vault \<Rightarrow> consent_view \<times> vault" where
  "record_event su p rq pu sb pv db =
     (let w = wr_payload rq; oid = pc_org p; now = wr_now rq;
          e = \<lparr>ev_id = next_row db, ev_org = oid, ev_pseudonym = sb_pseudonym sb, ev_purpose = pu_key pu, ev_type = wp_action w,
               ev_sequence = next_sequence oid (sb_pseudonym sb) (pu_key pu) db, ev_policy_version = wp_policy_version w,
               ev_expires_at = (if wp_action w = Grant then wp_expires_at w else None), ev_occurred_at = now\<rparr>;
          db1 = db\<lparr>events := events db @ [e], next_row := next_row db + 1\<rparr>;
          (s, db2) = put_state oid (sb_id sb) (pu_id pu) now (write_state now w pv e) db1;
          response = (state_view (Some s) oid (wp_subject_ref w) (pu_key pu) now)
            \<lparr>cv_basis := Some (WriteBasis (ev_sequence e) (ev_type e) (wp_policy_version w) (map_option vn_id pv) (wr_event_id rq))\<rparr>;
          db3 = db2\<lparr>idempotencies := idempotencies db2 @
                     [\<lparr>ik_id = next_row db2, ik_org = oid, ik_subject = Some (sb_id sb), ik_event = wr_event_id rq,
                       ik_fingerprint = vs_fingerprint su w, ik_response = Some response, ik_erased = False,
                       ik_consent_event = Some (ev_id e)\<rparr>],
                   next_row := next_row db2 + 1\<rparr>
      in (response, audit su p now (case wp_action w of Grant \<Rightarrow> ''consent.grant'' | Withdrawal \<Rightarrow> ''consent.withdrawal'')
            [(''purpose_key'', AText (pu_key pu)), (''subject_pseudonym'', AText (sb_pseudonym sb)), (''sequence'', AInt (ev_sequence e)),
             (''expected_version'', AInt (wp_expected w)), (''replayed'', ABool False)] db3))"

definition find_idempotency :: "int \<Rightarrow> string \<Rightarrow> vault \<Rightarrow> idempotency option" where
  "find_idempotency oid eid db = row_by (\<lambda>i. (ik_org i, ik_event i)) (oid, eid) (idempotencies db)"

text \<open>The outcome is the response (\<open>None\<close> for an empty one) and whether it was replayed.\<close>

definition write_event :: "vault_setup \<Rightarrow> principal \<Rightarrow> write_request \<Rightarrow> vault \<Rightarrow> vault_error + (consent_view option \<times> bool) \<times> vault" where
  "write_event su p rq db =
     (let w = wr_payload rq; oid = pc_org p
      in if pc_role p \<noteq> Admin then Inl vault_forbidden
         else case find_idempotency oid (wr_event_id rq) db of
           Some r \<Rightarrow>
             if ik_erased r then Inl (vault_gone ''subject_erased'')
             else if ik_fingerprint r \<noteq> vs_fingerprint su w then Inl (vault_conflict ''idempotency_mismatch'')
             else Inr ((ik_response r, True), db)
         | None \<Rightarrow>
             bindR (get_purpose oid (wp_purpose_key w) db) (\<lambda>pu.
               let (sb, db1) = get_or_create_subject su oid (wp_subject_ref w) (wr_salt rq) db;
                   st = find_state (sb_id sb) (pu_id pu) db1
               in if (case st of None \<Rightarrow> 0 | Some s \<Rightarrow> cs_version s) \<noteq> wp_expected w then Inl (vault_conflict ''version_conflict'')
                  else bindR (check_action p (wr_now rq) pu w st db1) (\<lambda>pv.
                       let (response, db2) = record_event su p rq pu sb pv db1
                       in Inr ((Some response, False), db2))))"

definition write_and_commit :: "vault_setup \<Rightarrow> principal \<Rightarrow> write_request \<Rightarrow> vault \<Rightarrow> vault_error + (consent_view option \<times> bool) \<times> vault" where
  "write_and_commit su p rq db =
     bindR (write_event su p rq db) (\<lambda>(out, db1). bindR (vault_commit db1) (\<lambda>db'. Inr (out, db')))"

section \<open>Batches\<close>

type_synonym batch_state = "string list \<times> nat \<times> (string \<times> consent_view option) list \<times> vault"

definition batch_item :: "vault_setup \<Rightarrow> principal \<Rightarrow> batch_state \<Rightarrow> write_request \<Rightarrow> vault_error + batch_state" where
  "batch_item su p acc rq =
     (case acc of (seen, imported, answers, db) \<Rightarrow>
        if wr_event_id rq \<in> set seen then Inl (vault_conflict ''duplicate_in_batch'')
        else bindR (write_event su p rq db) (\<lambda>((response, replayed), db').
             Inr (seen @ [wr_event_id rq], (if replayed then imported else imported + 1), answers @ [(wr_event_id rq, response)], db')))"

definition batch_import :: "vault_setup \<Rightarrow> principal \<Rightarrow> write_request list \<Rightarrow> vault \<Rightarrow>
    vault_error + (nat \<times> (string \<times> consent_view option) list) \<times> vault" where
  "batch_import su p rqs db =
     (if length rqs > 500 then Inl (vault_unprocessable ''batch_too_large'')
      else bindR (foldR (batch_item su p) ([], 0, [], db) rqs) (\<lambda>(_, imported, answers, db1).
           bindR (vault_commit db1) (\<lambda>db'. Inr ((imported, answers), db'))))"

end
