(* ===== verification/Consent_Service.thy ===== *)
theory Consent_Service
  imports Consent_Write
begin

text \<open>
  Verification, history, export copies, erasure (\<open>text6/a/app/services.py\<close>) and the rebuild of the
  projection from the history (\<open>services_rebuild.py\<close>).
\<close>

section \<open>Queries\<close>

definition verify_consent :: "principal \<Rightarrow> int \<Rightarrow> string \<Rightarrow> string \<Rightarrow> vault \<Rightarrow> vault_error + consent_view" where
  "verify_consent p now ref key db =
     bindR (get_purpose (pc_org p) key db) (\<lambda>pu.
       let st = (case find_subject (pc_org p) ref db of None \<Rightarrow> None | Some s \<Rightarrow> find_state (sb_id s) (pu_id pu) db);
           view = state_view st (pc_org p) ref key now
       in case st of
            None \<Rightarrow> Inr view
          | Some s \<Rightarrow>
              let no = (case cs_policy_version s of None \<Rightarrow> None
                        | Some i \<Rightarrow> map_option vn_version (row_by vn_id i (policy_versions db)));
                  valid = (cs_status s = Granted \<and> (case cs_expires_at s of None \<Rightarrow> True | Some t \<Rightarrow> t > now))
              in Inr (view\<lparr>cv_basis := Some (StateBasis (cs_granted_event s) (cs_granted_sequence s) (cs_withdrawn_event s)
                             (cs_withdrawn_sequence s) no (cs_policy_version s)),
                           cv_valid := valid,
                           cv_reason := (if cs_status s = Withdrawn then ''withdrawn''
                                         else if \<not> valid then ''expired'' else ''active_grant'')\<rparr>))"

definition history_for :: "principal \<Rightarrow> string \<Rightarrow> string \<Rightarrow> vault \<Rightarrow> vault_error + consent_event list" where
  "history_for p ref key db =
     bindR (someR (find_subject (pc_org p) ref db) vault_not_found) (\<lambda>s.
     bindR (get_purpose (pc_org p) key db) (\<lambda>_.
       Inr (sort_key ev_sequence (stream (pc_org p) (sb_pseudonym s) key db))))"

definition history_by_pseudonym :: "principal \<Rightarrow> string \<Rightarrow> string option \<Rightarrow> vault \<Rightarrow> consent_event list" where
  "history_by_pseudonym p pseudonym key db =
     sort_key ev_sequence (filter (\<lambda>e. ev_org e = pc_org p \<and> ev_pseudonym e = pseudonym \<and>
       (case key of None \<Rightarrow> True | Some k \<Rightarrow> k = [] \<or> ev_purpose e = k)) (events db))"

definition newest_first :: "audit_log list \<Rightarrow> audit_log list" where
  "newest_first als = sort_key (\<lambda>a. - al_occurred_at a) (sort_key (\<lambda>a. - al_id a) als)"

definition list_audit_logs :: "principal \<Rightarrow> nat \<Rightarrow> vault \<Rightarrow> audit_log list" where
  "list_audit_logs p limit db = take limit (newest_first (filter (\<lambda>a. al_org a = pc_org p) (audits db)))"

section \<open>Export copies and erasure\<close>

definition register_export_copy :: "vault_setup \<Rightarrow> principal \<Rightarrow> int \<Rightarrow> string \<Rightarrow> string \<Rightarrow> vault \<Rightarrow> vault_error + export_copy \<times> vault" where
  "register_export_copy su p now ref label db =
     (if pc_role p \<noteq> Admin then Inl vault_forbidden
      else bindR (someR (find_subject (pc_org p) ref db) vault_not_found) (\<lambda>s.
        let c = \<lparr>xc_id = next_row db, xc_org = pc_org p, xc_subject = sb_id s, xc_label = take 200 label\<rparr>;
            db1 = db\<lparr>export_copies := export_copies db @ [c], next_row := next_row db + 1\<rparr>
        in bindR (vault_commit (audit su p now ''subject.export_copy''
             [(''subject_pseudonym'', AText (sb_pseudonym s)), (''copy_id'', AInt (xc_id c))] db1)) (\<lambda>db'. Inr (c, db'))))"

definition tombstone :: "idempotency \<Rightarrow> idempotency" where
  "tombstone i = i\<lparr>ik_subject := None, ik_response := None, ik_erased := True\<rparr>"

definition erase :: "int \<Rightarrow> vault \<Rightarrow> vault" where
  "erase sid db =
     db\<lparr>states := filter (\<lambda>s. cs_subject s \<noteq> sid) (states db),
        export_copies := filter (\<lambda>c. xc_subject c \<noteq> sid) (export_copies db),
        idempotencies := upd_by ik_subject (Some sid) tombstone (idempotencies db),
        subjects := filter (\<lambda>s. sb_id s \<noteq> sid) (subjects db)\<rparr>"

record erasure_counts =
  ec_states :: nat
  ec_history :: nat
  ec_audits :: nat

definition delete_subject :: "vault_setup \<Rightarrow> principal \<Rightarrow> int \<Rightarrow> string \<Rightarrow> vault \<Rightarrow> vault_error + erasure_counts \<times> vault" where
  "delete_subject su p now ref db =
     (if pc_role p \<noteq> Admin then Inl vault_forbidden
      else bindR (someR (find_subject (pc_org p) ref db) vault_not_found) (\<lambda>s.
        let n_states = length (filter (\<lambda>x. cs_subject x = sb_id s) (states db));
            n_copies = length (filter (\<lambda>c. xc_subject c = sb_id s) (export_copies db));
            n_idem = length (filter (\<lambda>i. ik_subject i = Some (sb_id s)) (idempotencies db));
            n_history = length (filter (\<lambda>e. ev_org e = pc_org p \<and> ev_pseudonym e = sb_pseudonym s) (events db));
            n_audit = length (filter (\<lambda>a. al_org a = pc_org p) (audits db))
        in bindR (vault_commit (audit su p now ''subject.delete''
             [(''subject_pseudonym'', AText (sb_pseudonym s)), (''deleted_states'', AInt (int n_states)),
              (''deleted_export_copies'', AInt (int n_copies)), (''deleted_idempotency_snapshots'', AInt (int n_idem)),
              (''retained_history_events'', AInt (int n_history))] (erase (sb_id s) db)))
           (\<lambda>db'. Inr (\<lparr>ec_states = n_states, ec_history = n_history, ec_audits = n_audit + 1\<rparr>, db'))))"

section \<open>Rebuild\<close>

text \<open>A purpose with its policy, by key.\<close>

definition purpose_map :: "int \<Rightarrow> vault \<Rightarrow> (string \<times> int \<times> int) list" where
  "purpose_map oid db =
     concat (map (\<lambda>pu. map (\<lambda>po. (pu_key pu, pu_id pu, po_id po)) (filter (\<lambda>po. po_purpose po = pu_id pu) (policies db)))
       (filter (\<lambda>pu. pu_org pu = oid) (purposes db)))"

definition policy_version_map :: "int \<Rightarrow> vault \<Rightarrow> ((int \<times> int) \<times> int) list" where
  "policy_version_map oid db = map (\<lambda>v. ((vn_policy v, vn_version v), vn_id v)) (filter (\<lambda>v. vn_org v = oid) (policy_versions db))"

definition replay_state :: "int \<Rightarrow> ((int \<times> int) \<times> int) list \<Rightarrow> consent_state \<Rightarrow> consent_event \<Rightarrow> consent_state" where
  "replay_state pol vmap s e =
     (let s' = (case ev_type e of
          Grant \<Rightarrow> s\<lparr>cs_status := Granted,
                     cs_policy_version := (case ev_policy_version e of None \<Rightarrow> None | Some no \<Rightarrow> map_of vmap (pol, no)),
                     cs_granted_event := Some (ev_id e), cs_granted_sequence := Some (ev_sequence e),
                     cs_granted_at := Some (ev_occurred_at e), cs_expires_at := ev_expires_at e,
                     cs_withdrawn_event := None, cs_withdrawn_sequence := None, cs_withdrawn_at := None\<rparr>
        | Withdrawal \<Rightarrow> s\<lparr>cs_status := Withdrawn, cs_withdrawn_event := Some (ev_id e),
                          cs_withdrawn_sequence := Some (ev_sequence e), cs_withdrawn_at := Some (ev_occurred_at e)\<rparr>)
      in s'\<lparr>cs_version := cs_version s + 1, cs_updated_at := ev_occurred_at e\<rparr>)"

text \<open>The dictionary of rebuilt states, in the order of insertion.\<close>

type_synonym state_dict = "((string \<times> string) \<times> consent_state) list"

definition apply_event ::
  "int \<Rightarrow> int \<Rightarrow> (string \<times> int \<times> int) list \<Rightarrow> ((int \<times> int) \<times> int) list \<Rightarrow> subject list \<Rightarrow> consent_event \<Rightarrow> state_dict \<Rightarrow> state_dict" where
  "apply_event base oid pmap vmap sbs e dict =
     (case (row_by sb_pseudonym (ev_pseudonym e) sbs, map_of pmap (ev_purpose e)) of
        (Some sb, Some (pid, pol)) \<Rightarrow>
          let k = (ev_pseudonym e, ev_purpose e)
          in (case map_of dict k of
                None \<Rightarrow> dict @ [(k, replay_state pol vmap (blank_state (base + int (length dict)) oid (sb_id sb) pid (ev_occurred_at e)) e)]
              | Some _ \<Rightarrow> map (\<lambda>(k', s). (k', if k' = k then replay_state pol vmap s e else s)) dict)
      | _ \<Rightarrow> dict)"

text \<open>The order of the replay: by pseudonym, then purpose, then sequence; \<open>rank\<close> is the collation of texts.\<close>

definition replay_order :: "(string \<Rightarrow> int) \<Rightarrow> consent_event list \<Rightarrow> consent_event list" where
  "replay_order rank es = sort_key (\<lambda>e. rank (ev_pseudonym e)) (sort_key (\<lambda>e. rank (ev_purpose e)) (sort_key ev_sequence es))"

definition rebuild_organization :: "(string \<Rightarrow> int) \<Rightarrow> int \<Rightarrow> vault \<Rightarrow> (nat \<times> nat) \<times> vault" where
  "rebuild_organization rank oid db =
     (let es = replay_order rank (filter (\<lambda>e. ev_org e = oid) (events db));
          dict = fold (apply_event (next_row db) oid (purpose_map oid db) (policy_version_map oid db)
                         (filter (\<lambda>s. sb_org s = oid) (subjects db))) es []
      in ((length dict, length es),
          db\<lparr>states := filter (\<lambda>s. cs_org s \<noteq> oid) (states db) @ map snd dict, next_row := next_row db + int (length dict)\<rparr>))"

definition rebuild_states :: "vault_setup \<Rightarrow> (string \<Rightarrow> int) \<Rightarrow> principal \<Rightarrow> int \<Rightarrow> int \<Rightarrow> vault \<Rightarrow> vault_error + (nat \<times> nat) \<times> vault" where
  "rebuild_states su rank p now took db =
     (if pc_role p \<noteq> Admin then Inl vault_forbidden
      else let ((materialized, replayed), db1) = rebuild_organization rank (pc_org p) db
      in bindR (vault_commit (audit su p now ''state.rebuild''
           [(''materialized'', AInt (int materialized)), (''replayed_events'', AInt (int replayed)), (''took_ms'', AInt took)] db1))
         (\<lambda>db'. Inr ((materialized, replayed), db')))"

section \<open>Organizations\<close>

definition create_organization :: "vault_setup \<Rightarrow> string \<Rightarrow> string \<Rightarrow> string \<Rightarrow> vault \<Rightarrow> vault_error + int \<times> vault" where
  "create_organization su name admin_raw auditor_raw db =
     (if row_by og_name name (organizations db) \<noteq> None then Inl (vault_conflict ''conflict'')
      else let n = next_row db
      in bindR (vault_commit (db\<lparr>organizations := organizations db @ [\<lparr>og_id = n, og_name = name\<rparr>],
           api_keys := api_keys db @
             [\<lparr>ak_id = n + 1, ak_org = n, ak_hash = api_key_hash su admin_raw, ak_role = Admin, ak_active = True\<rparr>,
              \<lparr>ak_id = n + 2, ak_org = n, ak_hash = api_key_hash su auditor_raw, ak_role = Auditor, ak_active = True\<rparr>],
           next_row := n + 3\<rparr>)) (\<lambda>db'. Inr (n, db')))"

end
