(* ===== verification/Consent_Api.thy ===== *)
theory Consent_Api
  imports Consent_Service
begin

text \<open>
  Authentication by API key and the endpoints (\<open>text6/a/app/auth.py\<close>, \<open>routers.py\<close>, \<open>management.py\<close>,
  \<open>schemas.py\<close>). \<open>vault_step\<close> is one request, an error leaving the database as it was.
\<close>

section \<open>Authentication\<close>

record credentials =
  cr_api_key :: "string option"
  cr_authorization :: "string option"

text \<open>\<open>split(" ", 1)\<close> and the scheme in lower case.\<close>

definition bearer_token :: "string \<Rightarrow> string option" where
  "bearer_token h =
     (let scheme = takeWhile (\<lambda>c. c \<noteq> CHR '' '') h; rest = dropWhile (\<lambda>c. c \<noteq> CHR '' '') h
      in if rest \<noteq> [] \<and> map to_lower scheme = ''bearer'' then Some (strip (tl rest)) else None)"

definition extract_key :: "credentials \<Rightarrow> vault_error + string" where
  "extract_key cr =
     (case cr_api_key cr of
        Some (c # k) \<Rightarrow> Inr (strip (c # k))
      | _ \<Rightarrow> (case cr_authorization cr of
                Some (c # h) \<Rightarrow> someR (bearer_token (c # h)) vault_unauthorized
              | _ \<Rightarrow> Inl vault_unauthorized))"

definition effective_auditor_key :: "vault_setup \<Rightarrow> string" where
  "effective_auditor_key su = or_default (vs_auditor_key su) (vs_management_key su)"

definition first_organization :: "vault \<Rightarrow> organization option" where
  "first_organization db = (case sort_key og_id (organizations db) of [] \<Rightarrow> None | o1 # _ \<Rightarrow> Some o1)"

definition dev_principal :: "vault_setup \<Rightarrow> string \<Rightarrow> vault \<Rightarrow> principal option" where
  "dev_principal su raw db =
     (if vs_prod su then None
      else case first_organization db of
        None \<Rightarrow> None
      | Some o1 \<Rightarrow>
          if raw = vs_management_key su then Some \<lparr>pc_org = og_id o1, pc_role = Admin, pc_key = -1\<rparr>
          else if raw = effective_auditor_key su then Some \<lparr>pc_org = og_id o1, pc_role = Auditor, pc_key = -2\<rparr>
          else None)"

definition authenticate :: "vault_setup \<Rightarrow> credentials \<Rightarrow> vault \<Rightarrow> vault_error + principal" where
  "authenticate su cr db =
     bindR (extract_key cr) (\<lambda>raw.
       case find (\<lambda>k. ak_hash k = api_key_hash su raw \<and> ak_active k) (api_keys db) of
         Some k \<Rightarrow> Inr \<lparr>pc_org = ak_org k, pc_role = ak_role k, pc_key = ak_id k\<rparr>
       | None \<Rightarrow> someR (dev_principal su raw db) vault_unauthorized)"

definition require_admin :: "vault_setup \<Rightarrow> credentials \<Rightarrow> vault \<Rightarrow> vault_error + principal" where
  "require_admin su cr db = bindR (authenticate su cr db) (\<lambda>p. if pc_role p \<noteq> Admin then Inl vault_forbidden else Inr p)"

definition require_management_key :: "vault_setup \<Rightarrow> string option \<Rightarrow> vault_error + unit" where
  "require_management_key su key =
     (case key of Some (c # k) \<Rightarrow> if c # k = vs_management_key su then Inr () else Inl vault_unauthorized
                | _ \<Rightarrow> Inl vault_unauthorized)"

section \<open>Bodies\<close>

definition text_ok :: "int \<Rightarrow> int \<Rightarrow> string \<Rightarrow> bool" where
  "text_ok low high s \<longleftrightarrow> low \<le> int (length s) \<and> int (length s) \<le> high"

definition purpose_body_ok :: "string \<Rightarrow> string \<Rightarrow> bool" where
  "purpose_body_ok key description \<longleftrightarrow> text_ok 1 100 key \<and> text_ok 0 500 description"

definition policy_body_ok :: "string \<Rightarrow> bool" where
  "policy_body_ok body \<longleftrightarrow> text_ok 1 100000 body"

text \<open>A grant names a policy version from 1 on; a withdrawal has none, and no expiry.\<close>

definition write_body_ok :: "write_request \<Rightarrow> bool" where
  "write_body_ok rq \<longleftrightarrow>
     (let w = wr_payload rq
      in text_ok 1 100 (wr_event_id rq) \<and> 0 \<le> wp_expected w \<and> text_ok 1 200 (wp_subject_ref w) \<and> text_ok 1 100 (wp_purpose_key w) \<and>
         (case wp_action w of
            Grant \<Rightarrow> (case wp_policy_version w of None \<Rightarrow> False | Some no \<Rightarrow> 1 \<le> no)
          | Withdrawal \<Rightarrow> wp_policy_version w = None \<and> wp_expires_at w = None))"

definition batch_body_ok :: "write_request list \<Rightarrow> bool" where
  "batch_body_ok rqs \<longleftrightarrow> 1 \<le> length rqs \<and> length rqs \<le> 500 \<and> list_all write_body_ok rqs"

definition export_body_ok :: "string \<Rightarrow> bool" where
  "export_body_ok label \<longleftrightarrow> text_ok 1 200 label"

section \<open>Endpoints\<close>

definition with_admin :: "vault_setup \<Rightarrow> credentials \<Rightarrow> bool \<Rightarrow> (principal \<Rightarrow> vault \<Rightarrow> vault_error + 'a) \<Rightarrow> vault \<Rightarrow> vault_error + 'a" where
  "with_admin su cr ok f db = bindR (require_admin su cr db) (\<lambda>p. bindR (guardR ok BadBody) (\<lambda>_. f p db))"

definition post_purpose :: "vault_setup \<Rightarrow> credentials \<Rightarrow> int \<Rightarrow> string \<Rightarrow> string \<Rightarrow> vault \<Rightarrow> vault_error + purpose \<times> vault" where
  "post_purpose su cr now key description =
     with_admin su cr (purpose_body_ok key description) (\<lambda>p. create_purpose su p now key description)"

definition post_policy :: "vault_setup \<Rightarrow> credentials \<Rightarrow> int \<Rightarrow> string \<Rightarrow> string \<Rightarrow> vault \<Rightarrow> vault_error + policy_version \<times> vault" where
  "post_policy su cr now key body = with_admin su cr (policy_body_ok body) (\<lambda>p. publish_policy_version su p now key body)"

definition post_event :: "vault_setup \<Rightarrow> credentials \<Rightarrow> write_request \<Rightarrow> vault \<Rightarrow> vault_error + (consent_view option \<times> bool) \<times> vault" where
  "post_event su cr rq = with_admin su cr (write_body_ok rq) (\<lambda>p. write_and_commit su p rq)"

definition post_batch :: "vault_setup \<Rightarrow> credentials \<Rightarrow> write_request list \<Rightarrow> vault \<Rightarrow>
    vault_error + (nat \<times> (string \<times> consent_view option) list) \<times> vault" where
  "post_batch su cr rqs = with_admin su cr (batch_body_ok rqs) (\<lambda>p. batch_import su p rqs)"

definition get_verify :: "vault_setup \<Rightarrow> credentials \<Rightarrow> int \<Rightarrow> string \<Rightarrow> string \<Rightarrow> vault \<Rightarrow> vault_error + consent_view" where
  "get_verify su cr now ref key db = bindR (authenticate su cr db) (\<lambda>p. verify_consent p now ref key db)"

definition get_history :: "vault_setup \<Rightarrow> credentials \<Rightarrow> string \<Rightarrow> string \<Rightarrow> vault \<Rightarrow> vault_error + consent_event list" where
  "get_history su cr ref key db = bindR (authenticate su cr db) (\<lambda>p. history_for p ref key db)"

definition post_rebuild :: "vault_setup \<Rightarrow> (string \<Rightarrow> int) \<Rightarrow> credentials \<Rightarrow> int \<Rightarrow> int \<Rightarrow> vault \<Rightarrow> vault_error + (nat \<times> nat) \<times> vault" where
  "post_rebuild su rank cr now took = with_admin su cr True (\<lambda>p. rebuild_states su rank p now took)"

definition remove_subject :: "vault_setup \<Rightarrow> credentials \<Rightarrow> int \<Rightarrow> string \<Rightarrow> vault \<Rightarrow> vault_error + erasure_counts \<times> vault" where
  "remove_subject su cr now ref = with_admin su cr True (\<lambda>p. delete_subject su p now ref)"

definition post_export_copy :: "vault_setup \<Rightarrow> credentials \<Rightarrow> int \<Rightarrow> string \<Rightarrow> string \<Rightarrow> vault \<Rightarrow> vault_error + export_copy \<times> vault" where
  "post_export_copy su cr now ref label = with_admin su cr (export_body_ok label) (\<lambda>p. register_export_copy su p now ref label)"

definition get_audit_logs :: "vault_setup \<Rightarrow> credentials \<Rightarrow> nat \<Rightarrow> vault \<Rightarrow> vault_error + audit_log list" where
  "get_audit_logs su cr limit db = bindR (authenticate su cr db) (\<lambda>p. Inr (list_audit_logs p (min limit 500) db))"

definition post_organization :: "vault_setup \<Rightarrow> string option \<Rightarrow> string \<Rightarrow> string \<Rightarrow> string \<Rightarrow> vault \<Rightarrow> vault_error + int \<times> vault" where
  "post_organization su key raw_name admin_raw auditor_raw db =
     bindR (require_management_key su key) (\<lambda>_.
       let name = strip raw_name
       in if name = [] then Inl (VaultError 400 ''bad_request'') else create_organization su name admin_raw auditor_raw db)"

definition vault_error_status :: "vault_error \<Rightarrow> int" where
  "vault_error_status err = (case err of VaultError status code \<Rightarrow> status | BadBody \<Rightarrow> 422 | _ \<Rightarrow> 500)"

section \<open>Requests\<close>

datatype vault_op =
    PostOrganization "string option" string string string
  | PostPurpose credentials int string string
  | PostPolicy credentials int string string
  | PostEvent credentials write_request
  | PostBatch credentials "write_request list"
  | PostRebuild credentials int int
  | RemoveSubject credentials int string
  | PostExportCopy credentials int string string

definition new_db :: "vault_error + 'a \<times> vault \<Rightarrow> vault_error + vault" where
  "new_db r = bindR r (\<lambda>(_, db). Inr db)"

definition vault_request :: "vault_setup \<Rightarrow> (string \<Rightarrow> int) \<Rightarrow> vault_op \<Rightarrow> vault \<Rightarrow> vault_error + vault" where
  "vault_request su rank op db =
     (case op of
        PostOrganization key name admin_raw auditor_raw \<Rightarrow> new_db (post_organization su key name admin_raw auditor_raw db)
      | PostPurpose cr now key description \<Rightarrow> new_db (post_purpose su cr now key description db)
      | PostPolicy cr now key body \<Rightarrow> new_db (post_policy su cr now key body db)
      | PostEvent cr rq \<Rightarrow> new_db (post_event su cr rq db)
      | PostBatch cr rqs \<Rightarrow> new_db (post_batch su cr rqs db)
      | PostRebuild cr now took \<Rightarrow> new_db (post_rebuild su rank cr now took db)
      | RemoveSubject cr now ref \<Rightarrow> new_db (remove_subject su cr now ref db)
      | PostExportCopy cr now ref label \<Rightarrow> new_db (post_export_copy su cr now ref label db))"

definition vault_step :: "vault_setup \<Rightarrow> (string \<Rightarrow> int) \<Rightarrow> vault_op \<Rightarrow> vault \<Rightarrow> vault" where
  "vault_step su rank op db = (case vault_request su rank op db of Inl _ \<Rightarrow> db | Inr db' \<Rightarrow> db')"

definition vault_run :: "vault_setup \<Rightarrow> (string \<Rightarrow> int) \<Rightarrow> vault_op list \<Rightarrow> vault \<Rightarrow> vault" where
  "vault_run su rank ops db = fold (vault_step su rank) ops db"

definition vault_empty :: vault where
  "vault_empty = \<lparr>organizations = [], api_keys = [], subjects = [], export_copies = [], purposes = [], policies = [],
     policy_versions = [], states = [], events = [], idempotencies = [], audits = [], next_row = 1\<rparr>"

end
