(* ===== verification/Consent_Replay.thy ===== *)
theory Consent_Replay
  imports Consent_Api
begin

text \<open>
  The contract of the projection: the state of a subject for a purpose is the replay of the stream of
  its events. What a write does to a state is what the replay does with its event, and the rebuild
  computes the replay of every stream.
\<close>

section \<open>Replay of a stream\<close>

definition state_core :: "consent_state \<Rightarrow> consent_state" where
  "state_core s = s\<lparr>cs_id := 0\<rparr>"

definition policy_id :: "int \<Rightarrow> int \<Rightarrow> vault \<Rightarrow> int" where
  "policy_id oid pid db = (case find_policy oid pid db of None \<Rightarrow> 0 | Some po \<Rightarrow> po_id po)"

definition replay :: "int \<Rightarrow> ((int \<times> int) \<times> int) list \<Rightarrow> int \<Rightarrow> int \<Rightarrow> int \<Rightarrow> int \<Rightarrow> consent_event list \<Rightarrow> consent_state option" where
  "replay pol vmap rid oid sid pid es =
     (case es of [] \<Rightarrow> None
      | e # _ \<Rightarrow> Some (foldl (replay_state pol vmap) (blank_state rid oid sid pid (ev_occurred_at e)) es))"

text \<open>What the history says about a subject and a purpose.\<close>

definition replayed :: "vault \<Rightarrow> subject \<Rightarrow> purpose \<Rightarrow> consent_state option" where
  "replayed db sb pu =
     replay (policy_id (sb_org sb) (pu_id pu) db) (policy_version_map (sb_org sb) db) 0 (sb_org sb) (sb_id sb) (pu_id pu)
       (stream (sb_org sb) (sb_pseudonym sb) (pu_key pu) db)"

lemma replay_state_core: "state_core (replay_state pol vmap s e) = replay_state pol vmap (state_core s) e"
  by (simp add: state_core_def replay_state_def Let_def split: consent_action.split)

lemma foldl_replay_core: "state_core (foldl (replay_state pol vmap) s es) = foldl (replay_state pol vmap) (state_core s) es"
  by (induction es arbitrary: s) (simp_all add: replay_state_core)

lemma blank_core: "state_core (blank_state rid oid sid pid now) = blank_state 0 oid sid pid now"
  by (simp add: state_core_def blank_state_def)

lemma replay_core: "map_option state_core (replay pol vmap rid oid sid pid es) = replay pol vmap 0 oid sid pid es"
  by (simp add: replay_def foldl_replay_core blank_core del: foldl_Cons split: list.split)

lemma replay_snoc:
  "replay pol vmap rid oid sid pid (es @ [e]) =
     Some (replay_state pol vmap (case replay pol vmap rid oid sid pid es of None \<Rightarrow> blank_state rid oid sid pid (ev_occurred_at e) | Some s \<Rightarrow> s) e)"
  by (cases es) (simp_all add: replay_def)

lemma foldl_replay_cong:
  assumes "\<And>e no. e \<in> set es \<Longrightarrow> ev_type e = Grant \<Longrightarrow> ev_policy_version e = Some no \<Longrightarrow> map_of vmap (pol, no) = map_of vmap' (pol', no)"
  shows "foldl (replay_state pol vmap) s es = foldl (replay_state pol' vmap') s es"
  using assms
proof (induction es arbitrary: s)
  case (Cons e es)
  have "replay_state pol vmap s e = replay_state pol' vmap' s e"
    using Cons.prems[of e] by (simp add: replay_state_def Let_def split: consent_action.split option.split)
  moreover have "foldl (replay_state pol vmap) s' es = foldl (replay_state pol' vmap') s' es" for s'
    by (rule Cons.IH) (rule Cons.prems, auto)
  ultimately show ?case by simp
qed simp

lemma replay_cong:
  assumes "\<And>e no. e \<in> set es \<Longrightarrow> ev_type e = Grant \<Longrightarrow> ev_policy_version e = Some no \<Longrightarrow> map_of vmap (pol, no) = map_of vmap' (pol', no)"
  shows "replay pol vmap rid oid sid pid es = replay pol' vmap' rid oid sid pid es"
proof -
  have "foldl (replay_state pol vmap) s es = foldl (replay_state pol' vmap') s es" for s by (rule foldl_replay_cong[OF assms])
  then show ?thesis by (cases es) (simp_all add: replay_def del: foldl_Cons)
qed

lemma foldl_version: "cs_version (foldl (replay_state pol vmap) s es) = cs_version s + int (length es)"
  by (induction es arbitrary: s) (simp_all add: replay_state_def Let_def split: consent_action.split)

lemma foldl_keys:
  "cs_id (foldl (replay_state pol vmap) s es) = cs_id s \<and> cs_org (foldl (replay_state pol vmap) s es) = cs_org s \<and>
   cs_subject (foldl (replay_state pol vmap) s es) = cs_subject s \<and> cs_purpose (foldl (replay_state pol vmap) s es) = cs_purpose s"
  by (induction es arbitrary: s) (simp_all add: replay_state_def Let_def split: consent_action.split)

lemma replay_keys:
  assumes "replay pol vmap rid oid sid pid es = Some s"
  shows "cs_id s = rid" "cs_org s = oid" "cs_subject s = sid" "cs_purpose s = pid" "cs_version s = int (length es)"
  using assms foldl_keys[of pol vmap "blank_state rid oid sid pid (ev_occurred_at (hd es))" es]
    foldl_version[of pol vmap "blank_state rid oid sid pid (ev_occurred_at (hd es))" es]
  by (auto simp: replay_def blank_state_def simp del: foldl_Cons split: list.splits)

text \<open>The last event decides the status and the expiry.\<close>

lemma replay_last:
  assumes "es \<noteq> []"
  shows "\<exists>s. replay pol vmap rid oid sid pid es = Some s \<and>
    (cs_status s = Granted \<longleftrightarrow> ev_type (last es) = Grant) \<and>
    (ev_type (last es) = Grant \<longrightarrow> cs_expires_at s = ev_expires_at (last es) \<and> cs_granted_event s = Some (ev_id (last es)))"
proof -
  have "es = butlast es @ [last es]" using assms by simp
  then obtain xs e where es: "es = xs @ [e]" "e = last es" by metis
  show ?thesis unfolding es(2)[symmetric] unfolding es(1) replay_snoc
    by (simp add: replay_state_def Let_def split: consent_action.split)
qed

text \<open>A write changes a state as the replay of its event does.\<close>

lemma write_is_replay:
  assumes "ev_type e = wp_action w" "ev_occurred_at e = now" "ev_policy_version e = wp_policy_version w"
    and "ev_expires_at e = (if wp_action w = Grant then wp_expires_at w else None)"
    and "wp_action w = Grant \<Longrightarrow> \<exists>no v. wp_policy_version w = Some no \<and> pv = Some v \<and> map_of vmap (pol, no) = Some (vn_id v)"
  shows "write_state now w pv e s = replay_state pol vmap s e"
proof (cases "wp_action w")
  case Grant
  with assms(5) obtain no v where "wp_policy_version w = Some no" "pv = Some v" "map_of vmap (pol, no) = Some (vn_id v)" by blast
  with Grant assms(1-4) show ?thesis by (simp add: write_state_def replay_state_def Let_def)
next
  case Withdrawal
  with assms(1-4) show ?thesis by (simp add: write_state_def replay_state_def Let_def)
qed

section \<open>The rebuild\<close>

lemma sort_key_same: "(\<And>x y. x \<in> set xs \<Longrightarrow> y \<in> set xs \<Longrightarrow> f x = f y) \<Longrightarrow> sort_key f xs = xs"
proof (induction xs)
  case (Cons x xs)
  then have "sort_key f xs = xs" by simp
  moreover have "f x \<le> f y" if "y \<in> set xs" for y using Cons.prems[of x y] that by simp
  then have "insort_key f x xs = x # xs" by (intro insort_is_Cons) blast
  ultimately show ?case by simp
qed simp

lemma filter_sort_const:
  assumes "\<And>x y. P x \<Longrightarrow> P y \<Longrightarrow> f x = f y"
  shows "filter P (sort_key f xs) = filter P xs"
  unfolding filter_sort by (rule sort_key_same) (use assms in auto)

text \<open>The order of the replay keeps the order of every stream whose sequence numbers increase.\<close>

lemma replay_order_stream:
  assumes "sorted (map ev_sequence (filter (\<lambda>e. ev_pseudonym e = ps \<and> ev_purpose e = key) es))"
  shows "filter (\<lambda>e. ev_pseudonym e = ps \<and> ev_purpose e = key) (replay_order rank es) =
    filter (\<lambda>e. ev_pseudonym e = ps \<and> ev_purpose e = key) es"
proof -
  let ?P = "\<lambda>e. ev_pseudonym e = ps \<and> ev_purpose e = key"
  have "filter ?P (replay_order rank es) = filter ?P (sort_key ev_sequence es)"
    unfolding replay_order_def by (subst filter_sort_const, simp)+ (rule refl)
  also have "\<dots> = filter ?P es" unfolding filter_sort by (rule sort_key_id_if_sorted[OF assms])
  finally show ?thesis .
qed

section \<open>The dictionary of the rebuild\<close>

lemma map_of_map_at:
  "map_of (map (\<lambda>(k', s). (k', if k' = k then g s else s)) dict) k2 = map_option (\<lambda>s. if k2 = k then g s else s) (map_of dict k2)"
  by (induction dict) auto

lemma apply_event_lookup:
  assumes "row_by sb_pseudonym ps sbs = Some sb" "map_of pmap key = Some (pid, pol)"
  shows "map_of (apply_event base oid pmap vmap sbs e dict) (ps, key) =
    (if ev_pseudonym e = ps \<and> ev_purpose e = key
     then Some (replay_state pol vmap (case map_of dict (ps, key) of
         None \<Rightarrow> blank_state (base + int (length dict)) oid (sb_id sb) pid (ev_occurred_at e) | Some s \<Rightarrow> s) e)
     else map_of dict (ps, key))"
  using assms by (auto simp: apply_event_def Let_def map_of_map_at map_add_def split: option.split prod.split)

definition good_entry :: "int \<Rightarrow> (string \<times> int \<times> int) list \<Rightarrow> subject list \<Rightarrow> (string \<times> string) \<times> consent_state \<Rightarrow> bool" where
  "good_entry oid pmap sbs ks \<longleftrightarrow> (case ks of ((ps, key), s) \<Rightarrow>
     \<exists>sb pid pol. row_by sb_pseudonym ps sbs = Some sb \<and> map_of pmap key = Some (pid, pol) \<and>
       cs_org s = oid \<and> cs_subject s = sb_id sb \<and> cs_purpose s = pid)"

definition good_dict :: "int \<Rightarrow> int \<Rightarrow> (string \<times> int \<times> int) list \<Rightarrow> subject list \<Rightarrow> state_dict \<Rightarrow> bool" where
  "good_dict base oid pmap sbs dict \<longleftrightarrow> distinct (map fst dict) \<and> (\<forall>ks \<in> set dict. good_entry oid pmap sbs ks) \<and>
     map (\<lambda>(k, s). cs_id s) dict = map (\<lambda>i. base + int i) [0..<length dict]"

lemma replay_state_keys [simp]:
  "cs_id (replay_state pol vmap s e) = cs_id s" "cs_org (replay_state pol vmap s e) = cs_org s"
  "cs_subject (replay_state pol vmap s e) = cs_subject s" "cs_purpose (replay_state pol vmap s e) = cs_purpose s"
  by (simp_all add: replay_state_def Let_def split: consent_action.split)

lemma apply_event_good:
  assumes "good_dict base oid pmap sbs dict"
  shows "good_dict base oid pmap sbs (apply_event base oid pmap vmap sbs e dict)"
proof (cases "row_by sb_pseudonym (ev_pseudonym e) sbs")
  case None
  then show ?thesis using assms by (simp add: apply_event_def)
next
  case (Some sb)
  note sb = Some
  show ?thesis
  proof (cases "map_of pmap (ev_purpose e)")
    case None
    then show ?thesis using assms by (simp add: apply_event_def sb)
  next
    case (Some pp)
    obtain pid pol where pp: "pp = (pid, pol)" by (rule prod.exhaust)
    let ?k = "(ev_pseudonym e, ev_purpose e)"
    show ?thesis
    proof (cases "map_of dict ?k")
      case None
      then have "?k \<notin> fst ` set dict" by (simp add: map_of_eq_None_iff)
      with assms sb Some None pp show ?thesis
        by (simp add: apply_event_def good_dict_def good_entry_def Let_def blank_state_def)
    next
      case (Some s)
      let ?f = "\<lambda>(k', s). (k', if k' = ?k then replay_state pol vmap s e else s)"
      have ae: "apply_event base oid pmap vmap sbs e dict = map ?f dict"
        using sb \<open>map_of pmap (ev_purpose e) = Some pp\<close> pp Some by (simp add: apply_event_def Let_def)
      have "fst (?f ks) = fst ks" "(case ?f ks of (k, s) \<Rightarrow> cs_id s) = (case ks of (k, s) \<Rightarrow> cs_id s)"
        "good_entry oid pmap sbs (?f ks) = good_entry oid pmap sbs ks" for ks
        by (auto simp: good_entry_def split: prod.split)
      then show ?thesis using assms unfolding ae good_dict_def by (simp add: o_def)
    qed
  qed
qed

lemma rebuild_dict:
  assumes "row_by sb_pseudonym ps sbs = Some sb" "map_of pmap key = Some (pid, pol)"
  shows "map_option state_core (map_of (fold (apply_event base oid pmap vmap sbs) es []) (ps, key)) =
    replay pol vmap 0 oid (sb_id sb) pid (filter (\<lambda>e. ev_pseudonym e = ps \<and> ev_purpose e = key) es)"
proof (induction es rule: rev_induct)
  case (snoc e es)
  let ?d = "fold (apply_event base oid pmap vmap sbs) es []"
  show ?case
  proof (cases "ev_pseudonym e = ps \<and> ev_purpose e = key")
    case True
    have f: "filter (\<lambda>e. ev_pseudonym e = ps \<and> ev_purpose e = key) (es @ [e]) =
        filter (\<lambda>e. ev_pseudonym e = ps \<and> ev_purpose e = key) es @ [e]" using True by simp
    have l: "map_of (fold (apply_event base oid pmap vmap sbs) (es @ [e]) []) (ps, key) =
        Some (replay_state pol vmap (case map_of ?d (ps, key) of
          None \<Rightarrow> blank_state (base + int (length ?d)) oid (sb_id sb) pid (ev_occurred_at e) | Some s \<Rightarrow> s) e)"
      by (simp only: fold_append fold.simps o_apply id_apply apply_event_lookup[OF assms] True simp_thms if_True)
    show ?thesis unfolding f replay_snoc l snoc[symmetric]
      by (cases "map_of ?d (ps, key)") (simp_all add: replay_state_core blank_core)
  next
    case False
    then have f: "filter (\<lambda>e. ev_pseudonym e = ps \<and> ev_purpose e = key) (es @ [e]) =
        filter (\<lambda>e. ev_pseudonym e = ps \<and> ev_purpose e = key) es" by simp
    have "map_of (fold (apply_event base oid pmap vmap sbs) (es @ [e]) []) (ps, key) = map_of ?d (ps, key)"
      by (simp only: fold_append fold.simps o_apply id_apply apply_event_lookup[OF assms] False if_False)
    then show ?thesis unfolding f using snoc by simp
  qed
qed (simp add: replay_def)

lemma rebuild_dict_good: "good_dict base oid pmap sbs (fold (apply_event base oid pmap vmap sbs) es [])"
proof (induction es rule: rev_induct)
  case (snoc e es)
  then show ?case by (simp add: apply_event_good)
qed (simp add: good_dict_def)

end
