(* ===== verification/Consent_Invariants.thy ===== *)
theory Consent_Invariants
  imports Consent_Replay
begin

text \<open>
  The invariant of the consent service: the catalog of purposes, policies and versions is consistent,
  every event refers to it, the events of a stream are numbered 1, 2, 3 and so on, and every state is the
  replay of the stream of its subject and purpose. Every operation keeps it; a new subject needs a
  pseudonym that the history does not know.
\<close>

section \<open>The invariant\<close>

definition catalog_ok :: "vault \<Rightarrow> bool" where
  "catalog_ok db \<longleftrightarrow>
     distinct (map pu_id (purposes db)) \<and> distinct (map (\<lambda>p. (pu_org p, pu_key p)) (purposes db)) \<and>
     distinct (map po_id (policies db)) \<and> distinct (map (\<lambda>p. (po_org p, po_purpose p)) (policies db)) \<and>
     (\<forall>p \<in> set (purposes db). pu_id p < next_row db) \<and>
     (\<forall>r \<in> set (policies db). po_id r < next_row db \<and> (\<exists>p \<in> set (purposes db). pu_id p = po_purpose r \<and> pu_org p = po_org r)) \<and>
     (\<forall>v \<in> set (policy_versions db). \<exists>r \<in> set (policies db). po_id r = vn_policy v \<and> po_org r = vn_org v)"

definition subjects_ok :: "vault \<Rightarrow> bool" where
  "subjects_ok db \<longleftrightarrow>
     distinct (map sb_id (subjects db)) \<and> distinct (map (\<lambda>s. (sb_org s, sb_pseudonym s)) (subjects db)) \<and>
     (\<forall>s \<in> set (subjects db). sb_id s < next_row db) \<and>
     (\<forall>s \<in> set (states db). cs_id s < next_row db) \<and>
     (\<forall>s \<in> set (states db). \<exists>sb \<in> set (subjects db). \<exists>pu \<in> set (purposes db).
        sb_id sb = cs_subject s \<and> sb_org sb = cs_org s \<and> pu_id pu = cs_purpose s \<and> pu_org pu = cs_org s)"

definition event_ok :: "vault \<Rightarrow> consent_event \<Rightarrow> bool" where
  "event_ok db e \<longleftrightarrow> (\<exists>pu \<in> set (purposes db). \<exists>po \<in> set (policies db).
     pu_org pu = ev_org e \<and> pu_key pu = ev_purpose e \<and> po_org po = ev_org e \<and> po_purpose po = pu_id pu \<and>
     (ev_type e = Grant \<longrightarrow> (\<exists>v \<in> set (policy_versions db). vn_policy v = po_id po \<and> ev_policy_version e = Some (vn_version v))))"

definition history_ok :: "vault \<Rightarrow> bool" where
  "history_ok db \<longleftrightarrow> (\<forall>e \<in> set (events db). event_ok db e) \<and>
     (\<forall>oid ps key. map ev_sequence (stream oid ps key db) = map int [1..<Suc (length (stream oid ps key db))])"

definition projection_ok :: "vault \<Rightarrow> bool" where
  "projection_ok db \<longleftrightarrow> (\<forall>sb \<in> set (subjects db). \<forall>pu \<in> set (purposes db). pu_org pu = sb_org sb \<longrightarrow>
     map_option state_core (find_state (sb_id sb) (pu_id pu) db) = replayed db sb pu)"

definition vault_inv :: "vault \<Rightarrow> bool" where
  "vault_inv db \<longleftrightarrow> catalog_ok db \<and> subjects_ok db \<and> history_ok db \<and> projection_ok db"

lemmas vault_inv_defs = vault_inv_def catalog_ok_def subjects_ok_def event_ok_def history_ok_def projection_ok_def replayed_def
  stream_def find_state_def find_policy_def policy_id_def policy_version_map_def

lemma vault_inv_same:
  assumes "vault_inv db" and "purposes db' = purposes db" "policies db' = policies db" "policy_versions db' = policy_versions db"
    "subjects db' = subjects db" "states db' = states db" "events db' = events db" and n: "next_row db \<le> next_row db'"
  shows "vault_inv db'"
proof -
  have "catalog_ok db'" using assms(1) n unfolding vault_inv_def catalog_ok_def assms(2-7) by force
  moreover have "subjects_ok db'" using assms(1) n unfolding vault_inv_def subjects_ok_def assms(2-7) by force
  moreover have "history_ok db'" "projection_ok db'" using assms(1) unfolding vault_inv_defs assms(2-7) by blast+
  ultimately show ?thesis by (simp add: vault_inv_def)
qed

lemma vault_empty_inv: "vault_inv vault_empty"
  by (simp add: vault_inv_defs vault_empty_def)

lemma audit_inv: "vault_inv db \<Longrightarrow> vault_inv (audit su p now action detail db)"
  by (erule vault_inv_same) (simp_all add: audit_def)

section \<open>The catalog\<close>

lemma find_policy_row:
  assumes "catalog_ok db" "po \<in> set (policies db)"
  shows "find_policy (po_org po) (po_purpose po) db = Some po"
  using assms unfolding catalog_ok_def find_policy_def by (intro row_by_unique) auto

lemma row_key_inj:
  assumes "distinct (map f xs)" "x \<in> set xs" "y \<in> set xs" "f x = f y"
  shows "x = y"
  using assms by (auto simp: distinct_map dest: inj_onD)

text \<open>The map of the rebuild resolves a version as the write does.\<close>

lemma resolve_map:
  assumes c: "catalog_ok db" and po: "po \<in> set (policies db)" "po_org po = oid"
  shows "map_of (policy_version_map oid db) (po_id po, no) = map_option vn_id (row_by (\<lambda>v. (vn_policy v, vn_version v)) (po_id po, no) (policy_versions db))"
proof -
  have o: "vn_org v = oid" if v: "v \<in> set (policy_versions db)" "vn_policy v = po_id po" for v
  proof -
    from c v(1) obtain r where r: "r \<in> set (policies db)" "po_id r = vn_policy v" "po_org r = vn_org v"
      unfolding catalog_ok_def by blast
    have "r = po" using c r(1,2) po(1) v(2) unfolding catalog_ok_def by (intro row_key_inj[of po_id "policies db"]) simp_all
    with r(3) po(2) show ?thesis by simp
  qed
  have k: "map_of (map (\<lambda>v. ((vn_policy v, vn_version v), vn_id v)) (filter (\<lambda>v. vn_org v = oid) vs)) (po_id po, no) =
      map_option vn_id (row_by (\<lambda>v. (vn_policy v, vn_version v)) (po_id po, no) vs)"
    if "\<And>v. v \<in> set vs \<Longrightarrow> vn_policy v = po_id po \<Longrightarrow> vn_org v = oid" for vs
    using that by (induction vs) auto
  show ?thesis unfolding policy_version_map_def by (rule k) (rule o)
qed

lemma grant_resolves:
  assumes c: "catalog_ok db" and e: "event_ok db e" "ev_type e = Grant" "ev_policy_version e = Some no"
    and pu: "pu \<in> set (purposes db)" "pu_org pu = ev_org e" "pu_key pu = ev_purpose e"
  shows "\<exists>po i. find_policy (ev_org e) (pu_id pu) db = Some po \<and> map_of (policy_version_map (ev_org e) db) (po_id po, no) = Some i"
proof -
  from e obtain pu' po v where k: "pu' \<in> set (purposes db)" "po \<in> set (policies db)" "pu_org pu' = ev_org e" "pu_key pu' = ev_purpose e"
      "po_org po = ev_org e" "po_purpose po = pu_id pu'" "v \<in> set (policy_versions db)" "vn_policy v = po_id po" "vn_version v = no"
    unfolding event_ok_def by auto
  have "pu' = pu" using c k(1,3,4) pu unfolding catalog_ok_def by (intro row_key_inj[of "\<lambda>p. (pu_org p, pu_key p)" "purposes db"]) simp_all
  then have f: "find_policy (ev_org e) (pu_id pu) db = Some po" using find_policy_row[OF c k(2)] k(5,6) by simp
  have "row_by (\<lambda>v. (vn_policy v, vn_version v)) (po_id po, no) (policy_versions db) \<noteq> None"
    using k(7-9) by (auto simp: row_by_None_iff intro!: rev_image_eqI)
  then show ?thesis using f resolve_map[OF c k(2,5), of no] by auto
qed

definition catalog_ext :: "vault \<Rightarrow> vault \<Rightarrow> bool" where
  "catalog_ext db db' \<longleftrightarrow> (\<exists>ps rs vs. purposes db' = purposes db @ ps \<and> policies db' = policies db @ rs \<and>
     policy_versions db' = policy_versions db @ vs)"

lemma event_ok_ext: "catalog_ext db db' \<Longrightarrow> event_ok db e \<Longrightarrow> event_ok db' e"
  unfolding catalog_ext_def event_ok_def by fastforce

lemma stream_events: "e \<in> set (stream oid ps key db) \<longleftrightarrow> e \<in> set (events db) \<and> ev_org e = oid \<and> ev_pseudonym e = ps \<and> ev_purpose e = key"
  by (auto simp: stream_def)

text \<open>A catalog that grows does not change what the history says.\<close>

lemma replayed_ext:
  assumes c: "catalog_ok db" "history_ok db" and x: "catalog_ext db db'" and ev: "events db' = events db"
    and pu: "pu \<in> set (purposes db)" "pu_org pu = sb_org sb"
  shows "replayed db' sb pu = replayed db sb pu"
proof -
  have s: "stream (sb_org sb) (sb_pseudonym sb) (pu_key pu) db' = stream (sb_org sb) (sb_pseudonym sb) (pu_key pu) db"
    by (simp add: stream_def ev)
  from x obtain ps rs vs where x': "policies db' = policies db @ rs" "policy_versions db' = policy_versions db @ vs"
    unfolding catalog_ext_def by blast
  show ?thesis unfolding replayed_def s
  proof (rule replay_cong)
    fix e no assume e: "e \<in> set (stream (sb_org sb) (sb_pseudonym sb) (pu_key pu) db)" "ev_type e = Grant" "ev_policy_version e = Some no"
    then have k: "event_ok db e" "ev_org e = sb_org sb" "ev_purpose e = pu_key pu" using c(2) by (auto simp: stream_events history_ok_def)
    from grant_resolves[OF c(1) k(1) e(2,3) pu(1)] pu(2) k(2,3) obtain po i where
      f: "find_policy (sb_org sb) (pu_id pu) db = Some po" "map_of (policy_version_map (sb_org sb) db) (po_id po, no) = Some i" by auto
    have f': "find_policy (sb_org sb) (pu_id pu) db' = Some po" using f(1) by (simp add: find_policy_def x' row_by_append)
    have "map_of (policy_version_map (sb_org sb) db') (po_id po, no) = Some i"
      using f(2) by (simp add: policy_version_map_def x' map_of_append map_add_Some_iff)
    with f f' show "map_of (policy_version_map (sb_org sb) db') (policy_id (sb_org sb) (pu_id pu) db', no) =
        map_of (policy_version_map (sb_org sb) db) (policy_id (sb_org sb) (pu_id pu) db, no)" by (simp add: policy_id_def)
  qed
qed

lemma catalog_step_inv:
  assumes inv: "vault_inv db" and x: "catalog_ext db db'" and c: "catalog_ok db'"
    and same: "subjects db' = subjects db" "states db' = states db" "events db' = events db" and n: "next_row db \<le> next_row db'"
  shows "vault_inv db'"
proof -
  have i: "catalog_ok db" "subjects_ok db" "history_ok db" "projection_ok db" using inv by (simp_all add: vault_inv_def)
  from x have p: "set (purposes db) \<subseteq> set (purposes db')" by (auto simp: catalog_ext_def)
  have st: "stream oid ps key db' = stream oid ps key db" for oid ps key by (simp add: stream_def same)
  have fs: "find_state sid pid db' = find_state sid pid db" for sid pid by (simp add: find_state_def same)
  have "subjects_ok db'" unfolding subjects_ok_def same
  proof (intro conjI)
    show "\<forall>s \<in> set (subjects db). sb_id s < next_row db'" using i(2) n unfolding subjects_ok_def by fastforce
    show "\<forall>s \<in> set (states db). cs_id s < next_row db'" using i(2) n unfolding subjects_ok_def by fastforce
    show "\<forall>s \<in> set (states db). \<exists>sb \<in> set (subjects db). \<exists>pu \<in> set (purposes db').
        sb_id sb = cs_subject s \<and> sb_org sb = cs_org s \<and> pu_id pu = cs_purpose s \<and> pu_org pu = cs_org s"
      using i(2) p unfolding subjects_ok_def by (meson subsetD)
  qed (use i(2) in \<open>simp_all add: subjects_ok_def\<close>)
  moreover have "history_ok db'" using i(3) event_ok_ext[OF x] unfolding history_ok_def st same by blast
  moreover have "projection_ok db'" unfolding projection_ok_def fs same
  proof (intro ballI impI)
    fix sb pu assume k: "sb \<in> set (subjects db)" "pu \<in> set (purposes db')" "pu_org pu = sb_org sb"
    show "map_option state_core (find_state (sb_id sb) (pu_id pu) db) = replayed db' sb pu"
    proof (cases "pu \<in> set (purposes db)")
      case True
      then show ?thesis using i(4) k replayed_ext[OF i(1,3) x same(3) True k(3)] by (simp add: projection_ok_def)
    next
      case False
      have "find_state (sb_id sb) (pu_id pu) db = None"
      proof (rule ccontr)
        assume "find_state (sb_id sb) (pu_id pu) db \<noteq> None"
        then obtain s where "s \<in> set (states db)" "cs_purpose s = pu_id pu" by (auto simp: find_state_def dest: row_by_SomeD)
        with i(2) obtain pu' where q: "pu' \<in> set (purposes db)" "pu_id pu' = pu_id pu" unfolding subjects_ok_def by metis
        have "pu' = pu" using c q p k(2) unfolding catalog_ok_def by (intro row_key_inj[of pu_id "purposes db'"]) auto
        with q(1) False show False by simp
      qed
      moreover have "stream (sb_org sb) (sb_pseudonym sb) (pu_key pu) db = []"
      proof (rule ccontr)
        assume "stream (sb_org sb) (sb_pseudonym sb) (pu_key pu) db \<noteq> []"
        then obtain e where "e \<in> set (stream (sb_org sb) (sb_pseudonym sb) (pu_key pu) db)" by (meson last_in_set)
        then have "event_ok db e" "ev_org e = sb_org sb" "ev_purpose e = pu_key pu" using i(3) by (auto simp: stream_events history_ok_def)
        then obtain pu' where q: "pu' \<in> set (purposes db)" "pu_org pu' = sb_org sb" "pu_key pu' = pu_key pu" unfolding event_ok_def by auto
        have "pu' = pu" using c q p k(2,3) unfolding catalog_ok_def
          by (intro row_key_inj[of "\<lambda>p. (pu_org p, pu_key p)" "purposes db'"]) auto
        with q(1) False show False by simp
      qed
      ultimately show ?thesis by (simp add: replayed_def replay_def st)
    qed
  qed
  ultimately show ?thesis using c by (simp add: vault_inv_def)
qed

section \<open>Subjects and writes\<close>

text \<open>A new subject, under a pseudonym that neither the history nor another subject has.\<close>

definition fresh_pseudonym :: "int \<Rightarrow> string \<Rightarrow> vault \<Rightarrow> bool" where
  "fresh_pseudonym oid ps db \<longleftrightarrow> (\<forall>e \<in> set (events db). \<not> (ev_org e = oid \<and> ev_pseudonym e = ps)) \<and>
     (\<forall>s \<in> set (subjects db). \<not> (sb_org s = oid \<and> sb_pseudonym s = ps))"

lemma new_subject_inv:
  assumes inv: "vault_inv db" and s: "sb_id s = next_row db" and f: "fresh_pseudonym (sb_org s) (sb_pseudonym s) db"
  shows "vault_inv (db\<lparr>subjects := subjects db @ [s], next_row := next_row db + 1\<rparr>)" (is "vault_inv ?db")
proof -
  have i: "catalog_ok db" "subjects_ok db" "history_ok db" "projection_ok db" using inv by (simp_all add: vault_inv_def)
  have st: "stream oid ps key ?db = stream oid ps key db" for oid ps key by (simp add: stream_def)
  have fs: "find_state sid pid ?db = find_state sid pid db" for sid pid by (simp add: find_state_def)
  have eo: "event_ok ?db e = event_ok db e" for e by (simp add: event_ok_def)
  have rp: "replayed ?db sb pu = replayed db sb pu" for sb pu
    by (simp add: replayed_def stream_def policy_id_def find_policy_def policy_version_map_def)
  have "catalog_ok ?db" using i(1) unfolding catalog_ok_def by fastforce
  moreover have "subjects_ok ?db" unfolding subjects_ok_def
  proof (intro conjI)
    show "distinct (map sb_id (subjects ?db))" using i(2) s by (fastforce simp: subjects_ok_def)
    show "distinct (map (\<lambda>s. (sb_org s, sb_pseudonym s)) (subjects ?db))" using i(2) f by (fastforce simp: subjects_ok_def fresh_pseudonym_def)
    show "\<forall>s \<in> set (subjects ?db). sb_id s < next_row ?db" using i(2) s by (fastforce simp: subjects_ok_def)
    show "\<forall>s \<in> set (states ?db). cs_id s < next_row ?db" using i(2) by (fastforce simp: subjects_ok_def)
    show "\<forall>s \<in> set (states ?db). \<exists>sb \<in> set (subjects ?db). \<exists>pu \<in> set (purposes ?db).
        sb_id sb = cs_subject s \<and> sb_org sb = cs_org s \<and> pu_id pu = cs_purpose s \<and> pu_org pu = cs_org s"
      using i(2) by (simp add: subjects_ok_def)
  qed
  moreover have "history_ok ?db" using i(3) unfolding history_ok_def st eo by simp
  moreover have "projection_ok ?db" unfolding projection_ok_def fs rp
  proof (intro ballI impI)
    fix sb pu assume k: "sb \<in> set (subjects ?db)" "pu \<in> set (purposes ?db)" "pu_org pu = sb_org sb"
    show "map_option state_core (find_state (sb_id sb) (pu_id pu) db) = replayed db sb pu"
    proof (cases "sb \<in> set (subjects db)")
      case True
      then show ?thesis using i(4) k by (simp add: projection_ok_def)
    next
      case False
      then have sb: "sb = s" using k(1) by simp
      have "find_state (sb_id sb) (pu_id pu) db = None"
        using i(2) s by (fastforce simp: sb find_state_def row_by_None_iff subjects_ok_def)
      moreover have "stream (sb_org sb) (sb_pseudonym sb) (pu_key pu) db = []"
        using f by (auto simp: sb stream_def fresh_pseudonym_def filter_empty_conv)
      ultimately show ?thesis by (simp add: replayed_def replay_def)
    qed
  qed
  ultimately show ?thesis by (simp add: vault_inv_def)
qed

lemma get_subject_inv:
  assumes inv: "vault_inv db" and g: "get_or_create_subject su oid ref salt db = (sb, db1)"
    and f: "find_subject oid ref db = None \<Longrightarrow> fresh_pseudonym oid (subject_pseudonym su oid (ref @ ''#'' @ salt)) db"
  shows "vault_inv db1 \<and> sb \<in> set (subjects db1) \<and> sb_org sb = oid \<and> sb_ref sb = ref"
proof (cases "find_subject oid ref db")
  case None
  with g inv f show ?thesis by (auto simp: get_or_create_subject_def Let_def intro!: new_subject_inv)
next
  case (Some s)
  with g inv show ?thesis by (auto simp: get_or_create_subject_def find_subject_def dest: row_by_SomeD)
qed

lemma get_subject_same:
  assumes "get_or_create_subject su oid ref salt db = (sb, db1)"
  shows "purposes db1 = purposes db" "policies db1 = policies db" "policy_versions db1 = policy_versions db" "events db1 = events db"
    "idempotencies db1 = idempotencies db" "organizations db1 = organizations db" "api_keys db1 = api_keys db"
    "states db1 = states db" "audits db1 = audits db" "export_copies db1 = export_copies db" "next_row db \<le> next_row db1"
  using assms by (auto simp: get_or_create_subject_def Let_def split: option.splits)

section \<open>The record of an event\<close>

lemma next_sequence_ok:
  assumes "map ev_sequence (stream oid ps key db) = map int [1..<Suc (length (stream oid ps key db))]"
  shows "next_sequence oid ps key db = int (length (stream oid ps key db)) + 1"
proof (cases "stream oid ps key db")
  case (Cons e es)
  let ?n = "length (stream oid ps key db)"
  have m: "map ev_sequence (stream oid ps key db) = ev_sequence e # map ev_sequence es" by (simp add: Cons)
  have "fold max (map ev_sequence es) (ev_sequence e) = Max (set (map int [1..<Suc ?n]))"
    unfolding assms[symmetric] m by (rule Max.set_eq_fold[symmetric])
  also have "\<dots> = int ?n" by (rule Max_eqI) (auto simp: Cons)
  finally show ?thesis by (simp add: next_sequence_def m)
qed (simp add: next_sequence_def)

interpretation state_write: row_update "\<lambda>s. (cs_subject s, cs_purpose s)" "write_state now w pv e" for now w pv e
  by unfold_locales (simp add: write_state_def Let_def split: consent_action.split)

lemma write_state_keys [simp]:
  "cs_id (write_state now w pv e s) = cs_id s" "cs_org (write_state now w pv e s) = cs_org s"
  "cs_subject (write_state now w pv e s) = cs_subject s" "cs_purpose (write_state now w pv e s) = cs_purpose s"
  by (simp_all add: write_state_def Let_def split: consent_action.split)

lemma put_state_find:
  assumes "put_state oid sid pid now (write_state now w pv e) db = (s, db')"
  shows "find_state sid' pid' db' =
    (if sid' = sid \<and> pid' = pid
     then Some (write_state now w pv e (case find_state sid pid db of None \<Rightarrow> blank_state (next_row db) oid sid pid now | Some s0 \<Rightarrow> s0))
     else find_state sid' pid' db)"
proof (cases "find_state sid pid db")
  case None
  then show ?thesis using assms
    by (auto simp: put_state_def Let_def find_state_def row_by_append blank_state_def split: option.split)
next
  case (Some s0)
  then show ?thesis using assms by (auto simp: put_state_def find_state_def state_write.lookup_upd)
qed

lemma put_state_same:
  assumes "put_state oid sid pid now (write_state now w pv e) db = (s, db')"
  shows "purposes db' = purposes db" "policies db' = policies db" "policy_versions db' = policy_versions db" "events db' = events db"
    "idempotencies db' = idempotencies db" "organizations db' = organizations db" "api_keys db' = api_keys db"
    "subjects db' = subjects db" "audits db' = audits db" "export_copies db' = export_copies db" "next_row db \<le> next_row db'"
  using assms by (auto simp: put_state_def Let_def split: option.splits)

lemma put_state_ids:
  assumes "put_state oid sid pid now (write_state now w pv e) db = (s, db')" "x \<in> set (states db')"
  shows "cs_id x < next_row db' \<or> (\<exists>y \<in> set (states db). cs_id x = cs_id y)"
proof (cases "find_state sid pid db")
  case None
  with assms show ?thesis by (auto simp: put_state_def Let_def blank_state_def)
next
  case (Some s0)
  then have "states db' = upd_by (\<lambda>s. (cs_subject s, cs_purpose s)) (sid, pid) (write_state now w pv e) (states db)"
    using assms(1) by (auto simp: put_state_def)
  with assms(2) have "x \<in> set (states db) \<or> (\<exists>y \<in> set (states db). x = write_state now w pv e y)" by (auto dest: set_upd_byD)
  then show ?thesis by auto
qed

lemma put_state_rows:
  assumes "put_state oid sid pid now (write_state now w pv e) db = (s, db')" "x \<in> set (states db')"
  shows "(cs_subject x = sid \<and> cs_purpose x = pid \<and> cs_org x = oid) \<or>
    (\<exists>y \<in> set (states db). cs_subject x = cs_subject y \<and> cs_purpose x = cs_purpose y \<and> cs_org x = cs_org y)"
proof (cases "find_state sid pid db")
  case None
  with assms show ?thesis by (auto simp: put_state_def Let_def blank_state_def)
next
  case (Some s0)
  then have "states db' = upd_by (\<lambda>s. (cs_subject s, cs_purpose s)) (sid, pid) (write_state now w pv e) (states db)"
    using assms(1) by (auto simp: put_state_def)
  with assms(2) have "x \<in> set (states db) \<or> (\<exists>y \<in> set (states db). x = write_state now w pv e y)" by (auto dest: set_upd_byD)
  then show ?thesis by auto
qed

text \<open>A policy version that a grant resolves to.\<close>

lemma resolveD:
  assumes c: "catalog_ok db" and r: "resolve_policy_version oid pu no db = Inr v"
  shows "\<exists>po. po \<in> set (policies db) \<and> po_org po = oid \<and> po_purpose po = pu_id pu \<and> policy_id oid (pu_id pu) db = po_id po \<and>
    v \<in> set (policy_versions db) \<and> vn_policy v = po_id po \<and> vn_version v = no \<and>
    map_of (policy_version_map oid db) (po_id po, no) = Some (vn_id v)"
proof -
  from r obtain po where po: "find_policy oid (pu_id pu) db = Some po"
      and v: "row_by (\<lambda>v. (vn_policy v, vn_version v)) (po_id po, no) (policy_versions db) = Some v"
    by (auto simp: resolve_policy_version_def split: option.splits)
  from po have k: "po \<in> set (policies db)" "po_org po = oid" "po_purpose po = pu_id pu"
    by (auto simp: find_policy_def dest: row_by_SomeD)
  show ?thesis using k row_by_SomeD[OF v] po resolve_map[OF c k(1,2), of no] v by (auto simp: policy_id_def)
qed

definition new_event :: "principal \<Rightarrow> write_request \<Rightarrow> purpose \<Rightarrow> subject \<Rightarrow> vault \<Rightarrow> consent_event" where
  "new_event p rq pu sb db =
     \<lparr>ev_id = next_row db, ev_org = pc_org p, ev_pseudonym = sb_pseudonym sb, ev_purpose = pu_key pu, ev_type = wp_action (wr_payload rq),
      ev_sequence = next_sequence (pc_org p) (sb_pseudonym sb) (pu_key pu) db, ev_policy_version = wp_policy_version (wr_payload rq),
      ev_expires_at = (if wp_action (wr_payload rq) = Grant then wp_expires_at (wr_payload rq) else None), ev_occurred_at = wr_now rq\<rparr>"

lemma new_event_id [simp]: "ev_id (new_event p rq pu sb db) = next_row db" "ev_occurred_at (new_event p rq pu sb db) = wr_now rq"
  by (simp_all add: new_event_def)

lemma record_event_parts:
  assumes "record_event su p rq pu sb pv db = (r, db')"
  shows "\<exists>s db2. put_state (pc_org p) (sb_id sb) (pu_id pu) (wr_now rq) (write_state (wr_now rq) (wr_payload rq) pv (new_event p rq pu sb db))
        (db\<lparr>events := events db @ [new_event p rq pu sb db], next_row := next_row db + 1\<rparr>) = (s, db2) \<and>
     purposes db' = purposes db \<and> policies db' = policies db \<and> policy_versions db' = policy_versions db \<and> subjects db' = subjects db \<and>
     organizations db' = organizations db \<and> api_keys db' = api_keys db \<and> export_copies db' = export_copies db \<and>
     states db' = states db2 \<and> events db' = events db @ [new_event p rq pu sb db] \<and> next_row db < next_row db' \<and> next_row db2 \<le> next_row db' \<and>
     idempotencies db' = idempotencies db @ [\<lparr>ik_id = next_row db2, ik_org = pc_org p, ik_subject = Some (sb_id sb), ik_event = wr_event_id rq,
       ik_fingerprint = vs_fingerprint su (wr_payload rq), ik_response = Some r, ik_erased = False,
       ik_consent_event = Some (ev_id (new_event p rq pu sb db))\<rparr>]"
proof -
  let ?db1 = "db\<lparr>events := events db @ [new_event p rq pu sb db], next_row := next_row db + 1\<rparr>"
  obtain s db2 where p: "put_state (pc_org p) (sb_id sb) (pu_id pu) (wr_now rq) (write_state (wr_now rq) (wr_payload rq) pv (new_event p rq pu sb db))
      ?db1 = (s, db2)" by (rule prod.exhaust)
  from put_state_same[OF p] show ?thesis using assms p
    by (auto simp: record_event_def new_event_def[symmetric] Let_def audit_def)
qed

lemma stream_last_purpose:
  assumes "history_ok db" "stream oid ps key db \<noteq> []"
  shows "\<exists>pu \<in> set (purposes db). \<exists>po \<in> set (policies db). pu_org pu = oid \<and> pu_key pu = key \<and> po_org po = oid \<and> po_purpose po = pu_id pu"
proof -
  from assms(2) have "last (stream oid ps key db) \<in> set (stream oid ps key db)" by simp
  then have "event_ok db (last (stream oid ps key db))" "ev_org (last (stream oid ps key db)) = oid" "ev_purpose (last (stream oid ps key db)) = key"
    using assms(1) by (auto simp: stream_events history_ok_def)
  then show ?thesis unfolding event_ok_def by auto
qed

text \<open>The event of an accepted write refers to the catalog; its grant resolves in the rebuild's map.\<close>

lemma check_grant:
  assumes c: "catalog_ok db" and ch: "check_action p now pu w st db = Inr pv" and a: "wp_action w = Grant"
  shows "\<exists>no v po. wp_policy_version w = Some no \<and> pv = Some v \<and>
      map_of (policy_version_map (pc_org p) db) (policy_id (pc_org p) (pu_id pu) db, no) = Some (vn_id v) \<and>
      po \<in> set (policies db) \<and> po_org po = pc_org p \<and> po_purpose po = pu_id pu \<and>
      v \<in> set (policy_versions db) \<and> vn_policy v = po_id po \<and> vn_version v = no"
proof -
  from ch a obtain no v where k: "wp_policy_version w = Some no" "pv = Some v" "resolve_policy_version (pc_org p) pu no db = Inr v"
    by (auto simp: check_action_def bindR_Inr_iff split: option.splits if_splits)
  from resolveD[OF c k(3)] k(1,2) show ?thesis by auto
qed

lemma new_event_ok:
  assumes inv: "vault_inv db" and sb: "sb \<in> set (subjects db)" "sb_org sb = pc_org p" and pu: "pu \<in> set (purposes db)" "pu_org pu = pc_org p"
    and ch: "check_action p now pu (wr_payload rq) (find_state (sb_id sb) (pu_id pu) db) db = Inr pv"
  shows "event_ok db (new_event p rq pu sb db)"
proof (cases "wp_action (wr_payload rq)")
  case Grant
  have c: "catalog_ok db" using inv by (simp add: vault_inv_def)
  from check_grant[OF c ch Grant] show ?thesis using pu by (fastforce simp: event_ok_def new_event_def)
next
  case Withdrawal
  with ch have "find_state (sb_id sb) (pu_id pu) db \<noteq> None" by (auto simp: check_action_def split: option.splits)
  moreover have "map_option state_core (find_state (sb_id sb) (pu_id pu) db) = replayed db sb pu"
    using inv sb pu by (simp add: vault_inv_def projection_ok_def)
  ultimately have "replayed db sb pu \<noteq> None" by (metis option.map_disc_iff)
  then have s: "stream (pc_org p) (sb_pseudonym sb) (pu_key pu) db \<noteq> []" by (auto simp: replayed_def replay_def sb(2))
  have h: "history_ok db" using inv by (simp add: vault_inv_def)
  from stream_last_purpose[OF h s] Withdrawal show ?thesis by (auto simp: event_ok_def new_event_def)
qed

lemma replayed_new_event:
  assumes c: "catalog_ok db" and sb: "sb_org sb = pc_org p"
    and ch: "check_action p (wr_now rq) pu (wr_payload rq) (find_state (sb_id sb) (pu_id pu) db) db = Inr pv"
    and old: "map_option state_core (find_state (sb_id sb) (pu_id pu) db) = replayed db sb pu"
    and same: "policies db' = policies db" "policy_versions db' = policy_versions db"
    and str: "stream (pc_org p) (sb_pseudonym sb) (pu_key pu) db' = stream (pc_org p) (sb_pseudonym sb) (pu_key pu) db @ [new_event p rq pu sb db]"
  shows "replayed db' sb pu = Some (state_core (write_state (wr_now rq) (wr_payload rq) pv (new_event p rq pu sb db)
      (case find_state (sb_id sb) (pu_id pu) db of None \<Rightarrow> blank_state rid (pc_org p) (sb_id sb) (pu_id pu) (wr_now rq) | Some s0 \<Rightarrow> s0)))"
proof -
  let ?e = "new_event p rq pu sb db" and ?o = "pc_org p"
  let ?pol = "policy_id ?o (pu_id pu) db" and ?vm = "policy_version_map ?o db" and ?fs = "find_state (sb_id sb) (pu_id pu) db"
  let ?b = "\<lambda>rid. blank_state rid ?o (sb_id sb) (pu_id pu) (wr_now rq)"
  have w: "write_state (wr_now rq) (wr_payload rq) pv ?e s0 = replay_state ?pol ?vm s0 ?e" for s0
    using check_grant[OF c ch] by (intro write_is_replay) (auto simp: new_event_def)
  have "policy_id ?o (pu_id pu) db' = ?pol" "policy_version_map ?o db' = ?vm"
    by (simp_all add: policy_id_def find_policy_def policy_version_map_def same)
  then have "replayed db' sb pu = Some (replay_state ?pol ?vm (case replayed db sb pu of None \<Rightarrow> ?b 0 | Some s \<Rightarrow> s) ?e)"
    by (simp add: replayed_def sb str replay_snoc cong: option.case_cong)
  also have "(case replayed db sb pu of None \<Rightarrow> ?b 0 | Some s \<Rightarrow> s) = state_core (case ?fs of None \<Rightarrow> ?b rid | Some s0 \<Rightarrow> s0)"
    unfolding old[symmetric] by (cases ?fs) (simp_all add: blank_core)
  finally show ?thesis by (simp add: w replay_state_core)
qed

lemma record_event_inv:
  assumes inv: "vault_inv db" and r: "record_event su p rq pu sb pv db = (r, db')"
    and sb: "sb \<in> set (subjects db)" "sb_org sb = pc_org p" and pu: "pu \<in> set (purposes db)" "pu_org pu = pc_org p"
    and ch: "check_action p (wr_now rq) pu (wr_payload rq) (find_state (sb_id sb) (pu_id pu) db) db = Inr pv"
  shows "vault_inv db'"
proof -
  let ?e = "new_event p rq pu sb db" and ?o = "pc_org p"
  have i: "catalog_ok db" "subjects_ok db" "history_ok db" "projection_ok db" using inv by (simp_all add: vault_inv_def)
  from record_event_parts[OF r] obtain s db2 where
    put: "put_state ?o (sb_id sb) (pu_id pu) (wr_now rq) (write_state (wr_now rq) (wr_payload rq) pv ?e)
        (db\<lparr>events := events db @ [?e], next_row := next_row db + 1\<rparr>) = (s, db2)"
    and same: "purposes db' = purposes db" "policies db' = policies db" "policy_versions db' = policy_versions db" "subjects db' = subjects db"
    and st: "states db' = states db2" and ev: "events db' = events db @ [?e]" and n: "next_row db < next_row db'"
    and n2: "next_row db2 \<le> next_row db'" by blast
  have str: "stream oid ps key db' = stream oid ps key db @ (if oid = ?o \<and> ps = sb_pseudonym sb \<and> key = pu_key pu then [?e] else [])" for oid ps key
    by (auto simp: stream_def ev new_event_def)
  have "catalog_ok db'" using i(1) n unfolding catalog_ok_def same by fastforce
  moreover have "subjects_ok db'" unfolding subjects_ok_def same
  proof (intro conjI ballI)
    fix x assume x: "x \<in> set (states db')"
    from put_state_ids[OF put x[unfolded st]] show "cs_id x < next_row db'" using i(2) n n2 unfolding subjects_ok_def by fastforce
  next
    fix x assume "x \<in> set (states db')"
    from put_state_rows[OF put this[unfolded st]] show "\<exists>sb \<in> set (subjects db). \<exists>pu \<in> set (purposes db).
        sb_id sb = cs_subject x \<and> sb_org sb = cs_org x \<and> pu_id pu = cs_purpose x \<and> pu_org pu = cs_org x"
      using i(2) sb pu unfolding subjects_ok_def by fastforce
  qed (use i(2) n in \<open>fastforce simp: subjects_ok_def\<close>)+
  moreover have "history_ok db'" unfolding history_ok_def ev
  proof (intro conjI allI ballI)
    fix e assume "e \<in> set (events db @ [?e])"
    then show "event_ok db' e" using i(3) new_event_ok[OF inv sb pu ch] event_ok_ext[of db db' e] by (auto simp: history_ok_def catalog_ext_def same)
  next
    fix oid ps key
    have "map ev_sequence (stream oid ps key db) = map int [1..<Suc (length (stream oid ps key db))]" using i(3) by (simp add: history_ok_def)
    from this next_sequence_ok[OF this] show "map ev_sequence (stream oid ps key db') = map int [1..<Suc (length (stream oid ps key db'))]"
      unfolding str by (auto simp: new_event_def)
  qed
  moreover have "projection_ok db'" unfolding projection_ok_def same
  proof (intro ballI impI)
    fix sb' pu' assume k: "sb' \<in> set (subjects db)" "pu' \<in> set (purposes db)" "pu_org pu' = sb_org sb'"
    have old: "map_option state_core (find_state (sb_id sb') (pu_id pu') db) = replayed db sb' pu'" using i(4) k by (simp add: projection_ok_def)
    have fs: "find_state sid pid db' = find_state sid pid db2" for sid pid by (simp add: find_state_def st)
    have fs1: "find_state sid pid (db\<lparr>events := events db @ [?e], next_row := next_row db + 1\<rparr>) = find_state sid pid db" for sid pid
      by (simp add: find_state_def)
    have "distinct (map sb_id (subjects db))" "distinct (map pu_id (purposes db))" using i(1,2) by (simp_all add: catalog_ok_def subjects_ok_def)
    then have ids: "sb_id sb' = sb_id sb \<Longrightarrow> sb' = sb" "pu_id pu' = pu_id pu \<Longrightarrow> pu' = pu"
      using row_key_inj[OF _ k(1) sb(1)] row_key_inj[OF _ k(2) pu(1)] by blast+
    show "map_option state_core (find_state (sb_id sb') (pu_id pu') db') = replayed db' sb' pu'"
    proof (cases "sb' = sb \<and> pu' = pu")
      case True
      have o: "map_option state_core (find_state (sb_id sb) (pu_id pu) db) = replayed db sb pu" using old True by simp
      have s1: "stream ?o (sb_pseudonym sb) (pu_key pu) db' = stream ?o (sb_pseudonym sb) (pu_key pu) db @ [?e]" by (simp add: str)
      from replayed_new_event[OF i(1) sb(2) ch o same(2,3) s1] True show ?thesis by (simp add: fs put_state_find[OF put] fs1)
    next
      case False
      have "find_state (sb_id sb') (pu_id pu') db' = find_state (sb_id sb') (pu_id pu') db"
        using False ids by (auto simp: fs put_state_find[OF put] fs1)
      moreover have "\<not> (sb_org sb' = ?o \<and> sb_pseudonym sb' = sb_pseudonym sb \<and> pu_key pu' = pu_key pu)"
      proof
        assume a: "sb_org sb' = ?o \<and> sb_pseudonym sb' = sb_pseudonym sb \<and> pu_key pu' = pu_key pu"
        have "sb' = sb" using i(2) k(1) sb a unfolding subjects_ok_def
          by (intro row_key_inj[of "\<lambda>s. (sb_org s, sb_pseudonym s)" "subjects db"]) simp_all
        moreover have "pu' = pu" using i(1) k pu a unfolding catalog_ok_def
          by (intro row_key_inj[of "\<lambda>p. (pu_org p, pu_key p)" "purposes db"]) simp_all
        ultimately show False using False by simp
      qed
      then have "replayed db' sb' pu' = replayed db sb' pu'"
        by (auto simp: replayed_def str policy_id_def find_policy_def policy_version_map_def same)
      ultimately show ?thesis using old by simp
    qed
  qed
  ultimately show ?thesis by (simp add: vault_inv_def)
qed

text \<open>A write that answers keeps the invariant.\<close>

lemma write_event_parts:
  assumes "write_event su p rq db = Inr ((resp, rep), db')"
  shows "pc_role p = Admin \<and>
    ((rep \<and> db' = db \<and> (\<exists>i. find_idempotency (pc_org p) (wr_event_id rq) db = Some i \<and> \<not> ik_erased i \<and>
        ik_fingerprint i = vs_fingerprint su (wr_payload rq) \<and> resp = ik_response i)) \<or>
     (\<not> rep \<and> find_idempotency (pc_org p) (wr_event_id rq) db = None \<and>
      (\<exists>pu sb db1 pv r. get_purpose (pc_org p) (wp_purpose_key (wr_payload rq)) db = Inr pu \<and>
        get_or_create_subject su (pc_org p) (wp_subject_ref (wr_payload rq)) (wr_salt rq) db = (sb, db1) \<and>
        (case find_state (sb_id sb) (pu_id pu) db1 of None \<Rightarrow> 0 | Some s \<Rightarrow> cs_version s) = wp_expected (wr_payload rq) \<and>
        check_action p (wr_now rq) pu (wr_payload rq) (find_state (sb_id sb) (pu_id pu) db1) db1 = Inr pv \<and>
        record_event su p rq pu sb pv db1 = (r, db') \<and> resp = Some r)))"
proof (cases "find_idempotency (pc_org p) (wr_event_id rq) db")
  case (Some i)
  with assms show ?thesis by (auto simp: write_event_def Let_def split: if_splits)
next
  case None
  have adm: "pc_role p = Admin" using assms by (auto simp: write_event_def Let_def split: if_splits)
  obtain pu where gp: "get_purpose (pc_org p) (wp_purpose_key (wr_payload rq)) db = Inr pu"
    using assms None adm by (auto simp: write_event_def Let_def bindR_Inr_iff)
  obtain sb db1 where g: "get_or_create_subject su (pc_org p) (wp_subject_ref (wr_payload rq)) (wr_salt rq) db = (sb, db1)"
    by (rule prod.exhaust)
  let ?st = "find_state (sb_id sb) (pu_id pu) db1"
  have v: "(case ?st of None \<Rightarrow> 0 | Some s \<Rightarrow> cs_version s) = wp_expected (wr_payload rq)"
    by (rule ccontr) (use assms None adm gp g in \<open>simp add: write_event_def Let_def\<close>)
  have w: "bindR (check_action p (wr_now rq) pu (wr_payload rq) ?st db1)
      (\<lambda>pv. let (response, db2) = record_event su p rq pu sb pv db1 in Inr ((Some response, False), db2)) = Inr ((resp, rep), db')"
    using assms None adm gp g v by (simp add: write_event_def Let_def)
  then obtain pv where ch: "check_action p (wr_now rq) pu (wr_payload rq) ?st db1 = Inr pv" by (auto simp: bindR_Inr_iff)
  obtain r db2 where rec: "record_event su p rq pu sb pv db1 = (r, db2)" by (rule prod.exhaust)
  from w ch rec have "resp = Some r" "\<not> rep" "db2 = db'" by auto
  then show ?thesis using None adm gp g v ch rec by blast
qed

lemma get_purposeD: "get_purpose oid key db = Inr pu \<Longrightarrow> pu \<in> set (purposes db) \<and> pu_org pu = oid \<and> pu_key pu = key"
  by (auto simp: get_purpose_def dest: row_by_SomeD)

lemma write_event_inv:
  assumes inv: "vault_inv db" and w: "write_event su p rq db = Inr ((resp, rep), db')"
    and f: "find_subject (pc_org p) (wp_subject_ref (wr_payload rq)) db = None \<Longrightarrow>
      fresh_pseudonym (pc_org p) (subject_pseudonym su (pc_org p) (wp_subject_ref (wr_payload rq) @ ''#'' @ wr_salt rq)) db"
  shows "vault_inv db'"
proof (cases rep)
  case True
  with write_event_parts[OF w] inv show ?thesis by auto
next
  case False
  with write_event_parts[OF w] obtain pu sb db1 pv r where
    k: "get_purpose (pc_org p) (wp_purpose_key (wr_payload rq)) db = Inr pu"
      "get_or_create_subject su (pc_org p) (wp_subject_ref (wr_payload rq)) (wr_salt rq) db = (sb, db1)"
      "check_action p (wr_now rq) pu (wr_payload rq) (find_state (sb_id sb) (pu_id pu) db1) db1 = Inr pv"
      "record_event su p rq pu sb pv db1 = (r, db')" by blast
  from get_subject_inv[OF inv k(2) f] have s: "vault_inv db1" "sb \<in> set (subjects db1)" "sb_org sb = pc_org p" by blast+
  from get_purposeD[OF k(1)] get_subject_same[OF k(2)] have pu: "pu \<in> set (purposes db1)" "pu_org pu = pc_org p" by auto
  show ?thesis by (rule record_event_inv[OF s(1) k(4) s(2,3) pu k(3)])
qed

end
