(* ===== verification/Consent_Run.thy ===== *)
theory Consent_Run
  imports Consent_Invariants
begin

text \<open>
  Every request of the consent service keeps the invariant, if the salts give new subjects pseudonyms
  that the history does not know; and the rebuild computes the projection anew.
\<close>

section \<open>The catalog and the organizations\<close>

lemma create_purpose_inv:
  assumes inv: "vault_inv db" and r: "create_purpose su p now key description db = Inr (r, db')"
  shows "vault_inv db'"
proof -
  let ?db1 = "db\<lparr>purposes := purposes db @ [\<lparr>pu_id = next_row db, pu_org = pc_org p, pu_key = key, pu_description = description\<rparr>],
      next_row := next_row db + 1\<rparr>"
  from r have u: "vault_unique ?db1" and db': "\<exists>d. db' = audit su p now ''purpose.create'' d ?db1"
    by (auto simp: create_purpose_def Let_def bindR_Inr_iff split: if_splits)
  have "catalog_ok ?db1" using inv u unfolding vault_inv_def catalog_ok_def vault_unique_def by fastforce
  then have "vault_inv ?db1" by (intro catalog_step_inv[OF inv]) (auto simp: catalog_ext_def)
  then show ?thesis using db' audit_inv by blast
qed

lemma publish_parts:
  assumes "publish_policy_version su p now key body db = Inr (v, db')"
  shows "\<exists>pu rs d. get_purpose (pc_org p) key db = Inr pu \<and>
    (rs = [] \<and> (\<exists>po. find_policy (pc_org p) (pu_id pu) db = Some po \<and> vn_policy v = po_id po) \<or>
     (\<exists>po. rs = [po] \<and> po_id po = next_row db \<and> po_org po = pc_org p \<and> po_purpose po = pu_id pu \<and> vn_policy v = po_id po)) \<and>
    vn_org v = pc_org p \<and> vault_unique db' \<and>
    db' = audit su p now ''policy.publish'' d (db\<lparr>policies := policies db @ rs, policy_versions := policy_versions db @ [v],
      next_row := next_row db + int (length rs) + 1\<rparr>)"
proof -
  from assms obtain pu where gp: "get_purpose (pc_org p) key db = Inr pu"
    by (auto simp: publish_policy_version_def bindR_Inr_iff split: if_splits)
  show ?thesis
  proof (cases "find_policy (pc_org p) (pu_id pu) db")
    case None
    show ?thesis
      by (rule exI[of _ pu], rule exI[of _ "[\<lparr>po_id = next_row db, po_org = pc_org p, po_purpose = pu_id pu\<rparr>]"])
        (use assms gp None in \<open>auto simp: publish_policy_version_def Let_def bindR_Inr_iff split: if_splits\<close>)
  next
    case (Some po)
    show ?thesis
      by (rule exI[of _ pu], rule exI[of _ "[]"])
        (use assms gp Some in \<open>auto simp: publish_policy_version_def Let_def bindR_Inr_iff split: if_splits\<close>)
  qed
qed

lemma publish_inv:
  assumes inv: "vault_inv db" and r: "publish_policy_version su p now key body db = Inr (v, db')"
  shows "vault_inv db'"
proof -
  have c: "catalog_ok db" using inv by (simp add: vault_inv_def)
  from publish_parts[OF r] obtain pu rs d where gp: "get_purpose (pc_org p) key db = Inr pu"
    and rs: "rs = [] \<and> (\<exists>po. find_policy (pc_org p) (pu_id pu) db = Some po \<and> vn_policy v = po_id po) \<or>
     (\<exists>po. rs = [po] \<and> po_id po = next_row db \<and> po_org po = pc_org p \<and> po_purpose po = pu_id pu \<and> vn_policy v = po_id po)"
    and v: "vn_org v = pc_org p" "vault_unique db'"
    and db': "db' = audit su p now ''policy.publish'' d (db\<lparr>policies := policies db @ rs, policy_versions := policy_versions db @ [v],
      next_row := next_row db + int (length rs) + 1\<rparr>)" (is "_ = audit _ _ _ _ _ ?db2") by blast
  note pu = get_purposeD[OF gp]
  have u: "distinct (map po_id (policies db @ rs))" "distinct (map (\<lambda>p. (po_org p, po_purpose p)) (policies db @ rs))"
    using v(2) by (simp_all add: db' audit_def vault_unique_def)
  have n: "int (length rs) \<ge> 0" by simp
  have new: "\<forall>r \<in> set rs. po_id r = next_row db \<and> length rs = 1 \<and> (\<exists>p \<in> set (purposes db). pu_id p = po_purpose r \<and> pu_org p = po_org r)"
    using rs pu by auto
  have vp: "\<exists>r \<in> set (policies db @ rs). po_id r = vn_policy v \<and> po_org r = vn_org v"
    using rs v(1) by (auto simp: find_policy_def dest: row_by_SomeD)
  have "catalog_ok ?db2" unfolding catalog_ok_def
  proof (intro conjI)
    show "\<forall>p \<in> set (purposes ?db2). pu_id p < next_row ?db2" using c n by (fastforce simp: catalog_ok_def)
    show "\<forall>r \<in> set (policies ?db2). po_id r < next_row ?db2 \<and> (\<exists>p \<in> set (purposes ?db2). pu_id p = po_purpose r \<and> pu_org p = po_org r)"
    proof
      fix r assume "r \<in> set (policies ?db2)"
      then consider "r \<in> set (policies db)" | "r \<in> set rs" by auto
      then show "po_id r < next_row ?db2 \<and> (\<exists>p \<in> set (purposes ?db2). pu_id p = po_purpose r \<and> pu_org p = po_org r)"
      proof cases
        case 1
        then have "po_id r < next_row db" "\<exists>p \<in> set (purposes db). pu_id p = po_purpose r \<and> pu_org p = po_org r" using c by (simp_all add: catalog_ok_def)
        then show ?thesis by simp
      qed (use new in simp)
    qed
    show "\<forall>v \<in> set (policy_versions ?db2). \<exists>r \<in> set (policies ?db2). po_id r = vn_policy v \<and> po_org r = vn_org v"
      using c vp by (fastforce simp: catalog_ok_def)
  qed (use c u in \<open>simp_all add: catalog_ok_def\<close>)
  then have "vault_inv ?db2" by (intro catalog_step_inv[OF inv]) (auto simp: catalog_ext_def)
  then show ?thesis unfolding db' by (rule audit_inv)
qed

lemma create_organization_inv: "vault_inv db \<Longrightarrow> create_organization su name a b db = Inr (n, db') \<Longrightarrow> vault_inv db'"
  by (erule vault_inv_same) (auto simp: create_organization_def Let_def bindR_Inr_iff split: if_splits)

lemma register_export_copy_inv: "vault_inv db \<Longrightarrow> register_export_copy su p now ref label db = Inr (c, db') \<Longrightarrow> vault_inv db'"
  by (erule vault_inv_same) (auto simp: register_export_copy_def audit_def Let_def bindR_Inr_iff split: if_splits)

section \<open>Erasure\<close>

lemma row_by_filter: "(\<And>r. r \<in> set rows \<Longrightarrow> key r = k \<Longrightarrow> P r) \<Longrightarrow> row_by key k (filter P rows) = row_by key k rows"
  by (induction rows) auto

lemma erase_inv:
  assumes inv: "vault_inv db"
  shows "vault_inv (erase sid db)"
proof -
  let ?db = "erase sid db"
  have i: "catalog_ok db" "subjects_ok db" "history_ok db" "projection_ok db" using inv by (simp_all add: vault_inv_def)
  have same: "purposes ?db = purposes db" "policies ?db = policies db" "policy_versions ?db = policy_versions db" "events ?db = events db"
    "next_row ?db = next_row db" "subjects ?db = filter (\<lambda>s. sb_id s \<noteq> sid) (subjects db)" "states ?db = filter (\<lambda>s. cs_subject s \<noteq> sid) (states db)"
    by (simp_all add: erase_def)
  have st: "stream oid ps key ?db = stream oid ps key db" for oid ps key by (simp add: stream_def same)
  have rp: "replayed ?db sb pu = replayed db sb pu" for sb pu
    by (simp add: replayed_def st policy_id_def find_policy_def policy_version_map_def same)
  have "catalog_ok ?db" using i(1) unfolding catalog_ok_def same .
  moreover have "subjects_ok ?db" unfolding subjects_ok_def same
  proof (intro conjI)
    show "\<forall>s \<in> set (filter (\<lambda>s. cs_subject s \<noteq> sid) (states db)). \<exists>sb \<in> set (filter (\<lambda>s. sb_id s \<noteq> sid) (subjects db)).
        \<exists>pu \<in> set (purposes db). sb_id sb = cs_subject s \<and> sb_org sb = cs_org s \<and> pu_id pu = cs_purpose s \<and> pu_org pu = cs_org s"
      using i(2) unfolding subjects_ok_def by fastforce
  qed (use i(2) in \<open>auto simp: subjects_ok_def distinct_map_filter\<close>)
  moreover have "history_ok ?db" using i(3) unfolding history_ok_def event_ok_def st same .
  moreover have "projection_ok ?db" unfolding projection_ok_def rp
  proof (intro ballI impI)
    fix sb pu assume k: "sb \<in> set (subjects ?db)" "pu \<in> set (purposes ?db)" "pu_org pu = sb_org sb"
    then have "find_state (sb_id sb) (pu_id pu) ?db = find_state (sb_id sb) (pu_id pu) db"
      unfolding find_state_def same by (intro row_by_filter) auto
    then show "map_option state_core (find_state (sb_id sb) (pu_id pu) ?db) = replayed db sb pu"
      using i(4) k by (auto simp: projection_ok_def same)
  qed
  ultimately show ?thesis by (simp add: vault_inv_def)
qed

lemma delete_subject_inv:
  assumes "vault_inv db" "delete_subject su p now ref db = Inr (c, db')"
  shows "vault_inv db'"
proof -
  from assms(2) obtain sid d where "db' = audit su p now ''subject.delete'' d (erase sid db)"
    by (auto simp: delete_subject_def Let_def bindR_Inr_iff split: if_splits)
  then show ?thesis by (simp add: audit_inv erase_inv assms(1))
qed

section \<open>The rebuild\<close>

lemma purpose_mapD:
  assumes "map_of (purpose_map oid db) key = Some (pid, pol)"
  shows "\<exists>pu \<in> set (purposes db). pu_org pu = oid \<and> pu_key pu = key \<and> pu_id pu = pid \<and> (\<exists>po \<in> set (policies db). po_purpose po = pid \<and> po_id po = pol)"
  using map_of_SomeD[OF assms] by (auto simp: purpose_map_def)

lemma purpose_map_lookup:
  assumes c: "catalog_ok db" and pu: "pu \<in> set (purposes db)" "pu_org pu = oid" and pol: "find_policy oid (pu_id pu) db \<noteq> None"
  shows "map_of (purpose_map oid db) (pu_key pu) = Some (pu_id pu, policy_id oid (pu_id pu) db)"
proof -
  from pol obtain po where po: "find_policy oid (pu_id pu) db = Some po" "po \<in> set (policies db)" "po_purpose po = pu_id pu"
    by (auto simp: find_policy_def dest: row_by_SomeD)
  with pu have "(pu_key pu, pu_id pu, po_id po) \<in> set (purpose_map oid db)" by (auto simp: purpose_map_def)
  then have "map_of (purpose_map oid db) (pu_key pu) \<noteq> None" by (auto simp: map_of_eq_None_iff intro!: rev_image_eqI)
  then obtain pid pol where m: "map_of (purpose_map oid db) (pu_key pu) = Some (pid, pol)" by auto
  from purpose_mapD[OF m] obtain pu' po' where k: "pu' \<in> set (purposes db)" "pu_org pu' = oid" "pu_key pu' = pu_key pu" "pu_id pu' = pid"
    "po' \<in> set (policies db)" "po_purpose po' = pid" "po_id po' = pol" by blast
  have pu': "pu' = pu" using c k pu unfolding catalog_ok_def by (intro row_key_inj[of "\<lambda>p. (pu_org p, pu_key p)" "purposes db"]) simp_all
  from c k(5) obtain p0 where p0: "p0 \<in> set (purposes db)" "pu_id p0 = po_purpose po'" "pu_org p0 = po_org po'" unfolding catalog_ok_def by blast
  have "p0 = pu" using c p0 pu(1) k(4,6) pu' unfolding catalog_ok_def by (intro row_key_inj[of pu_id "purposes db"]) simp_all
  then have "po_org po' = oid" using p0 pu by simp
  with find_policy_row[OF c k(5)] have "find_policy oid (pu_id pu) db = Some po'" using k(4,6) pu' by simp
  then show ?thesis using m k(4,7) pu' by (simp add: policy_id_def)
qed

lemma subject_lookup:
  assumes s: "subjects_ok db" and sb: "sb \<in> set (subjects db)" "sb_org sb = oid"
  shows "row_by sb_pseudonym (sb_pseudonym sb) (filter (\<lambda>s. sb_org s = oid) (subjects db)) = Some sb"
proof -
  have "row_by sb_pseudonym (sb_pseudonym sb) (filter (\<lambda>s. sb_org s = oid) (subjects db)) \<noteq> None"
    using sb by (auto simp: row_by_None_iff)
  then obtain sb' where r: "row_by sb_pseudonym (sb_pseudonym sb) (filter (\<lambda>s. sb_org s = oid) (subjects db)) = Some sb'" by blast
  have "sb' = sb" using s sb row_by_SomeD[OF r] unfolding subjects_ok_def
    by (intro row_key_inj[of "\<lambda>s. (sb_org s, sb_pseudonym s)" "subjects db"]) simp_all
  with r show ?thesis by simp
qed

lemma row_by_map_of:
  assumes "\<And>k s. (k, s) \<in> set dict \<Longrightarrow> key s = kk \<longleftrightarrow> k = k0"
  shows "row_by key kk (map snd dict) = map_of dict k0"
  using assms
proof (induction dict)
  case (Cons ks dict)
  obtain k s where ks: "ks = (k, s)" by (rule prod.exhaust)
  have "key s = kk \<longleftrightarrow> k = k0" by (rule Cons.prems) (simp add: ks)
  moreover have "row_by key kk (map snd dict) = map_of dict k0" by (rule Cons.IH) (rule Cons.prems, simp)
  ultimately show ?case by (simp add: ks)
qed simp

text \<open>The dictionary that the rebuild computes.\<close>

definition rebuilt :: "(string \<Rightarrow> int) \<Rightarrow> int \<Rightarrow> vault \<Rightarrow> state_dict" where
  "rebuilt rank oid db = fold (apply_event (next_row db) oid (purpose_map oid db) (policy_version_map oid db)
     (filter (\<lambda>s. sb_org s = oid) (subjects db))) (replay_order rank (filter (\<lambda>e. ev_org e = oid) (events db))) []"

lemma rebuilt_entry:
  assumes c: "catalog_ok db" and ks: "(k, s) \<in> set (rebuilt rank oid db)"
  shows "\<exists>sb pu. sb \<in> set (subjects db) \<and> sb_org sb = oid \<and> sb_pseudonym sb = fst k \<and> pu \<in> set (purposes db) \<and> pu_org pu = oid \<and>
    pu_key pu = snd k \<and> cs_org s = oid \<and> cs_subject s = sb_id sb \<and> cs_purpose s = pu_id pu \<and> find_policy oid (pu_id pu) db \<noteq> None"
proof -
  have "good_entry oid (purpose_map oid db) (filter (\<lambda>s. sb_org s = oid) (subjects db)) (k, s)"
    using ks rebuild_dict_good unfolding rebuilt_def good_dict_def by blast
  then obtain sb pid pol where e: "row_by sb_pseudonym (fst k) (filter (\<lambda>s. sb_org s = oid) (subjects db)) = Some sb"
      "map_of (purpose_map oid db) (snd k) = Some (pid, pol)" "cs_org s = oid" "cs_subject s = sb_id sb" "cs_purpose s = pid"
    by (auto simp: good_entry_def split: prod.splits)
  from purpose_mapD[OF e(2)] obtain pu po where p: "pu \<in> set (purposes db)" "pu_org pu = oid" "pu_key pu = snd k" "pu_id pu = pid"
      "po \<in> set (policies db)" "po_purpose po = pid" by blast
  from c p(5) obtain p0 where p0: "p0 \<in> set (purposes db)" "pu_id p0 = po_purpose po" "pu_org p0 = po_org po" unfolding catalog_ok_def by blast
  have "p0 = pu" using c p0 p unfolding catalog_ok_def by (intro row_key_inj[of pu_id "purposes db"]) simp_all
  then have f: "find_policy oid (pu_id pu) db \<noteq> None" using find_policy_row[OF c p(5)] p0 p by simp
  from row_by_SomeD[OF e(1)] have "sb \<in> set (subjects db)" "sb_org sb = oid" "sb_pseudonym sb = fst k" by simp_all
  with e(3-5) p(1-4) f show ?thesis by (intro exI[of _ sb] exI[of _ pu]) simp
qed

lemma rebuilt_find:
  assumes c: "catalog_ok db" "subjects_ok db" "history_ok db" and sb: "sb \<in> set (subjects db)" "sb_org sb = oid"
    and pu: "pu \<in> set (purposes db)" "pu_org pu = oid"
  shows "map_option state_core (row_by (\<lambda>s. (cs_subject s, cs_purpose s)) (sb_id sb, pu_id pu) (map snd (rebuilt rank oid db))) = replayed db sb pu"
proof -
  let ?k = "(sb_pseudonym sb, pu_key pu)" and ?d = "rebuilt rank oid db"
  let ?es = "filter (\<lambda>e. ev_org e = oid) (events db)"
  have st: "filter (\<lambda>e. ev_pseudonym e = sb_pseudonym sb \<and> ev_purpose e = pu_key pu) ?es = stream oid (sb_pseudonym sb) (pu_key pu) db"
    by (auto simp: stream_def intro!: filter_cong)
  have row: "row_by (\<lambda>s. (cs_subject s, cs_purpose s)) (sb_id sb, pu_id pu) (map snd ?d) = map_of ?d ?k"
  proof (rule row_by_map_of)
    fix k s assume ks: "(k, s) \<in> set ?d"
    from rebuilt_entry[OF c(1) this] obtain sb' pu' where e: "sb' \<in> set (subjects db)" "sb_org sb' = oid" "sb_pseudonym sb' = fst k"
      "pu' \<in> set (purposes db)" "pu_org pu' = oid" "pu_key pu' = snd k" "cs_subject s = sb_id sb'" "cs_purpose s = pu_id pu'" by blast
    have "sb' = sb" if "sb_id sb' = sb_id sb \<or> sb_pseudonym sb' = sb_pseudonym sb"
      using that c(2) e(1,2) sb row_key_inj[of sb_id "subjects db" sb' sb]
        row_key_inj[of "\<lambda>s. (sb_org s, sb_pseudonym s)" "subjects db" sb' sb] by (auto simp: subjects_ok_def)
    moreover have "pu' = pu" if "pu_id pu' = pu_id pu \<or> pu_key pu' = pu_key pu"
      using that c(1) e(4,5) pu row_key_inj[of pu_id "purposes db" pu' pu]
        row_key_inj[of "\<lambda>p. (pu_org p, pu_key p)" "purposes db" pu' pu] by (auto simp: catalog_ok_def)
    ultimately show "((cs_subject s, cs_purpose s) = (sb_id sb, pu_id pu)) = (k = ?k)" using e by (auto simp: prod_eq_iff)
  qed
  show ?thesis
  proof (cases "find_policy oid (pu_id pu) db")
    case None
    have "map_of ?d ?k = None"
    proof (rule ccontr)
      assume "map_of ?d ?k \<noteq> None"
      then obtain s where "(?k, s) \<in> set ?d" by (auto dest: map_of_SomeD)
      from rebuilt_entry[OF c(1) this] obtain pu' where e: "pu' \<in> set (purposes db)" "pu_org pu' = oid" "pu_key pu' = pu_key pu"
        "find_policy oid (pu_id pu') db \<noteq> None" by auto
      have "pu' = pu" using c(1) e pu unfolding catalog_ok_def
        by (intro row_key_inj[of "\<lambda>p. (pu_org p, pu_key p)" "purposes db"]) simp_all
      with e None show False by simp
    qed
    moreover have "stream oid (sb_pseudonym sb) (pu_key pu) db = []"
    proof (rule ccontr)
      assume "stream oid (sb_pseudonym sb) (pu_key pu) db \<noteq> []"
      from stream_last_purpose[OF c(3) this] obtain pu' po where e: "pu' \<in> set (purposes db)" "pu_org pu' = oid" "pu_key pu' = pu_key pu"
        "po \<in> set (policies db)" "po_org po = oid" "po_purpose po = pu_id pu'" by blast
      have "pu' = pu" using c(1) e pu unfolding catalog_ok_def
        by (intro row_key_inj[of "\<lambda>p. (pu_org p, pu_key p)" "purposes db"]) simp_all
      with find_policy_row[OF c(1) e(4)] e(5,6) None show False by simp
    qed
    ultimately show ?thesis unfolding row by (simp add: replayed_def replay_def sb(2))
  next
    case (Some po)
    then have pol: "find_policy oid (pu_id pu) db \<noteq> None" by simp
    have "sorted (map ev_sequence (stream oid (sb_pseudonym sb) (pu_key pu) db))"
      using c(3) by (simp add: history_ok_def sorted_map sorted_wrt_map del: upt_Suc)
    then have ord: "filter (\<lambda>e. ev_pseudonym e = sb_pseudonym sb \<and> ev_purpose e = pu_key pu) (replay_order rank ?es) =
        stream oid (sb_pseudonym sb) (pu_key pu) db"
      using replay_order_stream[of "sb_pseudonym sb" "pu_key pu" ?es rank] unfolding st by simp
    show ?thesis unfolding row unfolding rebuilt_def rebuild_dict[OF subject_lookup[OF c(2) sb] purpose_map_lookup[OF c(1) pu pol]] ord
      by (simp add: replayed_def sb(2))
  qed
qed

lemma rebuild_organization_eq:
  "rebuild_organization rank oid db = ((length (rebuilt rank oid db), length (filter (\<lambda>e. ev_org e = oid) (events db))),
     db\<lparr>states := filter (\<lambda>s. cs_org s \<noteq> oid) (states db) @ map snd (rebuilt rank oid db),
        next_row := next_row db + int (length (rebuilt rank oid db))\<rparr>)"
  by (simp add: rebuild_organization_def rebuilt_def replay_order_def Let_def)

lemma rebuilt_ids: "map cs_id (map snd (rebuilt rank oid db)) = map (\<lambda>i. next_row db + int i) [0..<length (rebuilt rank oid db)]"
  using rebuild_dict_good[of "next_row db" oid] unfolding rebuilt_def good_dict_def by (simp add: o_def split_def)

lemma rebuilt_state:
  assumes c: "catalog_ok db" and s: "s \<in> set (map snd (rebuilt rank oid db))"
  shows "\<exists>sb pu. sb \<in> set (subjects db) \<and> pu \<in> set (purposes db) \<and> sb_org sb = oid \<and> pu_org pu = oid \<and>
    cs_org s = oid \<and> cs_subject s = sb_id sb \<and> cs_purpose s = pu_id pu"
proof -
  from s obtain k where "(k, s) \<in> set (rebuilt rank oid db)" by auto
  from rebuilt_entry[OF c this] show ?thesis by blast
qed

text \<open>After the rebuild every state is what it was, up to the identifier of its row.\<close>

lemma rebuild_find:
  assumes inv: "vault_inv db" and sb: "sb \<in> set (subjects db)" and pu: "pu \<in> set (purposes db)" "pu_org pu = sb_org sb"
    and r: "rebuild_organization rank oid db = (n, db1)"
  shows "map_option state_core (find_state (sb_id sb) (pu_id pu) db1) = map_option state_core (find_state (sb_id sb) (pu_id pu) db)"
proof -
  have i: "catalog_ok db" "subjects_ok db" "history_ok db" "projection_ok db" using inv by (simp_all add: vault_inv_def)
  have st: "states db1 = filter (\<lambda>s. cs_org s \<noteq> oid) (states db) @ map snd (rebuilt rank oid db)"
    using r by (auto simp: rebuild_organization_eq)
  let ?key = "\<lambda>s. (cs_subject s, cs_purpose s)" and ?k = "(sb_id sb, pu_id pu)"
  have own: "cs_org s = sb_org sb" if s: "s \<in> set (states db)" "cs_subject s = sb_id sb" for s
  proof -
    from i(2) s(1) obtain sb' where "sb' \<in> set (subjects db)" "sb_id sb' = cs_subject s" "sb_org sb' = cs_org s" unfolding subjects_ok_def by blast
    moreover from this s(2) have "sb' = sb" using i(2) sb unfolding subjects_ok_def by (intro row_key_inj[of sb_id "subjects db"]) simp_all
    ultimately show ?thesis by simp
  qed
  show ?thesis
  proof (cases "sb_org sb = oid")
    case True
    have "row_by ?key ?k (filter (\<lambda>s. cs_org s \<noteq> oid) (states db)) = None" using own True by (auto simp: row_by_None_iff)
    then have "find_state (sb_id sb) (pu_id pu) db1 = row_by ?key ?k (map snd (rebuilt rank oid db))"
      by (simp add: find_state_def st row_by_append)
    then show ?thesis using rebuilt_find[OF i(1-3) sb True pu(1)] True pu i(4) sb by (simp add: projection_ok_def)
  next
    case False
    have "row_by ?key ?k (map snd (rebuilt rank oid db)) = None"
    proof (rule ccontr)
      assume "row_by ?key ?k (map snd (rebuilt rank oid db)) \<noteq> None"
      then obtain s where "s \<in> set (map snd (rebuilt rank oid db))" "cs_subject s = sb_id sb" by (auto dest: row_by_SomeD)
      with rebuilt_state[OF i(1)] obtain sb' where "sb' \<in> set (subjects db)" "sb_org sb' = oid" "sb_id sb' = sb_id sb" by metis
      moreover from this have "sb' = sb" using i(2) sb unfolding subjects_ok_def by (intro row_key_inj[of sb_id "subjects db"]) simp_all
      ultimately show False using False by simp
    qed
    moreover have "row_by ?key ?k (filter (\<lambda>s. cs_org s \<noteq> oid) (states db)) = row_by ?key ?k (states db)"
      by (rule row_by_filter) (use own False in auto)
    ultimately show ?thesis by (simp add: find_state_def st row_by_append split: option.split)
  qed
qed

lemma rebuild_inv:
  assumes inv: "vault_inv db" and r: "rebuild_organization rank oid db = (n, db1)"
  shows "vault_inv db1"
proof -
  have i: "catalog_ok db" "subjects_ok db" "history_ok db" "projection_ok db" using inv by (simp_all add: vault_inv_def)
  let ?d = "rebuilt rank oid db"
  have db1: "db1 = db\<lparr>states := filter (\<lambda>s. cs_org s \<noteq> oid) (states db) @ map snd ?d, next_row := next_row db + int (length ?d)\<rparr>"
    using r by (auto simp: rebuild_organization_eq)
  have same: "purposes db1 = purposes db" "policies db1 = policies db" "policy_versions db1 = policy_versions db" "events db1 = events db"
    "subjects db1 = subjects db" and n: "next_row db \<le> next_row db1" by (simp_all add: db1)
  have "catalog_ok db1" using i(1) n unfolding catalog_ok_def same by fastforce
  moreover have "subjects_ok db1" unfolding subjects_ok_def same
  proof (intro conjI)
    show "\<forall>s \<in> set (subjects db). sb_id s < next_row db1" using i(2) n unfolding subjects_ok_def by fastforce
    show "\<forall>s \<in> set (states db1). cs_id s < next_row db1"
    proof
      fix s assume "s \<in> set (states db1)"
      then consider "s \<in> set (states db)" | "s \<in> set (map snd ?d)" by (auto simp: db1)
      then show "cs_id s < next_row db1"
      proof cases
        case 1
        then show ?thesis using i(2) n unfolding subjects_ok_def by fastforce
      next
        case 2
        then have "cs_id s \<in> set (map cs_id (map snd ?d))" by (simp add: image_image image_iff) (metis snd_conv)
        then show ?thesis unfolding rebuilt_ids by (auto simp: db1)
      qed
    qed
    show "\<forall>s \<in> set (states db1). \<exists>sb \<in> set (subjects db). \<exists>pu \<in> set (purposes db).
        sb_id sb = cs_subject s \<and> sb_org sb = cs_org s \<and> pu_id pu = cs_purpose s \<and> pu_org pu = cs_org s"
    proof
      fix s assume "s \<in> set (states db1)"
      then consider "s \<in> set (states db)" | "s \<in> set (map snd ?d)" by (auto simp: db1)
      then show "\<exists>sb \<in> set (subjects db). \<exists>pu \<in> set (purposes db).
        sb_id sb = cs_subject s \<and> sb_org sb = cs_org s \<and> pu_id pu = cs_purpose s \<and> pu_org pu = cs_org s"
      proof cases
        case 1
        then show ?thesis using i(2) unfolding subjects_ok_def by blast
      next
        case 2
        from rebuilt_state[OF i(1) 2] show ?thesis by metis
      qed
    qed
  qed (use i(2) in \<open>simp_all add: subjects_ok_def\<close>)
  moreover have "history_ok db1" using i(3) unfolding history_ok_def event_ok_def stream_def same .
  moreover have "projection_ok db1" unfolding projection_ok_def same
  proof (intro ballI impI)
    fix sb pu assume k: "sb \<in> set (subjects db)" "pu \<in> set (purposes db)" "pu_org pu = sb_org sb"
    have "replayed db1 sb pu = replayed db sb pu"
      by (simp add: replayed_def stream_def policy_id_def find_policy_def policy_version_map_def same)
    then show "map_option state_core (find_state (sb_id sb) (pu_id pu) db1) = replayed db1 sb pu"
      unfolding rebuild_find[OF inv k r] using i(4) k by (simp add: projection_ok_def)
  qed
  ultimately show ?thesis by (simp add: vault_inv_def)
qed

lemma rebuilt_distinct:
  assumes c: "catalog_ok db" "subjects_ok db"
  shows "distinct (map (\<lambda>s. (cs_subject s, cs_purpose s)) (map snd (rebuilt rank oid db)))"
proof -
  let ?d = "rebuilt rank oid db" and ?f = "\<lambda>ks. (cs_subject (snd ks), cs_purpose (snd ks))"
  have d: "distinct (map fst ?d)" using rebuild_dict_good unfolding rebuilt_def good_dict_def by blast
  have "inj_on ?f (set ?d)"
  proof (rule inj_onI)
    fix x y assume x: "x \<in> set ?d" and y: "y \<in> set ?d" and f: "?f x = ?f y"
    from rebuilt_entry[OF c(1), of "fst x" "snd x" rank oid] x obtain sb pu where 1: "sb \<in> set (subjects db)" "sb_pseudonym sb = fst (fst x)"
      "pu \<in> set (purposes db)" "pu_key pu = snd (fst x)" "cs_subject (snd x) = sb_id sb" "cs_purpose (snd x) = pu_id pu" by auto
    from rebuilt_entry[OF c(1), of "fst y" "snd y" rank oid] y obtain sb' pu' where 2: "sb' \<in> set (subjects db)" "sb_pseudonym sb' = fst (fst y)"
      "pu' \<in> set (purposes db)" "pu_key pu' = snd (fst y)" "cs_subject (snd y) = sb_id sb'" "cs_purpose (snd y) = pu_id pu'" by auto
    have "sb = sb'" using 1 2 f c(2) unfolding subjects_ok_def by (intro row_key_inj[of sb_id "subjects db"]) simp_all
    moreover have "pu = pu'" using 1 2 f c(1) unfolding catalog_ok_def by (intro row_key_inj[of pu_id "purposes db"]) simp_all
    ultimately have "fst x = fst y" using 1 2 by (simp add: prod_eq_iff)
    with row_key_inj[OF d x y] show "x = y" .
  qed
  moreover have "distinct ?d" using d by (simp add: distinct_map)
  ultimately show ?thesis by (simp add: distinct_map comp_def)
qed

lemma rebuild_unique:
  assumes inv: "vault_inv db" and u: "vault_unique db" and r: "rebuild_organization rank oid db = (n, db1)"
  shows "vault_unique db1"
proof -
  have i: "catalog_ok db" "subjects_ok db" using inv by (simp_all add: vault_inv_def)
  let ?d = "map snd (rebuilt rank oid db)" and ?old = "filter (\<lambda>s. cs_org s \<noteq> oid) (states db)"
  have db1: "db1 = db\<lparr>states := ?old @ ?d, next_row := next_row db + int (length (rebuilt rank oid db))\<rparr>"
    using r by (auto simp: rebuild_organization_eq)
  have ids: "\<forall>s \<in> set (states db). cs_id s < next_row db" using i(2) by (simp add: subjects_ok_def)
  have new: "cs_id ` set ?d = (\<lambda>k. next_row db + int k) ` {0..<length (rebuilt rank oid db)}"
    using arg_cong[OF rebuilt_ids, of set rank oid db] by (simp add: image_image)
  have "distinct (map cs_id ?d)" unfolding rebuilt_ids by (simp add: distinct_map inj_on_def)
  moreover have "cs_id ` set ?old \<inter> cs_id ` set ?d = {}" unfolding new using ids by fastforce
  moreover have "distinct (map cs_id ?old)" using u by (simp add: vault_unique_def distinct_map_filter)
  ultimately have a: "distinct (map cs_id (?old @ ?d))" by (simp only: map_append distinct_append set_map simp_thms)
  have "(cs_subject s, cs_purpose s) \<noteq> (cs_subject t, cs_purpose t)" if s: "s \<in> set ?old" and t: "t \<in> set ?d" for s t
  proof
    assume e: "(cs_subject s, cs_purpose s) = (cs_subject t, cs_purpose t)"
    from rebuilt_state[OF i(1) t] obtain sb where 1: "sb \<in> set (subjects db)" "sb_org sb = oid" "cs_subject t = sb_id sb" by blast
    from s i(2) obtain sb' where 2: "sb' \<in> set (subjects db)" "sb_id sb' = cs_subject s" "sb_org sb' = cs_org s" unfolding subjects_ok_def by fastforce
    have "sb' = sb" using 1 2 e i(2) unfolding subjects_ok_def by (intro row_key_inj[of sb_id "subjects db"]) simp_all
    with 1 2 s show False by simp
  qed
  then have "(\<lambda>s. (cs_subject s, cs_purpose s)) ` set ?old \<inter> (\<lambda>s. (cs_subject s, cs_purpose s)) ` set ?d = {}" by blast
  moreover have "distinct (map (\<lambda>s. (cs_subject s, cs_purpose s)) ?old)" using u by (simp add: vault_unique_def distinct_map_filter)
  ultimately have b: "distinct (map (\<lambda>s. (cs_subject s, cs_purpose s)) (?old @ ?d))"
    using rebuilt_distinct[OF i] by (simp only: map_append distinct_append set_map simp_thms)
  have t: "organizations db1 = organizations db" "api_keys db1 = api_keys db" "subjects db1 = subjects db" "purposes db1 = purposes db"
    "policies db1 = policies db" "policy_versions db1 = policy_versions db" "events db1 = events db" "idempotencies db1 = idempotencies db"
    "states db1 = ?old @ ?d" by (simp_all add: db1)
  from u show ?thesis unfolding vault_unique_def t using a b by (elim conjE) (intro conjI; assumption)
qed

section \<open>Writes and batches\<close>

text \<open>The subjects that a request adds have pseudonyms that the history did not know before.\<close>

definition fresh_step :: "vault \<Rightarrow> vault \<Rightarrow> bool" where
  "fresh_step db db' \<longleftrightarrow> list_all (\<lambda>s. sb_id s < next_row db \<or>
     \<not> list_ex (\<lambda>e. ev_org e = sb_org s \<and> ev_pseudonym e = sb_pseudonym s) (events db)) (subjects db')"

definition known_pseudonyms :: "vault \<Rightarrow> vault \<Rightarrow> bool" where
  "known_pseudonyms db0 db \<longleftrightarrow> next_row db0 \<le> next_row db \<and>
     (\<forall>e \<in> set (events db). e \<in> set (events db0) \<or> (\<exists>s \<in> set (subjects db). sb_org s = ev_org e \<and> sb_pseudonym s = ev_pseudonym e))"

text \<open>What a write does to subjects and events.\<close>

lemma write_event_adds:
  assumes "write_event su p rq db = Inr ((resp, rep), db')"
  shows "next_row db \<le> next_row db' \<and> set (subjects db) \<subseteq> set (subjects db') \<and>
    (find_subject (pc_org p) (wp_subject_ref (wr_payload rq)) db = None \<and> \<not> rep \<longrightarrow>
      (\<exists>s \<in> set (subjects db'). sb_id s = next_row db \<and> sb_org s = pc_org p \<and>
        sb_pseudonym s = subject_pseudonym su (pc_org p) (wp_subject_ref (wr_payload rq) @ ''#'' @ wr_salt rq))) \<and>
    (\<exists>es. events db' = events db @ es \<and> (\<forall>e \<in> set es. \<exists>s \<in> set (subjects db'). sb_org s = ev_org e \<and> sb_pseudonym s = ev_pseudonym e))"
proof (cases rep)
  case True
  with write_event_parts[OF assms] show ?thesis by auto
next
  case False
  with write_event_parts[OF assms] obtain pu sb db1 pv r where
    g: "get_or_create_subject su (pc_org p) (wp_subject_ref (wr_payload rq)) (wr_salt rq) db = (sb, db1)"
    and r: "record_event su p rq pu sb pv db1 = (r, db')" by blast
  have s: "set (subjects db) \<subseteq> set (subjects db1)" "sb \<in> set (subjects db1)" "sb_org sb = pc_org p"
    using g by (auto simp: get_or_create_subject_def find_subject_def Let_def split: option.splits dest: row_by_SomeD)
  have f: "sb_id sb = next_row db \<and> sb_pseudonym sb = subject_pseudonym su (pc_org p) (wp_subject_ref (wr_payload rq) @ ''#'' @ wr_salt rq)"
    if "find_subject (pc_org p) (wp_subject_ref (wr_payload rq)) db = None"
    using g that by (auto simp: get_or_create_subject_def Let_def)
  from record_event_parts[OF r] have k: "subjects db' = subjects db1" "events db' = events db1 @ [new_event p rq pu sb db1]" "next_row db1 < next_row db'"
    by blast+
  have es: "\<exists>es. events db' = events db @ es \<and> (\<forall>e \<in> set es. \<exists>s \<in> set (subjects db'). sb_org s = ev_org e \<and> sb_pseudonym s = ev_pseudonym e)"
    by (rule exI[of _ "[new_event p rq pu sb db1]"])
      (use k s get_subject_same(4)[OF g] in \<open>auto simp: new_event_def\<close>)
  show ?thesis using k s f es get_subject_same(11)[OF g] by auto
qed

lemma write_event_known:
  assumes k: "vault_inv db" "known_pseudonyms db0 db" and w: "write_event su p rq db = Inr ((resp, rep), db')"
    and u: "distinct (map (\<lambda>s. (sb_org s, sb_pseudonym s)) (subjects dbF))" and sub: "set (subjects db') \<subseteq> set (subjects dbF)"
    and f: "fresh_step db0 dbF"
  shows "vault_inv db' \<and> known_pseudonyms db0 db'"
proof
  note a = write_event_adds[OF w]
  show "known_pseudonyms db0 db'" using k(2) a unfolding known_pseudonyms_def by fastforce
  show "vault_inv db'"
  proof (cases rep)
    case True
    with write_event_parts[OF w] k(1) show ?thesis by auto
  next
    case False
    let ?ps = "subject_pseudonym su (pc_org p) (wp_subject_ref (wr_payload rq) @ ''#'' @ wr_salt rq)"
    show ?thesis
    proof (rule write_event_inv[OF k(1) w])
      assume n: "find_subject (pc_org p) (wp_subject_ref (wr_payload rq)) db = None"
      with a False obtain s where s: "s \<in> set (subjects db')" "sb_id s = next_row db" "sb_org s = pc_org p" "sb_pseudonym s = ?ps" by blast
      have other: "\<not> (sb_org t = pc_org p \<and> sb_pseudonym t = ?ps)" if t: "t \<in> set (subjects db)" for t
      proof
        assume e: "sb_org t = pc_org p \<and> sb_pseudonym t = ?ps"
        have "t \<in> set (subjects dbF)" "s \<in> set (subjects dbF)" using t s(1) a sub by blast+
        then have "t = s" using e s by (intro row_key_inj[OF u]) simp_all
        moreover have "sb_id t < next_row db" using k(1) t by (simp add: vault_inv_def subjects_ok_def)
        ultimately show False using s(2) by simp
      qed
      have "next_row db0 \<le> sb_id s" using k(2) s(2) by (simp add: known_pseudonyms_def)
      then have "\<forall>e \<in> set (events db0). \<not> (ev_org e = sb_org s \<and> ev_pseudonym e = sb_pseudonym s)"
        using f s(1) sub unfolding fresh_step_def list_all_iff list_ex_iff by (metis leD subsetD)
      then have "\<forall>e \<in> set (events db). \<not> (ev_org e = pc_org p \<and> ev_pseudonym e = ?ps)"
        using k(2) other s(3,4) unfolding known_pseudonyms_def by metis
      then show "fresh_pseudonym (pc_org p) ?ps db" using other by (simp add: fresh_pseudonym_def)
    qed
  qed
qed

lemma batch_item_parts:
  assumes "batch_item su p (seen, n, ans, db) rq = Inr (seen', n', ans', db')"
  shows "\<exists>resp rep. write_event su p rq db = Inr ((resp, rep), db')"
  using assms by (auto simp: batch_item_def bindR_Inr_iff split: if_splits)

lemma batch_known:
  assumes "foldR (batch_item su p) (seen, n, ans, db) rqs = Inr (seen', n', ans', dbF)"
    and "distinct (map (\<lambda>s. (sb_org s, sb_pseudonym s)) (subjects dbF))" "fresh_step db0 dbF"
  shows "set (subjects db) \<subseteq> set (subjects dbF) \<and> (vault_inv db \<and> known_pseudonyms db0 db \<longrightarrow> vault_inv dbF)"
  using assms(1)
proof (induction rqs arbitrary: seen n ans db)
  case (Cons rq rqs)
  from Cons.prems obtain a b c d where i: "batch_item su p (seen, n, ans, db) rq = Inr (a, b, c, d)"
    and rest: "foldR (batch_item su p) (a, b, c, d) rqs = Inr (seen', n', ans', dbF)" by (auto simp: bindR_Inr_iff)
  from batch_item_parts[OF i] obtain resp rep where w: "write_event su p rq db = Inr ((resp, rep), d)" by blast
  from Cons.IH[OF rest] have ih: "set (subjects d) \<subseteq> set (subjects dbF)" "vault_inv d \<and> known_pseudonyms db0 d \<longrightarrow> vault_inv dbF" by blast+
  from write_event_adds[OF w] ih(1) have "set (subjects db) \<subseteq> set (subjects dbF)" by blast
  with write_event_known[OF _ _ w assms(2) ih(1) assms(3)] ih(2) show ?case by blast
qed simp

lemma known_refl: "known_pseudonyms db db"
  by (simp add: known_pseudonyms_def)

lemma uniqueD: "vault_unique db \<Longrightarrow> distinct (map (\<lambda>s. (sb_org s, sb_pseudonym s)) (subjects db))"
  by (simp add: vault_unique_def)

section \<open>Requests\<close>

definition vault_good :: "vault \<Rightarrow> bool" where
  "vault_good db \<longleftrightarrow> vault_inv db \<and> vault_unique db"

lemma with_adminD: "with_admin su cr ok f db = Inr x \<Longrightarrow> \<exists>p. pc_role p = Admin \<and> f p db = Inr x"
  by (auto simp: with_admin_def require_admin_def bindR_Inr_iff split: if_splits)

lemma new_dbD: "new_db r = Inr db' \<Longrightarrow> \<exists>x. r = Inr (x, db')"
  by (auto simp: new_db_def bindR_Inr_iff)

lemma request_unique:
  assumes "vault_unique db" "vault_request su rank op db = Inr db'"
  shows "vault_unique db'"
proof (cases op)
  case (PostOrganization key name a b)
  with assms show ?thesis by (auto simp: vault_request_def new_db_def post_organization_def create_organization_def Let_def bindR_Inr_iff split: if_splits)
next
  case (PostPurpose cr now key d)
  with assms show ?thesis
    by (auto simp: vault_request_def post_purpose_def create_purpose_def Let_def bindR_Inr_iff dest!: new_dbD with_adminD split: if_splits)
next
  case (PostPolicy cr now key body)
  with assms show ?thesis
    by (auto simp: vault_request_def post_policy_def dest!: new_dbD with_adminD publish_parts)
next
  case (PostEvent cr rq)
  with assms show ?thesis
    by (auto simp: vault_request_def post_event_def write_and_commit_def bindR_Inr_iff dest!: new_dbD with_adminD)
next
  case (PostBatch cr rqs)
  with assms show ?thesis
    by (auto simp: vault_request_def post_batch_def batch_import_def bindR_Inr_iff dest!: new_dbD with_adminD split: if_splits)
next
  case (PostRebuild cr now took)
  with assms show ?thesis
    by (auto simp: vault_request_def post_rebuild_def rebuild_states_def Let_def bindR_Inr_iff dest!: new_dbD with_adminD split: if_splits prod.splits)
next
  case (RemoveSubject cr now ref)
  with assms show ?thesis
    by (auto simp: vault_request_def remove_subject_def delete_subject_def Let_def bindR_Inr_iff dest!: new_dbD with_adminD split: if_splits)
next
  case (PostExportCopy cr now ref label)
  with assms show ?thesis
    by (auto simp: vault_request_def post_export_copy_def register_export_copy_def Let_def bindR_Inr_iff dest!: new_dbD with_adminD split: if_splits)
qed

lemma request_inv:
  assumes g: "vault_inv db" "vault_unique db" and r: "vault_request su rank op db = Inr db'" and f: "fresh_step db db'"
  shows "vault_inv db'"
proof (cases op)
  case (PostOrganization key name a b)
  with r create_organization_inv[OF g(1)] show ?thesis
    by (auto simp: vault_request_def post_organization_def Let_def bindR_Inr_iff dest!: new_dbD split: if_splits)
next
  case (PostPurpose cr now key d)
  with r create_purpose_inv[OF g(1)] show ?thesis by (auto simp: vault_request_def post_purpose_def dest!: new_dbD with_adminD)
next
  case (PostPolicy cr now key body)
  with r publish_inv[OF g(1)] show ?thesis by (auto simp: vault_request_def post_policy_def dest!: new_dbD with_adminD)
next
  case (PostEvent cr rq)
  with r obtain p x where "write_and_commit su p rq db = Inr (x, db')" by (auto simp: vault_request_def post_event_def dest!: new_dbD with_adminD)
  then obtain resp rep where w: "write_event su p rq db = Inr ((resp, rep), db')" by (auto simp: write_and_commit_def bindR_Inr_iff)
  from write_event_known[OF g(1) known_refl w uniqueD[OF request_unique[OF g(2) r]] subset_refl f] show ?thesis by blast
next
  case (PostBatch cr rqs)
  with r obtain p x where "batch_import su p rqs db = Inr (x, db')" by (auto simp: vault_request_def post_batch_def dest!: new_dbD with_adminD)
  then obtain seen n ans where "foldR (batch_item su p) ([], 0, [], db) rqs = Inr (seen, n, ans, db')"
    by (auto simp: batch_import_def bindR_Inr_iff split: if_splits)
  from batch_known[OF this uniqueD[OF request_unique[OF g(2) r]] f] g(1) known_refl show ?thesis by blast
next
  case (PostRebuild cr now took)
  with r obtain p x where "rebuild_states su rank p now took db = Inr (x, db')" by (auto simp: vault_request_def post_rebuild_def dest!: new_dbD with_adminD)
  then obtain n d db1 where "rebuild_organization rank (pc_org p) db = (n, db1)" "db' = audit su p now ''state.rebuild'' d db1"
    by (auto simp: rebuild_states_def Let_def bindR_Inr_iff split: if_splits prod.splits)
  with rebuild_inv[OF g(1)] audit_inv show ?thesis by blast
next
  case (RemoveSubject cr now ref)
  with r delete_subject_inv[OF g(1)] show ?thesis by (auto simp: vault_request_def remove_subject_def dest!: new_dbD with_adminD)
next
  case (PostExportCopy cr now ref label)
  with r register_export_copy_inv[OF g(1)] show ?thesis by (auto simp: vault_request_def post_export_copy_def dest!: new_dbD with_adminD)
qed

text \<open>The salts of a run.\<close>

fun fresh_run :: "vault_setup \<Rightarrow> (string \<Rightarrow> int) \<Rightarrow> vault_op list \<Rightarrow> vault \<Rightarrow> bool" where
  "fresh_run su rank [] db = True"
| "fresh_run su rank (op # ops) db = (let db' = vault_step su rank op db in fresh_step db db' \<and> fresh_run su rank ops db')"

lemma vault_step_good: "vault_good db \<Longrightarrow> fresh_step db (vault_step su rank op db) \<Longrightarrow> vault_good (vault_step su rank op db)"
  using request_inv request_unique by (auto simp: vault_step_def vault_good_def split: sum.splits)

lemma vault_run_good: "vault_good db \<Longrightarrow> fresh_run su rank ops db \<Longrightarrow> vault_good (vault_run su rank ops db)"
  by (induction ops arbitrary: db) (auto simp: vault_run_def Let_def intro: vault_step_good)

lemma vault_empty_good: "vault_good vault_empty"
  by (simp add: vault_good_def vault_empty_inv) (simp add: vault_unique_def vault_empty_def)

end
