(* ===== verification/Consent_Properties.thy ===== *)
theory Consent_Properties
  imports Consent_Run
begin

text \<open>
  The properties of the consent service: what never changes, that verification and rebuild say what the
  history says, repeated and concurrent writes, and erasure. The sample run is one organization with a
  purpose, a policy and three writes for one subject.
\<close>

section \<open>What is never taken back\<close>

definition idem_le :: "idempotency \<Rightarrow> idempotency \<Rightarrow> bool" where
  "idem_le i j \<longleftrightarrow> j = i \<or> j = tombstone i"

definition idems_le :: "idempotency list \<Rightarrow> idempotency list \<Rightarrow> bool" where
  "idems_le is js \<longleftrightarrow> (\<exists>ks xs. js = ks @ xs \<and> list_all2 idem_le is ks)"

definition vault_le :: "vault \<Rightarrow> vault \<Rightarrow> bool" where
  "vault_le db db' \<longleftrightarrow> prefix (events db) (events db') \<and> prefix (policy_versions db) (policy_versions db') \<and>
     prefix (purposes db) (purposes db') \<and> prefix (audits db) (audits db') \<and> idems_le (idempotencies db) (idempotencies db')"

lemma idem_le_refl: "idem_le i i"
  by (simp add: idem_le_def)

lemma idem_le_trans: "idem_le i j \<Longrightarrow> idem_le j k \<Longrightarrow> idem_le i k"
  by (auto simp: idem_le_def tombstone_def)

lemma idems_le_refl: "idems_le is is"
  unfolding idems_le_def by (intro exI[of _ "is"] exI[of _ "[]"]) (simp add: list_all2_refl idem_le_refl)

lemma idems_le_append: "idems_le is (is @ js)"
  unfolding idems_le_def by (intro exI[of _ "is"] exI[of _ js]) (simp add: list_all2_refl idem_le_refl)

lemma idems_le_trans:
  assumes "idems_le is js" "idems_le js ks"
  shows "idems_le is ks"
proof -
  from assms obtain a b c d where 1: "js = a @ b" "list_all2 idem_le is a" and 2: "ks = c @ d" "list_all2 idem_le js c"
    unfolding idems_le_def by blast
  from 2(2) 1(1) obtain c1 c2 where c: "c = c1 @ c2" "list_all2 idem_le a c1" by (auto simp: list_all2_append1)
  have "list_all2 idem_le is c1" by (rule list_all2_trans[OF _ 1(2) c(2)]) (rule idem_le_trans)
  then show ?thesis unfolding idems_le_def using 2(1) c(1) by (intro exI[of _ c1] exI[of _ "c2 @ d"]) simp
qed

lemma idems_le_tombstone: "idems_le is (upd_by ik_subject k tombstone is)"
  unfolding idems_le_def by (intro exI[of _ "upd_by ik_subject k tombstone is"] exI[of _ "[]"])
    (simp add: upd_by_def list_all2_map2 list_all2_refl idem_le_def)

lemma idems_le_find:
  assumes "idems_le is js" "row_by (\<lambda>i. (ik_org i, ik_event i)) k is = Some i"
  shows "\<exists>j. row_by (\<lambda>i. (ik_org i, ik_event i)) k js = Some j \<and> idem_le i j"
proof -
  have e: "row_by (\<lambda>i. (ik_org i, ik_event i)) k is = Some i \<Longrightarrow> list_all2 idem_le is ks \<Longrightarrow>
      \<exists>j. row_by (\<lambda>i. (ik_org i, ik_event i)) k ks = Some j \<and> idem_le i j" for ks
  proof (induction "is" arbitrary: ks)
    case (Cons i0 is0)
    from Cons.prems(2) obtain j0 js0 where ks: "ks = j0 # js0" "idem_le i0 j0" "list_all2 idem_le is0 js0" by (auto simp: list_all2_Cons1)
    then have "ik_org j0 = ik_org i0" "ik_event j0 = ik_event i0" by (auto simp: idem_le_def tombstone_def)
    with Cons.prems(1) ks Cons.IH[OF _ ks(3)] show ?case by (auto split: if_splits)
  qed simp
  from assms(1) obtain ks xs where "js = ks @ xs" "list_all2 idem_le is ks" unfolding idems_le_def by blast
  with e[OF assms(2) this(2)] show ?thesis by (auto simp: row_by_append)
qed

lemma vault_le_refl: "vault_le db db"
  by (simp add: vault_le_def idems_le_refl)

lemma vault_le_trans: "vault_le a b \<Longrightarrow> vault_le b c \<Longrightarrow> vault_le a c"
  by (auto simp: vault_le_def intro: prefix_order.trans idems_le_trans)

lemma write_event_le:
  assumes "write_event su p rq db = Inr ((resp, rep), db')"
  shows "vault_le db db'"
proof (cases rep)
  case True
  with write_event_parts[OF assms] show ?thesis by (auto simp: vault_le_refl)
next
  case False
  with write_event_parts[OF assms] obtain pu sb db1 pv r where
    g: "get_or_create_subject su (pc_org p) (wp_subject_ref (wr_payload rq)) (wr_salt rq) db = (sb, db1)"
    and r: "record_event su p rq pu sb pv db1 = (r, db')" by blast
  have "audits db' = audits db1 \<or> (\<exists>a. audits db' = audits db1 @ [a])"
    using r put_state_same(9) by (auto simp: record_event_def audit_def Let_def split: prod.splits)
  then show ?thesis using record_event_parts[OF r] get_subject_same[OF g] by (auto simp: vault_le_def idems_le_append)
qed

lemma audit_le: "vault_le db db1 \<Longrightarrow> vault_le db (audit su p now action detail db1)"
  by (auto simp: vault_le_def audit_def)

lemma catalog_le:
  "vault_le db (db\<lparr>organizations := os, api_keys := ks, next_row := n\<rparr>)"
  "vault_le db (db\<lparr>purposes := purposes db @ ps, next_row := n\<rparr>)"
  "vault_le db (db\<lparr>policies := pos, policy_versions := policy_versions db @ vs, next_row := n\<rparr>)"
  "vault_le db (db\<lparr>export_copies := cs, next_row := n\<rparr>)"
  "vault_le db (db\<lparr>states := sts, next_row := n\<rparr>)"
  by (simp_all add: vault_le_def idems_le_refl)

lemma erase_le: "vault_le db (erase sid db)"
  by (simp add: vault_le_def erase_def idems_le_tombstone)

lemma batch_le:
  "foldR (batch_item su p) (seen, n, ans, db) rqs = Inr (seen', n', ans', db') \<Longrightarrow> vault_le db db'"
proof (induction rqs arbitrary: seen n ans db)
  case Nil
  then show ?case by (simp add: vault_le_refl)
next
  case (Cons rq rqs)
  from Cons.prems obtain a b c d where i: "batch_item su p (seen, n, ans, db) rq = Inr (a, b, c, d)"
    and rest: "foldR (batch_item su p) (a, b, c, d) rqs = Inr (seen', n', ans', db')" by (auto simp: bindR_Inr_iff)
  from batch_item_parts[OF i] write_event_le Cons.IH[OF rest] show ?case by (blast intro: vault_le_trans)
qed

lemma request_le:
  assumes r: "vault_request su rank op db = Inr db'"
  shows "vault_le db db'"
proof (cases op)
  case (PostOrganization key name a b)
  with r show ?thesis
    by (auto simp: vault_request_def post_organization_def create_organization_def Let_def bindR_Inr_iff dest!: new_dbD intro: catalog_le split: if_splits)
next
  case (PostPurpose cr now key d)
  with r show ?thesis
    by (auto simp: vault_request_def post_purpose_def create_purpose_def Let_def bindR_Inr_iff dest!: new_dbD with_adminD
      intro!: audit_le catalog_le split: if_splits)
next
  case (PostPolicy cr now key body)
  with r show ?thesis by (auto simp: vault_request_def post_policy_def dest!: new_dbD with_adminD publish_parts intro!: audit_le catalog_le)
next
  case (PostEvent cr rq)
  with r obtain p x where "write_and_commit su p rq db = Inr (x, db')" by (auto simp: vault_request_def post_event_def dest!: new_dbD with_adminD)
  then obtain resp rep where w: "write_event su p rq db = Inr ((resp, rep), db')" by (auto simp: write_and_commit_def bindR_Inr_iff)
  then show ?thesis by (rule write_event_le)
next
  case (PostBatch cr rqs)
  with r obtain p x where "batch_import su p rqs db = Inr (x, db')" by (auto simp: vault_request_def post_batch_def dest!: new_dbD with_adminD)
  then obtain seen n ans where "foldR (batch_item su p) ([], 0, [], db) rqs = Inr (seen, n, ans, db')"
    by (auto simp: batch_import_def bindR_Inr_iff split: if_splits)
  then show ?thesis by (rule batch_le)
next
  case (PostRebuild cr now took)
  with r obtain p x where "rebuild_states su rank p now took db = Inr (x, db')" by (auto simp: vault_request_def post_rebuild_def dest!: new_dbD with_adminD)
  then show ?thesis by (auto simp: rebuild_states_def rebuild_organization_eq Let_def bindR_Inr_iff intro!: audit_le catalog_le split: if_splits)
next
  case (RemoveSubject cr now ref)
  with r show ?thesis
    by (auto simp: vault_request_def remove_subject_def delete_subject_def Let_def bindR_Inr_iff dest!: new_dbD with_adminD
      intro!: audit_le erase_le split: if_splits)
next
  case (PostExportCopy cr now ref label)
  with r show ?thesis
    by (auto simp: vault_request_def post_export_copy_def register_export_copy_def Let_def bindR_Inr_iff dest!: new_dbD with_adminD
      intro!: audit_le catalog_le split: if_splits)
qed

interpretation vaults: evolving_service "vault_step su rank" "\<lambda>_. True" vault_le for su rank
proof unfold_locales
  show "vault_le db (vault_step su rank op db)" for op db
    using request_le by (auto simp: vault_step_def vault_le_refl split: sum.split)
qed (auto intro: vault_le_refl vault_le_trans)

lemma vault_run_le: "vault_le db (vault_run su rank ops db)"
  unfolding vault_run_def by (rule vaults.le_run) simp

section \<open>What verification says\<close>

lemma state_core_back: "(state_core s)\<lparr>cs_id := cs_id s\<rparr> = s"
  by (cases s) (simp add: state_core_def)

lemma state_core_eqD:
  assumes "state_core s = state_core t"
  shows "\<exists>n. t = s\<lparr>cs_id := n\<rparr>"
proof -
  have "(state_core s)\<lparr>cs_id := cs_id t\<rparr> = s\<lparr>cs_id := cs_id t\<rparr>" by (simp add: state_core_def)
  then have "t = s\<lparr>cs_id := cs_id t\<rparr>" using state_core_back[of t] by (simp only: assms)
  then show ?thesis by (rule exI)
qed

lemma state_view_id: "state_view (Some (s\<lparr>cs_id := n\<rparr>)) oid ref key now = state_view (Some s) oid ref key now"
  by (simp add: state_view_def expired_def)

lemma verify_cong:
  assumes inv: "vault_inv db" and same: "subjects db' = subjects db" "purposes db' = purposes db" "policy_versions db' = policy_versions db"
    and st: "\<And>sb pu. sb \<in> set (subjects db) \<Longrightarrow> pu \<in> set (purposes db) \<Longrightarrow> pu_org pu = sb_org sb \<Longrightarrow>
      map_option state_core (find_state (sb_id sb) (pu_id pu) db') = map_option state_core (find_state (sb_id sb) (pu_id pu) db)"
  shows "verify_consent p now ref key db' = verify_consent p now ref key db"
proof -
  have gp: "get_purpose oid k db' = get_purpose oid k db" for oid k by (simp add: get_purpose_def same)
  have fs: "find_subject oid r db' = find_subject oid r db" for oid r by (simp add: find_subject_def same)
  show ?thesis
  proof (cases "get_purpose (pc_org p) key db")
    case (Inr pu)
    note pu = get_purposeD[OF Inr]
    show ?thesis
    proof (cases "find_subject (pc_org p) ref db")
      case None
      then show ?thesis by (simp add: verify_consent_def gp fs Inr same)
    next
      case (Some sb)
      note sbj = Some
      then have "sb \<in> set (subjects db)" "sb_org sb = pc_org p" by (auto simp: find_subject_def dest: row_by_SomeD)
      with st pu have c: "map_option state_core (find_state (sb_id sb) (pu_id pu) db') = map_option state_core (find_state (sb_id sb) (pu_id pu) db)" by simp
      show ?thesis
      proof (cases "find_state (sb_id sb) (pu_id pu) db")
        case None
        with c show ?thesis by (simp add: verify_consent_def gp fs Inr Some)
      next
        case (Some s)
        with c obtain t where t: "find_state (sb_id sb) (pu_id pu) db' = Some t" "state_core s = state_core t" by auto
        from state_core_eqD[OF t(2)] t(1) obtain n where n: "find_state (sb_id sb) (pu_id pu) db' = Some (s\<lparr>cs_id := n\<rparr>)" by blast
        show ?thesis unfolding verify_consent_def gp fs Inr sbj bindR_simps option.case n Some same(3) by (simp add: state_view_id)
      qed
    qed
  qed (simp add: verify_consent_def gp)
qed

lemma reached_good: "fresh_run su rank ops vault_empty \<Longrightarrow> vault_good (vault_run su rank ops vault_empty)"
  by (rule vault_run_good[OF vault_empty_good])

section \<open>A sample run\<close>

text \<open>The digests are injective stand-ins: the text itself, and its event id in the payload's place.\<close>

definition sample_setup :: vault_setup where
  "sample_setup = \<lparr>vs_sha = (\<lambda>t. t), vs_fingerprint = (\<lambda>w. case wp_action w of Grant \<Rightarrow> ''g'' | Withdrawal \<Rightarrow> ''w''), vs_prod = True,
     vs_management_key = ''mk'', vs_auditor_key = None\<rparr>"

definition sample_rank :: "string \<Rightarrow> int" where
  "sample_rank s = int (length s)"

definition sample_cred :: credentials where
  "sample_cred = \<lparr>cr_api_key = Some ''k'', cr_authorization = None\<rparr>"

definition sample_principal :: principal where
  "sample_principal = \<lparr>pc_org = 1, pc_role = Admin, pc_key = 2\<rparr>"

definition sample_write :: "string \<Rightarrow> consent_action \<Rightarrow> int \<Rightarrow> int \<Rightarrow> write_request" where
  "sample_write eid a expected now = \<lparr>wr_event_id = eid, wr_payload = \<lparr>wp_action = a, wp_subject_ref = ''s'', wp_purpose_key = ''p'',
     wp_expected = expected, wp_policy_version = (if a = Grant then Some 1 else None), wp_expires_at = (if a = Grant then Some 100 else None)\<rparr>,
     wr_now = now, wr_salt = ''x''\<rparr>"

definition sample_ops :: "vault_op list" where
  "sample_ops = [PostOrganization (Some ''mk'') ''org'' ''k'' ''a'', PostPurpose sample_cred 1 ''p'' [], PostPolicy sample_cred 2 ''p'' ''text'',
     PostEvent sample_cred (sample_write ''e1'' Grant 0 10), PostEvent sample_cred (sample_write ''e2'' Withdrawal 1 20),
     PostEvent sample_cred (sample_write ''e3'' Grant 2 30), PostExportCopy sample_cred 40 ''s'' ''copy'']"

definition sample_vault :: vault where
  "sample_vault = vault_run sample_setup sample_rank sample_ops vault_empty"

section \<open>Properties\<close>

text \<open>C33: Whatever requests run, the history, the policy versions, the purposes and the audit log only grow; a run whose salts are fresh leaves
  the events of every stream numbered 1, 2, 3 and so on without a gap, in the order in which they were written, and that is what the history query answers.\<close>

theorem consent_history_append_only:
  fixes su rank ops more
  defines "db \<equiv> vault_run su rank ops vault_empty"
  assumes fresh: "fresh_run su rank ops vault_empty"
  shows "prefix (events db) (events (vault_run su rank more db)) \<and> prefix (policy_versions db) (policy_versions (vault_run su rank more db)) \<and>
    prefix (purposes db) (purposes (vault_run su rank more db)) \<and> prefix (audits db) (audits (vault_run su rank more db)) \<and>
    (\<forall>p ref key es. history_for p ref key db = Inr es \<longrightarrow>
       map ev_sequence es = map int [1..<Suc (length es)] \<and> set es \<subseteq> set (events db) \<and>
       (\<exists>s. find_subject (pc_org p) ref db = Some s \<and> es = stream (pc_org p) (sb_pseudonym s) key db))"
proof (intro conjI allI impI)
  have g: "vault_inv db" using reached_good[OF fresh] by (simp add: db_def vault_good_def)
  show "prefix (events db) (events (vault_run su rank more db))" "prefix (policy_versions db) (policy_versions (vault_run su rank more db))"
    "prefix (purposes db) (purposes (vault_run su rank more db))" "prefix (audits db) (audits (vault_run su rank more db))"
    using vault_run_le by (auto simp: vault_le_def)
  fix p ref key es assume h: "history_for p ref key db = Inr es"
  then obtain s where s: "find_subject (pc_org p) ref db = Some s" "es = sort_key ev_sequence (stream (pc_org p) (sb_pseudonym s) key db)"
    by (auto simp: history_for_def bindR_Inr_iff)
  have n: "map ev_sequence (stream (pc_org p) (sb_pseudonym s) key db) = map int [1..<Suc (length (stream (pc_org p) (sb_pseudonym s) key db))]"
    using g by (simp add: vault_inv_def history_ok_def)
  then have "es = stream (pc_org p) (sb_pseudonym s) key db"
    using s(2) by (simp add: sort_key_id_if_sorted sorted_map sorted_wrt_map del: upt_Suc)
  then show "map ev_sequence es = map int [1..<Suc (length es)]" "set es \<subseteq> set (events db)"
    "\<exists>s. find_subject (pc_org p) ref db = Some s \<and> es = stream (pc_org p) (sb_pseudonym s) key db"
    using n s(1) by (auto simp: stream_def)
qed

text \<open>C31: In every database that requests with fresh salts reach, verification says what the history says: without an event there is no record;
  otherwise consent is valid if and only if the last event of the subject for the purpose is a grant that has not expired, and the version is the number of events.\<close>

theorem verification_follows_history:
  fixes su rank ops
  defines "db \<equiv> vault_run su rank ops vault_empty"
  assumes fresh: "fresh_run su rank ops vault_empty"
    and s: "find_subject (pc_org p) ref db = Some s" and pu: "get_purpose (pc_org p) key db = Inr pu"
  shows "\<exists>view. verify_consent p now ref key db = Inr view \<and>
    (let es = stream (pc_org p) (sb_pseudonym s) key db
     in if es = [] then \<not> cv_valid view \<and> cv_reason view = ''no_record''
        else (cv_valid view \<longleftrightarrow> ev_type (last es) = Grant \<and> (case ev_expires_at (last es) of None \<Rightarrow> True | Some t \<Rightarrow> now < t)) \<and>
             (cv_reason view = ''withdrawn'' \<longleftrightarrow> ev_type (last es) = Withdrawal) \<and> cv_state_version view = Some (int (length es)))"
proof -
  have g: "vault_inv db" using reached_good[OF fresh] by (simp add: db_def vault_good_def)
  note pu' = get_purposeD[OF pu]
  have sb: "s \<in> set (subjects db)" "sb_org s = pc_org p" using s by (auto simp: find_subject_def dest: row_by_SomeD)
  let ?es = "stream (pc_org p) (sb_pseudonym s) key db"
  have c: "map_option state_core (find_state (sb_id s) (pu_id pu) db) = replayed db s pu"
    using g sb pu' by (simp add: vault_inv_def projection_ok_def)
  show ?thesis
  proof (cases "?es = []")
    case True
    then have "find_state (sb_id s) (pu_id pu) db = None" using c sb pu' by (simp add: replayed_def replay_def)
    then show ?thesis using True s pu by (simp add: verify_consent_def state_view_def)
  next
    case False
    have rp: "replayed db s pu = replay (policy_id (pc_org p) (pu_id pu) db) (policy_version_map (pc_org p) db) 0 (pc_org p) (sb_id s) (pu_id pu) ?es"
      using sb pu' by (simp add: replayed_def)
    obtain t where t: "replayed db s pu = Some t" "cs_status t = Granted \<longleftrightarrow> ev_type (last ?es) = Grant"
        "ev_type (last ?es) = Grant \<longrightarrow> cs_expires_at t = ev_expires_at (last ?es)" using replay_last[OF False, of "policy_id (pc_org p) (pu_id pu) db" "policy_version_map (pc_org p) db" 0 "pc_org p" "sb_id s" "pu_id pu"]
      unfolding rp by blast
    have v: "cs_version t = int (length ?es)" using replay_keys(5)[OF t(1)[unfolded rp]] .
    from c t(1) obtain st where st: "find_state (sb_id s) (pu_id pu) db = Some st" "state_core st = t" by auto
    then have "cs_status t = cs_status st" "cs_expires_at t = cs_expires_at st" "cs_version t = cs_version st" by (auto simp: state_core_def)
    with t(2,3) v st(1) False s pu show ?thesis
      by (cases "cs_status st"; cases "ev_type (last ?es)")
        (auto simp: verify_consent_def state_view_def Let_def split: option.splits)
  qed
qed

text \<open>C32: In every database that requests with fresh salts reach, the rebuild of the projection from the history succeeds, whatever order the texts
  collate in, and no verification answer of any organization, subject, purpose or time is changed by it.\<close>

theorem rebuild_changes_no_answer:
  fixes su rank ops
  defines "db \<equiv> vault_run su rank ops vault_empty"
  assumes fresh: "fresh_run su rank ops vault_empty" and admin: "pc_role p = Admin"
  shows "\<exists>n db'. rebuild_states su rank' p now took db = Inr ((n, length (filter (\<lambda>e. ev_org e = pc_org p) (events db))), db') \<and>
    events db' = events db \<and> (\<forall>q t ref key. verify_consent q t ref key db' = verify_consent q t ref key db)"
proof -
  have g: "vault_inv db" "vault_unique db" using reached_good[OF fresh] by (simp_all add: db_def vault_good_def)
  obtain n db1 where r: "rebuild_organization rank' (pc_org p) db = (n, db1)" by (rule prod.exhaust)
  have n: "n = (length (rebuilt rank' (pc_org p) db), length (filter (\<lambda>e. ev_org e = pc_org p) (events db)))"
    and db1: "events db1 = events db" "subjects db1 = subjects db" "purposes db1 = purposes db" "policy_versions db1 = policy_versions db"
    using r by (auto simp: rebuild_organization_eq)
  let ?a = "audit su p now ''state.rebuild'' [(''materialized'', AInt (int (fst n))), (''replayed_events'', AInt (int (snd n))), (''took_ms'', AInt took)] db1"
  have "vault_unique ?a" using rebuild_unique[OF g r] by (simp add: vault_unique_def audit_def)
  then have "rebuild_states su rank' p now took db = Inr (n, ?a)"
    using r n by (simp add: rebuild_states_def admin Let_def bindR_def vault_commit_def)
  moreover have "find_state sid pid ?a = find_state sid pid db1" for sid pid by (simp add: find_state_def audit_def)
  then have "verify_consent q t ref key ?a = verify_consent q t ref key db" for q t ref key
    using rebuild_find[OF g(1) _ _ _ r] db1 by (intro verify_cong[OF g(1)]) (simp_all add: audit_def)
  moreover have "events ?a = events db" using db1(1) by (simp add: audit_def)
  ultimately show ?thesis using n by blast
qed

text \<open>C34: A write that was accepted is never executed again: after any further requests the same write is answered from its record without a change, or, once
  the subject is erased, with 410; another write under its event id is answered with the conflict or with 410.\<close>

theorem accepted_write_never_repeated:
  fixes su p rq db db1 rank more resp rep
  defines "db2 \<equiv> vault_run su rank more db1"
  assumes w: "write_and_commit su p rq db = Inr ((resp, rep), db1)"
  shows "write_event su p rq db2 \<in> {Inr ((resp, True), db2), Inl (vault_gone ''subject_erased'')} \<and>
    (wr_event_id rq' = wr_event_id rq \<and> vs_fingerprint su (wr_payload rq') \<noteq> vs_fingerprint su (wr_payload rq) \<longrightarrow>
      write_event su p rq' db2 \<in> {Inl (vault_conflict ''idempotency_mismatch''), Inl (vault_gone ''subject_erased'')})"
proof -
  from w have e: "write_event su p rq db = Inr ((resp, rep), db1)" by (auto simp: write_and_commit_def bindR_Inr_iff)
  note parts = write_event_parts[OF e]
  have "\<exists>i. find_idempotency (pc_org p) (wr_event_id rq) db1 = Some i \<and> \<not> ik_erased i \<and>
      ik_fingerprint i = vs_fingerprint su (wr_payload rq) \<and> resp = ik_response i"
  proof (cases rep)
    case True
    with parts show ?thesis by auto
  next
    case False
    with parts obtain pu sb dbs pv r where n: "find_idempotency (pc_org p) (wr_event_id rq) db = None"
      and g: "get_or_create_subject su (pc_org p) (wp_subject_ref (wr_payload rq)) (wr_salt rq) db = (sb, dbs)"
      and r: "record_event su p rq pu sb pv dbs = (r, db1)" "resp = Some r" by blast
    from record_event_parts[OF r(1)] get_subject_same(5)[OF g] obtain m where "idempotencies db1 = idempotencies db @
        [\<lparr>ik_id = m, ik_org = pc_org p, ik_subject = Some (sb_id sb), ik_event = wr_event_id rq,
          ik_fingerprint = vs_fingerprint su (wr_payload rq), ik_response = Some r, ik_erased = False,
          ik_consent_event = Some (ev_id (new_event p rq pu sb dbs))\<rparr>]" by metis
    with n r(2) show ?thesis by (simp add: find_idempotency_def row_by_append)
  qed
  then obtain i where i: "find_idempotency (pc_org p) (wr_event_id rq) db1 = Some i" "\<not> ik_erased i"
    "ik_fingerprint i = vs_fingerprint su (wr_payload rq)" "resp = ik_response i" by blast
  have "idems_le (idempotencies db1) (idempotencies db2)" using vault_run_le by (simp add: db2_def vault_le_def)
  from idems_le_find[OF this i(1)[unfolded find_idempotency_def]] obtain j where
    j: "find_idempotency (pc_org p) (wr_event_id rq) db2 = Some j" "j = i \<or> j = tombstone i"
    by (auto simp: find_idempotency_def idem_le_def)
  have adm: "pc_role p = Admin" using parts by simp
  show ?thesis using i(2-4) j adm by (auto simp: write_event_def tombstone_def)
qed

text \<open>C35: Of two different writes for the same subject and purpose that were prepared against the same version, only the first is accepted: the other is
  refused with the version conflict, so no decision is overwritten unseen.\<close>

theorem concurrent_write_refused:
  assumes w: "write_event su p rq db = Inr ((resp, False), db')"
    and same: "wp_subject_ref (wr_payload rq') = wp_subject_ref (wr_payload rq)" "wp_purpose_key (wr_payload rq') = wp_purpose_key (wr_payload rq)"
      "wp_expected (wr_payload rq') = wp_expected (wr_payload rq)"
    and other: "find_idempotency (pc_org p) (wr_event_id rq') db' = None"
  shows "write_event su p rq' db' = Inl (vault_conflict ''version_conflict'')"
proof -
  from write_event_parts[OF w] obtain pu sb db1 pv r where k: "pc_role p = Admin"
    "get_purpose (pc_org p) (wp_purpose_key (wr_payload rq)) db = Inr pu"
    "get_or_create_subject su (pc_org p) (wp_subject_ref (wr_payload rq)) (wr_salt rq) db = (sb, db1)"
    "(case find_state (sb_id sb) (pu_id pu) db1 of None \<Rightarrow> 0 | Some s \<Rightarrow> cs_version s) = wp_expected (wr_payload rq)"
    "record_event su p rq pu sb pv db1 = (r, db')" by blast
  from record_event_parts[OF k(5)] obtain s db2 where
    put: "put_state (pc_org p) (sb_id sb) (pu_id pu) (wr_now rq) (write_state (wr_now rq) (wr_payload rq) pv (new_event p rq pu sb db1))
        (db1\<lparr>events := events db1 @ [new_event p rq pu sb db1], next_row := next_row db1 + 1\<rparr>) = (s, db2)"
    and db': "purposes db' = purposes db1" "subjects db' = subjects db1" "states db' = states db2" by blast
  have gp: "get_purpose (pc_org p) (wp_purpose_key (wr_payload rq)) db' = Inr pu"
    using k(2) get_subject_same(1)[OF k(3)] by (simp add: get_purpose_def db'(1))
  have "find_subject (pc_org p) (wp_subject_ref (wr_payload rq)) db1 = Some sb"
    using k(3) by (auto simp: get_or_create_subject_def find_subject_def row_by_append Let_def split: option.splits)
  then have fs: "find_subject (pc_org p) (wp_subject_ref (wr_payload rq)) db' = Some sb" by (simp add: find_subject_def db'(2))
  have ver: "cs_version (write_state now w pv e s0) = cs_version s0 + 1" for now w pv e s0 by (simp add: write_state_def Let_def)
  have "find_state (sb_id sb) (pu_id pu) (db1\<lparr>events := events db1 @ [new_event p rq pu sb db1], next_row := next_row db1 + 1\<rparr>) =
      find_state (sb_id sb) (pu_id pu) db1" by (simp add: find_state_def)
  moreover have "find_state (sb_id sb) (pu_id pu) db' = find_state (sb_id sb) (pu_id pu) db2" by (simp add: find_state_def db'(3))
  ultimately obtain s' where "find_state (sb_id sb) (pu_id pu) db' = Some s'" "cs_version s' = wp_expected (wr_payload rq) + 1"
    using put_state_find[OF put, of "sb_id sb" "pu_id pu"] k(4) ver by (auto simp: blank_state_def split: option.splits)
  then show ?thesis using k(1) gp fs same other by (simp add: write_event_def get_or_create_subject_def)
qed





section \<open>Witnesses\<close>

lemma sample_fresh: "fresh_run sample_setup sample_rank sample_ops vault_empty"
  by code_simp

definition sample_subject :: subject where
  "sample_subject = \<lparr>sb_id = 9, sb_org = 1, sb_ref = ''s'', sb_pseudonym = ''subject:1:s#x''\<rparr>"

lemma sample_found: "find_subject 1 ''s'' sample_vault = Some sample_subject"
  by code_simp

lemma sample_purpose: "get_purpose 1 ''p'' sample_vault = Inr \<lparr>pu_id = 4, pu_org = 1, pu_key = ''p'', pu_description = []\<rparr>"
  by code_simp

lemma sample_stream: "let es = stream 1 (sb_pseudonym sample_subject) ''p'' sample_vault
    in es \<noteq> [] \<and> ev_type (last es) = Grant \<and> ev_expires_at (last es) = Some 100 \<and> length es = 3"
  by code_simp

definition sample_after :: vault where
  "sample_after = (case write_and_commit sample_setup sample_principal (sample_write ''e4'' Withdrawal 3 50) sample_vault of Inr (_, db) \<Rightarrow> db
     | Inl _ \<Rightarrow> sample_vault)"

definition accepted_now :: "vault_error + (consent_view option \<times> bool) \<times> vault \<Rightarrow> bool" where
  "accepted_now r = (case r of Inr ((_, rep), _) \<Rightarrow> \<not> rep | Inl _ \<Rightarrow> False)"

lemma sample_accepted_check: "accepted_now (write_and_commit sample_setup sample_principal (sample_write ''e4'' Withdrawal 3 50) sample_vault)"
  by code_simp

lemma sample_accepted: "\<exists>resp. write_and_commit sample_setup sample_principal (sample_write ''e4'' Withdrawal 3 50) sample_vault = Inr ((resp, False), sample_after)"
proof (cases "write_and_commit sample_setup sample_principal (sample_write ''e4'' Withdrawal 3 50) sample_vault")
  case (Inr a)
  with sample_accepted_check show ?thesis by (cases a) (auto simp: accepted_now_def sample_after_def)
qed (use sample_accepted_check in \<open>simp add: accepted_now_def\<close>)

lemma sample_e5: "find_idempotency 1 ''e5'' sample_after = None"
  by code_simp

lemma sample_org: "pc_org sample_principal = 1" "pc_role sample_principal = Admin"
  by (simp_all add: sample_principal_def)

lemma consent_history_append_only_witness:
  "prefix (events sample_vault) (events (vault_run sample_setup sample_rank [RemoveSubject sample_cred 50 ''s''] sample_vault)) \<and>
   prefix (audits sample_vault) (audits (vault_run sample_setup sample_rank [RemoveSubject sample_cred 50 ''s''] sample_vault))"
  using consent_history_append_only[OF sample_fresh, of "[RemoveSubject sample_cred 50 ''s'']", folded sample_vault_def] by (elim conjE) (intro conjI)

lemma verification_follows_history_witness:
  "\<exists>view. verify_consent sample_principal 50 ''s'' ''p'' sample_vault = Inr view \<and> cv_valid view \<and> cv_state_version view = Some 3"
  using verification_follows_history[OF sample_fresh, of sample_principal "''s''" sample_subject "''p''", folded sample_vault_def, unfolded sample_org,
      OF sample_found sample_purpose, of 50] sample_stream
  by (auto simp: Let_def)

lemma rebuild_changes_no_answer_witness:
  "\<exists>n db'. rebuild_states sample_setup sample_rank sample_principal 60 7 sample_vault = Inr (n, db') \<and>
     verify_consent sample_principal 50 ''s'' ''p'' db' = verify_consent sample_principal 50 ''s'' ''p'' sample_vault"
  using rebuild_changes_no_answer[OF sample_fresh sample_org(2), of sample_rank 60 7, folded sample_vault_def] by blast

lemma accepted_write_never_repeated_witness:
  "\<exists>resp. let db2 = vault_run sample_setup sample_rank [RemoveSubject sample_cred 50 ''s''] sample_after
     in write_event sample_setup sample_principal (sample_write ''e4'' Withdrawal 3 50) db2 \<in>
       {Inr ((resp, True), db2), Inl (vault_gone ''subject_erased'')}"
proof -
  obtain resp where "write_and_commit sample_setup sample_principal (sample_write ''e4'' Withdrawal 3 50) sample_vault = Inr ((resp, False), sample_after)"
    using sample_accepted by blast
  from accepted_write_never_repeated[OF this, of sample_rank "[RemoveSubject sample_cred 50 ''s'']"] show ?thesis unfolding Let_def by blast
qed

lemma concurrent_write_refused_witness:
  "write_event sample_setup sample_principal (sample_write ''e5'' Grant 3 60) sample_after = Inl (vault_conflict ''version_conflict'')"
proof -
  obtain resp where "write_event sample_setup sample_principal (sample_write ''e4'' Withdrawal 3 50) sample_vault = Inr ((resp, False), sample_after)"
    using sample_accepted by (auto simp: write_and_commit_def bindR_Inr_iff)
  then show ?thesis by (rule concurrent_write_refused) (simp_all add: sample_write_def sample_org sample_e5)
qed


end
