(* ===== verification/Cloud_Model.thy ===== *)
theory Cloud_Model
  imports Prelude Addressing
begin

text \<open>
  The tables of the cloud gateway (\<open>text12/b/app/models.py\<close>), its constraints, its errors and the
  expansion of a pool into addresses (\<open>networking.py\<close>). Every address of a pool is a row, and the end of
  a lease is a row that is written once. Identifiers come from one increasing sequence, times are
  microseconds; \<open>ipaddress\<close> is the model of \<open>Addressing\<close>.
\<close>

section \<open>Errors\<close>

text \<open>\<open>LeaseError\<close> and \<open>HttpError\<close> carry code or detail and status; \<open>CloudCrash\<close> is an exception that nothing catches.\<close>

datatype cloud_error = LeaseError string int | HttpError int | CloudCrash string | BadRequestBody

section \<open>Tables\<close>

datatype address_kind = Usable | NetworkAddress | BroadcastAddress
datatype address_status = Free | Allocated | Released
datatype session_status = Active | Closed
datatype termination_reason = ClientClose | HeartbeatTimeout | DeviceRevoked | Reconnect | CapacityAdmin

record cloud_tenant =
  tn_id :: int
  tn_name :: string

record address_pool =
  pl_id :: int
  pl_tenant :: int
  pl_name :: string
  pl_cidr :: string

record pool_address =
  pa_id :: int
  pa_pool :: int
  pa_ip :: ipv4
  pa_kind :: address_kind
  pa_reserved :: bool
  pa_status :: address_status

record cloud_ap =
  cx_id :: int
  cx_tenant :: int
  cx_pool :: int
  cx_name :: string
  cx_capacity :: int

record cloud_device =
  cd_id :: int
  cd_tenant :: int
  cd_name :: string
  cd_hash :: "string option"
  cd_revoked :: bool

record cloud_session =
  ss_id :: int
  ss_tenant :: int
  ss_device :: int
  ss_ap :: int
  ss_address :: int
  ss_generation :: int
  ss_status :: session_status
  ss_hash :: string
  ss_key :: "string option"
  ss_ip :: ipv4
  ss_connected_at :: int
  ss_heartbeat_at :: int
  ss_closed_at :: "int option"

record lease_end =
  lt_session :: int
  lt_reason :: termination_reason
  lt_at :: int
  lt_detail :: "string option"

record cloud =
  tenants :: "cloud_tenant list"
  pools :: "address_pool list"
  addresses :: "pool_address list"
  aps :: "cloud_ap list"
  devices :: "cloud_device list"
  sessions :: "cloud_session list"
  terminations :: "lease_end list"
  next_key :: int

definition active :: "cloud_session \<Rightarrow> bool" where
  "active s \<longleftrightarrow> ss_status s = Active"

section \<open>Constraints\<close>

definition cloud_unique :: "cloud \<Rightarrow> bool" where
  "cloud_unique db \<longleftrightarrow>
     distinct (map tn_name (tenants db)) \<and> distinct (map (\<lambda>p. (pl_tenant p, pl_name p)) (pools db)) \<and>
     distinct (map (\<lambda>a. (pa_pool a, pa_ip a)) (addresses db)) \<and>
     distinct (map (\<lambda>x. (cx_tenant x, cx_name x)) (aps db)) \<and> list_all (\<lambda>x. cx_capacity x > 0) (aps db) \<and>
     distinct (map (\<lambda>d. (cd_tenant d, cd_name d)) (devices db)) \<and> distinct (map cd_hash (filter (\<lambda>d. cd_hash d \<noteq> None) (devices db))) \<and>
     distinct (map ss_device (filter active (sessions db))) \<and> list_all (\<lambda>s. ss_generation s \<ge> 1) (sessions db) \<and>
     distinct (map lt_session (terminations db))"

text \<open>The tenant of a new row must exist.\<close>

definition tenant_exists :: "int \<Rightarrow> cloud \<Rightarrow> bool" where
  "tenant_exists tid db \<longleftrightarrow> list_ex (\<lambda>t. tn_id t = tid) (tenants db)"

definition cloud_commit :: "cloud_error \<Rightarrow> cloud \<Rightarrow> cloud_error + cloud" where
  "cloud_commit err db = (if cloud_unique db then Inr db else Inl err)"

lemma cloud_commit_Inr [simp]: "cloud_commit err db = Inr db' \<longleftrightarrow> db' = db \<and> cloud_unique db"
  by (auto simp: cloud_commit_def)

definition integrity :: cloud_error where "integrity = CloudCrash ''IntegrityError''"

section \<open>Pools as addresses\<close>

definition MIN_PREFIX :: nat where "MIN_PREFIX = 24"
definition MAX_PREFIX :: nat where "MAX_PREFIX = 30"

definition value_error :: cloud_error where "value_error = CloudCrash ''ValueError''"

definition pool_network :: "string \<Rightarrow> cloud_error + ipv4_network" where
  "pool_network cidr =
     bindR (someR (parse_network cidr) value_error) (\<lambda>n.
       if MIN_PREFIX \<le> net_prefix n \<and> net_prefix n \<le> MAX_PREFIX then Inr n else Inl value_error)"

definition reserve :: "ipv4_network \<Rightarrow> ipv4 set \<Rightarrow> string \<Rightarrow> cloud_error + ipv4 set" where
  "reserve n seen raw =
     (case ip_from_string raw of
        None \<Rightarrow> Inl value_error
      | Some a \<Rightarrow> if \<not> in_network a n \<or> a = net_address n \<or> a = broadcast_address n then Inl value_error else Inr (insert a seen))"

definition address_row :: "ipv4_network \<Rightarrow> ipv4 set \<Rightarrow> ipv4 \<Rightarrow> ipv4 \<times> address_kind \<times> bool" where
  "address_row n taken a =
     (if a = net_address n then (a, NetworkAddress, False)
      else if a = broadcast_address n then (a, BroadcastAddress, False)
      else (a, Usable, a \<in> taken))"

definition expand_pool :: "string \<Rightarrow> string list \<Rightarrow> cloud_error + (ipv4 \<times> address_kind \<times> bool) list" where
  "expand_pool cidr reserved =
     bindR (pool_network cidr) (\<lambda>n. bindR (foldR (reserve n) {} reserved) (\<lambda>taken.
       Inr (map (address_row n taken) (map word_of_int [uint (net_address n)..uint (broadcast_address n)]))))"

end
