(* ===== verification/Cloud_Leasing.thy ===== *)
theory Cloud_Leasing
  imports Cloud_Model
begin

text \<open>
  The life of a lease: connect, heartbeat, close, revocation, credentials and the expiry sweep
  (\<open>text12/b/app/leasing.py\<close>). Every operation holds the lock of its device (and access point) until its
  commit, so operations are serial; an error rolls the transaction back. Rows locked by others, which
  \<open>SKIP LOCKED\<close> passes over, are an argument.
\<close>

record cloud_setup =
  cs_hash :: "string \<Rightarrow> string"
  cs_derive :: "int \<Rightarrow> string \<Rightarrow> string"

section \<open>Releasing and allocating\<close>

definition close_row :: "int \<Rightarrow> cloud_session \<Rightarrow> cloud_session" where
  "close_row now s = s\<lparr>ss_status := Closed, ss_closed_at := Some now\<rparr>"

definition free_row :: "pool_address \<Rightarrow> pool_address" where
  "free_row a = (if pa_status a = Allocated then a\<lparr>pa_status := Free\<rparr> else a)"

definition allocate_row :: "pool_address \<Rightarrow> pool_address" where
  "allocate_row a = a\<lparr>pa_status := Allocated\<rparr>"

text \<open>The savepoint: a second termination of the same session violates the unique constraint and does nothing.\<close>

definition release_once :: "int \<Rightarrow> cloud_session \<Rightarrow> termination_reason \<Rightarrow> string option \<Rightarrow> cloud \<Rightarrow> bool \<times> cloud" where
  "release_once now s reason detail db =
     (if list_ex (\<lambda>t. lt_session t = ss_id s) (terminations db) then (False, db)
      else (True, db\<lparr>terminations := terminations db @ [\<lparr>lt_session = ss_id s, lt_reason = reason, lt_at = now, lt_detail = detail\<rparr>],
                     sessions := upd_by ss_id (ss_id s) (close_row now) (sessions db),
                     addresses := upd_by pa_id (ss_address s) free_row (addresses db)\<rparr>))"

definition next_generation :: "int \<Rightarrow> cloud \<Rightarrow> int" where
  "next_generation did db = fold max (map ss_generation (filter (\<lambda>s. ss_device s = did) (sessions db))) 0 + 1"

definition allocatable :: "int \<Rightarrow> int list \<Rightarrow> pool_address \<Rightarrow> bool" where
  "allocatable pool locked a \<longleftrightarrow> pa_pool a = pool \<and> pa_kind a = Usable \<and> \<not> pa_reserved a \<and> pa_status a = Free \<and> pa_id a \<notin> set locked"

definition allocate_address :: "int \<Rightarrow> int list \<Rightarrow> cloud \<Rightarrow> cloud_error + pool_address \<times> cloud" where
  "allocate_address pool locked db =
     (case sort_key (\<lambda>a. uint (pa_ip a)) (filter (allocatable pool locked) (addresses db)) of
        [] \<Rightarrow> Inl (LeaseError ''address_pool_exhausted'' 507)
      | a # _ \<Rightarrow> Inr (a, db\<lparr>addresses := upd_by pa_id (pa_id a) allocate_row (addresses db)\<rparr>))"

section \<open>Connect\<close>

record connect_env =
  ce_now :: int
  ce_token :: string
  ce_locked :: "int list"

record connect_result =
  cr_session :: cloud_session
  cr_token :: string
  cr_reconnected :: bool
  cr_reused :: bool

definition truthy :: "string option \<Rightarrow> bool" where
  "truthy key \<longleftrightarrow> (case key of None \<Rightarrow> False | Some k \<Rightarrow> k \<noteq> [])"

definition find_device :: "int \<Rightarrow> cloud \<Rightarrow> cloud_error + cloud_device" where
  "find_device did db = someR (row_by cd_id did (devices db)) (LeaseError ''device_not_found'' 404)"

definition active_session :: "int \<Rightarrow> cloud \<Rightarrow> cloud_session option" where
  "active_session did db = find (\<lambda>s. ss_device s = did \<and> active s) (sessions db)"

definition other_sessions :: "int \<Rightarrow> int \<Rightarrow> cloud \<Rightarrow> cloud_session list" where
  "other_sessions apid did db = filter (\<lambda>s. ss_ap s = apid \<and> active s \<and> ss_device s \<noteq> did) (sessions db)"

definition new_session :: "cloud_setup \<Rightarrow> connect_env \<Rightarrow> cloud_device \<Rightarrow> int \<Rightarrow> pool_address \<Rightarrow> string option \<Rightarrow> cloud \<Rightarrow> string \<times> cloud_session" where
  "new_session su env d apid a key db =
     (let sid = next_key db; token = (if truthy key then cs_derive su sid (the key) else ce_token env)
      in (token, \<lparr>ss_id = sid, ss_tenant = cd_tenant d, ss_device = cd_id d, ss_ap = apid, ss_address = pa_id a,
            ss_generation = next_generation (cd_id d) db, ss_status = Active, ss_hash = cs_hash su token, ss_key = key, ss_ip = pa_ip a,
            ss_connected_at = ce_now env, ss_heartbeat_at = ce_now env, ss_closed_at = None\<rparr>))"

text \<open>The successor of a lease is secured before the old generation is released.\<close>

definition establish :: "cloud_setup \<Rightarrow> connect_env \<Rightarrow> cloud_device \<Rightarrow> cloud_ap \<Rightarrow> string option \<Rightarrow> cloud_session option \<Rightarrow> cloud \<Rightarrow>
    cloud_error + connect_result \<times> cloud" where
  "establish su env d x key old db =
     (if int (length (other_sessions (cx_id x) (cd_id d) db)) \<ge> cx_capacity x then Inl (LeaseError ''capacity_exceeded'' 503)
      else bindR (allocate_address (cx_pool x) (ce_locked env) db) (\<lambda>(a, db1).
        let db2 = (case old of None \<Rightarrow> db1
                   | Some s \<Rightarrow> snd (release_once (ce_now env) s Reconnect (Some ''superseded by new connection'') db1));
            (token, s) = new_session su env d (cx_id x) a key db2
        in bindR (cloud_commit (LeaseError ''lease_conflict'' 409) (db2\<lparr>sessions := sessions db2 @ [s], next_key := next_key db2 + 1\<rparr>))
             (\<lambda>db'. Inr (\<lparr>cr_session = s, cr_token = token, cr_reconnected = (old \<noteq> None), cr_reused = False\<rparr>, db'))))"

definition connect :: "cloud_setup \<Rightarrow> connect_env \<Rightarrow> int \<Rightarrow> int \<Rightarrow> string option \<Rightarrow> cloud \<Rightarrow> cloud_error + connect_result \<times> cloud" where
  "connect su env did apid key db =
     bindR (find_device did db) (\<lambda>d.
     if cd_revoked d then Inl (LeaseError ''device_revoked'' 403)
     else bindR (someR (row_by cx_id apid (aps db)) (LeaseError ''access_point_not_found'' 404)) (\<lambda>x.
     if cx_tenant x \<noteq> cd_tenant d then Inl (LeaseError ''cross_tenant'' 403)
     else case active_session did db of
       Some s \<Rightarrow>
         if truthy key \<and> ss_key s = key \<and> ss_ap s = apid
         then Inr (\<lparr>cr_session = s, cr_token = cs_derive su (ss_id s) (the key), cr_reconnected = False, cr_reused = True\<rparr>, db)
         else establish su env d x key (Some s) db
     | None \<Rightarrow> establish su env d x key None db))"

section \<open>Heartbeat and close\<close>

definition session_of :: "int \<Rightarrow> int \<Rightarrow> cloud \<Rightarrow> cloud_error + cloud_session" where
  "session_of did sid db =
     bindR (find_device did db) (\<lambda>d. case row_by ss_id sid (sessions db) of
       None \<Rightarrow> Inl (LeaseError ''session_not_found'' 404)
     | Some s \<Rightarrow> if ss_device s \<noteq> cd_id d then Inl (LeaseError ''session_not_found'' 404) else Inr s)"

definition own_generation :: "cloud_setup \<Rightarrow> int \<Rightarrow> int \<Rightarrow> int \<Rightarrow> string \<Rightarrow> cloud \<Rightarrow> cloud_error + cloud_session" where
  "own_generation su did sid gen token db =
     bindR (session_of did sid db) (\<lambda>s.
       if ss_hash s \<noteq> cs_hash su token then Inl (LeaseError ''invalid_lease_token'' 403)
       else if ss_generation s \<noteq> gen then Inl (LeaseError ''stale_generation'' 409)
       else Inr s)"

definition beat_row :: "int \<Rightarrow> cloud_session \<Rightarrow> cloud_session" where
  "beat_row now s = s\<lparr>ss_heartbeat_at := now\<rparr>"

definition heartbeat :: "cloud_setup \<Rightarrow> int \<Rightarrow> int \<Rightarrow> int \<Rightarrow> int \<Rightarrow> string \<Rightarrow> cloud \<Rightarrow> cloud_error + cloud_session \<times> cloud" where
  "heartbeat su now did sid gen token db =
     bindR (own_generation su did sid gen token db) (\<lambda>s.
       if \<not> active s then Inl (LeaseError ''lease_closed'' 409)
       else bindR (cloud_commit integrity (db\<lparr>sessions := upd_by ss_id sid (beat_row now) (sessions db)\<rparr>)) (\<lambda>db'. Inr (beat_row now s, db')))"

definition close_session :: "cloud_setup \<Rightarrow> int \<Rightarrow> int \<Rightarrow> int \<Rightarrow> int \<Rightarrow> string \<Rightarrow> cloud \<Rightarrow> cloud_error + cloud_session \<times> cloud" where
  "close_session su now did sid gen token db =
     bindR (own_generation su did sid gen token db) (\<lambda>s.
       let (closed, db1) = (if active s then release_once now s ClientClose (Some ''closed by device'') db else (False, db))
       in bindR (cloud_commit integrity db1) (\<lambda>db'. Inr (if closed then close_row now s else s, db')))"

section \<open>Revocation and credentials\<close>

definition revoke_row :: "string \<Rightarrow> cloud_device \<Rightarrow> cloud_device" where
  "revoke_row h d = d\<lparr>cd_revoked := True, cd_hash := Some h\<rparr>"

definition revoke_device :: "cloud_setup \<Rightarrow> int \<Rightarrow> string \<Rightarrow> int \<Rightarrow> cloud \<Rightarrow> cloud_error + bool \<times> cloud" where
  "revoke_device su now token did db =
     bindR (find_device did db) (\<lambda>d.
       let db1 = (case active_session did db of None \<Rightarrow> db
                  | Some s \<Rightarrow> snd (release_once now s DeviceRevoked (Some ''device revoked by admin'') db))
       in if cd_revoked d then bindR (cloud_commit integrity db1) (\<lambda>db'. Inr (False, db'))
          else bindR (cloud_commit integrity (db1\<lparr>devices := upd_by cd_id did (revoke_row (cs_hash su token)) (devices db1)\<rparr>))
                 (\<lambda>db'. Inr (True, db')))"

definition token_row :: "string \<Rightarrow> cloud_device \<Rightarrow> cloud_device" where
  "token_row h d = d\<lparr>cd_hash := Some h\<rparr>"

definition reissue_device_token :: "cloud_setup \<Rightarrow> string \<Rightarrow> int \<Rightarrow> cloud \<Rightarrow> cloud_error + string \<times> cloud" where
  "reissue_device_token su token did db =
     bindR (find_device did db) (\<lambda>d.
       if cd_revoked d then Inl (LeaseError ''device_revoked'' 409)
       else bindR (cloud_commit integrity (db\<lparr>devices := upd_by cd_id did (token_row (cs_hash su token)) (devices db)\<rparr>)) (\<lambda>db'. Inr (token, db')))"

definition reinstate_row :: "string \<Rightarrow> cloud_device \<Rightarrow> cloud_device" where
  "reinstate_row h d = d\<lparr>cd_revoked := False, cd_hash := Some h\<rparr>"

definition reinstate_device :: "cloud_setup \<Rightarrow> string \<Rightarrow> int \<Rightarrow> cloud \<Rightarrow> cloud_error + string \<times> cloud" where
  "reinstate_device su token did db =
     bindR (find_device did db) (\<lambda>d.
       bindR (cloud_commit integrity (db\<lparr>devices := upd_by cd_id did (reinstate_row (cs_hash su token)) (devices db)\<rparr>)) (\<lambda>db'. Inr (token, db')))"

section \<open>The sweep\<close>

definition stale :: "int \<Rightarrow> int list \<Rightarrow> cloud_session \<Rightarrow> bool" where
  "stale cutoff locked s \<longleftrightarrow> active s \<and> ss_heartbeat_at s < cutoff \<and> ss_id s \<notin> set locked"

definition sweep_one :: "int \<Rightarrow> int \<Rightarrow> cloud_session \<Rightarrow> nat \<times> cloud \<Rightarrow> nat \<times> cloud" where
  "sweep_one now timeout s acc =
     (let (k, db) = acc;
          (fresh, db') = release_once now s HeartbeatTimeout (Some (''no heartbeat within '' @ dec_text timeout @ ''s'')) db
      in (if fresh then k + 1 else k, db'))"

definition sweep_expired_sessions :: "int \<Rightarrow> int \<Rightarrow> int list \<Rightarrow> cloud \<Rightarrow> cloud_error + nat \<times> cloud" where
  "sweep_expired_sessions now timeout locked db =
     (let (released, db1) = fold (sweep_one now timeout) (filter (stale (now - timeout * 1000000) locked) (sessions db)) (0, db)
      in if released = 0 then Inr (0, db) else bindR (cloud_commit integrity db1) (\<lambda>db'. Inr (released, db')))"

end
