(* ===== verification/Cloud_Api.thy ===== *)
theory Cloud_Api
  imports Cloud_Leasing
begin

text \<open>
  The administration of the cloud gateway (\<open>text12/b/app/service.py\<close>), the endpoints of tenants and devices
  (\<open>routers\<close>, \<open>deps.py\<close>, \<open>schemas.py\<close>) and one step of the service. The principal of an administrator, which the
  code decodes from a signed token, comes with the request.
\<close>

section \<open>Administration\<close>

definition create_tenant :: "string \<Rightarrow> cloud \<Rightarrow> cloud_error + cloud_tenant \<times> cloud" where
  "create_tenant name db =
     (if list_ex (\<lambda>t. tn_name t = name) (tenants db) then Inl (LeaseError ''tenant_name_taken'' 409)
      else let t = \<lparr>tn_id = next_key db, tn_name = name\<rparr>
      in bindR (cloud_commit integrity (db\<lparr>tenants := tenants db @ [t], next_key := next_key db + 1\<rparr>)) (\<lambda>db'. Inr (t, db')))"

text \<open>The rows of the addresses of a pool; each takes the next identifier.\<close>

definition pool_rows :: "int \<Rightarrow> int \<Rightarrow> (ipv4 \<times> address_kind \<times> bool) list \<Rightarrow> pool_address list" where
  "pool_rows n pid rows = map (\<lambda>(i, ip, kind, reserved). \<lparr>pa_id = n + int i, pa_pool = pid, pa_ip = ip, pa_kind = kind, pa_reserved = reserved, pa_status = Free\<rparr>)
     (enumerate 0 rows)"

definition check_overlap :: "ipv4_network \<Rightarrow> address_pool \<Rightarrow> cloud_error + unit" where
  "check_overlap net p = bindR (pool_network (pl_cidr p)) (\<lambda>n. guardR (\<not> net_overlaps net n) (LeaseError ''pool_overlaps'' 409))"

definition create_pool :: "int \<Rightarrow> string \<Rightarrow> string \<Rightarrow> string list \<Rightarrow> cloud \<Rightarrow> cloud_error + address_pool \<times> cloud" where
  "create_pool tid name cidr reserved db =
     bindR (pool_network cidr) (\<lambda>net.
     if list_ex (\<lambda>p. pl_tenant p = tid \<and> pl_name p = name) (pools db) then Inl (LeaseError ''pool_name_taken'' 409)
     else bindR (foldR (\<lambda>_. check_overlap net) () (filter (\<lambda>p. pl_tenant p = tid) (pools db))) (\<lambda>_.
     bindR (expand_pool (str_network net) reserved) (\<lambda>rows.
       let p = \<lparr>pl_id = next_key db, pl_tenant = tid, pl_name = name, pl_cidr = str_network net\<rparr>
       in if \<not> tenant_exists tid db then Inl integrity
          else bindR (cloud_commit integrity (db\<lparr>pools := pools db @ [p], addresses := addresses db @ pool_rows (next_key db + 1) (pl_id p) rows,
                 next_key := next_key db + 1 + int (length rows)\<rparr>)) (\<lambda>db'. Inr (p, db')))))"

record pool_count =
  pc_total :: nat
  pc_usable :: nat
  pc_reserved :: nat
  pc_allocated :: nat

definition pool_counts :: "int \<Rightarrow> cloud \<Rightarrow> pool_count" where
  "pool_counts pid db =
     (let rows = filter (\<lambda>a. pa_pool a = pid) (addresses db); us = filter (\<lambda>a. pa_kind a = Usable) rows
      in \<lparr>pc_total = length rows, pc_usable = length (filter (\<lambda>a. \<not> pa_reserved a) us), pc_reserved = length (filter pa_reserved us),
          pc_allocated = length (filter (\<lambda>a. \<not> pa_reserved a \<and> pa_status a = Allocated) us)\<rparr>)"

definition create_access_point :: "int \<Rightarrow> string \<Rightarrow> int \<Rightarrow> int \<Rightarrow> cloud \<Rightarrow> cloud_error + cloud_ap \<times> cloud" where
  "create_access_point tid name pid capacity db =
     (case row_by pl_id pid (pools db) of
        None \<Rightarrow> Inl (LeaseError ''pool_not_found'' 404)
      | Some p \<Rightarrow>
          if pl_tenant p \<noteq> tid then Inl (LeaseError ''pool_not_found'' 404)
          else if list_ex (\<lambda>x. cx_tenant x = tid \<and> cx_name x = name) (aps db) then Inl (LeaseError ''ap_name_taken'' 409)
          else if capacity > int (pc_usable (pool_counts pid db)) then Inl (LeaseError ''capacity_exceeds_pool'' 422)
          else let x = \<lparr>cx_id = next_key db, cx_tenant = tid, cx_pool = pid, cx_name = name, cx_capacity = capacity\<rparr>
          in bindR (cloud_commit integrity (db\<lparr>aps := aps db @ [x], next_key := next_key db + 1\<rparr>)) (\<lambda>db'. Inr (x, db')))"

definition enroll_device :: "cloud_setup \<Rightarrow> int \<Rightarrow> string \<Rightarrow> string \<Rightarrow> cloud \<Rightarrow> cloud_error + cloud_device \<times> cloud" where
  "enroll_device su tid name token db =
     (if list_ex (\<lambda>d. cd_tenant d = tid \<and> cd_name d = name) (devices db) then Inl (LeaseError ''device_name_taken'' 409)
      else let d = \<lparr>cd_id = next_key db, cd_tenant = tid, cd_name = name, cd_hash = Some (cs_hash su token), cd_revoked = False\<rparr>
      in if \<not> tenant_exists tid db then Inl integrity
         else bindR (cloud_commit integrity (db\<lparr>devices := devices db @ [d], next_key := next_key db + 1\<rparr>)) (\<lambda>db'. Inr (d, db')))"

definition get_owned_device :: "int \<Rightarrow> int \<Rightarrow> cloud \<Rightarrow> cloud_error + cloud_device" where
  "get_owned_device did tid db =
     (case row_by cd_id did (devices db) of
        None \<Rightarrow> Inl (LeaseError ''not_found'' 404)
      | Some d \<Rightarrow> if cd_tenant d \<noteq> tid then Inl (LeaseError ''not_found'' 404) else Inr d)"

definition active_session_count :: "int \<Rightarrow> cloud \<Rightarrow> nat" where
  "active_session_count apid db = length (filter (\<lambda>s. ss_ap s = apid \<and> active s) (sessions db))"

definition list_sessions :: "int \<Rightarrow> int option \<Rightarrow> cloud \<Rightarrow> cloud_error + cloud_session list" where
  "list_sessions tid did db =
     (let own = filter (\<lambda>s. ss_tenant s = tid) (sessions db) in
      case did of
        None \<Rightarrow> Inr (sort_key (\<lambda>s. - ss_connected_at s) own)
      | Some k \<Rightarrow> (case row_by cd_id k (devices db) of
          None \<Rightarrow> Inl (LeaseError ''device_not_found'' 404)
        | Some d \<Rightarrow> if cd_tenant d \<noteq> tid then Inl (LeaseError ''device_not_found'' 404)
            else Inr (sort_key (\<lambda>s. - ss_connected_at s) (filter (\<lambda>s. ss_device s = k) own))))"

definition get_termination :: "int \<Rightarrow> cloud \<Rightarrow> lease_end option" where
  "get_termination sid db = row_by lt_session sid (terminations db)"

section \<open>Callers\<close>

record admin_principal =
  ad_tenant :: "int option"
  ad_platform :: bool

definition require_tenant :: "admin_principal \<Rightarrow> int \<Rightarrow> cloud_error + int" where
  "require_tenant ad tid =
     (if ad_platform ad then Inr tid else if ad_tenant ad \<noteq> Some tid then Inl (HttpError 404) else Inr tid)"

definition require_platform_admin :: "admin_principal \<Rightarrow> cloud_error + unit" where
  "require_platform_admin ad = guardR (ad_platform ad) (HttpError 403)"

definition authenticate_device :: "cloud_setup \<Rightarrow> string option \<Rightarrow> cloud \<Rightarrow> cloud_error + cloud_device" where
  "authenticate_device su token db =
     (if \<not> truthy token then Inl (HttpError 401)
      else case find (\<lambda>d. cd_hash d = Some (cs_hash su (the token))) (devices db) of
        None \<Rightarrow> Inl (HttpError 401)
      | Some d \<Rightarrow> if cd_revoked d then Inl (HttpError 403) else Inr d)"

definition require_lease_token :: "string option \<Rightarrow> cloud_error + string" where
  "require_lease_token token = (if truthy token then Inr (the token) else Inl (HttpError 401))"

section \<open>Endpoints\<close>

definition name_ok :: "string \<Rightarrow> bool" where
  "name_ok name \<longleftrightarrow> 1 \<le> int (length name) \<and> int (length name) \<le> 128"

definition blank_to_none :: "string option \<Rightarrow> string option" where
  "blank_to_none key = (case key of None \<Rightarrow> None | Some k \<Rightarrow> if strip k = [] then None else Some k)"

definition with_tenant :: "admin_principal \<Rightarrow> int \<Rightarrow> bool \<Rightarrow> (int \<Rightarrow> cloud \<Rightarrow> cloud_error + 'a) \<Rightarrow> cloud \<Rightarrow> cloud_error + 'a" where
  "with_tenant ad tid ok f db = bindR (guardR ok BadRequestBody) (\<lambda>_. bindR (require_tenant ad tid) (\<lambda>t. f t db))"

definition with_owned :: "admin_principal \<Rightarrow> int \<Rightarrow> int \<Rightarrow> (int \<Rightarrow> cloud \<Rightarrow> cloud_error + 'a) \<Rightarrow> cloud \<Rightarrow> cloud_error + 'a" where
  "with_owned ad tid did f = with_tenant ad tid True (\<lambda>t db. bindR (get_owned_device did t db) (\<lambda>d. f (cd_id d) db))"

definition post_tenant :: "admin_principal \<Rightarrow> string \<Rightarrow> cloud \<Rightarrow> cloud_error + cloud_tenant \<times> cloud" where
  "post_tenant ad name db =
     bindR (require_platform_admin ad) (\<lambda>_. bindR (guardR (name_ok name) BadRequestBody) (\<lambda>_. create_tenant name db))"

definition post_pool :: "admin_principal \<Rightarrow> int \<Rightarrow> string \<Rightarrow> string \<Rightarrow> string list \<Rightarrow> cloud \<Rightarrow> cloud_error + (address_pool \<times> pool_count) \<times> cloud" where
  "post_pool ad tid name cidr reserved =
     with_tenant ad tid (name_ok name) (\<lambda>t db. bindR (create_pool t name cidr reserved db) (\<lambda>(p, db'). Inr ((p, pool_counts (pl_id p) db'), db')))"

definition post_access_point :: "admin_principal \<Rightarrow> int \<Rightarrow> string \<Rightarrow> int \<Rightarrow> int \<Rightarrow> cloud \<Rightarrow> cloud_error + (cloud_ap \<times> nat) \<times> cloud" where
  "post_access_point ad tid name pid capacity =
     with_tenant ad tid (name_ok name \<and> 0 < capacity) (\<lambda>t db. bindR (create_access_point t name pid capacity db)
       (\<lambda>(x, db'). Inr ((x, active_session_count (cx_id x) db'), db')))"

definition post_device :: "cloud_setup \<Rightarrow> admin_principal \<Rightarrow> int \<Rightarrow> string \<Rightarrow> string \<Rightarrow> cloud \<Rightarrow> cloud_error + cloud_device \<times> cloud" where
  "post_device su ad tid name token = with_tenant ad tid (name_ok name) (\<lambda>t. enroll_device su t name token)"

definition post_revoke :: "cloud_setup \<Rightarrow> admin_principal \<Rightarrow> int \<Rightarrow> int \<Rightarrow> int \<Rightarrow> string \<Rightarrow> cloud \<Rightarrow> cloud_error + bool \<times> cloud" where
  "post_revoke su ad tid did now token = with_owned ad tid did (revoke_device su now token)"

definition post_reissue :: "cloud_setup \<Rightarrow> admin_principal \<Rightarrow> int \<Rightarrow> int \<Rightarrow> string \<Rightarrow> cloud \<Rightarrow> cloud_error + string \<times> cloud" where
  "post_reissue su ad tid did token = with_owned ad tid did (reissue_device_token su token)"

definition post_reinstate :: "cloud_setup \<Rightarrow> admin_principal \<Rightarrow> int \<Rightarrow> int \<Rightarrow> string \<Rightarrow> cloud \<Rightarrow> cloud_error + string \<times> cloud" where
  "post_reinstate su ad tid did token = with_owned ad tid did (reinstate_device su token)"

definition get_sessions :: "admin_principal \<Rightarrow> int \<Rightarrow> int option \<Rightarrow> cloud \<Rightarrow> cloud_error + cloud_session list" where
  "get_sessions ad tid did = with_tenant ad tid True (\<lambda>t. list_sessions t did)"

definition post_connect :: "cloud_setup \<Rightarrow> connect_env \<Rightarrow> string option \<Rightarrow> int \<Rightarrow> string option \<Rightarrow> cloud \<Rightarrow> cloud_error + connect_result \<times> cloud" where
  "post_connect su env token apid key db =
     bindR (authenticate_device su token db) (\<lambda>d.
     bindR (guardR (case key of None \<Rightarrow> True | Some k \<Rightarrow> int (length k) \<le> 128) BadRequestBody) (\<lambda>_.
       connect su env (cd_id d) apid (blank_to_none key) db))"

definition post_heartbeat :: "cloud_setup \<Rightarrow> int \<Rightarrow> string option \<Rightarrow> string option \<Rightarrow> int \<Rightarrow> int \<Rightarrow> cloud \<Rightarrow> cloud_error + cloud_session \<times> cloud" where
  "post_heartbeat su now token lease sid gen db =
     bindR (authenticate_device su token db) (\<lambda>d. bindR (require_lease_token lease) (\<lambda>l.
     bindR (guardR (1 \<le> gen) BadRequestBody) (\<lambda>_. heartbeat su now (cd_id d) sid gen l db)))"

definition post_close :: "cloud_setup \<Rightarrow> int \<Rightarrow> string option \<Rightarrow> string option \<Rightarrow> int \<Rightarrow> int \<Rightarrow> cloud \<Rightarrow> cloud_error + cloud_session \<times> cloud" where
  "post_close su now token lease sid gen db =
     bindR (authenticate_device su token db) (\<lambda>d. bindR (require_lease_token lease) (\<lambda>l.
     bindR (guardR (1 \<le> gen) BadRequestBody) (\<lambda>_. close_session su now (cd_id d) sid gen l db)))"

definition termination_record :: "admin_principal \<Rightarrow> int \<Rightarrow> int \<Rightarrow> cloud \<Rightarrow> cloud_error + lease_end" where
  "termination_record ad tid sid = with_tenant ad tid True (\<lambda>t db. case row_by ss_id sid (sessions db) of
       None \<Rightarrow> Inl (LeaseError ''session_not_found'' 404)
     | Some s \<Rightarrow> if ss_tenant s \<noteq> t then Inl (LeaseError ''session_not_found'' 404)
         else someR (get_termination sid db) (LeaseError ''not_terminated'' 404))"

section \<open>Requests and the sweeper\<close>

datatype cloud_op =
    CreateTenant admin_principal string
  | CreatePool admin_principal int string string "string list"
  | CreateAp admin_principal int string int int
  | Enroll admin_principal int string string
  | Revoke admin_principal int int int string
  | Reissue admin_principal int int string
  | Reinstate admin_principal int int string
  | Connect connect_env "string option" int "string option"
  | Heartbeat int "string option" "string option" int int
  | CloseLease int "string option" "string option" int int
  | Sweep int int "int list"

definition only_db :: "cloud_error + 'a \<times> cloud \<Rightarrow> cloud_error + cloud" where
  "only_db r = bindR r (\<lambda>(_, db). Inr db)"

definition cloud_request :: "cloud_setup \<Rightarrow> cloud_op \<Rightarrow> cloud \<Rightarrow> cloud_error + cloud" where
  "cloud_request su op db =
     (case op of
        CreateTenant ad name \<Rightarrow> only_db (post_tenant ad name db)
      | CreatePool ad tid name cidr reserved \<Rightarrow> only_db (post_pool ad tid name cidr reserved db)
      | CreateAp ad tid name pid capacity \<Rightarrow> only_db (post_access_point ad tid name pid capacity db)
      | Enroll ad tid name token \<Rightarrow> only_db (post_device su ad tid name token db)
      | Revoke ad tid did now token \<Rightarrow> only_db (post_revoke su ad tid did now token db)
      | Reissue ad tid did token \<Rightarrow> only_db (post_reissue su ad tid did token db)
      | Reinstate ad tid did token \<Rightarrow> only_db (post_reinstate su ad tid did token db)
      | Connect env token apid key \<Rightarrow> only_db (post_connect su env token apid key db)
      | Heartbeat now token lease sid gen \<Rightarrow> only_db (post_heartbeat su now token lease sid gen db)
      | CloseLease now token lease sid gen \<Rightarrow> only_db (post_close su now token lease sid gen db)
      | Sweep now timeout locked \<Rightarrow> only_db (sweep_expired_sessions now timeout locked db))"

definition cloud_step :: "cloud_setup \<Rightarrow> cloud_op \<Rightarrow> cloud \<Rightarrow> cloud" where
  "cloud_step su op db = (case cloud_request su op db of Inl _ \<Rightarrow> db | Inr db' \<Rightarrow> db')"

definition cloud_run :: "cloud_setup \<Rightarrow> cloud_op list \<Rightarrow> cloud \<Rightarrow> cloud" where
  "cloud_run su ops db = fold (cloud_step su) ops db"

definition cloud_empty :: cloud where
  "cloud_empty = \<lparr>tenants = [], pools = [], addresses = [], aps = [], devices = [], sessions = [], terminations = [], next_key = 1\<rparr>"

end
