(* ===== verification/Cloud_Invariants.thy ===== *)
theory Cloud_Invariants
  imports Cloud_Api
begin

text \<open>
  The invariant of the cloud gateway: the allocated addresses are exactly the addresses of the active
  sessions, one each; a session is active until its termination is written; a device has at most one
  active session, none when it is revoked, and its generations count up from 1; capacities hold.
\<close>

section \<open>Rows\<close>

interpretation session_close: row_update ss_id "close_row now" for now
  by unfold_locales (simp add: close_row_def)

interpretation session_beat: row_update ss_id "beat_row now" for now
  by unfold_locales (simp add: beat_row_def)

interpretation address_free: row_update pa_id free_row
  by unfold_locales (simp add: free_row_def)

interpretation address_allocate: row_update pa_id allocate_row
  by unfold_locales (simp add: allocate_row_def)

lemma upd_by_keeps: "r \<in> set rows \<Longrightarrow> key r \<noteq> k \<Longrightarrow> r \<in> set (upd_by key k f rows)"
  by (force simp: upd_by_def)

lemma upd_by_changes: "r \<in> set rows \<Longrightarrow> key r = k \<Longrightarrow> f r \<in> set (upd_by key k f rows)"
  by (force simp: upd_by_def)

lemma upd_by_filter_map:
  "(\<And>r. P (f r) = P r) \<Longrightarrow> (\<And>r. g (f r) = g r) \<Longrightarrow> map g (filter P (upd_by key k f rows)) = map g (filter P rows)"
  by (induction rows) auto

lemma distinct_key:
  assumes "distinct (map f xs)" "x \<in> set xs" "y \<in> set xs" "f x = f y"
  shows "x = y"
  using assms by (auto simp: distinct_map dest: inj_onD)

section \<open>The invariant\<close>

definition active_rows :: "cloud \<Rightarrow> cloud_session list" where
  "active_rows db = filter active (sessions db)"

definition keys_ok :: "cloud \<Rightarrow> bool" where
  "keys_ok db \<longleftrightarrow> distinct (map pa_id (addresses db)) \<and> distinct (map ss_id (sessions db)) \<and> distinct (map cd_id (devices db)) \<and>
     distinct (map cx_id (aps db)) \<and> (\<forall>a \<in> set (addresses db). pa_id a < next_key db) \<and> (\<forall>s \<in> set (sessions db). ss_id s < next_key db) \<and>
     (\<forall>d \<in> set (devices db). cd_id d < next_key db) \<and> (\<forall>x \<in> set (aps db). cx_id x < next_key db) \<and>
     (\<forall>t \<in> set (terminations db). lt_session t < next_key db) \<and> (\<forall>s \<in> set (sessions db). ss_ap s \<in> cx_id ` set (aps db))"

definition holds :: "cloud \<Rightarrow> cloud_session \<Rightarrow> pool_address \<Rightarrow> bool" where
  "holds db s a \<longleftrightarrow> pa_id a = ss_address s \<and> pa_status a = Allocated \<and> pa_kind a = Usable \<and> \<not> pa_reserved a \<and> pa_ip a = ss_ip s \<and>
     (\<exists>x \<in> set (aps db). cx_id x = ss_ap s \<and> cx_pool x = pa_pool a)"

text \<open>\<open>X\<close> holds an address that is allocated for a session not yet inserted.\<close>

definition leases_ok :: "int set \<Rightarrow> cloud \<Rightarrow> bool" where
  "leases_ok X db \<longleftrightarrow> (\<forall>s \<in> set (active_rows db). ss_address s \<notin> X \<and> (\<exists>a \<in> set (addresses db). holds db s a)) \<and>
     distinct (map ss_address (active_rows db)) \<and>
     (\<forall>a \<in> set (addresses db). pa_status a = Allocated \<longrightarrow> pa_id a \<in> X \<or> pa_id a \<in> ss_address ` set (active_rows db))"

definition ends_ok :: "cloud \<Rightarrow> bool" where
  "ends_ok db \<longleftrightarrow> (\<forall>s \<in> set (sessions db). active s \<longleftrightarrow> ss_id s \<notin> lt_session ` set (terminations db))"

definition owners_ok :: "cloud \<Rightarrow> bool" where
  "owners_ok db \<longleftrightarrow> distinct (map ss_device (active_rows db)) \<and>
     (\<forall>s \<in> set (active_rows db). \<exists>d \<in> set (devices db). cd_id d = ss_device s \<and> \<not> cd_revoked d)"

definition gens_ok :: "cloud \<Rightarrow> bool" where
  "gens_ok db \<longleftrightarrow> (\<forall>did. map ss_generation (filter (\<lambda>s. ss_device s = did) (sessions db)) =
     map int [1..<Suc (length (filter (\<lambda>s. ss_device s = did) (sessions db)))])"

definition caps_ok :: "cloud \<Rightarrow> bool" where
  "caps_ok db \<longleftrightarrow> (\<forall>x \<in> set (aps db). int (length (filter (\<lambda>s. ss_ap s = cx_id x) (active_rows db))) \<le> cx_capacity x)"

definition cloud_inv :: "int set \<Rightarrow> cloud \<Rightarrow> bool" where
  "cloud_inv X db \<longleftrightarrow> keys_ok db \<and> leases_ok X db \<and> ends_ok db \<and> owners_ok db \<and> gens_ok db \<and> caps_ok db"

lemma cloud_invD:
  assumes "cloud_inv X db"
  shows "keys_ok db" "leases_ok X db" "ends_ok db" "owners_ok db" "gens_ok db" "caps_ok db"
  using assms by (simp_all add: cloud_inv_def)

lemma empty_inv: "cloud_inv {} cloud_empty"
  by (simp add: cloud_inv_def keys_ok_def leases_ok_def ends_ok_def owners_ok_def gens_ok_def caps_ok_def active_rows_def cloud_empty_def)

lemma in_active_rows: "s \<in> set (active_rows db) \<longleftrightarrow> s \<in> set (sessions db) \<and> active s"
  by (auto simp: active_rows_def)

lemma active_ids: "keys_ok db \<Longrightarrow> s \<in> set (active_rows db) \<Longrightarrow> t \<in> set (active_rows db) \<Longrightarrow> ss_id s = ss_id t \<Longrightarrow> s = t"
  by (rule distinct_key[of ss_id "sessions db"]) (auto simp: keys_ok_def in_active_rows)

section \<open>Releasing\<close>

lemma free_row_status: "pa_status (free_row a) \<noteq> Allocated"
  by (simp add: free_row_def)

lemma closed_row [simp]: "\<not> active (close_row now s)"
  by (simp add: active_def close_row_def)

lemma release_active:
  assumes "cloud_inv X db" "s \<in> set (active_rows db)"
  shows "release_once now s reason detail db = (True, db\<lparr>terminations := terminations db @ [\<lparr>lt_session = ss_id s, lt_reason = reason, lt_at = now, lt_detail = detail\<rparr>],
     sessions := upd_by ss_id (ss_id s) (close_row now) (sessions db), addresses := upd_by pa_id (ss_address s) free_row (addresses db)\<rparr>)"
  using assms by (force simp: release_once_def cloud_inv_def ends_ok_def in_active_rows list_ex_iff)

lemma released_rows:
  assumes "cloud_inv X db" "s \<in> set (active_rows db)" "release_once now s reason detail db = (r, db')"
  shows "active_rows db' = filter (\<lambda>t. ss_id t \<noteq> ss_id s) (active_rows db)"
proof -
  have "filter active (upd_by ss_id k (close_row now) rows) = filter (\<lambda>t. ss_id t \<noteq> k) (filter active rows)" for k rows
    by (induction rows) auto
  then show ?thesis using assms(3) release_active[OF assms(1,2), of now reason detail] by (auto simp: active_rows_def)
qed

lemma release_same:
  assumes "release_once now s reason detail db = (r, db')"
  shows "devices db' = devices db" "aps db' = aps db" "next_key db' = next_key db" "tenants db' = tenants db" "pools db' = pools db"
  using assms by (auto simp: release_once_def split: if_splits)

lemma release_leases:
  assumes inv: "cloud_inv X db" and s: "s \<in> set (active_rows db)" and r: "release_once now s reason detail db = (r, db')"
  shows "leases_ok X db'"
proof -
  note i = cloud_invD[OF inv] and act = released_rows[OF inv s r] and same = release_same[OF r]
  have ad: "addresses db' = upd_by pa_id (ss_address s) free_row (addresses db)" using r release_active[OF inv s, of now reason detail] by auto
  have sub: "set (active_rows db') \<subseteq> set (active_rows db)" by (auto simp: act)
  have ne: "ss_address t \<noteq> ss_address s" if "t \<in> set (active_rows db')" for t
    using that i(2) s distinct_key[of ss_address "active_rows db" t s] by (auto simp: act leases_ok_def)
  show ?thesis unfolding leases_ok_def
  proof (intro conjI ballI impI)
    fix t assume t: "t \<in> set (active_rows db')"
    then show "ss_address t \<notin> X" using i(2) sub by (auto simp: leases_ok_def)
    from t sub i(2) obtain a where a: "a \<in> set (addresses db)" "holds db t a" unfolding leases_ok_def by blast
    with ne[OF t] have "a \<in> set (addresses db')" unfolding ad by (intro upd_by_keeps) (simp_all add: holds_def)
    moreover have "holds db' t a" using a(2) by (simp add: holds_def same)
    ultimately show "\<exists>a \<in> set (addresses db'). holds db' t a" by blast
  next
    show "distinct (map ss_address (active_rows db'))" using i(2) by (simp add: act leases_ok_def distinct_map_filter)
  next
    fix a assume a: "a \<in> set (addresses db')" "pa_status a = Allocated"
    from set_upd_byD[OF a(1)[unfolded ad]] a(2) have old: "a \<in> set (addresses db)" "pa_id a \<noteq> ss_address s"
      using free_row_status by blast+
    have "pa_id a \<in> ss_address ` set (active_rows db')" if "pa_id a \<notin> X"
    proof -
      from that i(2) old(1) a(2) obtain t where t: "t \<in> set (active_rows db)" "pa_id a = ss_address t" unfolding leases_ok_def by blast
      then have "ss_id t \<noteq> ss_id s" using active_ids[OF i(1) t(1) s] old(2) by auto
      with t show ?thesis by (simp add: act)
    qed
    then show "pa_id a \<in> X \<or> pa_id a \<in> ss_address ` set (active_rows db')" by blast
  qed
qed

lemma release_inv:
  assumes inv: "cloud_inv X db" and s: "s \<in> set (active_rows db)" and r: "release_once now s reason detail db = (r, db')"
  shows "cloud_inv X db'"
proof -
  note i = cloud_invD[OF inv] and act = released_rows[OF inv s r] and same = release_same[OF r]
  have se: "sessions db' = upd_by ss_id (ss_id s) (close_row now) (sessions db)"
    and ad: "addresses db' = upd_by pa_id (ss_address s) free_row (addresses db)"
    and te: "set (terminations db') = insert \<lparr>lt_session = ss_id s, lt_reason = reason, lt_at = now, lt_detail = detail\<rparr> (set (terminations db))"
    using r release_active[OF inv s, of now reason detail] by auto
  have sub: "set (active_rows db') \<subseteq> set (active_rows db)" by (auto simp: act)
  have "keys_ok db'" unfolding keys_ok_def se ad same session_close.keys_upd address_free.keys_upd
  proof (intro conjI)
    show "\<forall>a \<in> set (upd_by pa_id (ss_address s) free_row (addresses db)). pa_id a < next_key db"
      using i(1) by (auto simp: keys_ok_def address_free.key_kept dest!: set_upd_byD)
    show "\<forall>t \<in> set (upd_by ss_id (ss_id s) (close_row now) (sessions db)). ss_id t < next_key db"
      using i(1) by (auto simp: keys_ok_def session_close.key_kept dest!: set_upd_byD)
    show "\<forall>t \<in> set (upd_by ss_id (ss_id s) (close_row now) (sessions db)). ss_ap t \<in> cx_id ` set (aps db)"
      using i(1) by (auto simp: keys_ok_def close_row_def dest!: set_upd_byD)
    show "\<forall>t \<in> set (terminations db'). lt_session t < next_key db" using i(1) s by (auto simp: te keys_ok_def in_active_rows)
  qed (use i(1) in \<open>simp_all add: keys_ok_def\<close>)
  moreover have "leases_ok X db'" by (rule release_leases[OF inv s r])
  moreover have "ends_ok db'" unfolding ends_ok_def se te
  proof
    fix t assume "t \<in> set (upd_by ss_id (ss_id s) (close_row now) (sessions db))"
    from set_upd_byD[OF this] show "active t = (ss_id t \<notin> lt_session ` insert \<lparr>lt_session = ss_id s, lt_reason = reason, lt_at = now, lt_detail = detail\<rparr> (set (terminations db)))"
      using i(3) by (auto simp: ends_ok_def session_close.key_kept)
  qed
  moreover have "owners_ok db'" using i(4) sub unfolding owners_ok_def same act by (auto simp: distinct_map_filter)
  moreover have "gens_ok db'"
  proof -
    have "map ss_generation (filter (\<lambda>s. ss_device s = did) (sessions db')) = map ss_generation (filter (\<lambda>s. ss_device s = did) (sessions db))" for did
      unfolding se by (rule upd_by_filter_map) (simp_all add: close_row_def)
    then show ?thesis using i(5) unfolding gens_ok_def by (metis length_map)
  qed
  moreover have "caps_ok db'" unfolding caps_ok_def same
  proof
    fix x assume "x \<in> set (aps db)"
    then have "int (length (filter (\<lambda>s. ss_ap s = cx_id x) (active_rows db))) \<le> cx_capacity x" using i(6) by (simp add: caps_ok_def)
    moreover have "filter (\<lambda>s. ss_ap s = cx_id x) (active_rows db') = filter (\<lambda>t. ss_id t \<noteq> ss_id s) (filter (\<lambda>s. ss_ap s = cx_id x) (active_rows db))"
      unfolding act by (simp add: conj_commute)
    then have "length (filter (\<lambda>s. ss_ap s = cx_id x) (active_rows db')) \<le> length (filter (\<lambda>s. ss_ap s = cx_id x) (active_rows db))"
      by (simp only: length_filter_le)
    ultimately show "int (length (filter (\<lambda>s. ss_ap s = cx_id x) (active_rows db'))) \<le> cx_capacity x" by linarith
  qed
  ultimately show ?thesis by (simp add: cloud_inv_def)
qed

section \<open>Allocating and inserting\<close>

lemma allocate_parts:
  assumes "allocate_address pool locked db = Inr (a, db1)"
  shows "a \<in> set (addresses db) \<and> allocatable pool locked a \<and> db1 = db\<lparr>addresses := upd_by pa_id (pa_id a) allocate_row (addresses db)\<rparr>"
proof -
  from assms obtain as where as: "sort_key (\<lambda>a. uint (pa_ip a)) (filter (allocatable pool locked) (addresses db)) = a # as"
    and d: "db1 = db\<lparr>addresses := upd_by pa_id (pa_id a) allocate_row (addresses db)\<rparr>"
    by (auto simp: allocate_address_def split: list.splits)
  from arg_cong[OF as, of set] have "a \<in> set (filter (allocatable pool locked) (addresses db))" by auto
  with d show ?thesis by simp
qed

lemma allocate_inv:
  assumes inv: "cloud_inv {} db" and a: "a \<in> set (addresses db)" "pa_status a = Free"
    and db1: "db1 = db\<lparr>addresses := upd_by pa_id (pa_id a) allocate_row (addresses db)\<rparr>"
  shows "cloud_inv {pa_id a} db1"
proof -
  note i = cloud_invD[OF inv]
  have act: "active_rows db1 = active_rows db" by (simp add: active_rows_def db1)
  have same: "sessions db1 = sessions db" "aps db1 = aps db" "devices db1 = devices db" "terminations db1 = terminations db" "next_key db1 = next_key db"
    and ad: "addresses db1 = upd_by pa_id (pa_id a) allocate_row (addresses db)" by (simp_all add: db1)
  have "keys_ok db1" unfolding keys_ok_def same ad address_allocate.keys_upd
  proof (intro conjI)
    show "\<forall>b \<in> set (upd_by pa_id (pa_id a) allocate_row (addresses db)). pa_id b < next_key db"
      using i(1) by (auto simp: keys_ok_def address_allocate.key_kept dest!: set_upd_byD)
  qed (use i(1) in \<open>simp_all add: keys_ok_def\<close>)
  moreover have "leases_ok {pa_id a} db1" unfolding leases_ok_def act
  proof (intro conjI ballI impI)
    fix t assume t: "t \<in> set (active_rows db)"
    with i(2) obtain b where b: "b \<in> set (addresses db)" "holds db t b" unfolding leases_ok_def by blast
    then have ne: "pa_id b \<noteq> pa_id a" using i(1) a distinct_key[of pa_id "addresses db" b a] by (auto simp: keys_ok_def holds_def)
    then show "ss_address t \<notin> {pa_id a}" using b(2) by (simp add: holds_def)
    have "b \<in> set (addresses db1)" unfolding ad by (rule upd_by_keeps) (fact b(1) ne)+
    moreover have "holds db1 t b" using b(2) by (simp add: holds_def same)
    ultimately show "\<exists>b \<in> set (addresses db1). holds db1 t b" by blast
  next
    show "distinct (map ss_address (active_rows db))" using i(2) by (simp add: leases_ok_def)
  next
    fix b assume b: "b \<in> set (addresses db1)" "pa_status b = Allocated"
    from set_upd_byD[OF b(1)[unfolded ad]] b(2) i(2) show "pa_id b \<in> {pa_id a} \<or> pa_id b \<in> ss_address ` set (active_rows db)"
      by (auto simp: leases_ok_def allocate_row_def)
  qed
  ultimately show ?thesis using i(3-6) unfolding cloud_inv_def ends_ok_def owners_ok_def gens_ok_def caps_ok_def act same by blast
qed

lemma fold_max_upt:
  assumes "ns = map int [1..<Suc n]"
  shows "fold max ns (0::int) = int n"
proof -
  have "fold max ns 0 = Max (set (0 # ns))" by (rule Max.set_eq_fold[symmetric])
  also have "\<dots> = int n" by (rule Max_eqI) (auto simp: assms)
  finally show ?thesis .
qed

lemma insert_gens:
  assumes gens: "gens_ok db" and s: "ss_generation s = next_generation (ss_device s) db"
  shows "gens_ok (db\<lparr>sessions := sessions db @ [s], next_key := n\<rparr>)" (is "gens_ok ?db")
  unfolding gens_ok_def
proof
  fix did
  let ?f = "filter (\<lambda>t. ss_device t = did) (sessions db)"
  have g: "map ss_generation ?f = map int [1..<Suc (length ?f)]" using gens by (simp add: gens_ok_def)
  have "next_generation did db = int (length ?f) + 1" using fold_max_upt[OF g] by (simp add: next_generation_def)
  with g s show "map ss_generation (filter (\<lambda>t. ss_device t = did) (sessions ?db)) =
      map int [1..<Suc (length (filter (\<lambda>t. ss_device t = did) (sessions ?db)))]" by auto
qed

lemma insert_caps:
  assumes keys: "keys_ok db" and caps: "caps_ok db" and s: "active s" "ss_ap s = cx_id x" and x: "x \<in> set (aps db)"
    and cap: "int (length (filter (\<lambda>t. ss_ap t = cx_id x) (active_rows db))) < cx_capacity x"
  shows "caps_ok (db\<lparr>sessions := sessions db @ [s], next_key := n\<rparr>)" (is "caps_ok ?db")
proof -
  have act: "active_rows ?db = active_rows db @ [s]" using s(1) by (simp add: active_rows_def)
  show ?thesis unfolding caps_ok_def act
  proof
    fix y assume y: "y \<in> set (aps ?db)"
    show "int (length (filter (\<lambda>t. ss_ap t = cx_id y) (active_rows db @ [s]))) \<le> cx_capacity y"
    proof (cases "y = x")
      case True
      then show ?thesis using cap s(2) by simp
    next
      case False
      then have "cx_id y \<noteq> cx_id x" using keys x y distinct_key[of cx_id "aps db" y x] by (auto simp: keys_ok_def)
      then show ?thesis using caps y s(2) by (simp add: caps_ok_def)
    qed
  qed
qed

lemma insert_inv:
  assumes inv: "cloud_inv {pa_id a} db" and s: "ss_id s = next_key db" "active s" "ss_address s = pa_id a" "ss_ip s = pa_ip a" "ss_ap s = cx_id x"
      "ss_generation s = next_generation (ss_device s) db"
    and a: "a \<in> set (addresses db)" "pa_status a = Allocated" "pa_kind a = Usable" "\<not> pa_reserved a" "cx_pool x = pa_pool a"
    and x: "x \<in> set (aps db)" and d: "d \<in> set (devices db)" "cd_id d = ss_device s" "\<not> cd_revoked d"
    and free: "\<forall>t \<in> set (active_rows db). ss_device t \<noteq> ss_device s"
    and cap: "int (length (filter (\<lambda>t. ss_ap t = cx_id x) (active_rows db))) < cx_capacity x"
  shows "cloud_inv {} (db\<lparr>sessions := sessions db @ [s], next_key := next_key db + 1\<rparr>)" (is "cloud_inv {} ?db")
proof -
  note i = cloud_invD[OF inv]
  have act: "active_rows ?db = active_rows db @ [s]" using s(2) by (simp add: active_rows_def)
  have h: "holds ?db t b = holds db t b" for t b by (simp add: holds_def)
  have "keys_ok ?db" using i(1) s x by (fastforce simp: keys_ok_def)
  moreover have "leases_ok {} ?db" unfolding leases_ok_def act h
  proof (intro conjI ballI impI)
    fix t assume "t \<in> set (active_rows db @ [s])"
    then consider "t \<in> set (active_rows db)" | "t = s" by auto
    then show "\<exists>a \<in> set (addresses ?db). holds db t a"
    proof cases
      case 1
      then show ?thesis using i(2) by (simp add: leases_ok_def)
    next
      case 2
      then have "holds db t a" using s a x by (auto simp: holds_def)
      then show ?thesis using a(1) by auto
    qed
  next
    show "distinct (map ss_address (active_rows db @ [s]))" using i(2) s(3) by (auto simp: leases_ok_def)
  next
    fix b assume "b \<in> set (addresses ?db)" "pa_status b = Allocated"
    then show "pa_id b \<in> {} \<or> pa_id b \<in> ss_address ` set (active_rows db @ [s])" using i(2) s(3) by (auto simp: leases_ok_def)
  qed simp
  moreover have "ends_ok ?db" using i(1,3) s(1,2) by (fastforce simp: ends_ok_def keys_ok_def)
  moreover have "owners_ok ?db" unfolding owners_ok_def act using i(4) free d by (auto simp: owners_ok_def)
  moreover have "gens_ok ?db" by (rule insert_gens) (fact i(5) s(6))+
  moreover have "caps_ok ?db" by (rule insert_caps) (fact i(1,6) s(2,5) x cap)+
  ultimately show ?thesis by (simp add: cloud_inv_def)
qed

end
