(* ===== verification/Cloud_Run.thy ===== *)
theory Cloud_Run
  imports Cloud_Invariants
begin

text \<open>
  Every request of the cloud gateway keeps the invariant, and none takes back what has ended: closed
  sessions, terminations and the identity of sessions stay.
\<close>

section \<open>Connect\<close>

lemma active_session_Some: "active_session did db = Some s \<Longrightarrow> s \<in> set (active_rows db) \<and> ss_device s = did"
  by (auto simp: active_session_def in_active_rows find_Some_iff)

lemma active_session_None: "active_session did db = None \<Longrightarrow> t \<in> set (active_rows db) \<Longrightarrow> ss_device t \<noteq> did"
  by (auto simp: active_session_def in_active_rows find_None_iff)

lemma others_eq: "other_sessions apid did db = filter (\<lambda>t. ss_ap t = apid) (filter (\<lambda>t. ss_device t \<noteq> did) (active_rows db))"
  unfolding other_sessions_def active_rows_def filter_filter by (rule filter_cong) auto

text \<open>The predecessor of the new session is released and nothing else.\<close>

definition release_old :: "int \<Rightarrow> cloud_session option \<Rightarrow> cloud \<Rightarrow> cloud" where
  "release_old now old db =
     (case old of None \<Rightarrow> db | Some s \<Rightarrow> snd (release_once now s Reconnect (Some ''superseded by new connection'') db))"

lemma release_old_steps:
  assumes inv: "cloud_inv X db" and old: "old = active_session did db"
  shows "cloud_inv X (release_old now old db) \<and> active_rows (release_old now old db) = filter (\<lambda>t. ss_device t \<noteq> did) (active_rows db) \<and>
    devices (release_old now old db) = devices db \<and> aps (release_old now old db) = aps db \<and> next_key (release_old now old db) = next_key db"
proof (cases old)
  case None
  then have "filter (\<lambda>t. ss_device t \<noteq> did) (active_rows db) = active_rows db"
    using active_session_None old by (intro filter_True) auto
  with inv None show ?thesis by (simp add: release_old_def)
next
  case (Some s)
  then have s: "s \<in> set (active_rows db)" "ss_device s = did" using active_session_Some old by auto
  obtain r db' where r: "release_once now s Reconnect (Some ''superseded by new connection'') db = (r, db')" by (rule prod.exhaust)
  have o: "cloud_inv X db \<Longrightarrow> ss_id t = ss_id s \<longleftrightarrow> ss_device t = did" if t: "t \<in> set (active_rows db)" for t
    using that s active_ids[OF cloud_invD(1)[OF inv] t s(1)] cloud_invD(4)[OF inv] distinct_key[of ss_device "active_rows db" t s]
    by (auto simp: owners_ok_def)
  have "filter (\<lambda>t. ss_id t \<noteq> ss_id s) (active_rows db) = filter (\<lambda>t. ss_device t \<noteq> did) (active_rows db)"
    using o[OF _ inv] by (intro filter_cong) auto
  with release_inv[OF inv s(1) r] released_rows[OF inv s(1) r] release_same[OF r] Some r show ?thesis by (simp add: release_old_def)
qed

lemma establish_steps:
  assumes inv: "cloud_inv {} db" and alloc: "allocate_address pool locked db = Inr (a, db1)" and old: "old = active_session did db"
    and db2: "db2 = release_old now old db1"
  shows "cloud_inv {pa_id a} db2 \<and> active_rows db2 = filter (\<lambda>t. ss_device t \<noteq> did) (active_rows db) \<and>
    devices db2 = devices db \<and> aps db2 = aps db \<and> next_key db2 = next_key db \<and> allocate_row a \<in> set (addresses db2) \<and> allocatable pool locked a"
proof -
  from allocate_parts[OF alloc] have a: "a \<in> set (addresses db)" "allocatable pool locked a"
    and db1: "db1 = db\<lparr>addresses := upd_by pa_id (pa_id a) allocate_row (addresses db)\<rparr>" by blast+
  have inv1: "cloud_inv {pa_id a} db1" by (rule allocate_inv[OF inv a(1) _ db1]) (use a(2) in \<open>simp add: allocatable_def\<close>)
  have act: "active_rows db1 = active_rows db" "active_session did db1 = active_session did db"
    by (simp_all add: active_rows_def active_session_def db1)
  note r = release_old_steps[OF inv1, of old did now, folded db2]
  have row: "allocate_row a \<in> set (addresses db1)" unfolding db1 using a(1) by (auto intro!: upd_by_changes)
  have "allocate_row a \<in> set (addresses db2)"
  proof (cases old)
    case None
    then show ?thesis using row by (simp add: db2 release_old_def)
  next
    case (Some s)
    then have s: "s \<in> set (active_rows db1)" using active_session_Some old act by auto
    then have ne: "pa_id (allocate_row a) \<noteq> ss_address s" using cloud_invD(2)[OF inv1] by (auto simp: leases_ok_def allocate_row_def)
    have "addresses db2 = upd_by pa_id (ss_address s) free_row (addresses db1)"
      using release_active[OF inv1 s] Some by (simp add: db2 release_old_def)
    then show ?thesis using upd_by_keeps[where key = pa_id, OF row ne] by simp
  qed
  with r act old a(2) db1 show ?thesis by simp
qed

lemma establish_eq:
  "establish su env d x key old db =
     (if int (length (other_sessions (cx_id x) (cd_id d) db)) \<ge> cx_capacity x then Inl (LeaseError ''capacity_exceeded'' 503)
      else bindR (allocate_address (cx_pool x) (ce_locked env) db) (\<lambda>(a, db1).
        let db2 = release_old (ce_now env) old db1; (token, s) = new_session su env d (cx_id x) a key db2
        in bindR (cloud_commit (LeaseError ''lease_conflict'' 409) (db2\<lparr>sessions := sessions db2 @ [s], next_key := next_key db2 + 1\<rparr>))
             (\<lambda>db'. Inr (\<lparr>cr_session = s, cr_token = token, cr_reconnected = (old \<noteq> None), cr_reused = False\<rparr>, db'))))"
  by (simp add: establish_def release_old_def)

lemma new_session_fields:
  assumes "new_session su env d apid a key db = (token, s)"
  shows "ss_id s = next_key db" "ss_tenant s = cd_tenant d" "ss_device s = cd_id d" "ss_ap s = apid" "ss_address s = pa_id a"
    "ss_generation s = next_generation (cd_id d) db" "active s" "ss_ip s = pa_ip a" "ss_hash s = cs_hash su token" "ss_key s = key" "ss_closed_at s = None"
  using assms by (auto simp: new_session_def Let_def active_def)

lemma inserted_inv:
  assumes inv: "cloud_inv {} db" and d: "d \<in> set (devices db)" "\<not> cd_revoked d" and x: "x \<in> set (aps db)" and old: "old = active_session (cd_id d) db"
    and alloc: "allocate_address (cx_pool x) locked db = Inr (a, db1)" and db2: "db2 = release_old now old db1"
    and ns: "new_session su env d (cx_id x) a key db2 = (token, s)"
    and cap: "int (length (other_sessions (cx_id x) (cd_id d) db)) < cx_capacity x"
  shows "cloud_inv {} (db2\<lparr>sessions := sessions db2 @ [s], next_key := next_key db2 + 1\<rparr>)"
proof -
  from establish_steps[OF inv alloc old db2] have e: "cloud_inv {pa_id a} db2" "active_rows db2 = filter (\<lambda>t. ss_device t \<noteq> cd_id d) (active_rows db)"
    "devices db2 = devices db" "aps db2 = aps db" "allocate_row a \<in> set (addresses db2)" "allocatable (cx_pool x) locked a" by blast+
  note f = new_session_fields[OF ns]
  have inv2: "cloud_inv {pa_id (allocate_row a)} db2" using e(1) by (simp add: allocate_row_def)
  have len: "filter (\<lambda>t. ss_ap t = cx_id x) (active_rows db2) = other_sessions (cx_id x) (cd_id d) db" by (simp add: e(2) others_eq)
  show ?thesis
  proof (rule insert_inv[OF inv2 f(1) f(7) _ _ f(4) _ e(5)])
    show "ss_generation s = next_generation (ss_device s) db2" by (simp add: f)
    show "pa_kind (allocate_row a) = Usable" "\<not> pa_reserved (allocate_row a)" "cx_pool x = pa_pool (allocate_row a)"
      using e(6) by (simp_all add: allocatable_def allocate_row_def)
    show "\<forall>t \<in> set (active_rows db2). ss_device t \<noteq> ss_device s" by (simp add: e(2) f)
  qed (use d x cap in \<open>simp_all add: f e(3,4) len allocate_row_def\<close>)
qed

lemma connect_cases:
  assumes "connect su env did apid key db = Inr (res, db')"
  shows "\<exists>d x. row_by cd_id did (devices db) = Some d \<and> \<not> cd_revoked d \<and> row_by cx_id apid (aps db) = Some x \<and> cx_tenant x = cd_tenant d \<and>
    (cr_reused res \<and> db' = db \<or> establish su env d x key (active_session did db) db = Inr (res, db'))"
proof (cases "active_session did db")
  case None
  with assms show ?thesis by (auto simp: connect_def find_device_def bindR_Inr_iff split: if_splits)
next
  case (Some s)
  with assms show ?thesis by (auto simp: connect_def find_device_def bindR_Inr_iff split: if_splits)
qed

lemma connect_inv:
  assumes inv: "cloud_inv {} db" and r: "connect su env did apid key db = Inr (res, db')"
  shows "cloud_inv {} db'"
proof -
  from connect_cases[OF r] obtain d x where k: "row_by cd_id did (devices db) = Some d" "\<not> cd_revoked d" "row_by cx_id apid (aps db) = Some x"
    "cr_reused res \<and> db' = db \<or> establish su env d x key (active_session did db) db = Inr (res, db')" by blast
  have d: "d \<in> set (devices db)" "cd_id d = did" "x \<in> set (aps db)" using row_by_SomeD[OF k(1)] row_by_SomeD[OF k(3)] by simp_all
  from k(4) show ?thesis
  proof
    assume e: "establish su env d x key (active_session did db) db = Inr (res, db')"
    then obtain a db1 where al: "allocate_address (cx_pool x) (ce_locked env) db = Inr (a, db1)"
      and cap: "int (length (other_sessions (cx_id x) (cd_id d) db)) < cx_capacity x" by (auto simp: establish_eq bindR_Inr_iff split: if_splits)
    let ?db2 = "release_old (ce_now env) (active_session did db) db1"
    obtain token s where ns: "new_session su env d (cx_id x) a key ?db2 = (token, s)" by (rule prod.exhaust)
    have "db' = ?db2\<lparr>sessions := sessions ?db2 @ [s], next_key := next_key ?db2 + 1\<rparr>"
      using e al ns cap by (simp add: establish_eq bindR_Inr_iff Let_def)
    then show ?thesis using inserted_inv[OF inv d(1) k(2) d(3) _ al refl ns cap] d(2) by simp
  qed (use inv in simp)
qed

section \<open>The other operations\<close>

lemma beat_set:
  assumes "s \<in> set (upd_by ss_id sid (beat_row now) rows)"
  shows "\<exists>s0 \<in> set rows. s = s0 \<or> s = beat_row now s0"
  using set_upd_byD[OF assms] by blast

lemma beat_fields [simp]:
  "ss_id (beat_row now s) = ss_id s" "ss_device (beat_row now s) = ss_device s" "ss_ap (beat_row now s) = ss_ap s"
  "ss_address (beat_row now s) = ss_address s" "ss_generation (beat_row now s) = ss_generation s" "ss_ip (beat_row now s) = ss_ip s"
  "active (beat_row now s) = active s"
  by (simp_all add: beat_row_def active_def)

lemma beat_inv:
  assumes inv: "cloud_inv X db"
  shows "cloud_inv X (db\<lparr>sessions := upd_by ss_id sid (beat_row now) (sessions db)\<rparr>)" (is "cloud_inv X ?db")
proof -
  note i = cloud_invD[OF inv]
  have fm: "filter P (upd_by ss_id sid (beat_row now) rows) = upd_by ss_id sid (beat_row now) (filter P rows)"
    if "\<And>s. P (beat_row now s) = P s" for P rows using that by (induction rows) auto
  have act: "active_rows ?db = upd_by ss_id sid (beat_row now) (active_rows db)" unfolding active_rows_def by (simp add: fm)
  have col: "map ss_address (active_rows ?db) = map ss_address (active_rows db)" "map ss_device (active_rows ?db) = map ss_device (active_rows db)"
    "map ss_id (sessions ?db) = map ss_id (sessions db)" unfolding act by (simp_all add: session_beat.upd_other_column)
  have h: "holds ?db s a = holds db s a" "holds db (beat_row now s) a = holds db s a" for s a by (simp_all add: holds_def)
  have "leases_ok X ?db" unfolding leases_ok_def col
  proof (intro conjI ballI impI)
    fix s assume "s \<in> set (active_rows ?db)"
    then obtain s0 where s0: "s0 \<in> set (active_rows db)" "s = s0 \<or> s = beat_row now s0" unfolding act using beat_set by blast
    then have "ss_address s0 \<notin> X" "\<exists>a \<in> set (addresses db). holds db s0 a" using i(2) by (simp_all add: leases_ok_def)
    then show "ss_address s \<notin> X" "\<exists>a \<in> set (addresses ?db). holds ?db s a" using s0(2) by (auto simp: h)
  next
    show "distinct (map ss_address (active_rows db))" using i(2) by (simp add: leases_ok_def)
  next
    fix a assume "a \<in> set (addresses ?db)" "pa_status a = Allocated"
    moreover have "ss_address ` set (active_rows ?db) = ss_address ` set (active_rows db)" using arg_cong[OF col(1), of set] by simp
    ultimately show "pa_id a \<in> X \<or> pa_id a \<in> ss_address ` set (active_rows ?db)" using i(2) by (simp add: leases_ok_def)
  qed
  moreover have "keys_ok ?db" unfolding keys_ok_def col
  proof (intro conjI)
    show "\<forall>s \<in> set (sessions ?db). ss_id s < next_key ?db" "\<forall>s \<in> set (sessions ?db). ss_ap s \<in> cx_id ` set (aps ?db)"
      using i(1) by (auto simp: keys_ok_def dest!: beat_set)
  qed (use i(1) in \<open>simp_all add: keys_ok_def\<close>)
  moreover have "ends_ok ?db" using i(3) by (auto simp: ends_ok_def dest!: beat_set)
  moreover have "owners_ok ?db" unfolding owners_ok_def col
  proof (intro conjI ballI)
    fix s assume "s \<in> set (active_rows ?db)"
    then obtain s0 where s0: "s0 \<in> set (active_rows db)" "s = s0 \<or> s = beat_row now s0" unfolding act using beat_set by blast
    then show "\<exists>d \<in> set (devices ?db). cd_id d = ss_device s \<and> \<not> cd_revoked d" using i(4) unfolding owners_ok_def by auto
  qed (use i(4) in \<open>simp add: owners_ok_def\<close>)
  moreover have "gens_ok ?db" using i(5) by (simp add: gens_ok_def fm session_beat.upd_other_column del: upt_Suc)
  moreover have "caps_ok ?db" using i(6) unfolding caps_ok_def act by (simp add: fm)
  ultimately show ?thesis by (simp add: cloud_inv_def)
qed

lemma own_generationD:
  assumes "own_generation su did sid gen token db = Inr s"
  shows "row_by ss_id sid (sessions db) = Some s" "s \<in> set (sessions db)" "ss_id s = sid" "ss_device s = did" "ss_generation s = gen"
    "ss_hash s = cs_hash su token"
  using assms by (auto simp: own_generation_def session_of_def find_device_def bindR_Inr_iff split: option.splits if_splits dest: row_by_SomeD)

lemma heartbeat_inv: "cloud_inv {} db \<Longrightarrow> heartbeat su now did sid gen token db = Inr (s, db') \<Longrightarrow> cloud_inv {} db'"
  by (auto simp: heartbeat_def bindR_Inr_iff intro: beat_inv split: if_splits)

lemma close_inv:
  assumes inv: "cloud_inv {} db" and r: "close_session su now did sid gen token db = Inr (s', db')"
  shows "cloud_inv {} db'"
proof -
  from r obtain s where s: "own_generation su did sid gen token db = Inr s" by (auto simp: close_session_def bindR_Inr_iff)
  have d: "db' = (if active s then snd (release_once now s ClientClose (Some ''closed by device'') db) else db)"
    using r s by (cases "release_once now s ClientClose (Some ''closed by device'') db") (auto simp: close_session_def bindR_Inr_iff Let_def split: if_splits)
  show ?thesis
  proof (cases "active s")
    case True
    with own_generationD(2)[OF s] have "s \<in> set (active_rows db)" by (simp add: in_active_rows)
    from release_inv[OF inv this, of now ClientClose "Some ''closed by device''"] show ?thesis using True d
      by (cases "release_once now s ClientClose (Some ''closed by device'') db") auto
  qed (use inv d in simp)
qed

text \<open>A change of a device that leaves its sessions an owner.\<close>

lemma device_inv:
  assumes inv: "cloud_inv X db" and k: "\<And>d. cd_id (f d) = cd_id d"
    and rev: "\<And>d s. d \<in> set (devices db) \<Longrightarrow> cd_id d = did \<Longrightarrow> \<not> cd_revoked d \<Longrightarrow> s \<in> set (active_rows db) \<Longrightarrow> ss_device s = did \<Longrightarrow> \<not> cd_revoked (f d)"
  shows "cloud_inv X (db\<lparr>devices := upd_by cd_id did f (devices db)\<rparr>)" (is "cloud_inv X ?db")
proof -
  note i = cloud_invD[OF inv]
  have act: "active_rows ?db = active_rows db" by (simp add: active_rows_def)
  have keys: "map cd_id (upd_by cd_id did f rows) = map cd_id rows" for rows by (induction rows) (auto simp: k)
  have "keys_ok ?db" unfolding keys_ok_def
  proof (intro conjI)
    show "\<forall>d \<in> set (devices ?db). cd_id d < next_key ?db" using i(1) k by (auto simp: keys_ok_def dest!: set_upd_byD)
  qed (use i(1) in \<open>simp_all add: keys_ok_def keys\<close>)
  moreover have "owners_ok ?db" unfolding owners_ok_def act
  proof (intro conjI ballI)
    fix s assume s: "s \<in> set (active_rows db)"
    with i(4) obtain d where d: "d \<in> set (devices db)" "cd_id d = ss_device s" "\<not> cd_revoked d" unfolding owners_ok_def by blast
    show "\<exists>d \<in> set (devices ?db). cd_id d = ss_device s \<and> \<not> cd_revoked d"
    proof (cases "ss_device s = did")
      case True
      then have "f d \<in> set (upd_by cd_id did f (devices db))" using d by (intro upd_by_changes) simp_all
      then show ?thesis using True d k rev[OF d(1) _ d(3) s True] by (intro bexI[of _ "f d"]) simp_all
    next
      case False
      then have "d \<in> set (upd_by cd_id did f (devices db))" using d by (intro upd_by_keeps) simp_all
      then show ?thesis using d by auto
    qed
  qed (use i(4) in \<open>simp add: owners_ok_def\<close>)
  ultimately show ?thesis using i(2,3,5,6) unfolding cloud_inv_def leases_ok_def holds_def ends_ok_def gens_ok_def caps_ok_def act by simp
qed

lemma revoke_inv:
  assumes inv: "cloud_inv {} db" and r: "revoke_device su now token did db = Inr (b, db')"
  shows "cloud_inv {} db' \<and> (\<forall>t \<in> set (active_rows db'). ss_device t \<noteq> did)"
proof -
  let ?db1 = "case active_session did db of None \<Rightarrow> db | Some s \<Rightarrow> snd (release_once now s DeviceRevoked (Some ''device revoked by admin'') db)"
  have one: "cloud_inv {} ?db1 \<and> (\<forall>t \<in> set (active_rows ?db1). ss_device t \<noteq> did)"
  proof (cases "active_session did db")
    case None
    with inv active_session_None show ?thesis by auto
  next
    case (Some s)
    from active_session_Some[OF this] have s: "s \<in> set (active_rows db)" "ss_device s = did" by simp_all
    obtain q db1 where q: "release_once now s DeviceRevoked (Some ''device revoked by admin'') db = (q, db1)" by (rule prod.exhaust)
    have "ss_device t \<noteq> did" if "t \<in> set (active_rows db1)" for t
      using that released_rows[OF inv s(1) q] s cloud_invD(4)[OF inv] distinct_key[of ss_device "active_rows db" t s] by (auto simp: owners_ok_def)
    with release_inv[OF inv s(1) q] Some q show ?thesis by auto
  qed
  from r have "db' = ?db1 \<or> db' = ?db1\<lparr>devices := upd_by cd_id did (revoke_row (cs_hash su token)) (devices ?db1)\<rparr>"
    by (auto simp: revoke_device_def Let_def bindR_Inr_iff split: if_splits)
  then show ?thesis
  proof
    assume d: "db' = ?db1\<lparr>devices := upd_by cd_id did (revoke_row (cs_hash su token)) (devices ?db1)\<rparr>"
    have "cloud_inv {} db'" unfolding d by (rule device_inv) (use one in \<open>auto simp: revoke_row_def\<close>)
    moreover have "active_rows db' = active_rows ?db1" by (simp add: d active_rows_def)
    ultimately show ?thesis using one by simp
  qed (use one in simp)
qed

lemma stale_rows: "filter (stale cutoff locked) (sessions db) = filter (stale cutoff locked) (active_rows db)"
  unfolding active_rows_def filter_filter by (rule filter_cong) (auto simp: stale_def)

text \<open>New pools, access points and devices.\<close>

lemma grow_caps:
  assumes keys: "keys_ok db" and caps: "caps_ok db" and same: "sessions db' = sessions db" and add: "aps db' = aps db @ xs"
    and xs: "\<forall>x \<in> set xs. next_key db \<le> cx_id x \<and> 0 \<le> cx_capacity x"
  shows "caps_ok db'"
proof -
  have act: "active_rows db' = active_rows db" by (simp add: active_rows_def same)
  show ?thesis unfolding caps_ok_def act add
  proof
    fix x assume "x \<in> set (aps db @ xs)"
    then consider "x \<in> set (aps db)" | "x \<in> set xs" by auto
    then show "int (length (filter (\<lambda>s. ss_ap s = cx_id x) (active_rows db))) \<le> cx_capacity x"
    proof cases
      case 1
      then show ?thesis using caps by (simp add: caps_ok_def)
    next
      case 2
      have "ss_ap s \<noteq> cx_id x" if "s \<in> set (active_rows db)" for s
      proof -
        from that keys have "ss_ap s \<in> cx_id ` set (aps db)" by (simp add: keys_ok_def in_active_rows)
        then have "ss_ap s < next_key db" using keys by (auto simp: keys_ok_def)
        then show ?thesis using 2 xs by force
      qed
      then have "filter (\<lambda>s. ss_ap s = cx_id x) (active_rows db) = []" by (simp add: filter_empty_conv)
      then show ?thesis using 2 xs by simp
    qed
  qed
qed

lemma grow_inv:
  assumes inv: "cloud_inv {} db" and same: "sessions db' = sessions db" "terminations db' = terminations db"
    and add: "addresses db' = addresses db @ as" "aps db' = aps db @ xs" "devices db' = devices db @ ds" and n: "next_key db \<le> next_key db'"
    and as: "distinct (map pa_id as)" "\<forall>a \<in> set as. next_key db \<le> pa_id a \<and> pa_id a < next_key db' \<and> pa_status a = Free"
    and xs: "distinct (map cx_id xs)" "\<forall>x \<in> set xs. next_key db \<le> cx_id x \<and> cx_id x < next_key db' \<and> 0 \<le> cx_capacity x"
    and ds: "distinct (map cd_id ds)" "\<forall>d \<in> set ds. next_key db \<le> cd_id d \<and> cd_id d < next_key db'"
  shows "cloud_inv {} db'"
proof -
  note i = cloud_invD[OF inv]
  have act: "active_rows db' = active_rows db" by (simp add: active_rows_def same)
  have "keys_ok db'" unfolding keys_ok_def same add
  proof (intro conjI)
    show "distinct (map pa_id (addresses db @ as))" using i(1) as by (fastforce simp: keys_ok_def)
    show "distinct (map cd_id (devices db @ ds))" using i(1) ds by (fastforce simp: keys_ok_def)
    show "distinct (map cx_id (aps db @ xs))" using i(1) xs by (fastforce simp: keys_ok_def)
    show "\<forall>a \<in> set (addresses db @ as). pa_id a < next_key db'" using i(1) as n by (fastforce simp: keys_ok_def)
    show "\<forall>s \<in> set (sessions db). ss_id s < next_key db'" using i(1) n by (fastforce simp: keys_ok_def)
    show "\<forall>d \<in> set (devices db @ ds). cd_id d < next_key db'" using i(1) ds n by (fastforce simp: keys_ok_def)
    show "\<forall>x \<in> set (aps db @ xs). cx_id x < next_key db'" using i(1) xs n by (fastforce simp: keys_ok_def)
    show "\<forall>t \<in> set (terminations db). lt_session t < next_key db'" using i(1) n by (fastforce simp: keys_ok_def)
  qed (use i(1) in \<open>auto simp: keys_ok_def\<close>)
  moreover have "leases_ok {} db'" unfolding leases_ok_def act
  proof (intro conjI ballI impI)
    fix s assume "s \<in> set (active_rows db)"
    with i(2) obtain a where "a \<in> set (addresses db)" "holds db s a" unfolding leases_ok_def by blast
    moreover from this have "holds db' s a" unfolding holds_def add by auto
    ultimately show "\<exists>a \<in> set (addresses db'). holds db' s a" by (auto simp: add)
  next
    show "distinct (map ss_address (active_rows db))" using i(2) by (simp add: leases_ok_def)
  next
    fix a assume "a \<in> set (addresses db')" "pa_status a = Allocated"
    then have "a \<in> set (addresses db)" using as(2) by (auto simp: add)
    with i(2) \<open>pa_status a = Allocated\<close> show "pa_id a \<in> {} \<or> pa_id a \<in> ss_address ` set (active_rows db)" by (simp add: leases_ok_def)
  qed simp
  moreover have "ends_ok db'" "gens_ok db'" using i(3,5) by (simp_all add: ends_ok_def gens_ok_def same)
  moreover have "owners_ok db'" using i(4) unfolding owners_ok_def act add by fastforce
  moreover have "caps_ok db'" by (rule grow_caps[OF i(1,6) same(1) add(2)]) (use xs in auto)
  ultimately show ?thesis by (simp add: cloud_inv_def)
qed

lemma pool_rows_ids: "map pa_id (pool_rows n pid rows) = map (\<lambda>i. n + int i) [0..<length rows]"
proof -
  have "map pa_id (pool_rows n pid rows) = map (\<lambda>i. n + int i) (map fst (enumerate 0 rows))"
    unfolding pool_rows_def map_map by (rule map_cong) auto
  then show ?thesis by simp
qed

lemma pool_rows_free: "a \<in> set (pool_rows n pid rows) \<Longrightarrow> pa_status a = Free \<and> n \<le> pa_id a \<and> pa_id a < n + int (length rows)"
  by (auto simp: pool_rows_def in_set_enumerate_eq)

lemma create_pool_inv:
  assumes inv: "cloud_inv {} db" and r: "create_pool tid name cidr reserved db = Inr (p, db')"
  shows "cloud_inv {} db'"
proof -
  from r obtain rows where db': "db' = db\<lparr>pools := pools db @ [p], addresses := addresses db @ pool_rows (next_key db + 1) (pl_id p) rows,
      next_key := next_key db + 1 + int (length rows)\<rparr>"
    by (auto simp: create_pool_def bindR_Inr_iff Let_def split: if_splits)
  have "distinct (map pa_id (pool_rows (next_key db + 1) (pl_id p) rows))" unfolding pool_rows_ids by (simp add: distinct_map inj_on_def)
  moreover have "\<forall>a \<in> set (pool_rows (next_key db + 1) (pl_id p) rows). next_key db \<le> pa_id a \<and> pa_id a < next_key db' \<and> pa_status a = Free"
    using pool_rows_free[of _ "next_key db + 1" "pl_id p" rows] by (fastforce simp: db')
  ultimately show ?thesis by (intro grow_inv[OF inv, where as = "pool_rows (next_key db + 1) (pl_id p) rows" and xs = "[]" and ds = "[]"]) (simp_all add: db')
qed

lemma create_access_point_inv:
  assumes inv: "cloud_inv {} db" and r: "create_access_point tid name pid capacity db = Inr (x, db')"
  shows "cloud_inv {} db'"
proof -
  from r have db': "db' = db\<lparr>aps := aps db @ [x], next_key := next_key db + 1\<rparr>" "cx_id x = next_key db" "cloud_unique db'"
    by (auto simp: create_access_point_def bindR_Inr_iff Let_def split: if_splits option.splits)
  then have "0 \<le> cx_capacity x" by (simp add: cloud_unique_def)
  then show ?thesis by (intro grow_inv[OF inv, where as = "[]" and xs = "[x]" and ds = "[]"]) (simp_all add: db'(1,2))
qed

lemma device_enroll_inv:
  assumes inv: "cloud_inv {} db" and r: "enroll_device su tid name token db = Inr (d, db')"
  shows "cloud_inv {} db'"
proof -
  from r have db': "db' = db\<lparr>devices := devices db @ [d], next_key := next_key db + 1\<rparr>" "cd_id d = next_key db"
    by (auto simp: enroll_device_def bindR_Inr_iff Let_def split: if_splits)
  then show ?thesis by (intro grow_inv[OF inv, where as = "[]" and xs = "[]" and ds = "[d]"]) simp_all
qed

lemma create_tenant_inv: "cloud_inv {} db \<Longrightarrow> create_tenant name db = Inr (t, db') \<Longrightarrow> cloud_inv {} db'"
  by (erule grow_inv[where as = "[]" and xs = "[]" and ds = "[]"]) (auto simp: create_tenant_def bindR_Inr_iff Let_def split: if_splits)

lemma reissue_inv: "cloud_inv {} db \<Longrightarrow> reissue_device_token su token did db = Inr (b, db') \<Longrightarrow> cloud_inv {} db'"
  by (auto simp: reissue_device_token_def bindR_Inr_iff token_row_def intro!: device_inv split: if_splits)

lemma reinstate_inv: "cloud_inv {} db \<Longrightarrow> reinstate_device su token did db = Inr (b, db') \<Longrightarrow> cloud_inv {} db'"
  by (auto simp: reinstate_device_def bindR_Inr_iff reinstate_row_def intro!: device_inv split: if_splits)

section \<open>Requests\<close>

lemma only_dbD: "only_db r = Inr db' \<Longrightarrow> \<exists>x. r = Inr (x, db')"
  by (auto simp: only_db_def bindR_Inr_iff)

lemma with_tenantD: "with_tenant ad tid ok f db = Inr x \<Longrightarrow> \<exists>t. f t db = Inr x"
  by (auto simp: with_tenant_def bindR_Inr_iff)

lemma with_ownedD: "with_owned ad tid did f db = Inr x \<Longrightarrow> \<exists>d. f d db = Inr x"
  by (auto simp: with_owned_def bindR_Inr_iff dest!: with_tenantD)

text \<open>The operation that a request runs.\<close>

datatype cloud_done =
    DoTenant string | DoPool int string string "string list" | DoAp int string int int | DoEnroll int string string
  | DoRevoke int int string | DoReissue int string | DoReinstate int string
  | DoConnect connect_env int int "string option" | DoBeat int int int int string | DoClose int int int int string | DoSweep int int "int list"

definition run_done :: "cloud_setup \<Rightarrow> cloud_done \<Rightarrow> cloud \<Rightarrow> cloud_error + cloud" where
  "run_done su q db =
     (case q of
        DoTenant name \<Rightarrow> only_db (create_tenant name db)
      | DoPool t name cidr reserved \<Rightarrow> only_db (create_pool t name cidr reserved db)
      | DoAp t name pid c \<Rightarrow> only_db (create_access_point t name pid c db)
      | DoEnroll t name token \<Rightarrow> only_db (enroll_device su t name token db)
      | DoRevoke did now token \<Rightarrow> only_db (revoke_device su now token did db)
      | DoReissue did token \<Rightarrow> only_db (reissue_device_token su token did db)
      | DoReinstate did token \<Rightarrow> only_db (reinstate_device su token did db)
      | DoConnect env did apid key \<Rightarrow> only_db (connect su env did apid key db)
      | DoBeat now did sid gen token \<Rightarrow> only_db (heartbeat su now did sid gen token db)
      | DoClose now did sid gen token \<Rightarrow> only_db (close_session su now did sid gen token db)
      | DoSweep now timeout locked \<Rightarrow> only_db (sweep_expired_sessions now timeout locked db))"

lemma only_dbI: "r = Inr (x, db') \<Longrightarrow> only_db r = Inr db'"
  by (simp add: only_db_def)

lemma request_done:
  assumes r: "cloud_request su op db = Inr db'"
  shows "\<exists>q. run_done su q db = Inr db'"
proof (cases op)
  case (CreateTenant ad name)
  with r have "run_done su (DoTenant name) db = Inr db'"
    by (auto simp: cloud_request_def post_tenant_def run_done_def bindR_Inr_iff dest!: only_dbD intro: only_dbI)
  then show ?thesis by blast
next
  case (CreatePool ad tid name cidr reserved)
  with r obtain t p where "create_pool t name cidr reserved db = Inr (p, db')"
    by (auto simp: cloud_request_def post_pool_def bindR_Inr_iff dest!: only_dbD with_tenantD)
  then have "run_done su (DoPool t name cidr reserved) db = Inr db'" by (simp add: run_done_def only_dbI)
  then show ?thesis by blast
next
  case (CreateAp ad tid name pid c)
  with r obtain t x where "create_access_point t name pid c db = Inr (x, db')"
    by (auto simp: cloud_request_def post_access_point_def bindR_Inr_iff dest!: only_dbD with_tenantD)
  then have "run_done su (DoAp t name pid c) db = Inr db'" by (simp add: run_done_def only_dbI)
  then show ?thesis by blast
next
  case (Enroll ad tid name token)
  with r obtain t where "run_done su (DoEnroll t name token) db = Inr db'"
    by (auto simp: cloud_request_def post_device_def run_done_def dest!: only_dbD with_tenantD intro: only_dbI)
  then show ?thesis by blast
next
  case (Revoke ad tid did now token)
  with r obtain d where "run_done su (DoRevoke d now token) db = Inr db'"
    by (auto simp: cloud_request_def post_revoke_def run_done_def dest!: only_dbD with_ownedD intro: only_dbI)
  then show ?thesis by blast
next
  case (Reissue ad tid did token)
  with r obtain d where "run_done su (DoReissue d token) db = Inr db'"
    by (auto simp: cloud_request_def post_reissue_def run_done_def dest!: only_dbD with_ownedD intro: only_dbI)
  then show ?thesis by blast
next
  case (Reinstate ad tid did token)
  with r obtain d where "run_done su (DoReinstate d token) db = Inr db'"
    by (auto simp: cloud_request_def post_reinstate_def run_done_def dest!: only_dbD with_ownedD intro: only_dbI)
  then show ?thesis by blast
next
  case (Connect env token apid key)
  with r obtain x where "post_connect su env token apid key db = Inr (x, db')" by (auto simp: cloud_request_def dest!: only_dbD)
  then obtain d :: cloud_device where "connect su env (cd_id d) apid (blank_to_none key) db = Inr (x, db')"
    unfolding post_connect_def bindR_Inr_iff by blast
  then have "run_done su (DoConnect env (cd_id d) apid (blank_to_none key)) db = Inr db'" by (simp add: run_done_def only_dbI)
  then show ?thesis by blast
next
  case (Heartbeat now token lease sid gen)
  with r obtain x where "post_heartbeat su now token lease sid gen db = Inr (x, db')" by (auto simp: cloud_request_def dest!: only_dbD)
  then obtain d :: cloud_device and l where "heartbeat su now (cd_id d) sid gen l db = Inr (x, db')"
    unfolding post_heartbeat_def bindR_Inr_iff by blast
  then have "run_done su (DoBeat now (cd_id d) sid gen l) db = Inr db'" by (simp add: run_done_def only_dbI)
  then show ?thesis by blast
next
  case (CloseLease now token lease sid gen)
  with r obtain x where "post_close su now token lease sid gen db = Inr (x, db')" by (auto simp: cloud_request_def dest!: only_dbD)
  then obtain d :: cloud_device and l where "close_session su now (cd_id d) sid gen l db = Inr (x, db')"
    unfolding post_close_def bindR_Inr_iff by blast
  then have "run_done su (DoClose now (cd_id d) sid gen l) db = Inr db'" by (simp add: run_done_def only_dbI)
  then show ?thesis by blast
next
  case (Sweep now timeout locked)
  with r have "run_done su (DoSweep now timeout locked) db = Inr db'" by (simp add: cloud_request_def run_done_def)
  then show ?thesis by blast
qed

lemma connect_unique:
  assumes u: "cloud_unique db" and c: "connect su env did apid key db = Inr (res, db')"
  shows "cloud_unique db'"
proof -
  from connect_cases[OF c] obtain d x where k: "cr_reused res \<and> db' = db \<or> establish su env d x key (active_session did db) db = Inr (res, db')" by blast
  have "cloud_unique db'" if e: "establish su env d x key (active_session did db) db = Inr (res, db')"
  proof -
    from e obtain a db1 where al: "allocate_address (cx_pool x) (ce_locked env) db = Inr (a, db1)"
      and cap: "int (length (other_sessions (cx_id x) (cd_id d) db)) < cx_capacity x" by (auto simp: establish_eq bindR_Inr_iff split: if_splits)
    obtain token s where ns: "new_session su env d (cx_id x) a key (release_old (ce_now env) (active_session did db) db1) = (token, s)" by (rule prod.exhaust)
    show ?thesis using e al ns cap by (auto simp: establish_eq bindR_Inr_iff Let_def)
  qed
  with k u show ?thesis by blast
qed

end
