(* ===== verification/Cloud_History.thy ===== *)
theory Cloud_History
  imports Cloud_Run
begin

text \<open>
  What the requests of the cloud gateway never take back: sessions keep their identity, closed sessions
  do not change, terminations are only added. Releasing a lease violates no constraint.
\<close>

section \<open>Constraints of a release\<close>

lemma distinct_upd_filter:
  assumes "distinct (map g (filter P rows))" "\<And>r. P (f r) \<Longrightarrow> P r" "\<And>r. g (f r) = g r"
  shows "distinct (map g (filter P (upd_by key k f rows)))"
proof -
  have sub: "set (map g (filter P (upd_by key k f rows))) \<subseteq> set (map g (filter P rows))" for rows
    using assms(2,3) by (induction rows) (auto split: if_splits)
  show ?thesis using assms(1)
  proof (induction rows)
    case (Cons r rows)
    then show ?case using assms(2,3) sub[of rows] by (auto split: if_splits)
  qed simp
qed

lemma list_all_upd: "list_all P rows \<Longrightarrow> (\<And>r. P r \<Longrightarrow> P (f r)) \<Longrightarrow> list_all P (upd_by key k f rows)"
  by (induction rows) auto

lemma release_unique:
  assumes inv: "cloud_inv X db" and s: "s \<in> set (active_rows db)" and u: "cloud_unique db" and r: "release_once now s reason detail db = (r, db')"
  shows "cloud_unique db'"
proof -
  have db': "db' = db\<lparr>terminations := terminations db @ [\<lparr>lt_session = ss_id s, lt_reason = reason, lt_at = now, lt_detail = detail\<rparr>],
     sessions := upd_by ss_id (ss_id s) (close_row now) (sessions db), addresses := upd_by pa_id (ss_address s) free_row (addresses db)\<rparr>"
    using r release_active[OF inv s, of now reason detail] by simp
  have "distinct (map (\<lambda>a. (pa_pool a, pa_ip a)) (upd_by pa_id k free_row rows))" if "distinct (map (\<lambda>a. (pa_pool a, pa_ip a)) rows)" for k rows
    using that by (simp add: address_free.upd_other_column free_row_def)
  moreover have "distinct (map ss_device (filter active (upd_by ss_id (ss_id s) (close_row now) (sessions db))))"
    using u by (intro distinct_upd_filter) (simp_all add: cloud_unique_def, simp add: close_row_def)
  moreover have "list_all (\<lambda>s. ss_generation s \<ge> 1) (upd_by ss_id (ss_id s) (close_row now) (sessions db))"
    using u by (intro list_all_upd) (simp_all add: cloud_unique_def close_row_def)
  moreover have "ss_id s \<notin> lt_session ` set (terminations db)" using cloud_invD(3)[OF inv] s unfolding ends_ok_def in_active_rows by blast
  ultimately show ?thesis using u by (simp add: cloud_unique_def db')
qed

section \<open>The order\<close>

definition lease_identity :: "cloud_session \<Rightarrow> int \<times> int \<times> int \<times> int \<times> int \<times> ipv4 \<times> string \<times> string option" where
  "lease_identity s = (ss_id s, ss_device s, ss_ap s, ss_address s, ss_generation s, ss_ip s, ss_hash s, ss_key s)"

definition cloud_le :: "cloud \<Rightarrow> cloud \<Rightarrow> bool" where
  "cloud_le db db' \<longleftrightarrow> (\<exists>ts. terminations db' = terminations db @ ts) \<and>
     (\<exists>is. map lease_identity (sessions db') = map lease_identity (sessions db) @ is) \<and>
     {s \<in> set (sessions db). \<not> active s} \<subseteq> set (sessions db')"

lemma cloud_le_refl: "cloud_le db db"
  by (auto simp: cloud_le_def)

lemma cloud_le_same: "sessions db' = sessions db \<Longrightarrow> terminations db' = terminations db \<Longrightarrow> cloud_le db db'"
  by (auto simp: cloud_le_def)

lemma cloud_le_trans: "cloud_le a b \<Longrightarrow> cloud_le b c \<Longrightarrow> cloud_le a c"
  unfolding cloud_le_def by fastforce

lemma cloud_le_insert: "sessions db' = sessions db @ ss \<Longrightarrow> terminations db' = terminations db \<Longrightarrow> cloud_le db db'"
  by (auto simp: cloud_le_def)

lemma identity_kept [simp]: "lease_identity (close_row now s) = lease_identity s" "lease_identity (beat_row now s) = lease_identity s"
  by (simp_all add: lease_identity_def close_row_def beat_row_def)

lemma closed_kept:
  assumes "keys_ok db" "s \<in> set (active_rows db)" "t \<in> set (sessions db)" "\<not> active t"
  shows "t \<in> set (upd_by ss_id (ss_id s) f (sessions db))"
  using assms distinct_key[of ss_id "sessions db" t s] by (intro upd_by_keeps) (auto simp: keys_ok_def in_active_rows)

lemma release_le:
  assumes inv: "cloud_inv X db" and s: "s \<in> set (active_rows db)" and r: "release_once now s reason detail db = (r, db')"
  shows "cloud_le db db'"
  using r release_active[OF inv s, of now reason detail] closed_kept[OF cloud_invD(1)[OF inv] s]
  by (auto simp: cloud_le_def session_close.upd_other_column)

lemma release_old_le:
  assumes "cloud_inv X db" "old = active_session did db"
  shows "cloud_le db (release_old now old db)"
proof (cases old)
  case (Some s)
  then have "s \<in> set (active_rows db)" using active_session_Some assms(2) by auto
  from release_le[OF assms(1) this] Some show ?thesis by (simp add: release_old_def) (metis prod.collapse)
qed (simp add: release_old_def cloud_le_refl)

section \<open>Every request\<close>

lemma connect_le:
  assumes inv: "cloud_inv {} db" and c: "connect su env did apid key db = Inr (res, db')"
  shows "cloud_le db db'"
proof -
  from connect_cases[OF c] obtain d x where k: "cr_reused res \<and> db' = db \<or> establish su env d x key (active_session did db) db = Inr (res, db')" by blast
  have "cloud_le db db'" if e: "establish su env d x key (active_session did db) db = Inr (res, db')"
  proof -
    from e obtain a db1 where al: "allocate_address (cx_pool x) (ce_locked env) db = Inr (a, db1)"
      and cap: "int (length (other_sessions (cx_id x) (cd_id d) db)) < cx_capacity x" by (auto simp: establish_eq bindR_Inr_iff split: if_splits)
    let ?db2 = "release_old (ce_now env) (active_session did db) db1"
    obtain token s where ns: "new_session su env d (cx_id x) a key ?db2 = (token, s)" by (rule prod.exhaust)
    from allocate_parts[OF al] have a: "a \<in> set (addresses db)" "pa_status a = Free"
      and db1: "db1 = db\<lparr>addresses := upd_by pa_id (pa_id a) allocate_row (addresses db)\<rparr>" by (simp_all add: allocatable_def)
    have "cloud_le db db1" by (rule cloud_le_same) (simp_all add: db1)
    moreover have "cloud_le db1 ?db2" by (rule release_old_le[OF allocate_inv[OF inv a db1]]) (simp add: active_session_def db1)
    moreover have "cloud_le ?db2 db'" by (rule cloud_le_insert[of _ _ "[s]"]) (use e al ns cap in \<open>auto simp: establish_eq bindR_Inr_iff Let_def\<close>)
    ultimately show ?thesis by (blast intro: cloud_le_trans)
  qed
  with k show ?thesis using cloud_le_refl by blast
qed

lemma heartbeat_le:
  assumes inv: "cloud_inv {} db" and r: "heartbeat su now did sid gen token db = Inr (s', db')"
  shows "cloud_le db db'"
proof -
  from r obtain s where s: "own_generation su did sid gen token db = Inr s" "active s"
    and db': "db' = db\<lparr>sessions := upd_by ss_id sid (beat_row now) (sessions db)\<rparr>" by (auto simp: heartbeat_def bindR_Inr_iff split: if_splits)
  have "s \<in> set (active_rows db)" "ss_id s = sid" using own_generationD[OF s(1)] s(2) by (simp_all add: in_active_rows)
  with closed_kept[OF cloud_invD(1)[OF inv]] show ?thesis by (auto simp: cloud_le_def db' session_beat.upd_other_column)
qed

lemma lease_close_le:
  assumes inv: "cloud_inv {} db" and r: "close_session su now did sid gen token db = Inr (s', db')"
  shows "cloud_le db db'"
proof -
  from r obtain s where s: "own_generation su did sid gen token db = Inr s"
    and db': "db' = (if active s then snd (release_once now s ClientClose (Some ''closed by device'') db) else db)"
    by (auto simp: close_session_def bindR_Inr_iff Let_def case_prod_unfold)
  show ?thesis
  proof (cases "active s")
    case True
    with own_generationD(2)[OF s] have "s \<in> set (active_rows db)" by (simp add: in_active_rows)
    from release_le[OF inv this] True db' show ?thesis by (metis prod.collapse)
  qed (simp add: db' cloud_le_refl)
qed

lemma revoke_le:
  assumes inv: "cloud_inv {} db" and r: "revoke_device su now token did db = Inr (b, db')"
  shows "cloud_le db db'"
proof -
  let ?db1 = "case active_session did db of None \<Rightarrow> db | Some s \<Rightarrow> snd (release_once now s DeviceRevoked (Some ''device revoked by admin'') db)"
  have "cloud_le db ?db1"
  proof (cases "active_session did db")
    case (Some s)
    then have "s \<in> set (active_rows db)" using active_session_Some by simp
    from release_le[OF inv this] Some show ?thesis by simp (metis prod.collapse)
  qed (simp add: cloud_le_refl)
  moreover from r have "sessions db' = sessions ?db1 \<and> terminations db' = terminations ?db1"
    by (auto simp: revoke_device_def Let_def bindR_Inr_iff split: if_splits)
  then have "cloud_le ?db1 db'" by (simp add: cloud_le_same)
  ultimately show ?thesis by (rule cloud_le_trans)
qed

text \<open>A fold of releases over active sessions.\<close>

lemma sweep_steps:
  assumes "cloud_inv {} db" "cloud_unique db" "distinct (map ss_id ss)" "set ss \<subseteq> set (active_rows db)"
  shows "\<exists>db'. fold (sweep_one now timeout) ss (k, db) = (k + length ss, db') \<and> cloud_inv {} db' \<and> cloud_unique db' \<and> cloud_le db db' \<and>
    active_rows db' = filter (\<lambda>t. ss_id t \<notin> ss_id ` set ss) (active_rows db)"
  using assms
proof (induction ss arbitrary: k db)
  case Nil
  then show ?case by (simp add: cloud_le_refl)
next
  case (Cons s ss)
  let ?d = "Some (''no heartbeat within '' @ dec_text timeout @ ''s'')"
  obtain q db1 where q: "release_once now s HeartbeatTimeout ?d db = (q, db1)" by (rule prod.exhaust)
  have s: "s \<in> set (active_rows db)" using Cons.prems(4) by simp
  have q1: "q = True" using q unfolding release_active[OF Cons.prems(1) s] by simp
  have "ss_id s \<notin> ss_id ` set ss" using Cons.prems(3) by simp
  then have "ss_id t \<noteq> ss_id s" if "t \<in> set ss" for t using that by (metis imageI)
  then have sub: "set ss \<subseteq> set (active_rows db1)" unfolding released_rows[OF Cons.prems(1) s q] using Cons.prems(4) by auto
  have "distinct (map ss_id ss)" using Cons.prems(3) by simp
  from Cons.IH[OF release_inv[OF Cons.prems(1) s q] release_unique[OF Cons.prems(1) s Cons.prems(2) q] this sub, of "k + 1"]
  obtain db' where db': "fold (sweep_one now timeout) ss (k + 1, db1) = (k + 1 + length ss, db')" "cloud_inv {} db'" "cloud_unique db'" "cloud_le db1 db'"
    "active_rows db' = filter (\<lambda>t. ss_id t \<notin> ss_id ` set ss) (active_rows db1)" by blast
  have one: "sweep_one now timeout s (k, db) = (k + 1, db1)" by (simp only: sweep_one_def Let_def prod.case q q1 if_True)
  have "filter (\<lambda>t. ss_id t \<notin> ss_id ` set ss) (active_rows db1) = filter (\<lambda>t. ss_id t \<notin> ss_id ` set (s # ss)) (active_rows db)"
    unfolding released_rows[OF Cons.prems(1) s q] filter_filter by (rule filter_cong) auto
  with db' one cloud_le_trans[OF release_le[OF Cons.prems(1) s q] db'(4)] show ?case by (intro exI[of _ db']) simp
qed

lemma sweep_result:
  assumes inv: "cloud_inv {} db" and u: "cloud_unique db"
  shows "\<exists>db'. sweep_expired_sessions now timeout locked db = Inr (length (filter (stale (now - timeout * 1000000) locked) (sessions db)), db') \<and>
    cloud_inv {} db' \<and> cloud_unique db' \<and> cloud_le db db' \<and>
    active_rows db' = filter (\<lambda>t. \<not> stale (now - timeout * 1000000) locked t) (active_rows db)"
proof -
  let ?P = "stale (now - timeout * 1000000) locked"
  let ?ss = "filter ?P (active_rows db)"
  have k: "keys_ok db" using cloud_invD(1)[OF inv] .
  then have "distinct (map ss_id ?ss)" by (simp add: keys_ok_def active_rows_def distinct_map_filter)
  from sweep_steps[OF inv u this, of now timeout 0] obtain db' where
    f: "fold (sweep_one now timeout) ?ss (0, db) = (length ?ss, db')" and g: "cloud_inv {} db'" "cloud_unique db'" "cloud_le db db'"
      "active_rows db' = filter (\<lambda>t. ss_id t \<notin> ss_id ` set ?ss) (active_rows db)" by auto
  have act: "active_rows db' = filter (\<lambda>t. \<not> ?P t) (active_rows db)" unfolding g(4)
  proof (rule filter_cong)
    fix t assume t: "t \<in> set (active_rows db)"
    show "(ss_id t \<notin> ss_id ` set ?ss) = (\<not> ?P t)" using active_ids[OF k t] t by (auto simp: image_iff)
  qed simp
  show ?thesis
  proof (cases "?ss = []")
    case True
    then have "filter ?P (active_rows db) = []" .
    then have "active_rows db = filter (\<lambda>t. \<not> ?P t) (active_rows db)" by (metis filter_True filter_empty_conv)
    with True inv u cloud_le_refl show ?thesis by (simp add: sweep_expired_sessions_def stale_rows)
  next
    case False
    then have "sweep_expired_sessions now timeout locked db = Inr (length ?ss, db')"
      using f g(2) by (auto simp: sweep_expired_sessions_def stale_rows bindR_Inr_iff simp del: filter_filter)
    with g act show ?thesis unfolding stale_rows by blast
  qed
qed

definition cloud_good :: "cloud \<Rightarrow> bool" where
  "cloud_good db \<longleftrightarrow> cloud_inv {} db \<and> cloud_unique db"

lemma done_unique:
  assumes u: "cloud_unique db" and r: "run_done su q db = Inr db'"
  shows "cloud_unique db'"
proof (cases q)
  case (DoConnect env did apid key)
  with r obtain res where c: "connect su env did apid key db = Inr (res, db')" by (auto simp: run_done_def dest!: only_dbD)
  from connect_unique[OF u c] show ?thesis .
next
  case (DoSweep now timeout locked)
  with r u show ?thesis by (auto simp: run_done_def sweep_expired_sessions_def bindR_Inr_iff Let_def dest!: only_dbD split: if_splits prod.splits)
next
  case (DoClose now did sid gen token)
  with r show ?thesis by (auto simp: run_done_def close_session_def bindR_Inr_iff Let_def case_prod_unfold dest!: only_dbD)
next
  case (DoRevoke did now token)
  with r show ?thesis by (auto simp: run_done_def revoke_device_def bindR_Inr_iff Let_def dest!: only_dbD split: if_splits)
qed (use r in \<open>auto simp: run_done_def create_tenant_def create_pool_def create_access_point_def enroll_device_def reissue_device_token_def
      reinstate_device_def heartbeat_def bindR_Inr_iff Let_def dest!: only_dbD split: if_splits option.splits\<close>)

lemma done_inv:
  assumes g: "cloud_good db" and r: "run_done su q db = Inr db'"
  shows "cloud_inv {} db'"
proof (cases q)
  case (DoSweep now timeout locked)
  with r sweep_result[of db now timeout locked] g show ?thesis by (auto simp: run_done_def only_db_def cloud_good_def bindR_Inr_iff)
qed (use g r in \<open>auto simp: run_done_def cloud_good_def dest!: only_dbD dest: revoke_inv
    intro: create_tenant_inv create_pool_inv create_access_point_inv device_enroll_inv reissue_inv reinstate_inv connect_inv heartbeat_inv close_inv\<close>)

lemma done_le:
  assumes g: "cloud_good db" and r: "run_done su q db = Inr db'"
  shows "cloud_le db db'"
proof (cases q)
  case (DoSweep now timeout locked)
  with r sweep_result[of db now timeout locked] g show ?thesis by (auto simp: run_done_def only_db_def cloud_good_def bindR_Inr_iff)
qed (use g r in \<open>auto simp: run_done_def cloud_good_def create_tenant_def create_pool_def create_access_point_def enroll_device_def
    reissue_device_token_def reinstate_device_def bindR_Inr_iff Let_def cloud_le_same dest!: only_dbD
    intro: connect_le heartbeat_le lease_close_le revoke_le split: if_splits option.splits\<close>)

interpretation clouds: evolving_service "cloud_step su" cloud_good cloud_le for su
proof unfold_locales
  show "cloud_good (cloud_step su op db)" if "cloud_good db" for op db
    using that request_done[of su op db] done_inv done_unique by (fastforce simp: cloud_step_def cloud_good_def split: sum.split)
  show "cloud_le db (cloud_step su op db)" if "cloud_good db" for op db
    using that request_done[of su op db] done_le cloud_le_refl by (fastforce simp: cloud_step_def split: sum.split)
qed (auto intro: cloud_le_refl cloud_le_trans)

lemma reachable_good: "cloud_good (cloud_run su ops cloud_empty)"
  unfolding cloud_run_def by (rule clouds.inv_run) (simp add: cloud_good_def empty_inv, simp add: cloud_unique_def cloud_empty_def)

lemma cloud_run_le: "cloud_good db \<Longrightarrow> cloud_le db (cloud_run su ops db)"
  unfolding cloud_run_def by (rule clouds.le_run)

end
