(* ===== verification/Cloud_Properties.thy ===== *)
theory Cloud_Properties
  imports Cloud_History
begin

text \<open>
  The properties of the cloud gateway over all runs from the empty database, with witnesses on a sample
  run: a tenant with the pool 10.0.0.0/29, whose first host address is reserved, one access point for
  one session and two devices.
\<close>

section \<open>A sample run\<close>

definition cloud_sample :: cloud_setup where
  "cloud_sample = \<lparr>cs_hash = (\<lambda>s. s), cs_derive = (\<lambda>sid key. key)\<rparr>"

definition sample_root :: admin_principal where
  "sample_root = \<lparr>ad_tenant = None, ad_platform = True\<rparr>"

definition sample_env :: "int \<Rightarrow> string \<Rightarrow> connect_env" where
  "sample_env now token = \<lparr>ce_now = now, ce_token = token, ce_locked = []\<rparr>"

definition cloud_setup_ops :: "cloud_op list" where
  "cloud_setup_ops = [CreateTenant sample_root ''t'', CreatePool sample_root 1 ''p'' ''10.0.0.0/29'' [''10.0.0.1''],
     CreateAp sample_root 1 ''x'' 2 1, Enroll sample_root 1 ''d'' ''k1'', Enroll sample_root 1 ''e'' ''k2'']"

definition cloud_ops :: "cloud_op list" where
  "cloud_ops = cloud_setup_ops @ [Connect (sample_env 5 ''l1'') (Some ''k1'') 11 None, Connect (sample_env 6 ''l2'') (Some ''k1'') 11 None,
     Connect (sample_env 7 ''l3'') (Some ''k2'') 11 None]"

abbreviation base_cloud :: cloud where "base_cloud \<equiv> cloud_run cloud_sample cloud_setup_ops cloud_empty"
abbreviation busy_cloud :: cloud where "busy_cloud \<equiv> cloud_run cloud_sample cloud_ops cloud_empty"

lemma busy_sessions:
  "map (\<lambda>s. (ss_id s, active s, ss_generation s, ss_hash s)) (sessions busy_cloud) = [(14, False, 1, ''l1''), (15, True, 2, ''l2'')]"
  by code_simp

section \<open>Every run keeps leases and addresses in step\<close>



section \<open>What has ended stays ended\<close>

lemma filter_only: "distinct (map f xs) \<Longrightarrow> x \<in> set xs \<Longrightarrow> filter (\<lambda>y. f y = f x) xs = [x]"
  by (induction xs) (auto simp: filter_empty_conv dest: sym)

text \<open>The one termination of a closed session.\<close>

lemma closed_end:
  assumes "cloud_good db" "s \<in> set (sessions db)" "\<not> active s"
  shows "\<exists>t \<in> set (terminations db). filter (\<lambda>t. lt_session t = ss_id s) (terminations db) = [t]"
proof -
  from assms obtain t where t: "t \<in> set (terminations db)" "lt_session t = ss_id s"
    by (auto simp: cloud_good_def cloud_inv_def ends_ok_def)
  moreover have "distinct (map lt_session (terminations db))" using assms(1) by (simp add: cloud_good_def cloud_unique_def)
  ultimately show ?thesis using filter_only[of lt_session "terminations db" t] by auto
qed

text \<open>C39: a session that is closed never changes again, whatever requests follow: it keeps its one termination, with its reason
  and time, every heartbeat for it is refused and so cannot extend a successor, and closing it again changes nothing.\<close>

theorem ended_lease_is_final:
  assumes "db = cloud_run su ops cloud_empty" "s \<in> set (sessions db)" "\<not> active s" "db' = cloud_run su later db"
  shows "s \<in> set (sessions db') \<and>
    (\<exists>t. filter (\<lambda>t. lt_session t = ss_id s) (terminations db) = [t] \<and> filter (\<lambda>t. lt_session t = ss_id s) (terminations db') = [t]) \<and>
    (\<exists>e. heartbeat su now did (ss_id s) gen token db' = Inl e) \<and>
    close_session su now (ss_device s) (ss_id s) (ss_generation s) token db' \<in> {Inr (s, db'), Inl (LeaseError ''invalid_lease_token'' 403), Inl (LeaseError ''device_not_found'' 404)}"
proof -
  have g: "cloud_good db" unfolding assms(1) by (rule reachable_good)
  have le: "cloud_le db db'" unfolding assms(4) by (rule cloud_run_le[OF g])
  have g': "cloud_good db'" unfolding assms(4) cloud_run_def by (rule clouds.inv_run[OF g])
  then have u: "cloud_unique db'" and ids: "distinct (map ss_id (sessions db'))" by (simp_all add: cloud_good_def cloud_inv_def keys_ok_def)
  have s': "s \<in> set (sessions db')" using le assms(2,3) by (auto simp: cloud_le_def)
  from closed_end[OF g assms(2,3)] obtain t where t: "filter (\<lambda>t. lt_session t = ss_id s) (terminations db) = [t]" by blast
  from closed_end[OF g' s' assms(3)] obtain t' where t': "filter (\<lambda>t. lt_session t = ss_id s) (terminations db') = [t']" by blast
  from le obtain ts where "terminations db' = terminations db @ ts" by (auto simp: cloud_le_def)
  with t t' have "t' = t" by simp
  have row: "row_by ss_id (ss_id s) (sessions db') = Some s" by (rule row_by_unique[OF ids s']) simp
  have "heartbeat su now did (ss_id s) gen token db' \<noteq> Inr r" for r
    using own_generationD(1)[of su did "ss_id s" gen token db'] row assms(3) by (auto simp: heartbeat_def bindR_Inr_iff split: if_splits)
  then have "\<exists>e. heartbeat su now did (ss_id s) gen token db' = Inl e" by (cases "heartbeat su now did (ss_id s) gen token db'") auto
  moreover have "close_session su now (ss_device s) (ss_id s) (ss_generation s) token db' \<in>
      {Inr (s, db'), Inl (LeaseError ''invalid_lease_token'' 403), Inl (LeaseError ''device_not_found'' 404)}"
  proof (cases "row_by cd_id (ss_device s) (devices db')")
    case (Some d)
    then have "cd_id d = ss_device s" by (auto dest: row_by_SomeD)
    with Some row u assms(3) show ?thesis by (simp add: close_session_def own_generation_def session_of_def find_device_def cloud_commit_def)
  qed (simp add: close_session_def own_generation_def session_of_def find_device_def)
  ultimately show ?thesis using s' t t' \<open>t' = t\<close> by simp
qed

lemma ended_lease_is_final_witness:
  "\<exists>s e. s \<in> set (sessions (cloud_run cloud_sample [Connect (sample_env 8 ''l4'') (Some ''k1'') 11 None] busy_cloud)) \<and> \<not> active s \<and> ss_id s = 14 \<and>
     heartbeat cloud_sample 9 12 14 1 ''l1'' (cloud_run cloud_sample [Connect (sample_env 8 ''l4'') (Some ''k1'') 11 None] busy_cloud) = Inl e"
proof -
  have "(14, False) \<in> set (map (\<lambda>(i, a, g, h). (i, a)) (map (\<lambda>s. (ss_id s, active s, ss_generation s, ss_hash s)) (sessions busy_cloud)))"
    unfolding busy_sessions by simp
  then obtain s where s: "s \<in> set (sessions busy_cloud)" "\<not> active s" "ss_id s = 14" by auto
  from ended_lease_is_final[OF refl s(1,2) refl, where later = "[Connect (sample_env 8 ''l4'') (Some ''k1'') 11 None]"
      and did = 12 and now = 9 and gen = 1 and token = "''l1''"] s
  show ?thesis by metis
qed

section \<open>The sweep\<close>

text \<open>C40: in every reachable state the sweep succeeds, closes exactly the active sessions whose last heartbeat is older than the
  timeout and whose rows no other transaction holds, and returns their number; afterwards the other active sessions are the ones
  that remain.\<close>

theorem sweep_is_exact:
  assumes "db = cloud_run su ops cloud_empty" "cutoff = now - timeout * 1000000"
  shows "\<exists>db'. sweep_expired_sessions now timeout locked db =
      Inr (length (filter (\<lambda>s. active s \<and> ss_heartbeat_at s < cutoff \<and> ss_id s \<notin> set locked) (sessions db)), db') \<and>
    filter active (sessions db') = filter (\<lambda>s. active s \<and> (cutoff \<le> ss_heartbeat_at s \<or> ss_id s \<in> set locked)) (sessions db)"
proof -
  have g: "cloud_inv {} db" "cloud_unique db" using reachable_good[of su ops] assms(1) by (simp_all add: cloud_good_def)
  from sweep_result[OF g, of now timeout locked] obtain db' where
    d: "sweep_expired_sessions now timeout locked db = Inr (length (filter (stale cutoff locked) (sessions db)), db')"
      "active_rows db' = filter (\<lambda>t. \<not> stale cutoff locked t) (active_rows db)" unfolding assms(2) by blast
  have "filter (stale cutoff locked) (sessions db) = filter (\<lambda>s. active s \<and> ss_heartbeat_at s < cutoff \<and> ss_id s \<notin> set locked) (sessions db)"
    by (rule filter_cong) (auto simp: stale_def)
  moreover have "filter (\<lambda>t. \<not> stale cutoff locked t) (active_rows db) =
      filter (\<lambda>s. active s \<and> (cutoff \<le> ss_heartbeat_at s \<or> ss_id s \<in> set locked)) (sessions db)"
    unfolding active_rows_def filter_filter by (rule filter_cong) (auto simp: stale_def)
  ultimately show ?thesis using d by (auto simp: active_rows_def)
qed

lemma sweep_is_exact_witness:
  "\<exists>db'. sweep_expired_sessions 2000000 1 [] busy_cloud = Inr (1, db') \<and> filter active (sessions db') = []"
proof -
  have "map (\<lambda>s. (active s, ss_heartbeat_at s)) (sessions busy_cloud) = [(False, 5), (True, 6)]" by code_simp
  then obtain s t where "sessions busy_cloud = [s, t]" "\<not> active s" "active t" "ss_heartbeat_at t = 6" by (auto simp: map_eq_Cons_conv)
  then have "length (filter (\<lambda>s. active s \<and> ss_heartbeat_at s < 1000000 \<and> ss_id s \<notin> set []) (sessions busy_cloud)) = 1"
    "filter (\<lambda>s. active s \<and> (1000000 \<le> ss_heartbeat_at s \<or> ss_id s \<in> set [])) (sessions busy_cloud) = []" by simp_all
  moreover have "(1000000 :: int) = 2000000 - 1 * 1000000" by simp
  ultimately show ?thesis using sweep_is_exact[OF refl, where cutoff = 1000000 and now = 2000000 and timeout = 1 and locked = "[]" and su = cloud_sample and ops = cloud_ops] by simp
qed

section \<open>Connecting\<close>

lemma allocate_lowest:
  assumes "a \<in> set (addresses db)" "allocatable pool locked a"
  shows "\<exists>b. allocate_address pool locked db = Inr (b, db\<lparr>addresses := upd_by pa_id (pa_id b) allocate_row (addresses db)\<rparr>) \<and>
    b \<in> set (addresses db) \<and> allocatable pool locked b \<and>
    (\<forall>c \<in> set (addresses db). allocatable pool locked c \<longrightarrow> uint (pa_ip b) \<le> uint (pa_ip c))"
proof -
  let ?key = "\<lambda>a. uint (pa_ip a)" and ?free = "filter (allocatable pool locked) (addresses db)"
  have "a \<in> set (sort_key ?key ?free)" using assms by simp
  then obtain b bs where b: "sort_key ?key ?free = b # bs" by (cases "sort_key ?key ?free") auto
  have low: "sorted (map ?key (b # bs))" unfolding b[symmetric] by (rule sorted_sort_key)
  have all: "set (b # bs) = set ?free" unfolding b[symmetric] by simp
  then have "?key b \<le> ?key c" if "c \<in> set (addresses db)" "allocatable pool locked c" for c
    using low that by (cases "c = b") auto
  moreover have "b \<in> set ?free" using all by auto
  ultimately show ?thesis using b by (simp add: allocate_address_def)
qed

lemma release_old_unique:
  assumes "cloud_inv X db" "cloud_unique db" "old = active_session did db"
  shows "cloud_unique (release_old now old db)"
proof (cases old)
  case (Some s)
  then have "s \<in> set (active_rows db)" using active_session_Some assms(3) by auto
  from release_unique[OF assms(1) this assms(2)] Some show ?thesis by (simp add: release_old_def) (metis prod.collapse)
qed (use assms in \<open>simp add: release_old_def\<close>)

lemma release_old_rows: "map ss_device (sessions (release_old now old db)) = map ss_device (sessions db)"
  by (cases old) (simp_all add: release_old_def release_once_def session_close.upd_other_column close_row_def)

lemma filter_length_map: "length (filter (\<lambda>t. f t = k) xs) = length (filter (\<lambda>i. i = k) (map f xs))"
  by (simp add: filter_map comp_def)

lemma release_old_generation:
  assumes "cloud_inv X db" "old = active_session did' db"
  shows "next_generation did (release_old now old db) = int (length (filter (\<lambda>t. ss_device t = did) (sessions db))) + 1"
proof -
  let ?db = "release_old now old db"
  have "gens_ok ?db" using release_old_steps[OF assms] cloud_invD(5) by blast
  then have "map ss_generation (filter (\<lambda>t. ss_device t = did) (sessions ?db)) =
      map int [1..<Suc (length (filter (\<lambda>t. ss_device t = did) (sessions ?db)))]" by (simp add: gens_ok_def)
  from fold_max_upt[OF this] show ?thesis
    unfolding next_generation_def filter_length_map[of ss_device] release_old_rows by simp
qed

lemma insert_unique:
  assumes "cloud_unique db" "active s" "ss_device s \<notin> ss_device ` set (active_rows db)" "1 \<le> ss_generation s"
  shows "cloud_unique (db\<lparr>sessions := sessions db @ [s], next_key := n\<rparr>)"
  using assms by (simp add: cloud_unique_def active_rows_def)

lemma establish_succeeds:
  assumes g: "cloud_good db" and d: "cd_id d = did" "d \<in> set (devices db)" "\<not> cd_revoked d" and x: "x \<in> set (aps db)"
    and room: "int (length (other_sessions (cx_id x) did db)) < cx_capacity x"
    and a: "a \<in> set (addresses db)" "allocatable (cx_pool x) (ce_locked env) a"
  shows "\<exists>b s token db'. establish su env d x key (active_session did db) db =
      Inr (\<lparr>cr_session = s, cr_token = token, cr_reconnected = (active_session did db \<noteq> None), cr_reused = False\<rparr>, db') \<and>
    b \<in> set (addresses db) \<and> allocatable (cx_pool x) (ce_locked env) b \<and>
    (\<forall>c \<in> set (addresses db). allocatable (cx_pool x) (ce_locked env) c \<longrightarrow> uint (pa_ip b) \<le> uint (pa_ip c)) \<and>
    ss_device s = did \<and> ss_ap s = cx_id x \<and> ss_address s = pa_id b \<and> ss_ip s = pa_ip b \<and> active s \<and> ss_hash s = cs_hash su token \<and>
    ss_generation s = int (length (filter (\<lambda>t. ss_device t = did) (sessions db))) + 1 \<and>
    active_rows db' = filter (\<lambda>t. ss_device t \<noteq> did) (active_rows db) @ [s] \<and> devices db' = devices db \<and> cloud_good db'"
proof -
  have inv: "cloud_inv {} db" and u: "cloud_unique db" using g by (simp_all add: cloud_good_def)
  from allocate_lowest[OF a] obtain b db1 where al: "allocate_address (cx_pool x) (ce_locked env) db = Inr (b, db1)"
    and db1: "db1 = db\<lparr>addresses := upd_by pa_id (pa_id b) allocate_row (addresses db)\<rparr>"
    and b: "b \<in> set (addresses db)" "allocatable (cx_pool x) (ce_locked env) b"
      "\<forall>c \<in> set (addresses db). allocatable (cx_pool x) (ce_locked env) c \<longrightarrow> uint (pa_ip b) \<le> uint (pa_ip c)" by blast
  let ?old = "active_session did db" let ?db2 = "release_old (ce_now env) ?old db1"
  have "pa_status b = Free" using b(2) by (simp add: allocatable_def)
  from allocate_inv[OF inv b(1) this db1] have inv1: "cloud_inv {pa_id b} db1" .
  have u1: "cloud_unique db1" using u by (simp add: db1 cloud_unique_def address_allocate.upd_other_column allocate_row_def)
  have old: "?old = active_session did db1" by (simp add: active_session_def db1)
  have e: "active_rows ?db2 = filter (\<lambda>t. ss_device t \<noteq> did) (active_rows db)" "devices ?db2 = devices db"
    using establish_steps[OF inv al refl refl] by blast+
  obtain token s where ns: "new_session su env d (cx_id x) b key ?db2 = (token, s)" by (rule prod.exhaust)
  note f = new_session_fields[OF ns]
  have gen: "ss_generation s = int (length (filter (\<lambda>t. ss_device t = did) (sessions db))) + 1"
    using release_old_generation[OF inv1 old, of did "ce_now env"] by (simp add: f d db1)
  let ?db' = "?db2\<lparr>sessions := sessions ?db2 @ [s], next_key := next_key ?db2 + 1\<rparr>"
  have "cloud_unique ?db'" by (rule insert_unique) (use release_old_unique[OF inv1 u1 old] f(7) in \<open>auto simp: f(3) e(1) d(1) gen\<close>)
  moreover have "establish su env d x key ?old db = bindR (cloud_commit (LeaseError ''lease_conflict'' 409) ?db')
      (\<lambda>db'. Inr (\<lparr>cr_session = s, cr_token = token, cr_reconnected = (?old \<noteq> None), cr_reused = False\<rparr>, db'))"
    using room by (simp add: establish_eq al ns Let_def d(1))
  ultimately have "establish su env d x key ?old db =
      Inr (\<lparr>cr_session = s, cr_token = token, cr_reconnected = (?old \<noteq> None), cr_reused = False\<rparr>, ?db')" by (simp add: cloud_commit_def)
  moreover have "cloud_inv {} ?db'" by (rule inserted_inv[OF inv d(2,3) x _ al refl ns]) (use d(1) room in simp_all)
  moreover have "active_rows ?db' = filter (\<lambda>t. ss_device t \<noteq> did) (active_rows db) @ [s]" using e(1) f(7) by (simp add: active_rows_def)
  ultimately show ?thesis using b e(2) f(3-5,7-9) gen d(1) \<open>cloud_unique ?db'\<close> unfolding cloud_good_def
    by (intro exI[of _ b] exI[of _ s] exI[of _ token] exI[of _ ?db']) simp
qed

text \<open>The lease token of a session admits its heartbeat.\<close>

lemma beat_unique: "cloud_unique db \<Longrightarrow> cloud_unique (db\<lparr>sessions := upd_by ss_id sid (beat_row now) (sessions db)\<rparr>)"
  unfolding cloud_unique_def by (auto intro!: distinct_upd_filter list_all_upd simp: beat_row_def active_def)

lemma heartbeat_succeeds:
  assumes g: "cloud_good db" and s: "s \<in> set (active_rows db)" "ss_hash s = cs_hash su token"
  shows "\<exists>db'. heartbeat su now (ss_device s) (ss_id s) (ss_generation s) token db = Inr (beat_row now s, db')"
proof -
  have inv: "cloud_inv {} db" and u: "cloud_unique db" using g by (simp_all add: cloud_good_def)
  from s(1) cloud_invD(4)[OF inv] obtain d where d: "d \<in> set (devices db)" "cd_id d = ss_device s" unfolding owners_ok_def by blast
  have "row_by cd_id (ss_device s) (devices db) = Some d" "row_by ss_id (ss_id s) (sessions db) = Some s"
    using cloud_invD(1)[OF inv] d s(1) by (auto intro!: row_by_unique simp: keys_ok_def in_active_rows)
  then have "own_generation su (ss_device s) (ss_id s) (ss_generation s) token db = Inr s"
    using d(2) s(2) by (simp add: own_generation_def session_of_def find_device_def)
  then show ?thesis using s(1) beat_unique[OF u] by (simp add: heartbeat_def cloud_commit_def in_active_rows)
qed

text \<open>C38: in every reachable state, a device that is not revoked and asks for a new lease from an access point of its tenant with a
  free slot and a free address gets it: the lowest free address of the pool, the next generation number, and a lease token that
  its heartbeats are accepted with. Its previous session, if it had one, is no longer active, and no other device loses its own.\<close>

theorem connect_establishes:
  assumes "db = cloud_run su ops cloud_empty" "row_by cd_id did (devices db) = Some d" "\<not> cd_revoked d"
    and "row_by cx_id apid (aps db) = Some x" "cx_tenant x = cd_tenant d"
    and "\<forall>s. active_session did db = Some s \<longrightarrow> \<not> (truthy key \<and> ss_key s = key \<and> ss_ap s = apid)"
    and "int (length (other_sessions apid did db)) < cx_capacity x"
    and "a \<in> set (addresses db)" "allocatable (cx_pool x) (ce_locked env) a"
  shows "\<exists>r s db'. connect su env did apid key db = Inr (r, db') \<and> s = cr_session r \<and> \<not> cr_reused r \<and>
    filter active (sessions db') = filter (\<lambda>t. active t \<and> ss_device t \<noteq> did) (sessions db) @ [s] \<and>
    ss_device s = did \<and> ss_ap s = apid \<and> ss_generation s = int (length (filter (\<lambda>t. ss_device t = did) (sessions db))) + 1 \<and>
    (\<exists>b \<in> set (addresses db). allocatable (cx_pool x) (ce_locked env) b \<and> ss_address s = pa_id b \<and> ss_ip s = pa_ip b \<and>
       uint (pa_ip b) \<le> uint (pa_ip a)) \<and>
    (\<exists>db''. heartbeat su now did (ss_id s) (ss_generation s) (cr_token r) db' = Inr (beat_row now s, db''))"
proof -
  have g: "cloud_good db" unfolding assms(1) by (rule reachable_good)
  have d: "cd_id d = did" "d \<in> set (devices db)" and x: "x \<in> set (aps db)" "cx_id x = apid"
    using row_by_SomeD[OF assms(2)] row_by_SomeD[OF assms(4)] by simp_all
  have c: "connect su env did apid key db = establish su env d x key (active_session did db) db"
    using assms(2-6) by (auto simp: connect_def find_device_def split: option.split)
  from establish_succeeds[OF g d assms(3) x(1), where env = env and a = a and key = key and su = su] assms(7-9) x(2) obtain b s token db' where
    r: "establish su env d x key (active_session did db) db =
        Inr (\<lparr>cr_session = s, cr_token = token, cr_reconnected = (active_session did db \<noteq> None), cr_reused = False\<rparr>, db')"
      "b \<in> set (addresses db)" "allocatable (cx_pool x) (ce_locked env) b" "uint (pa_ip b) \<le> uint (pa_ip a)"
      "ss_device s = did" "ss_ap s = apid" "ss_address s = pa_id b" "ss_ip s = pa_ip b" "ss_hash s = cs_hash su token"
      "ss_generation s = int (length (filter (\<lambda>t. ss_device t = did) (sessions db))) + 1"
      "active_rows db' = filter (\<lambda>t. ss_device t \<noteq> did) (active_rows db) @ [s]" "cloud_good db'" by blast
  have "filter active (sessions db') = filter (\<lambda>t. active t \<and> ss_device t \<noteq> did) (sessions db) @ [s]"
    using r(11) unfolding active_rows_def filter_filter by (simp add: conj_commute)
  moreover have "\<exists>db''. heartbeat su now did (ss_id s) (ss_generation s) token db' = Inr (beat_row now s, db'')"
    using heartbeat_succeeds[OF r(12) _ r(9), of now] r(5,11) by simp
  ultimately show ?thesis using r(1-10) c
    by (intro exI[of _ "\<lparr>cr_session = s, cr_token = token, cr_reconnected = (active_session did db \<noteq> None), cr_reused = False\<rparr>"]
      exI[of _ s] exI[where x = db' and P = "\<lambda>db'. _ db' \<and> _ db'"] conjI bexI[of _ b]) simp_all
qed

lemma connect_establishes_witness:
  "\<exists>r db'. connect cloud_sample (sample_env 9 ''l9'') 12 11 None busy_cloud = Inr (r, db') \<and> ss_generation (cr_session r) = 3"
proof -
  have "case row_by cd_id 12 (devices busy_cloud) of None \<Rightarrow> False | Some d \<Rightarrow> \<not> cd_revoked d \<and> cd_tenant d = 1"
    "case row_by cx_id 11 (aps busy_cloud) of None \<Rightarrow> False | Some x \<Rightarrow> cx_tenant x = 1 \<and> cx_capacity x = 1 \<and> cx_pool x = 2"
    by code_simp+
  then obtain d x where d: "row_by cd_id 12 (devices busy_cloud) = Some d" "\<not> cd_revoked d" "cd_tenant d = 1"
    and x: "row_by cx_id 11 (aps busy_cloud) = Some x" "cx_tenant x = 1" "cx_capacity x = 1" "cx_pool x = 2" by (auto split: option.splits)
  have "list_ex (allocatable 2 []) (addresses busy_cloud)" by code_simp
  then obtain a where a: "a \<in> set (addresses busy_cloud)" "allocatable 2 [] a" by (auto simp: list_ex_iff)
  have n: "length (other_sessions 11 12 busy_cloud) = 0" "length (filter (\<lambda>t. ss_device t = 12) (sessions busy_cloud)) = 2" by code_simp+
  have "\<exists>r s db'. connect cloud_sample (sample_env 9 ''l9'') 12 11 None busy_cloud = Inr (r, db') \<and> s = cr_session r \<and>
      ss_generation s = int (length (filter (\<lambda>t. ss_device t = 12) (sessions busy_cloud))) + 1"
    using connect_establishes[OF refl d(1,2) x(1), where key = None and env = "sample_env 9 ''l9''" and a = a] d(3) x a n(1)
    by (fastforce simp: truthy_def sample_env_def)
  then show ?thesis unfolding n(2) by auto
qed

end
