(* ===== verification/Spec2Isabelle.thy ===== *)
theory Spec2Isabelle
  imports Ledger_Csv Lease_Recovery Flow_Phases Learn_Graph_Facts Learn_Properties Consent_Properties Cloud_Properties
begin

text \<open>
  Verification of the Python services of the repository. Each of the directories \<open>text*/a/app\<close> and
  \<open>text*/b/app\<close> is one FastAPI service over PostgreSQL. Six of them are modelled, each with its tables, its
  operations, its endpoints and its background work: the municipal fund ledger (\<open>text10/a\<close>), the access
  gateway in its two implementations (\<open>text12/a\<close> and \<open>text12/b\<close>, the cloud gateway), the approval workflow engine
  (\<open>text8/a\<close>), the training programs (\<open>text4/a\<close>) and the consent ledger (\<open>text6/a\<close>). The services share no code and do not call each other.

  \<^bold>\<open>How a service is modelled.\<close> A mapped class of \<open>models.py\<close> is a record, a table is the list of its rows, a
  database is one record of tables (\<open>ledger\<close>, \<open>gate\<close>, \<open>flow\<close>, \<open>learn\<close>, \<open>vault\<close>,
  \<open>cloud\<close>). A service function is a
  definition that takes the database and gives \<open>Inl\<close> of the raised error or \<open>Inr\<close> of the answer and the changed
  database; \<open>bindR\<close> is the sequence of statements, \<open>foldR\<close> a loop whose body may raise. A commit checks the
  unique and check constraints. A request is one transaction: an endpoint adds authentication, role and body
  checks, and the step function of the service (\<open>ledger_step\<close>, \<open>gate_step\<close>, \<open>flow_step\<close>, \<open>learn_step\<close>,
  \<open>vault_step\<close>, \<open>cloud_step\<close>) gives the database
  after it, an error leaving the database as it was. Runs are folds of the step function over arbitrary requests, which
  is how concurrent clients reach a database under the locks and the serialisable transactions of the code.
  Times, generated identifiers and tokens come with the request.

  \<^bold>\<open>Shared theories.\<close> \<open>Prelude\<close> holds results, tables and the contracts: \<open>row_update\<close> (an assignment
  keeps the key), \<open>service\<close> (steps keep an invariant), \<open>evolving_service\<close> (steps move forward in an order) and
  \<open>idempotent_request\<close> (a recorded request is answered from its record). They are interpreted on the model of
  every service. \<open>Py_Text\<close> is what the code uses of \<open>str\<close>.

  \<^bold>\<open>Fund ledger.\<close> \<open>Ledger_Model\<close>: \<open>models.py\<close>, \<open>schemas.py\<close>, \<open>security.py\<close>, \<open>errors.py\<close>. \<open>Ledger_Budgets\<close>:
  budgets, encumbrances, periods and reports. \<open>Ledger_Journals\<close>: posting and reversal. \<open>Ledger_Import\<close>: the CSV import with
  Python's \<open>Decimal\<close>. \<open>Ledger_Service\<close>: the requests and the step. \<open>Ledger_Invariants\<close> and \<open>Ledger_Posting\<close> give the
  effect of a posting in closed form and the invariant (balanced entries, encumbered totals backed by open
  encumbrances), \<open>Ledger_History\<close> the evolution order. \<open>Ledger_Properties\<close>, \<open>Ledger_Effects\<close>, \<open>Ledger_Requests\<close> and
  \<open>Ledger_Csv\<close> hold the properties.

  \<^bold>\<open>Access gateway.\<close> \<open>Addressing\<close> is \<open>addressing.py\<close> on 32-bit words with what it uses of \<open>ipaddress\<close>,
  \<open>Addressing_Facts\<close> and \<open>Addressing_Properties\<close> its theory. \<open>Lease_Model\<close>: tables, partial unique indexes,
  transactions that may commit before they raise. \<open>Lease_Service\<close>: \<open>lease_service.py\<close> under its retry loop, whose
  bound is \<open>MAX_RETRIES\<close> = 10 as in the code; what concurrent transactions do between attempts is an argument. \<open>Lease_Api\<close>:
  \<open>deps.py\<close> and the routers. \<open>Lease_Invariants\<close>, \<open>Lease_Steps\<close> and \<open>Lease_History\<close> prove that each request keeps the
  invariant (one active lease per device, one holder per address, capacities) and the evolution order.
  \<open>Lease_Properties\<close> and \<open>Lease_Recovery\<close> hold the properties.

  \<^bold>\<open>Cloud gateway.\<close> \<open>Cloud_Model\<close>: \<open>models.py\<close>, \<open>errors.py\<close> and \<open>networking.py\<close>, where every address of a pool is a row.
  \<open>Cloud_Leasing\<close>: \<open>leasing.py\<close>; its transactions hold the lock of the device to their end, so they are serial, and
  the rows that \<open>SKIP LOCKED\<close> passes over are an argument. \<open>Cloud_Api\<close>: \<open>service.py\<close>, \<open>deps.py\<close>, \<open>schemas.py\<close> and the routers of
  tenants and devices; the administrator comes decoded with the request. \<open>Cloud_Invariants\<close> and \<open>Cloud_Run\<close>: every operation keeps allocated
  addresses and active sessions in step. \<open>Cloud_History\<close>: closed sessions and terminations stay, and a release violates no constraint.
  \<open>Cloud_Properties\<close>: the properties.

  \<^bold>\<open>Workflow engine.\<close> \<open>Flow_Values\<close>: JSON values with Python's comparisons. \<open>Flow_Expr\<close>: \<open>expressions.py\<close> on the
  syntax tree; the parser is a parameter. \<open>Flow_Dsl\<close>: \<open>dsl.py\<close>. \<open>Flow_Model\<close>: \<open>models.py\<close>. \<open>Flow_Engine\<close> and
  \<open>Flow_Decide\<close>: \<open>engine.py\<close>, \<open>api.py\<close> and the escalation worker. \<open>Flow_Expr_Facts\<close> says what the white list admits,
  \<open>Flow_Graph\<close> and \<open>Flow_Dsl_Facts\<close> what the validation accepts, \<open>Flow_Activation\<close> that moving to the next approval
  ends. \<open>limit\<close> in \<open>Flow_Dsl\<close> and \<open>Flow_Engine\<close> is the number of nested calls that Python's recursion limit leaves; the search and
  the activation need at most as many as the definition has nodes. \<open>Flow_Evolution\<close>, \<open>Flow_Rest\<close> and
  \<open>Flow_Invariants\<close> carry the invariant over runs, \<open>Flow_Replay\<close> the idempotency records, \<open>Flow_Semantics\<close> and
  \<open>Flow_Escalation\<close> the effect of a decision and of an escalation, \<open>Flow_Phases\<close> the refinement of an abstract
  state machine of an instance. Properties stand in these theories and in \<open>Flow_Properties\<close>.

  \<^bold>\<open>Training programs.\<close> \<open>Learn_Model\<close>: tables, clock and users. \<open>Learn_Graph\<close>: \<open>services/graph.py\<close>; Kahn's loop gets as many
  turns as there are nodes, and each turn removes one, so it never stops early (\<open>Learn_Graph_Facts\<close>).
  \<open>Learn_Programs\<close>, \<open>Learn_Seats\<close>, \<open>Learn_Enroll\<close> and \<open>Learn_Progress\<close>: the services; the promotion loop gets as many turns as there
  are seats to give. \<open>Learn_Api\<close>: the routers. \<open>Learn_Queue\<close>, \<open>Learn_Promotion\<close> and \<open>Learn_Seating\<close> show that every seat
  operation keeps a course in order, \<open>Learn_Invariants\<close> and \<open>Learn_Requests\<close> that every request keeps the invariant,
  \<open>Learn_History\<close> what is never taken back, \<open>Learn_Properties\<close> the properties.

  \<^bold>\<open>Consent ledger.\<close> \<open>Consent_Model\<close>: \<open>models.py\<close>, \<open>errors.py\<close>, \<open>security.py\<close>. \<open>Consent_Write\<close>: purposes, policies, the write of
  an event and batches; \<open>Consent_Service\<close>: verification, history, erasure and the rebuild of \<open>services_rebuild.py\<close>; both are
  \<open>services.py\<close>. \<open>Consent_Api\<close>: \<open>auth.py\<close>, \<open>routers.py\<close>, \<open>management.py\<close>, \<open>schemas.py\<close>. The contract of the projection is that the state of a
  subject for a purpose is the replay of the stream of its events: \<open>Consent_Replay\<close> shows that a write does to a state
  what the replay does with its event and that the rebuild replays every stream, \<open>Consent_Invariants\<close> and \<open>Consent_Run\<close>
  carry the contract over all requests, \<open>Consent_Properties\<close> holds the properties. \<open>fresh_run\<close> is the hypothesis that the random salts of a run give
  every new subject a pseudonym that the history does not know. The collation of texts is the parameter \<open>rank\<close>.

  \<^bold>\<open>Not modelled.\<close> Start-up, settings, timers, connections and random numbers of each service; the database engine beyond
  constraints, transactions and the locks the code takes (column widths where no check of the code depends on them,
  foreign keys of the workflow tables, timestamps that nothing reads); messages of errors; text outside ASCII, \<open>NaN\<close> in JSON; the CSV form of the
  ledger's budget report. Identifiers of a database come from one increasing sequence where the code has one sequence per
  table; times have no upper bound. Hash functions, the parser of Python, \<open>csv.DictReader\<close> and the UTF-8 decoder are
  parameters. The administrator accounts of the cloud gateway, the second implementations of the other services (\<open>text*/b\<close>), the schema migrations, the scripts and the programs in other
  languages are left out; so are the two scheduling services (\<open>text2\<close>), which compute with the time zone
  database.
\<close>

end
